(* ===== verification/Prelude.thy ===== *)
theory Prelude
  imports Main "HOL-Library.Word" "HOL-Library.Monad_Syntax"
begin

text \<open>
  The vocabulary the other theories share.

  \<^item> \<open>u8\<close>, \<open>u16\<close>, \<open>u32\<close>, \<open>u64\<close> are Rust's unsigned integers of that width, \<open>bytes\<close> is
    a slice or an array of \<open>u8\<close>; a \<open>usize\<close> is a natural number (every value the code
    computes is bounded by the length of a buffer, a count of calls or a \<open>u32\<close>).
  \<^item> \<open>'a rust\<close> is the result of Rust code that may panic: \<open>None\<close> is the panic (an index or a
    slice out of range, \<open>unwrap\<close> of nothing, an arithmetic overflow with the overflow checks
    of the default profile, \<open>assert!\<close>, \<open>unreachable!\<close>). Rust's own \<open>Option\<close> and
    \<open>Result<T, E>\<close> are values inside it: \<open>'a option\<close> and \<open>'e + 'a\<close>, with \<open>Inl\<close> the error.
  \<^item> slice operations (\<open>s[a..b]\<close>, \<open>s.get(i)\<close>, \<open>s[..n].fill(v)\<close>, \<open>copy_from_slice\<close>,
    element-wise copy through \<open>zip\<close>) with the panics Rust gives them.
  \<^item> checked addition and subtraction on machine integers.
  \<^item> bit fields of a byte string: \<open>field\<close> reads the bits \<open>lsb..msb\<close> in the order in which bit
    0 is the least significant bit of byte 0, \<open>set_field\<close> writes them; \<open>field_msb0\<close> and
    \<open>set_field_msb0\<close> number the bits of a byte from its most significant one.
    The laws that connect them carry every proof about frames and registers.
\<close>

unbundle bit_operations_syntax

type_synonym u8 = "8 word"
type_synonym u16 = "16 word"
type_synonym u32 = "32 word"
type_synonym u64 = "64 word"
type_synonym bytes = "8 word list"

type_synonym 'a rust = "'a option"

abbreviation (input) panic :: "'a rust" where
  "panic \<equiv> None"

abbreviation (input) ret :: "'a \<Rightarrow> 'a rust" where
  "ret x \<equiv> Some x"

definition assert :: "bool \<Rightarrow> unit rust" where
  "assert b = (if b then ret () else panic)"

named_theorems rust_simps \<open>evaluation of the Rust primitives\<close>
named_theorems field_simps_bytes \<open>reading and writing bit fields of byte strings\<close>

section \<open>Slices\<close>

definition slice_from :: "nat \<Rightarrow> 'a list \<Rightarrow> 'a list rust" where
  "slice_from a xs = (if a \<le> length xs then ret (drop a xs) else panic)"

definition slice_to :: "nat \<Rightarrow> 'a list \<Rightarrow> 'a list rust" where
  "slice_to b xs = (if b \<le> length xs then ret (take b xs) else panic)"

definition slice :: "nat \<Rightarrow> nat \<Rightarrow> 'a list \<Rightarrow> 'a list rust" where
  "slice a b xs = (if a \<le> b \<and> b \<le> length xs then ret (take (b - a) (drop a xs)) else panic)"

text \<open>\<open>get\<close> is Rust's checked access (an \<open>Option\<close>); \<open>index\<close> is \<open>xs[i]\<close>, whose \<open>None\<close> is a panic.\<close>

definition get :: "'a list \<Rightarrow> nat \<Rightarrow> 'a option" where
  "get xs i = (if i < length xs then Some (xs ! i) else None)"

definition index :: "'a list \<Rightarrow> nat \<Rightarrow> 'a rust" where
  "index xs i = (if i < length xs then ret (xs ! i) else panic)"

definition store :: "'a list \<Rightarrow> nat \<Rightarrow> 'a \<Rightarrow> 'a list rust" where
  "store xs i v = (if i < length xs then ret (xs[i := v]) else panic)"

definition fill_to :: "nat \<Rightarrow> 'a \<Rightarrow> 'a list \<Rightarrow> 'a list rust" where
  "fill_to n v xs = (if n \<le> length xs then ret (replicate n v @ drop n xs) else panic)"

text \<open>\<open>xs[a..a + ys.len()].copy_from_slice(ys)\<close>.\<close>

definition write_at :: "nat \<Rightarrow> 'a list \<Rightarrow> 'a list \<Rightarrow> 'a list rust" where
  "write_at a ys xs =
     (if a + length ys \<le> length xs then ret (take a xs @ ys @ drop (a + length ys) xs) else panic)"

text \<open>\<open>dst.iter_mut().zip(src).for_each(|(d, s)| *d = *s)\<close>: as far as the shorter one goes.\<close>

definition copy_zip :: "'a list \<Rightarrow> 'a list \<Rightarrow> 'a list" where
  "copy_zip dst src = take (length dst) src @ drop (length src) dst"

text \<open>A mutation of the tail \<open>&mut xs[a..]\<close>.\<close>

definition update_from :: "nat \<Rightarrow> ('a list \<Rightarrow> 'a list rust) \<Rightarrow> 'a list \<Rightarrow> 'a list rust" where
  "update_from a f xs = do {
     ys \<leftarrow> slice_from a xs;
     ys' \<leftarrow> f ys;
     ret (take a xs @ ys') }"

lemmas [rust_simps] = assert_def slice_from_def slice_to_def slice_def get_def index_def store_def
  fill_to_def write_at_def update_from_def

lemma length_copy_zip [simp]: "length (copy_zip dst src) = length dst"
  by (simp add: copy_zip_def)

lemma copy_zip_exact: "length src = length dst \<Longrightarrow> copy_zip dst src = src"
  by (simp add: copy_zip_def)

lemma copy_zip_Nil [simp]: "copy_zip dst [] = dst" "copy_zip [] src = []"
  by (simp_all add: copy_zip_def)

lemma copy_zip_short: "length src \<le> length dst \<Longrightarrow> copy_zip dst src = src @ drop (length src) dst"
  by (simp add: copy_zip_def)

lemma take_copy_zip: "length src \<le> length dst \<Longrightarrow> take (length src) (copy_zip dst src) = src"
  by (simp add: copy_zip_def)

lemma fill_to_length: "fill_to n v xs = Some ys \<Longrightarrow> length ys = length xs"
  by (auto simp: fill_to_def split: if_splits)

lemma write_at_append:
  "length xs = a \<Longrightarrow> length ys = length zs \<Longrightarrow> write_at a ys (xs @ zs @ ws) = Some (xs @ ys @ ws)"
  by (simp add: write_at_def)

lemma write_at_length: "write_at a ys xs = Some zs \<Longrightarrow> length zs = length xs"
  by (auto simp: write_at_def split: if_splits)

lemma update_from_append:
  "length xs = a \<Longrightarrow> update_from a f (xs @ ys) = map_option ((@) xs) (f ys)"
  by (cases "f ys") (auto simp: update_from_def slice_from_def)

section \<open>Checked arithmetic\<close>

definition uadd :: "'a::len word \<Rightarrow> 'a word \<Rightarrow> 'a word rust" where
  "uadd a b = (if unat a + unat b < 2 ^ LENGTH('a) then ret (a + b) else panic)"

definition usub :: "'a::len word \<Rightarrow> 'a word \<Rightarrow> 'a word rust" where
  "usub a b = (if b \<le> a then ret (a - b) else panic)"

definition umul :: "'a::len word \<Rightarrow> 'a word \<Rightarrow> 'a word rust" where
  "umul a b = (if unat a * unat b < 2 ^ LENGTH('a) then ret (a * b) else panic)"

text \<open>Subtraction on \<open>usize\<close>.\<close>

definition nsub :: "nat \<Rightarrow> nat \<Rightarrow> nat rust" where
  "nsub a b = (if b \<le> a then ret (a - b) else panic)"

text \<open>Shifts; the amount has to be less than the width.\<close>

definition ushl :: "'a::len word \<Rightarrow> nat \<Rightarrow> 'a word rust" where
  "ushl a n = (if n < LENGTH('a) then ret (push_bit n a) else panic)"

definition ushr :: "'a::len word \<Rightarrow> nat \<Rightarrow> 'a word rust" where
  "ushr a n = (if n < LENGTH('a) then ret (drop_bit n a) else panic)"

lemma uadd_Some: "uadd a b = Some c \<Longrightarrow> unat c = unat a + unat b"
  by (auto simp: uadd_def unat_word_ariths split: if_splits)

lemma usub_Some: "usub a b = Some c \<Longrightarrow> unat c = unat a - unat b"
  by (auto simp: usub_def unat_sub split: if_splits)

lemmas [rust_simps] = nsub_def ushl_def ushr_def

section \<open>Loops over a list\<close>

fun for_each :: "('s \<Rightarrow> 'a \<Rightarrow> 's rust) \<Rightarrow> 's \<Rightarrow> 'a list \<Rightarrow> 's rust" where
  "for_each f s [] = ret s"
| "for_each f s (x # xs) = do { s \<leftarrow> f s x; for_each f s xs }"

text \<open>A loop that rewrites one element per step, each from its own old value.\<close>

lemma for_each_store:
  assumes "distinct is" and "\<forall>i \<in> set is. a + i < length s"
    and "\<And>s' i. i \<in> set is \<Longrightarrow> length s' = length s \<Longrightarrow>
      f s' i = Some (s'[a + i := g i (s' ! (a + i))])"
  shows "\<exists>s'. for_each f s is = Some s' \<and> length s' = length s \<and>
    (\<forall>j < length s. s' ! j = (if a \<le> j \<and> j - a \<in> set is then g (j - a) (s ! j) else s ! j))"
  using assms
proof (induction "is" arbitrary: s)
  case (Cons i "is")
  let ?s = "s[a + i := g i (s ! (a + i))]"
  have "\<exists>s'. for_each f ?s is = Some s' \<and> length s' = length ?s \<and>
    (\<forall>j < length ?s. s' ! j = (if a \<le> j \<and> j - a \<in> set is then g (j - a) (?s ! j) else ?s ! j))"
    using Cons.prems by (intro Cons.IH) auto
  then obtain s' where s': "for_each f ?s is = Some s'" "length s' = length s"
    "\<And>j. j < length s \<Longrightarrow>
       s' ! j = (if a \<le> j \<and> j - a \<in> set is then g (j - a) (?s ! j) else ?s ! j)"
    by auto
  have "s' ! j = (if a \<le> j \<and> j - a \<in> set (i # is) then g (j - a) (s ! j) else s ! j)"
    if j: "j < length s" for j
    using s'(3) [OF j] j Cons.prems(1,2) by (cases "j = a + i") auto
  with s'(1,2) Cons.prems(3) [of i s] show ?case by auto
qed simp

text \<open>\<open>saturating_add\<close> on \<open>usize\<close>, at the 64 bits of the platform.\<close>

definition usize_max :: nat where
  "usize_max = 2 ^ 64 - 1"

definition saturating_add :: "nat \<Rightarrow> nat \<Rightarrow> nat" where
  "saturating_add a b = min (a + b) usize_max"

section \<open>Little-endian integers\<close>

fun from_le_bytes :: "bytes \<Rightarrow> nat" where
  "from_le_bytes [] = 0"
| "from_le_bytes (b # bs) = unat b + 256 * from_le_bytes bs"

fun to_le_bytes :: "nat \<Rightarrow> nat \<Rightarrow> bytes" where
  "to_le_bytes 0 v = []"
| "to_le_bytes (Suc n) v = of_nat (v mod 256) # to_le_bytes n (v div 256)"

lemma length_to_le_bytes [simp]: "length (to_le_bytes n v) = n"
  by (induction n arbitrary: v) auto

lemma from_le_to_le: "from_le_bytes (to_le_bytes n v) = v mod 256 ^ n"
proof (induction n arbitrary: v)
  case (Suc n)
  have "unat (of_nat (v mod 256) :: u8) = v mod 256"
    by (simp add: unat_of_nat)
  then show ?case
    by (simp add: Suc.IH mod_mult2_eq)
qed simp

lemma from_le_bytes_less: "from_le_bytes bs < 256 ^ length bs"
proof (induction bs)
  case (Cons b bs)
  have "unat b < 256"
    using unsigned_less [of b, where ?'a = nat] by simp
  then show ?case
    using Cons.IH by simp
qed simp

section \<open>Bit fields of byte strings\<close>

definition bit_at :: "bytes \<Rightarrow> nat \<Rightarrow> bool" where
  "bit_at d i = bit (d ! (i div 8)) (i mod 8)"

definition bit_at_msb0 :: "bytes \<Rightarrow> nat \<Rightarrow> bool" where
  "bit_at_msb0 d i = bit (d ! (i div 8)) (7 - i mod 8)"

definition of_bits :: "bool list \<Rightarrow> nat" where
  "of_bits bs = horner_sum of_bool 2 bs"

definition byte_of :: "(nat \<Rightarrow> bool) \<Rightarrow> u8" where
  "byte_of f = horner_sum of_bool 2 (map f [0..<8])"

definition field :: "bytes \<Rightarrow> nat \<Rightarrow> nat \<Rightarrow> nat" where
  "field d msb lsb = of_bits (map (bit_at d) [lsb..<Suc msb])"

definition set_field :: "bytes \<Rightarrow> nat \<Rightarrow> nat \<Rightarrow> nat \<Rightarrow> bytes" where
  "set_field d msb lsb v =
     map (\<lambda>j. if msb < 8 * j \<or> 8 * j + 8 \<le> lsb then d ! j
              else byte_of (\<lambda>k. let i = 8 * j + k in
                             if lsb \<le> i \<and> i \<le> msb then bit v (i - lsb) else bit (d ! j) k))
       [0..<length d]"

definition field_msb0 :: "bytes \<Rightarrow> nat \<Rightarrow> nat \<Rightarrow> nat" where
  "field_msb0 d msb lsb = of_bits (rev (map (bit_at_msb0 d) [lsb..<Suc msb]))"

definition set_field_msb0 :: "bytes \<Rightarrow> nat \<Rightarrow> nat \<Rightarrow> nat \<Rightarrow> bytes" where
  "set_field_msb0 d msb lsb v =
     map (\<lambda>j. if msb < 8 * j \<or> 8 * j + 8 \<le> lsb then d ! j
              else byte_of (\<lambda>k. let i = 8 * j + (7 - k) in
                             if lsb \<le> i \<and> i \<le> msb then bit v (msb - i) else bit (d ! j) k))
       [0..<length d]"

lemma bit_of_bits: "bit (of_bits bs) n \<longleftrightarrow> n < length bs \<and> bs ! n"
  by (simp add: of_bits_def bit_horner_sum_bit_iff)

lemma of_bits_less: "of_bits bs < 2 ^ length bs"
  unfolding of_bits_def
  by (induction bs) auto

lemma bit_byte_of: "bit (byte_of f) k \<longleftrightarrow> k < 8 \<and> f k"
  by (auto simp: byte_of_def bit_horner_sum_bit_word_iff simp del: upt_rec_numeral)

lemma length_set_field [simp]: "length (set_field d m l v) = length d"
  by (simp add: set_field_def)

lemma length_set_field_msb0 [simp]: "length (set_field_msb0 d m l v) = length d"
  by (simp add: set_field_msb0_def)

lemma bit_at_set_field:
  assumes "i < 8 * length d"
  shows "bit_at (set_field d m l v) i = (if l \<le> i \<and> i \<le> m then bit v (i - l) else bit_at d i)"
proof -
  have j: "i div 8 < length d" and k: "i mod 8 < 8" and e: "8 * (i div 8) + i mod 8 = i"
    using assms by auto
  show ?thesis
    using j k by (auto simp: bit_at_def set_field_def bit_byte_of e Let_def)
qed

lemma bit_at_msb0_set_field_msb0:
  assumes "i < 8 * length d"
  shows "bit_at_msb0 (set_field_msb0 d m l v) i =
    (if l \<le> i \<and> i \<le> m then bit v (m - i) else bit_at_msb0 d i)"
proof -
  have j: "i div 8 < length d" and e: "8 * (i div 8) + (7 - (7 - i mod 8)) = i"
    using assms by auto
  show ?thesis
    using j by (auto simp: bit_at_msb0_def set_field_msb0_def bit_byte_of e Let_def)
qed

text \<open>Two byte strings of the same length with the same bits are equal.\<close>

lemma bytes_eqI:
  assumes len: "length d = length d'"
    and bits: "\<And>i. i < 8 * length d \<Longrightarrow> bit_at d i = bit_at d' i"
  shows "d = d'"
proof (rule nth_equalityI [OF len])
  fix j assume j: "j < length d"
  have "bit (d ! j) k = bit (d' ! j) k" if k: "k < 8" for k
    using bits [of "8 * j + k"] j k by (simp add: bit_at_def)
  then show "d ! j = d' ! j"
    by (intro bit_word_eqI) simp
qed

lemma bytes_eqI_msb0:
  assumes len: "length d = length d'"
    and bits: "\<And>i. i < 8 * length d \<Longrightarrow> bit_at_msb0 d i = bit_at_msb0 d' i"
  shows "d = d'"
proof (rule nth_equalityI [OF len])
  fix j assume j: "j < length d"
  have "bit (d ! j) k = bit (d' ! j) k" if k: "k < 8" for k
  proof -
    define m where "m = 7 - k"
    then have m: "m < 8" "k = 7 - m"
      using k by auto
    have "bit_at_msb0 d (8 * j + m) = bit_at_msb0 d' (8 * j + m)"
      using j m by (intro bits) simp
    with m show ?thesis by (simp add: bit_at_msb0_def)
  qed
  then show "d ! j = d' ! j"
    by (intro bit_word_eqI) simp
qed

lemma bit_field: "bit (field d m l) k \<longleftrightarrow> k < Suc m - l \<and> bit_at d (l + k)"
  by (auto simp: field_def bit_of_bits nth_append simp del: upt_Suc)

lemma bit_field_msb0: "bit (field_msb0 d m l) k \<longleftrightarrow> l \<le> m \<and> k \<le> m - l \<and> bit_at_msb0 d (m - k)"
  by (auto simp: field_msb0_def bit_of_bits rev_nth simp del: upt_Suc)

lemma field_less: "field d m l < 2 ^ (Suc m - l)"
proof -
  have "field d m l < 2 ^ length (map (bit_at d) [l..<Suc m])"
    unfolding field_def by (rule of_bits_less)
  then show ?thesis
    by (simp del: upt_Suc)
qed

lemma field_cong:
  "(\<And>i. l \<le> i \<Longrightarrow> i \<le> m \<Longrightarrow> bit_at d i = bit_at d' i) \<Longrightarrow> field d m l = field d' m l"
  by (rule bit_eqI) (auto simp: bit_field)

lemma field_set_field_same [field_simps_bytes]:
  "m < 8 * length d \<Longrightarrow> field (set_field d m l v) m l = take_bit (Suc m - l) v"
  by (rule bit_eqI) (auto simp: bit_field bit_at_set_field bit_take_bit_iff split: if_splits)

lemma field_set_field_other [field_simps_bytes]:
  "m < 8 * length d \<Longrightarrow> m < l' \<or> m' < l \<Longrightarrow> field (set_field d m' l' v) m l = field d m l"
  by (rule field_cong) (auto simp: bit_at_set_field)

lemma field_msb0_set_field_msb0_same [field_simps_bytes]:
  "l \<le> m \<Longrightarrow> m < 8 * length d \<Longrightarrow>
     field_msb0 (set_field_msb0 d m l v) m l = take_bit (Suc m - l) v"
  by (rule bit_eqI) (auto simp: bit_field_msb0 bit_at_msb0_set_field_msb0 bit_take_bit_iff)

lemma field_msb0_set_field_msb0_other [field_simps_bytes]:
  "l \<le> m \<Longrightarrow> m < 8 * length d \<Longrightarrow> m < l' \<or> m' < l \<Longrightarrow>
     field_msb0 (set_field_msb0 d m' l' v) m l = field_msb0 d m l"
  by (rule bit_eqI) (auto simp: bit_field_msb0 bit_at_msb0_set_field_msb0)

text \<open>A field lies in the prefix that holds its last bit, and moves with the bytes before it.\<close>

lemma bit_at_append1: "i < 8 * length xs \<Longrightarrow> bit_at (xs @ ys) i = bit_at xs i"
proof -
  assume "i < 8 * length xs"
  then have "i div 8 < length xs" by auto
  then show ?thesis by (simp add: bit_at_def nth_append)
qed

lemma field_append [field_simps_bytes]:
  "m < 8 * length xs \<Longrightarrow> field (xs @ ys) m l = field xs m l"
  by (rule field_cong) (simp add: bit_at_append1)

lemma set_field_append [field_simps_bytes]:
  assumes "m < 8 * length xs"
  shows "set_field (xs @ ys) m l v = set_field xs m l v @ ys"
proof (rule bytes_eqI)
  show "length (set_field (xs @ ys) m l v) = length (set_field xs m l v @ ys)"
    by simp
  fix i assume i: "i < 8 * length (set_field (xs @ ys) m l v)"
  then have i': "i < 8 * length (xs @ ys)" by simp
  show "bit_at (set_field (xs @ ys) m l v) i = bit_at (set_field xs m l v @ ys) i"
  proof (cases "i < 8 * length xs")
    case True
    with i' show ?thesis
      by (simp add: bit_at_set_field bit_at_append1 del: length_append)
  next
    case False
    then have "length xs \<le> i div 8" by auto
    then have "bit_at (set_field xs m l v @ ys) i = bit_at (xs @ ys) i"
      by (simp add: bit_at_def nth_append)
    with False assms i' show ?thesis
      by (simp add: bit_at_set_field del: length_append)
  qed
qed

lemma set_field_msb0_append [field_simps_bytes]:
  "m < 8 * length xs \<Longrightarrow> set_field_msb0 (xs @ ys) m l v = set_field_msb0 xs m l v @ ys"
  by (rule nth_equalityI) (auto simp: set_field_msb0_def nth_append Let_def)

lemma field_replicate0 [field_simps_bytes]:
  "m < 8 * n \<Longrightarrow> field (replicate n 0) m l = 0"
proof (rule bit_eqI)
  fix k assume m: "m < 8 * n"
  have "\<not> bit_at (replicate n 0) (l + k)" if "k < Suc m - l"
  proof -
    have "(l + k) div 8 < n" using that m by auto
    then show ?thesis by (simp add: bit_at_def)
  qed
  then show "bit (field (replicate n 0) m l) k = bit 0 k"
    by (auto simp: bit_field)
qed

lemma field_byte [field_simps_bytes]:
  "n < length d \<Longrightarrow> field d (8 * n + 7) (8 * n) = unat (d ! n)"
proof (rule bit_eqI)
  fix k assume "n < length d"
  show "bit (field d (8 * n + 7) (8 * n)) k = bit (unat (d ! n)) k"
    by (cases "k < 8") (auto simp: bit_field bit_at_def bit_unsigned_iff dest: bit_imp_le_length)
qed

lemma unat_of_nat_field:
  assumes "Suc m - l \<le> LENGTH('a::len)"
  shows "unat (of_nat (field d m l) :: 'a word) = field d m l"
proof -
  have "field d m l < 2 ^ LENGTH('a)"
    by (rule less_le_trans [OF field_less]) (simp add: assms)
  then show ?thesis by (simp add: unat_of_nat)
qed

lemma take_bit_unat: "LENGTH('a) \<le> n \<Longrightarrow> take_bit n (unat (w :: 'a::len word)) = unat w"
  by (meson le_less_trans less_exp order_less_le_trans power_increasing take_bit_nat_eq_self
    unsigned_less one_le_numeral)

lemma set_field_Nil [simp]: "set_field d m l v = [] \<longleftrightarrow> d = []"
  by (simp add: set_field_def)

lemma bit_from_le_bytes: "bit (from_le_bytes d) i \<longleftrightarrow> i < 8 * length d \<and> bit_at d i"
proof (induction d arbitrary: i)
  case (Cons b bs)
  have lt: "unat b < 2 ^ 8" using unsigned_less [of b, where ?'a = nat] by simp
  have nb: "\<not> bit (unat b) n" if "8 \<le> n" for n
    using that by (auto simp: bit_unsigned_iff dest: bit_imp_le_length)
  have "unat b + push_bit 8 (from_le_bytes bs) = unat b OR push_bit 8 (from_le_bytes bs)"
    by (rule disjunctive_add) (metis bit_push_bit_iff_nat nb)
  then have "from_le_bytes (b # bs) = unat b OR push_bit 8 (from_le_bytes bs)"
    by (simp add: push_bit_eq_mult mult.commute)
  then have "bit (from_le_bytes (b # bs)) i \<longleftrightarrow> bit (unat b) i \<or> 8 \<le> i \<and> bit (from_le_bytes bs) (i - 8)"
    by (simp add: bit_or_iff bit_push_bit_iff_nat)
  also have "\<dots> \<longleftrightarrow> i < 8 * length (b # bs) \<and> bit_at (b # bs) i"
  proof (cases "i < 8")
    case True
    then show ?thesis by (auto simp: bit_at_def bit_unsigned_iff)
  next
    case False
    then obtain k where "i = 8 + k" by (metis le_Suc_ex not_less)
    moreover have "(8 + k) div 8 = Suc (k div 8)" by simp
    ultimately show ?thesis using nb by (simp add: Cons.IH bit_at_def)
  qed
  finally show ?case .
qed simp

lemma from_le_bytes_field: "d \<noteq> [] \<Longrightarrow> from_le_bytes d = field d (8 * length d - 1) 0"
  by (rule bit_eqI) (auto simp: bit_from_le_bytes bit_field)
end
