(* ===== verification/Index_Set.thy ===== *)
theory Index_Set
  imports Prelude
begin

text \<open>
  \<open>src/src/util.rs\<close>: the fixed-capacity slab \<open>IndexSet<H, T, N>\<close> that holds the sockets. The
  array of \<open>N\<close> slots is a list; a free slot holds the index of the next free one. A handle is
  its \<open>usize\<close>.

  The free slots form a list that starts at \<open>free_index\<close> (\<open>free_path\<close>); \<open>index_set_inv\<close> says
  that this list has no duplicates and holds exactly the free slots. From it the slab behaves
  as a finite map from handles to items with a capacity: the locale \<open>handle_store\<close> is that
  contract, and the interpretation proves it for the operations below. In particular the
  \<open>unreachable!()\<close> of \<open>add_item\<close> is never reached.
\<close>

datatype 'a IndexOption = NextFreeIndex nat | Exist 'a

record 'a IndexSet =
  free_index :: nat
  items :: "'a IndexOption list"

section \<open>Operations\<close>

definition const_max :: "nat \<Rightarrow> nat \<Rightarrow> nat" where
  "const_max a b = (if a > b then a else b)"

definition index_set_new :: "nat \<Rightarrow> 'a IndexSet" where
  "index_set_new N = \<lparr>free_index = 0, items = map (\<lambda>i. NextFreeIndex (i + 1)) [0..<N]\<rparr>"

definition add_item :: "'a IndexSet \<Rightarrow> 'a \<Rightarrow> (('a + nat) \<times> 'a IndexSet) rust" where
  "add_item s item =
     (let i = free_index s in
      case get (items s) i of
        Some option \<Rightarrow>
          (case option of
             NextFreeIndex n \<Rightarrow>
               ret (Inr i, s\<lparr>free_index := n, items := (items s)[i := Exist item]\<rparr>)
           | Exist _ \<Rightarrow> panic)
      | None \<Rightarrow> ret (Inl item, s))"

definition remove_item :: "'a IndexSet \<Rightarrow> nat \<Rightarrow> 'a option \<times> 'a IndexSet" where
  "remove_item s i =
     (case get (items s) i of
        Some (Exist item) \<Rightarrow>
          (Some item, s\<lparr>free_index := i, items := (items s)[i := NextFreeIndex (free_index s)]\<rparr>)
      | Some (NextFreeIndex _) \<Rightarrow> (None, s)
      | None \<Rightarrow> (None, s))"

definition get_item :: "'a IndexSet \<Rightarrow> nat \<Rightarrow> 'a option" where
  "get_item s i = (case get (items s) i of Some (Exist item) \<Rightarrow> Some item | _ \<Rightarrow> None)"

text \<open>
  \<open>get_item_mut\<close> hands out a mutable reference; what the caller stores through it is the
  second argument.
\<close>

definition get_item_mut :: "'a IndexSet \<Rightarrow> nat \<Rightarrow> 'a \<Rightarrow> 'a IndexSet option" where
  "get_item_mut s i item' =
     (case get (items s) i of
        Some (Exist _) \<Rightarrow> Some (s\<lparr>items := (items s)[i := Exist item']\<rparr>)
      | _ \<Rightarrow> None)"

text \<open>The iterators \<open>items()\<close> and \<open>items_mut()\<close> visit the occupied slots in order.\<close>

definition items_list :: "'a IndexSet \<Rightarrow> 'a list" where
  "items_list s =
     List.map_filter (\<lambda>opt. case opt of Exist item \<Rightarrow> Some item | NextFreeIndex _ \<Rightarrow> None) (items s)"

section \<open>The free list\<close>

primrec free_path :: "'a IndexOption list \<Rightarrow> nat \<Rightarrow> nat list \<Rightarrow> bool" where
  "free_path its i [] = (length its \<le> i)"
| "free_path its i (j # js) =
     (i = j \<and> j < length its \<and>
      (case its ! j of NextFreeIndex n \<Rightarrow> free_path its n js | Exist _ \<Rightarrow> False))"

definition free_slots :: "'a IndexOption list \<Rightarrow> nat set" where
  "free_slots its = {i. i < length its \<and> (case its ! i of NextFreeIndex _ \<Rightarrow> True | Exist _ \<Rightarrow> False)}"

definition index_set_inv :: "'a IndexSet \<Rightarrow> bool" where
  "index_set_inv s \<longleftrightarrow>
     (\<exists>fs. free_path (items s) (free_index s) fs \<and> distinct fs \<and> set fs = free_slots (items s))"

lemma free_path_update:
  "k \<notin> set js \<Longrightarrow> free_path (its[k := x]) i js = free_path its i js"
  by (induction js arbitrary: i) (auto split: IndexOption.splits)

lemma get_item_Some_iff: "get_item s i = Some x \<longleftrightarrow> i < length (items s) \<and> items s ! i = Exist x"
  by (auto simp: get_item_def get_def split: IndexOption.splits)

lemma dom_get_item: "dom (get_item s) = {..<length (items s)} - free_slots (items s)"
  by (auto simp: dom_def get_item_Some_iff free_slots_def split: IndexOption.splits)

lemma card_dom_get_item:
  assumes "free_path (items s) i fs" and "distinct fs" and "set fs = free_slots (items s)"
  shows "card (dom (get_item s)) + length fs = length (items s)"
proof -
  have sub: "free_slots (items s) \<subseteq> {..<length (items s)}"
    by (auto simp: free_slots_def)
  have "card (free_slots (items s)) = length fs"
    using assms(2,3) by (metis distinct_card)
  moreover have "card (free_slots (items s)) \<le> length (items s)"
    using card_mono [OF _ sub] by simp
  ultimately show ?thesis
    using sub by (simp add: dom_get_item card_Diff_subset finite_subset)
qed

lemma index_set_new_inv: "index_set_inv (index_set_new N)"
proof -
  have path: "free_path (map (\<lambda>i. NextFreeIndex (i + 1)) [0..<N]) k [k..<N]" if "k \<le> N" for k
    using that
  proof (induction "N - k" arbitrary: k)
    case (Suc d)
    then have "[k..<N] = k # [Suc k..<N]" by (simp add: upt_conv_Cons)
    with Suc show ?case by simp
  qed simp
  have "set [0..<N] = free_slots (items (index_set_new N :: 'a IndexSet))"
    by (auto simp: free_slots_def index_set_new_def)
  with path [of 0] show ?thesis
    unfolding index_set_inv_def by (intro exI [of _ "[0..<N]"]) (simp add: index_set_new_def)
qed

lemma get_item_new [simp]: "get_item (index_set_new N) = Map.empty"
  by (auto simp: get_item_def get_def index_set_new_def fun_eq_iff)

lemma add_item_full:
  assumes "index_set_inv s" and "card (dom (get_item s)) = length (items s)"
  shows "add_item s x = Some (Inl x, s)"
proof -
  obtain fs where fs: "free_path (items s) (free_index s) fs" "distinct fs"
    "set fs = free_slots (items s)"
    using assms(1) by (auto simp: index_set_inv_def)
  with card_dom_get_item [OF fs] assms(2) have "fs = []" by simp
  with fs(1) show ?thesis by (simp add: add_item_def get_def)
qed

lemma add_item_ok:
  assumes "index_set_inv s" and "card (dom (get_item s)) < length (items s)"
  shows "\<exists>h s'. add_item s x = Some (Inr h, s') \<and> index_set_inv s' \<and> get_item s h = None \<and>
    get_item s' = (get_item s)(h \<mapsto> x) \<and> length (items s') = length (items s)"
proof -
  obtain fs where fs: "free_path (items s) (free_index s) fs" "distinct fs"
    "set fs = free_slots (items s)"
    using assms(1) by (auto simp: index_set_inv_def)
  with card_dom_get_item [OF fs] assms(2) obtain i js where "fs = i # js"
    by (cases fs) auto
  with fs(1) obtain n where i: "free_index s = i" "i < length (items s)"
    "items s ! i = NextFreeIndex n" "free_path (items s) n js"
    by (auto split: IndexOption.splits)
  let ?s' = "s\<lparr>free_index := n, items := (items s)[i := Exist x]\<rparr>"
  have add: "add_item s x = Some (Inr i, ?s')"
    using i by (simp add: add_item_def get_def)
  have "i \<notin> set js" "distinct js" using fs(2) \<open>fs = i # js\<close> by auto
  moreover have "free_slots ((items s)[i := Exist x]) = free_slots (items s) - {i}"
    using i by (auto simp: free_slots_def nth_list_update split: IndexOption.splits)
  ultimately have "index_set_inv ?s'"
    unfolding index_set_inv_def
    using i fs \<open>fs = i # js\<close> by (intro exI [of _ js]) (auto simp: free_path_update)
  moreover have "get_item s i = None" using i by (simp add: get_item_def get_def)
  moreover have "get_item ?s' = (get_item s)(i \<mapsto> x)"
    using i by (auto simp: get_item_def get_def fun_eq_iff nth_list_update)
  ultimately show ?thesis using add by auto
qed

lemma remove_item_ok:
  assumes "index_set_inv s"
  shows "\<exists>s'. remove_item s h = (get_item s h, s') \<and> index_set_inv s' \<and>
    get_item s' = (get_item s)(h := None) \<and> length (items s') = length (items s)"
proof (cases "get_item s h")
  case None
  then have "remove_item s h = (None, s)"
    by (auto simp: remove_item_def get_item_def split: option.splits IndexOption.splits)
  with None assms show ?thesis by (auto simp: fun_eq_iff)
next
  case (Some x)
  then have h: "h < length (items s)" "items s ! h = Exist x" by (auto simp: get_item_Some_iff)
  let ?s' = "s\<lparr>free_index := h, items := (items s)[h := NextFreeIndex (free_index s)]\<rparr>"
  have rem: "remove_item s h = (Some x, ?s')" using h by (simp add: remove_item_def get_def)
  obtain fs where fs: "free_path (items s) (free_index s) fs" "distinct fs"
    "set fs = free_slots (items s)"
    using assms by (auto simp: index_set_inv_def)
  have "h \<notin> set fs" using fs(3) h by (simp add: free_slots_def)
  moreover have "free_slots ((items s)[h := NextFreeIndex (free_index s)]) =
      insert h (free_slots (items s))"
    using h by (auto simp: free_slots_def nth_list_update split: IndexOption.splits if_splits)
  ultimately have "index_set_inv ?s'"
    unfolding index_set_inv_def
    using h fs by (intro exI [of _ "h # fs"]) (auto simp: free_path_update)
  moreover have "get_item ?s' = (get_item s)(h := None)"
    using h by (auto simp: get_item_def get_def fun_eq_iff nth_list_update)
  ultimately show ?thesis using rem Some by auto
qed

lemma get_item_mut_ok:
  assumes "index_set_inv s" and "get_item s h = Some x"
  shows "\<exists>s'. get_item_mut s h y = Some s' \<and> index_set_inv s' \<and>
    get_item s' = (get_item s)(h \<mapsto> y) \<and> length (items s') = length (items s)"
proof -
  have h: "h < length (items s)" "items s ! h = Exist x"
    using assms(2) by (auto simp: get_item_Some_iff)
  let ?s' = "s\<lparr>items := (items s)[h := Exist y]\<rparr>"
  obtain fs where fs: "free_path (items s) (free_index s) fs" "distinct fs"
    "set fs = free_slots (items s)"
    using assms(1) by (auto simp: index_set_inv_def)
  have "h \<notin> set fs" using fs(3) h by (simp add: free_slots_def)
  moreover have "free_slots ((items s)[h := Exist y]) = free_slots (items s)"
    using h by (auto simp: free_slots_def nth_list_update split: IndexOption.splits if_splits)
  ultimately have "index_set_inv ?s'"
    unfolding index_set_inv_def using fs by (intro exI [of _ fs]) (auto simp: free_path_update)
  moreover have "get_item ?s' = (get_item s)(h \<mapsto> y)"
    using h by (auto simp: get_item_def get_def fun_eq_iff nth_list_update)
  ultimately show ?thesis using h by (auto simp: get_item_mut_def get_def)
qed

section \<open>The contract of a handle store\<close>

locale handle_store =
  fixes add :: "'s \<Rightarrow> 'a \<Rightarrow> (('a + nat) \<times> 's) rust"
    and remove :: "'s \<Rightarrow> nat \<Rightarrow> 'a option \<times> 's"
    and look :: "'s \<Rightarrow> nat \<Rightarrow> 'a option"
    and put :: "'s \<Rightarrow> nat \<Rightarrow> 'a \<Rightarrow> 's option"
    and capacity :: "'s \<Rightarrow> nat"
    and inv :: "'s \<Rightarrow> bool"
  assumes add_full: "inv s \<Longrightarrow> card (dom (look s)) = capacity s \<Longrightarrow> add s x = Some (Inl x, s)"
    and add_free: "inv s \<Longrightarrow> card (dom (look s)) < capacity s \<Longrightarrow>
      \<exists>h s'. add s x = Some (Inr h, s') \<and> inv s' \<and> look s h = None \<and>
        look s' = (look s)(h \<mapsto> x) \<and> capacity s' = capacity s"
    and remove_ok: "inv s \<Longrightarrow>
      \<exists>s'. remove s h = (look s h, s') \<and> inv s' \<and> look s' = (look s)(h := None) \<and>
        capacity s' = capacity s"
    and put_ok: "inv s \<Longrightarrow> look s h = Some x \<Longrightarrow>
      \<exists>s'. put s h y = Some s' \<and> inv s' \<and> look s' = (look s)(h \<mapsto> y) \<and> capacity s' = capacity s"
    and look_bounded: "inv s \<Longrightarrow> dom (look s) \<subseteq> {..<capacity s}"
begin

lemma finite_dom: "inv s \<Longrightarrow> finite (dom (look s))"
  using look_bounded finite_subset by blast

lemma card_dom_le: "inv s \<Longrightarrow> card (dom (look s)) \<le> capacity s"
  using card_mono [OF _ look_bounded] by fastforce

text \<open>\<open>add\<close> never panics; it fails exactly on a full store and then changes nothing.\<close>

lemma add_cases:
  assumes "inv s"
  obtains (full) "card (dom (look s)) = capacity s" "add s x = Some (Inl x, s)"
  | (added) h s' where "card (dom (look s)) < capacity s" "add s x = Some (Inr h, s')" "inv s'"
      "look s h = None" "look s' = (look s)(h \<mapsto> x)" "capacity s' = capacity s"
  using card_dom_le [OF assms] add_full [OF assms] add_free [OF assms]
  by (metis le_neq_implies_less)

fun add_all :: "'s \<Rightarrow> 'a list \<Rightarrow> (nat list \<times> 's) rust" where
  "add_all s [] = Some ([], s)"
| "add_all s (x # xs) =
     (case add s x of
        Some (Inr h, s') \<Rightarrow> map_option (\<lambda>(hs, t). (h # hs, t)) (add_all s' xs)
      | _ \<Rightarrow> None)"

text \<open>As long as there is room, a sequence of additions gives pairwise different handles.\<close>

lemma add_all_ok:
  assumes "inv s" and "card (dom (look s)) + length xs \<le> capacity s"
  shows "\<exists>hs t. add_all s xs = Some (hs, t) \<and> inv t \<and> capacity t = capacity s \<and>
    length hs = length xs \<and> distinct hs \<and> set hs \<inter> dom (look s) = {} \<and>
    look t = (look s)(hs [\<mapsto>] xs)"
  using assms
proof (induction xs arbitrary: s)
  case Nil
  then show ?case by auto
next
  case (Cons x xs)
  show ?case
  proof (rule add_cases [OF Cons.prems(1), where x = x], goal_cases full added)
    case full
    then show ?thesis using Cons.prems by simp
  next
    case (added h s')
    have "card (dom (look s')) = Suc (card (dom (look s)))"
      using added finite_dom [OF Cons.prems(1)] by (simp add: domIff)
    then have room: "card (dom (look s')) + length xs \<le> capacity s'"
      using Cons.prems(2) added(6) by simp
    obtain hs t where t: "add_all s' xs = Some (hs, t)" "inv t" "capacity t = capacity s'"
      "length hs = length xs" "distinct hs" "set hs \<inter> dom (look s') = {}"
      "look t = (look s')(hs [\<mapsto>] xs)"
      using Cons.IH [OF added(3) room] by blast
    then show ?thesis
      using added by (intro exI [of _ "h # hs"] exI [of _ t]) (auto simp: domIff)
  qed
qed

end

interpretation slab: handle_store add_item remove_item get_item get_item_mut
  "\<lambda>s. length (items s)" index_set_inv
proof (unfold_locales, goal_cases)
  case (1 s x)
  then show ?case by (rule add_item_full)
next
  case (2 s x)
  then show ?case by (rule add_item_ok)
next
  case (3 s h)
  then show ?case by (rule remove_item_ok)
next
  case (4 s h x y)
  then show ?case by (rule get_item_mut_ok)
next
  case (5 s)
  then show ?case by (auto simp: dom_get_item)
qed

section \<open>Reachable slabs\<close>

text \<open>The slabs the program can build: \<open>new\<close>, then any sequence of calls.\<close>

inductive slab_reachable :: "nat \<Rightarrow> 'a IndexSet \<Rightarrow> bool" for N :: nat where
  new: "slab_reachable N (index_set_new N)"
| add: "slab_reachable N s \<Longrightarrow> add_item s x = Some (r, s') \<Longrightarrow> slab_reachable N s'"
| remove: "slab_reachable N s \<Longrightarrow> remove_item s h = (r, s') \<Longrightarrow> slab_reachable N s'"
| put: "slab_reachable N s \<Longrightarrow> get_item_mut s h x = Some s' \<Longrightarrow> slab_reachable N s'"

lemma slab_reachable_inv: "slab_reachable N s \<Longrightarrow> index_set_inv s \<and> length (items s) = N"
proof (induction rule: slab_reachable.induct)
  case new
  show ?case by (simp add: index_set_new_inv) (simp add: index_set_new_def)
next
  case (add s x r s')
  then have inv: "index_set_inv s" by simp
  show ?case
    by (rule slab.add_cases [OF inv, of x]) (use add in auto)
next
  case (remove s h r s')
  with slab.remove_ok [of s h] show ?case by auto
next
  case (put s h x s')
  then obtain y where "get_item s h = Some y"
    by (auto simp: get_item_mut_def get_item_def split: option.splits IndexOption.splits)
  with put slab.put_ok [of s h y x] show ?case by auto
qed

text \<open>
  C28: on every slab the program can reach, \<open>add_item\<close> does not panic (its \<open>unreachable!()\<close> is
  unreachable): with all \<open>N\<close> slots occupied it hands the item back and changes nothing,
  otherwise it returns a handle below \<open>N\<close> that was free, after which exactly that handle reads
  the new item and every other handle reads what it read before.
\<close>

theorem slab_add_spec:
  assumes "slab_reachable N s"
  shows "\<exists>r s'. add_item s x = Some (r, s') \<and> slab_reachable N s' \<and>
    (case r of
       Inl y \<Rightarrow> y = x \<and> s' = s \<and> card (dom (get_item s)) = N
     | Inr h \<Rightarrow> h < N \<and> get_item s h = None \<and> get_item s' = (get_item s)(h \<mapsto> x))"
proof -
  have inv: "index_set_inv s" "length (items s) = N"
    using slab_reachable_inv [OF assms] by auto
  show ?thesis
  proof (rule slab.add_cases [OF inv(1), of x], goal_cases full added)
    case full
    with slab_reachable.add [OF assms full(2)] inv(2) show ?thesis by auto
  next
    case (added h s')
    from slab_reachable.add [OF assms added(2)] have r: "slab_reachable N s'" .
    have "h \<in> dom (get_item s')" using added(5) by simp
    then have "h < N"
      using slab.look_bounded slab_reachable_inv [OF r] by fastforce
    with added r show ?thesis by auto
  qed
qed

theorem slab_add_spec_witness:
  "\<exists>r s'. add_item (index_set_new 1 :: nat IndexSet) 7 = Some (r, s') \<and> slab_reachable 1 s' \<and>
    (case r of
       Inl y \<Rightarrow> y = 7 \<and> s' = index_set_new 1 \<and> card (dom (get_item (index_set_new 1 :: nat IndexSet))) = 1
     | Inr h \<Rightarrow> h < 1 \<and> get_item (index_set_new 1 :: nat IndexSet) h = None \<and>
         get_item s' = (get_item (index_set_new 1))(h \<mapsto> 7))"
  by (rule slab_add_spec [OF slab_reachable.new])



text \<open>
  A new slab of capacity \<open>N\<close> takes any \<open>n \<le> N\<close> items: every \<open>add_item\<close> succeeds, the handles are
  pairwise different and each reads back its item. (\<open>EtherCatMaster::new\<close> adds six sockets to
  a slab of seven and unwraps each result.)
\<close>

lemma slab_add_all:
  assumes "length xs \<le> N"
  shows "\<exists>hs t. slab.add_all (index_set_new N) xs = Some (hs, t) \<and> index_set_inv t \<and>
    length hs = length xs \<and> distinct hs \<and> get_item t = Map.empty(hs [\<mapsto>] xs)"
proof -
  have "card (dom (get_item (index_set_new N :: 'a IndexSet))) + length xs
      \<le> length (items (index_set_new N :: 'a IndexSet))"
    using assms by simp (simp add: index_set_new_def)
  from slab.add_all_ok [OF index_set_new_inv this] show ?thesis by auto
qed

end
