(* ===== verification/Wire_Enums.thy ===== *)
theory Wire_Enums
  imports Prelude
begin

text \<open>
  The C-like enums of \<open>src/src/frame/ethercat.rs\<close> and \<open>src/src/frame/coe.rs\<close> whose values
  travel on the wire, each with its Rust
  discriminants (\<open>_repr\<close>, the cast \<open>v as u8\<close>: a variant without an explicit discriminant has
  the one of its predecessor plus one). The conversions back from integers are derived by the
  crate \<open>num_enum\<close> and are parameters of the model (theory \<open>Crates\<close>).
\<close>

datatype (plugins only: code size) CommandType =
    NOP | APRD | APWR | APRW | FPRD | FPWR | FPRW | BRD | BWR | BRW | LRD | LWR | LRW | ARMW
  | FRMW | Invalid

primrec CommandType_repr :: "CommandType \<Rightarrow> u8" where
  "CommandType_repr CommandType.NOP = 0x0"
| "CommandType_repr CommandType.APRD = 0x1"
| "CommandType_repr CommandType.APWR = 0x2"
| "CommandType_repr CommandType.APRW = 0x3"
| "CommandType_repr CommandType.FPRD = 0x4"
| "CommandType_repr CommandType.FPWR = 0x5"
| "CommandType_repr CommandType.FPRW = 0x6"
| "CommandType_repr CommandType.BRD = 0x7"
| "CommandType_repr CommandType.BWR = 0x8"
| "CommandType_repr CommandType.BRW = 0x9"
| "CommandType_repr CommandType.LRD = 0xA"
| "CommandType_repr CommandType.LWR = 0xB"
| "CommandType_repr CommandType.LRW = 0xC"
| "CommandType_repr CommandType.ARMW = 0xD"
| "CommandType_repr CommandType.FRMW = 0xE"
| "CommandType_repr CommandType.Invalid = 0xF"

definition CommandType_variants :: "CommandType list" where
  "CommandType_variants =
     [CommandType.NOP, CommandType.APRD, CommandType.APWR,
      CommandType.APRW, CommandType.FPRD, CommandType.FPWR,
      CommandType.FPRW, CommandType.BRD, CommandType.BWR,
      CommandType.BRW, CommandType.LRD, CommandType.LWR,
      CommandType.LRW, CommandType.ARMW, CommandType.FRMW,
      CommandType.Invalid]"

datatype (plugins only: code size) MailboxType =
    Error | AoE | EoE | CoE | FoE | SoE | VoE | Other

primrec MailboxType_repr :: "MailboxType \<Rightarrow> u8" where
  "MailboxType_repr MailboxType.Error = 0x0"
| "MailboxType_repr MailboxType.AoE = 0x1"
| "MailboxType_repr MailboxType.EoE = 0x2"
| "MailboxType_repr MailboxType.CoE = 0x3"
| "MailboxType_repr MailboxType.FoE = 0x4"
| "MailboxType_repr MailboxType.SoE = 0x5"
| "MailboxType_repr MailboxType.VoE = 0xF"
| "MailboxType_repr MailboxType.Other = 0x10"

definition MailboxType_variants :: "MailboxType list" where
  "MailboxType_variants =
     [MailboxType.Error, MailboxType.AoE, MailboxType.EoE,
      MailboxType.CoE, MailboxType.FoE, MailboxType.SoE,
      MailboxType.VoE, MailboxType.Other]"

datatype (plugins only: code size) MailboxErrorDetail =
    Unspecified | Syntax | UnsupportedProtocol | InvalidChannel | ServiceNotSupported
  | InvalidHeader | SizeTooShort | NoMoreMemory | InvalidSize

primrec MailboxErrorDetail_repr :: "MailboxErrorDetail \<Rightarrow> u16" where
  "MailboxErrorDetail_repr MailboxErrorDetail.Unspecified = 0x0"
| "MailboxErrorDetail_repr MailboxErrorDetail.Syntax = 0x1"
| "MailboxErrorDetail_repr MailboxErrorDetail.UnsupportedProtocol = 0x2"
| "MailboxErrorDetail_repr MailboxErrorDetail.InvalidChannel = 0x3"
| "MailboxErrorDetail_repr MailboxErrorDetail.ServiceNotSupported = 0x4"
| "MailboxErrorDetail_repr MailboxErrorDetail.InvalidHeader = 0x5"
| "MailboxErrorDetail_repr MailboxErrorDetail.SizeTooShort = 0x6"
| "MailboxErrorDetail_repr MailboxErrorDetail.NoMoreMemory = 0x7"
| "MailboxErrorDetail_repr MailboxErrorDetail.InvalidSize = 0x8"

definition MailboxErrorDetail_variants :: "MailboxErrorDetail list" where
  "MailboxErrorDetail_variants =
     [MailboxErrorDetail.Unspecified, MailboxErrorDetail.Syntax, MailboxErrorDetail.UnsupportedProtocol,
      MailboxErrorDetail.InvalidChannel, MailboxErrorDetail.ServiceNotSupported, MailboxErrorDetail.InvalidHeader,
      MailboxErrorDetail.SizeTooShort, MailboxErrorDetail.NoMoreMemory, MailboxErrorDetail.InvalidSize]"

datatype (plugins only: code size) CoeServiceType =
    Emmergency | SdoReq | SdoRes | TxPdo | RxPdo | TxPdoRemoteReq | RxPdoRemoteReq | SdoInfo
  | Other

primrec CoeServiceType_repr :: "CoeServiceType \<Rightarrow> u8" where
  "CoeServiceType_repr CoeServiceType.Emmergency = 0x1"
| "CoeServiceType_repr CoeServiceType.SdoReq = 0x2"
| "CoeServiceType_repr CoeServiceType.SdoRes = 0x3"
| "CoeServiceType_repr CoeServiceType.TxPdo = 0x4"
| "CoeServiceType_repr CoeServiceType.RxPdo = 0x5"
| "CoeServiceType_repr CoeServiceType.TxPdoRemoteReq = 0x6"
| "CoeServiceType_repr CoeServiceType.RxPdoRemoteReq = 0x7"
| "CoeServiceType_repr CoeServiceType.SdoInfo = 0x8"
| "CoeServiceType_repr CoeServiceType.Other = 0x9"

definition CoeServiceType_variants :: "CoeServiceType list" where
  "CoeServiceType_variants =
     [CoeServiceType.Emmergency, CoeServiceType.SdoReq, CoeServiceType.SdoRes,
      CoeServiceType.TxPdo, CoeServiceType.RxPdo, CoeServiceType.TxPdoRemoteReq,
      CoeServiceType.RxPdoRemoteReq, CoeServiceType.SdoInfo, CoeServiceType.Other]"

datatype (plugins only: code size) AbortCode =
    NoToggleBitChange | Timeout | UnknownClient | OutsideMemoryRange | NotSupportedAccess
  | WriteOnly | ReadOnly | SubIndexCannotBeWritten | NotSupportForVariableLength
  | LengthExceedsMailboxSize | ObjectMappedToRxPdo | DoesNotExistInDict | UnableToMapToPdo
  | PdoLimit | ParameterIncompatibilities | DeviceIncompatibilities | FailureDueToWriteProtect
  | ParameterLengthMismatch | ParameterLengthTooLong | ParameterLengthTooShort
  | SubIndexDoesNotExist | ValueRangeExceeded | WriteParameterTooLarge | WriteParameterTooSmall
  | ConfiguredModuleListDoesNotMatch | MaxValueIsLessThanMinValue | GeneralError
  | CannotTransfer | CannotTransferDueToLocalControl | CannotTransferInCurrentState
  | ObjectDictionaryDoesNotExist | UnknownAbortCode

primrec AbortCode_repr :: "AbortCode \<Rightarrow> u32" where
  "AbortCode_repr AbortCode.NoToggleBitChange = 0x5030000"
| "AbortCode_repr AbortCode.Timeout = 0x5040000"
| "AbortCode_repr AbortCode.UnknownClient = 0x5040001"
| "AbortCode_repr AbortCode.OutsideMemoryRange = 0x5040005"
| "AbortCode_repr AbortCode.NotSupportedAccess = 0x6010000"
| "AbortCode_repr AbortCode.WriteOnly = 0x6010001"
| "AbortCode_repr AbortCode.ReadOnly = 0x6010002"
| "AbortCode_repr AbortCode.SubIndexCannotBeWritten = 0x6010003"
| "AbortCode_repr AbortCode.NotSupportForVariableLength = 0x6010004"
| "AbortCode_repr AbortCode.LengthExceedsMailboxSize = 0x6010005"
| "AbortCode_repr AbortCode.ObjectMappedToRxPdo = 0x6010006"
| "AbortCode_repr AbortCode.DoesNotExistInDict = 0x6020000"
| "AbortCode_repr AbortCode.UnableToMapToPdo = 0x6040041"
| "AbortCode_repr AbortCode.PdoLimit = 0x6040042"
| "AbortCode_repr AbortCode.ParameterIncompatibilities = 0x6040043"
| "AbortCode_repr AbortCode.DeviceIncompatibilities = 0x6040047"
| "AbortCode_repr AbortCode.FailureDueToWriteProtect = 0x6060000"
| "AbortCode_repr AbortCode.ParameterLengthMismatch = 0x6070010"
| "AbortCode_repr AbortCode.ParameterLengthTooLong = 0x6070012"
| "AbortCode_repr AbortCode.ParameterLengthTooShort = 0x6070013"
| "AbortCode_repr AbortCode.SubIndexDoesNotExist = 0x6090011"
| "AbortCode_repr AbortCode.ValueRangeExceeded = 0x6090030"
| "AbortCode_repr AbortCode.WriteParameterTooLarge = 0x6090031"
| "AbortCode_repr AbortCode.WriteParameterTooSmall = 0x6090032"
| "AbortCode_repr AbortCode.ConfiguredModuleListDoesNotMatch = 0x6090033"
| "AbortCode_repr AbortCode.MaxValueIsLessThanMinValue = 0x6090036"
| "AbortCode_repr AbortCode.GeneralError = 0x8000000"
| "AbortCode_repr AbortCode.CannotTransfer = 0x8000020"
| "AbortCode_repr AbortCode.CannotTransferDueToLocalControl = 0x8000021"
| "AbortCode_repr AbortCode.CannotTransferInCurrentState = 0x8000022"
| "AbortCode_repr AbortCode.ObjectDictionaryDoesNotExist = 0x8000023"
| "AbortCode_repr AbortCode.UnknownAbortCode = 0x8000024"

definition AbortCode_variants :: "AbortCode list" where
  "AbortCode_variants =
     [AbortCode.NoToggleBitChange, AbortCode.Timeout, AbortCode.UnknownClient,
      AbortCode.OutsideMemoryRange, AbortCode.NotSupportedAccess, AbortCode.WriteOnly,
      AbortCode.ReadOnly, AbortCode.SubIndexCannotBeWritten, AbortCode.NotSupportForVariableLength,
      AbortCode.LengthExceedsMailboxSize, AbortCode.ObjectMappedToRxPdo, AbortCode.DoesNotExistInDict,
      AbortCode.UnableToMapToPdo, AbortCode.PdoLimit, AbortCode.ParameterIncompatibilities,
      AbortCode.DeviceIncompatibilities, AbortCode.FailureDueToWriteProtect, AbortCode.ParameterLengthMismatch,
      AbortCode.ParameterLengthTooLong, AbortCode.ParameterLengthTooShort, AbortCode.SubIndexDoesNotExist,
      AbortCode.ValueRangeExceeded, AbortCode.WriteParameterTooLarge, AbortCode.WriteParameterTooSmall,
      AbortCode.ConfiguredModuleListDoesNotMatch, AbortCode.MaxValueIsLessThanMinValue, AbortCode.GeneralError,
      AbortCode.CannotTransfer, AbortCode.CannotTransferDueToLocalControl, AbortCode.CannotTransferInCurrentState,
      AbortCode.ObjectDictionaryDoesNotExist, AbortCode.UnknownAbortCode]"

end
