(* ===== verification/Al_Status_Code.thy ===== *)
theory Al_Status_Code
  imports Prelude
begin

text \<open>
  The enum \<open>AlStatusCode\<close> of \<open>src/src/register/application.rs\<close> with its discriminants. It is the
  largest enum of the program and has a theory of its own.
\<close>

datatype (plugins only: code size) AlStatusCode =
    NoError | UnspecifiedError | NoMemory | InvalidRevision | InvalidDeviceSetup
  | SiiInfomationDoesNotMatchFirmware | FirmwareUpdateNotSuccessful | LicenceError
  | InvalidRequestedStateChange | UnknownRequestedStateChange | BootstrapNotSupported
  | NoValidFirmware | InvalidMailboxConfiguration | InvalidSyncManagerConfiguration
  | NoValidInputsAvailable | NoValidOutputs | SynchronizationError | SyncManagerWatchdog
  | InvalidSyncManagerTypes | InvalidOutputConfiguration | InvalidInputConfiguration
  | InvalidWatchdogConfiguraion | SlaveNeedsColdStart | SlaveNeedsInit | SlaveNeedsPreop
  | SlaveNeedsSafeop | InvalidInputMapping | InvalidOutputMapping | InconsistentSettings
  | FreerunNotSupported | SynchronizationNotSupported | FreerunNeeds3BufferMode
  | BackgroundWatchDog | NoValidInputsAndOutputs | FatalSyncError | NoSyncError
  | CycleTimeTooSmall | InvalidDcSyncConfiguration | InvalidDcLatchConfiguration | PllError
  | DcSyncIoError | DcSyncTimeoutError | DcInvalidSyncCycleTime | DcSync0CycleTime
  | DcSync1CycleTime | MbxAoe | MbxEoe | MbxCoe | MbxFoe | MbxSoe | MbxVoe | EepromNoAccess
  | EepromError | ExternalHardwareNotReady | SlaveRestartedLocally
  | DeviceIdentificationValueUpdated | DetectedModuleIdentListDoesNotMatch | SupplyVoltageToolow
  | SupplyVoltageYooHigh | TemperatureTooLow | TemperatureTooHigh
  | ApplocationControllerAvailable | UndefinedError

primrec AlStatusCode_repr :: "AlStatusCode \<Rightarrow> u16" where
  "AlStatusCode_repr AlStatusCode.NoError = 0x0"
| "AlStatusCode_repr AlStatusCode.UnspecifiedError = 0x1"
| "AlStatusCode_repr AlStatusCode.NoMemory = 0x2"
| "AlStatusCode_repr AlStatusCode.InvalidRevision = 0x4"
| "AlStatusCode_repr AlStatusCode.InvalidDeviceSetup = 0x3"
| "AlStatusCode_repr AlStatusCode.SiiInfomationDoesNotMatchFirmware = 0x6"
| "AlStatusCode_repr AlStatusCode.FirmwareUpdateNotSuccessful = 0x7"
| "AlStatusCode_repr AlStatusCode.LicenceError = 0xE"
| "AlStatusCode_repr AlStatusCode.InvalidRequestedStateChange = 0x11"
| "AlStatusCode_repr AlStatusCode.UnknownRequestedStateChange = 0x12"
| "AlStatusCode_repr AlStatusCode.BootstrapNotSupported = 0x13"
| "AlStatusCode_repr AlStatusCode.NoValidFirmware = 0x14"
| "AlStatusCode_repr AlStatusCode.InvalidMailboxConfiguration = 0x15"
| "AlStatusCode_repr AlStatusCode.InvalidSyncManagerConfiguration = 0x17"
| "AlStatusCode_repr AlStatusCode.NoValidInputsAvailable = 0x18"
| "AlStatusCode_repr AlStatusCode.NoValidOutputs = 0x19"
| "AlStatusCode_repr AlStatusCode.SynchronizationError = 0x1A"
| "AlStatusCode_repr AlStatusCode.SyncManagerWatchdog = 0x1B"
| "AlStatusCode_repr AlStatusCode.InvalidSyncManagerTypes = 0x1C"
| "AlStatusCode_repr AlStatusCode.InvalidOutputConfiguration = 0x1D"
| "AlStatusCode_repr AlStatusCode.InvalidInputConfiguration = 0x1E"
| "AlStatusCode_repr AlStatusCode.InvalidWatchdogConfiguraion = 0x1F"
| "AlStatusCode_repr AlStatusCode.SlaveNeedsColdStart = 0x20"
| "AlStatusCode_repr AlStatusCode.SlaveNeedsInit = 0x21"
| "AlStatusCode_repr AlStatusCode.SlaveNeedsPreop = 0x22"
| "AlStatusCode_repr AlStatusCode.SlaveNeedsSafeop = 0x23"
| "AlStatusCode_repr AlStatusCode.InvalidInputMapping = 0x24"
| "AlStatusCode_repr AlStatusCode.InvalidOutputMapping = 0x25"
| "AlStatusCode_repr AlStatusCode.InconsistentSettings = 0x26"
| "AlStatusCode_repr AlStatusCode.FreerunNotSupported = 0x27"
| "AlStatusCode_repr AlStatusCode.SynchronizationNotSupported = 0x28"
| "AlStatusCode_repr AlStatusCode.FreerunNeeds3BufferMode = 0x29"
| "AlStatusCode_repr AlStatusCode.BackgroundWatchDog = 0x2A"
| "AlStatusCode_repr AlStatusCode.NoValidInputsAndOutputs = 0x2B"
| "AlStatusCode_repr AlStatusCode.FatalSyncError = 0x2C"
| "AlStatusCode_repr AlStatusCode.NoSyncError = 0x2D"
| "AlStatusCode_repr AlStatusCode.CycleTimeTooSmall = 0x2E"
| "AlStatusCode_repr AlStatusCode.InvalidDcSyncConfiguration = 0x30"
| "AlStatusCode_repr AlStatusCode.InvalidDcLatchConfiguration = 0x31"
| "AlStatusCode_repr AlStatusCode.PllError = 0x32"
| "AlStatusCode_repr AlStatusCode.DcSyncIoError = 0x33"
| "AlStatusCode_repr AlStatusCode.DcSyncTimeoutError = 0x34"
| "AlStatusCode_repr AlStatusCode.DcInvalidSyncCycleTime = 0x35"
| "AlStatusCode_repr AlStatusCode.DcSync0CycleTime = 0x36"
| "AlStatusCode_repr AlStatusCode.DcSync1CycleTime = 0x37"
| "AlStatusCode_repr AlStatusCode.MbxAoe = 0x41"
| "AlStatusCode_repr AlStatusCode.MbxEoe = 0x42"
| "AlStatusCode_repr AlStatusCode.MbxCoe = 0x43"
| "AlStatusCode_repr AlStatusCode.MbxFoe = 0x44"
| "AlStatusCode_repr AlStatusCode.MbxSoe = 0x45"
| "AlStatusCode_repr AlStatusCode.MbxVoe = 0x4F"
| "AlStatusCode_repr AlStatusCode.EepromNoAccess = 0x50"
| "AlStatusCode_repr AlStatusCode.EepromError = 0x51"
| "AlStatusCode_repr AlStatusCode.ExternalHardwareNotReady = 0x52"
| "AlStatusCode_repr AlStatusCode.SlaveRestartedLocally = 0x60"
| "AlStatusCode_repr AlStatusCode.DeviceIdentificationValueUpdated = 0x61"
| "AlStatusCode_repr AlStatusCode.DetectedModuleIdentListDoesNotMatch = 0x70"
| "AlStatusCode_repr AlStatusCode.SupplyVoltageToolow = 0x80"
| "AlStatusCode_repr AlStatusCode.SupplyVoltageYooHigh = 0x81"
| "AlStatusCode_repr AlStatusCode.TemperatureTooLow = 0x82"
| "AlStatusCode_repr AlStatusCode.TemperatureTooHigh = 0x83"
| "AlStatusCode_repr AlStatusCode.ApplocationControllerAvailable = 0xF0"
| "AlStatusCode_repr AlStatusCode.UndefinedError = 0xF1"

definition AlStatusCode_variants :: "AlStatusCode list" where
  "AlStatusCode_variants =
     [AlStatusCode.NoError, AlStatusCode.UnspecifiedError, AlStatusCode.NoMemory,
      AlStatusCode.InvalidRevision, AlStatusCode.InvalidDeviceSetup, AlStatusCode.SiiInfomationDoesNotMatchFirmware,
      AlStatusCode.FirmwareUpdateNotSuccessful, AlStatusCode.LicenceError, AlStatusCode.InvalidRequestedStateChange,
      AlStatusCode.UnknownRequestedStateChange, AlStatusCode.BootstrapNotSupported, AlStatusCode.NoValidFirmware,
      AlStatusCode.InvalidMailboxConfiguration, AlStatusCode.InvalidSyncManagerConfiguration, AlStatusCode.NoValidInputsAvailable,
      AlStatusCode.NoValidOutputs, AlStatusCode.SynchronizationError, AlStatusCode.SyncManagerWatchdog,
      AlStatusCode.InvalidSyncManagerTypes, AlStatusCode.InvalidOutputConfiguration, AlStatusCode.InvalidInputConfiguration,
      AlStatusCode.InvalidWatchdogConfiguraion, AlStatusCode.SlaveNeedsColdStart, AlStatusCode.SlaveNeedsInit,
      AlStatusCode.SlaveNeedsPreop, AlStatusCode.SlaveNeedsSafeop, AlStatusCode.InvalidInputMapping,
      AlStatusCode.InvalidOutputMapping, AlStatusCode.InconsistentSettings, AlStatusCode.FreerunNotSupported,
      AlStatusCode.SynchronizationNotSupported, AlStatusCode.FreerunNeeds3BufferMode, AlStatusCode.BackgroundWatchDog,
      AlStatusCode.NoValidInputsAndOutputs, AlStatusCode.FatalSyncError, AlStatusCode.NoSyncError,
      AlStatusCode.CycleTimeTooSmall, AlStatusCode.InvalidDcSyncConfiguration, AlStatusCode.InvalidDcLatchConfiguration,
      AlStatusCode.PllError, AlStatusCode.DcSyncIoError, AlStatusCode.DcSyncTimeoutError,
      AlStatusCode.DcInvalidSyncCycleTime, AlStatusCode.DcSync0CycleTime, AlStatusCode.DcSync1CycleTime,
      AlStatusCode.MbxAoe, AlStatusCode.MbxEoe, AlStatusCode.MbxCoe,
      AlStatusCode.MbxFoe, AlStatusCode.MbxSoe, AlStatusCode.MbxVoe,
      AlStatusCode.EepromNoAccess, AlStatusCode.EepromError, AlStatusCode.ExternalHardwareNotReady,
      AlStatusCode.SlaveRestartedLocally, AlStatusCode.DeviceIdentificationValueUpdated, AlStatusCode.DetectedModuleIdentListDoesNotMatch,
      AlStatusCode.SupplyVoltageToolow, AlStatusCode.SupplyVoltageYooHigh, AlStatusCode.TemperatureTooLow,
      AlStatusCode.TemperatureTooHigh, AlStatusCode.ApplocationControllerAvailable, AlStatusCode.UndefinedError]"

end
