(* ===== verification/Crates.thy ===== *)
theory Crates
  imports Wire_Enums Al_Status_Code
begin

text \<open>
  The code the program calls in other packages, as parameters of the model. A value
  \<open>X :: crates\<close> is an argument of every definition that uses one of them:
  \<^item> crate \<open>bitfield\<close> (the macro \<open>bitfield!\<close>): \<open>bf_range\<close>/\<open>bf_set_range\<close> are the accessors a
    field declaration \<open>name, set_name: msb, lsb\<close> expands to, \<open>bf_bit\<close>/\<open>bf_set_bit\<close> those of a
    one-bit field, \<open>bf_range_msb0\<close>/\<open>bf_set_range_msb0\<close> those of a struct declared \<open>MSB0\<close>;
  \<^item> crate \<open>bit_field\<close>: \<open>get_bit\<close>, \<open>get_bits\<close> on a \<open>u8\<close>;
  \<^item> crate \<open>num_enum\<close>: the derived conversions \<open>from\<close> and \<open>try_from\<close> of each enum.

  The locales state what their documentation promises: which bit of the byte string a field
  reads or writes, that an access beyond the slice panics, and that a derived conversion
  inverts the discriminant and falls back to the variant marked \<open>default\<close>. The lemmas of
  \<open>bitfield_crate\<close> turn the accessors into \<open>field\<close> and \<open>set_field\<close>. \<open>ref_crates\<close> is a set of
  functions that satisfies all the laws, for evaluating the model at concrete inputs.
\<close>

record crates =
  bf_range :: "bytes \<Rightarrow> nat \<Rightarrow> nat \<Rightarrow> nat rust"
  bf_set_range :: "bytes \<Rightarrow> nat \<Rightarrow> nat \<Rightarrow> nat \<Rightarrow> bytes rust"
  bf_bit :: "bytes \<Rightarrow> nat \<Rightarrow> bool rust"
  bf_set_bit :: "bytes \<Rightarrow> nat \<Rightarrow> bool \<Rightarrow> bytes rust"
  bf_range_msb0 :: "bytes \<Rightarrow> nat \<Rightarrow> nat \<Rightarrow> nat rust"
  bf_set_range_msb0 :: "bytes \<Rightarrow> nat \<Rightarrow> nat \<Rightarrow> nat \<Rightarrow> bytes rust"
  get_bit :: "u8 \<Rightarrow> nat \<Rightarrow> bool"
  get_bits :: "u8 \<Rightarrow> nat \<Rightarrow> nat \<Rightarrow> u8"
  CommandType_from :: "u8 \<Rightarrow> CommandType"
  MailboxType_from :: "u8 \<Rightarrow> MailboxType"
  MailboxErrorDetail_from :: "u16 \<Rightarrow> MailboxErrorDetail"
  CoeServiceType_from :: "u8 \<Rightarrow> CoeServiceType"
  AbortCode_from :: "u32 \<Rightarrow> AbortCode"
  AlStatusCode_try_from :: "u16 \<Rightarrow> AlStatusCode option"

text \<open>The accessors at the integer type the declaration names.\<close>

definition get_field :: "crates \<Rightarrow> bytes \<Rightarrow> nat \<Rightarrow> nat \<Rightarrow> 'a::len word rust" where
  "get_field X d msb lsb = do { v \<leftarrow> bf_range X d msb lsb; ret (of_nat v) }"

definition put_field :: "crates \<Rightarrow> bytes \<Rightarrow> nat \<Rightarrow> nat \<Rightarrow> 'a::len word \<Rightarrow> bytes rust" where
  "put_field X d msb lsb v = bf_set_range X d msb lsb (unat v)"

section \<open>What the crates promise\<close>

locale bitfield_crate =
  fixes X :: crates
  assumes range_in: "lsb \<le> msb \<Longrightarrow> msb < 8 * length d \<Longrightarrow>
      \<exists>v. bf_range X d msb lsb = Some v \<and> v < 2 ^ (Suc msb - lsb) \<and>
        (\<forall>k \<le> msb - lsb. bit v k = bit_at d (lsb + k))"
    and range_out: "lsb \<le> msb \<Longrightarrow> 8 * length d \<le> msb \<Longrightarrow> bf_range X d msb lsb = None"
    and set_range_in: "lsb \<le> msb \<Longrightarrow> msb < 8 * length d \<Longrightarrow>
      \<exists>d'. bf_set_range X d msb lsb v = Some d' \<and> length d' = length d \<and>
        (\<forall>i < 8 * length d. bit_at d' i =
           (if lsb \<le> i \<and> i \<le> msb then bit v (i - lsb) else bit_at d i))"
    and set_range_out:
      "lsb \<le> msb \<Longrightarrow> 8 * length d \<le> msb \<Longrightarrow> bf_set_range X d msb lsb v = None"
    and bit_law: "bf_bit X d i = (if i < 8 * length d then Some (bit_at d i) else None)"
    and set_bit_in: "i < 8 * length d \<Longrightarrow>
      \<exists>d'. bf_set_bit X d i b = Some d' \<and> length d' = length d \<and>
        (\<forall>j < 8 * length d. bit_at d' j = (if j = i then b else bit_at d j))"
    and set_bit_out: "8 * length d \<le> i \<Longrightarrow> bf_set_bit X d i b = None"
    and range_msb0_in: "lsb \<le> msb \<Longrightarrow> msb < 8 * length d \<Longrightarrow>
      \<exists>v. bf_range_msb0 X d msb lsb = Some v \<and> v < 2 ^ (Suc msb - lsb) \<and>
        (\<forall>k \<le> msb - lsb. bit v k = bit_at_msb0 d (msb - k))"
    and range_msb0_out:
      "lsb \<le> msb \<Longrightarrow> 8 * length d \<le> msb \<Longrightarrow> bf_range_msb0 X d msb lsb = None"
    and set_range_msb0_in: "lsb \<le> msb \<Longrightarrow> msb < 8 * length d \<Longrightarrow>
      \<exists>d'. bf_set_range_msb0 X d msb lsb v = Some d' \<and> length d' = length d \<and>
        (\<forall>i < 8 * length d. bit_at_msb0 d' i =
           (if lsb \<le> i \<and> i \<le> msb then bit v (msb - i) else bit_at_msb0 d i))"
    and set_range_msb0_out:
      "lsb \<le> msb \<Longrightarrow> 8 * length d \<le> msb \<Longrightarrow> bf_set_range_msb0 X d msb lsb v = None"
begin

lemma bf_range_eq:
  assumes "lsb \<le> msb"
  shows "bf_range X d msb lsb = (if msb < 8 * length d then Some (field d msb lsb) else None)"
proof (cases "msb < 8 * length d")
  case True
  obtain v where v: "bf_range X d msb lsb = Some v" "v < 2 ^ (Suc msb - lsb)"
    "\<And>k. k \<le> msb - lsb \<Longrightarrow> bit v k = bit_at d (lsb + k)"
    using range_in [OF assms True] by blast
  have "v = field d msb lsb"
  proof (rule bit_eqI)
    fix k
    show "bit v k = bit (field d msb lsb) k"
    proof (cases "k \<le> msb - lsb")
      case True
      then have "k < Suc msb - lsb" using assms by linarith
      with v(3) [OF True] show ?thesis by (simp add: bit_field)
    next
      case False
      then have ge: "Suc msb - lsb \<le> k" by linarith
      have "take_bit (Suc msb - lsb) v = v" using v(2) by (simp add: take_bit_nat_eq_self_iff)
      then have "\<not> bit v k" using ge by (metis bit_take_bit_iff leD)
      then show ?thesis using ge by (simp add: bit_field)
    qed
  qed
  with v(1) True show ?thesis by simp
next
  case False
  with range_out [OF assms] show ?thesis by simp
qed

lemma bf_set_range_eq:
  assumes "lsb \<le> msb"
  shows "bf_set_range X d msb lsb v =
    (if msb < 8 * length d then Some (set_field d msb lsb v) else None)"
proof (cases "msb < 8 * length d")
  case True
  obtain d' where d': "bf_set_range X d msb lsb v = Some d'" "length d' = length d"
    "\<And>i. i < 8 * length d \<Longrightarrow>
       bit_at d' i = (if lsb \<le> i \<and> i \<le> msb then bit v (i - lsb) else bit_at d i)"
    using set_range_in [OF assms True] by blast
  have "d' = set_field d msb lsb v"
    by (rule bytes_eqI) (simp_all add: d'(2,3) bit_at_set_field)
  with d'(1) True show ?thesis by simp
next
  case False
  with set_range_out [OF assms] show ?thesis by simp
qed

lemma bf_set_bit_eq:
  "bf_set_bit X d i b = (if i < 8 * length d then Some (set_field d i i (of_bool b)) else None)"
proof (cases "i < 8 * length d")
  case True
  obtain d' where d': "bf_set_bit X d i b = Some d'" "length d' = length d"
    "\<And>j. j < 8 * length d \<Longrightarrow> bit_at d' j = (if j = i then b else bit_at d j)"
    using set_bit_in [OF True] by blast
  have "d' = set_field d i i (of_bool b)"
    by (rule bytes_eqI) (auto simp: d'(2,3) bit_at_set_field bit_0)
  with d'(1) True show ?thesis by simp
next
  case False
  with set_bit_out show ?thesis by simp
qed

lemma bf_range_msb0_eq:
  assumes "lsb \<le> msb"
  shows "bf_range_msb0 X d msb lsb =
    (if msb < 8 * length d then Some (field_msb0 d msb lsb) else None)"
proof (cases "msb < 8 * length d")
  case True
  obtain v where v: "bf_range_msb0 X d msb lsb = Some v" "v < 2 ^ (Suc msb - lsb)"
    "\<And>k. k \<le> msb - lsb \<Longrightarrow> bit v k = bit_at_msb0 d (msb - k)"
    using range_msb0_in [OF assms True] by blast
  have "v = field_msb0 d msb lsb"
  proof (rule bit_eqI)
    fix k
    show "bit v k = bit (field_msb0 d msb lsb) k"
    proof (cases "k \<le> msb - lsb")
      case True
      with v(3) [OF True] assms show ?thesis by (simp add: bit_field_msb0)
    next
      case False
      then have ge: "Suc msb - lsb \<le> k" by linarith
      have "take_bit (Suc msb - lsb) v = v" using v(2) by (simp add: take_bit_nat_eq_self_iff)
      then have "\<not> bit v k" using ge by (metis bit_take_bit_iff leD)
      then show ?thesis using False by (simp add: bit_field_msb0)
    qed
  qed
  with v(1) True show ?thesis by simp
next
  case False
  with range_msb0_out [OF assms] show ?thesis by simp
qed

lemma bf_set_range_msb0_eq:
  assumes "lsb \<le> msb"
  shows "bf_set_range_msb0 X d msb lsb v =
    (if msb < 8 * length d then Some (set_field_msb0 d msb lsb v) else None)"
proof (cases "msb < 8 * length d")
  case True
  obtain d' where d': "bf_set_range_msb0 X d msb lsb v = Some d'" "length d' = length d"
    "\<And>i. i < 8 * length d \<Longrightarrow>
       bit_at_msb0 d' i = (if lsb \<le> i \<and> i \<le> msb then bit v (msb - i) else bit_at_msb0 d i)"
    using set_range_msb0_in [OF assms True] by blast
  have "d' = set_field_msb0 d msb lsb v"
    by (rule bytes_eqI_msb0) (simp_all add: d'(2,3) bit_at_msb0_set_field_msb0)
  with d'(1) True show ?thesis by simp
next
  case False
  with set_range_msb0_out [OF assms] show ?thesis by simp
qed

lemma get_field_eq:
  "lsb \<le> msb \<Longrightarrow>
     get_field X d msb lsb = (if msb < 8 * length d then Some (of_nat (field d msb lsb)) else None)"
  by (simp add: get_field_def bf_range_eq)

lemma put_field_eq:
  "lsb \<le> msb \<Longrightarrow>
     put_field X d msb lsb v = (if msb < 8 * length d then Some (set_field d msb lsb (unat v)) else None)"
  by (simp add: put_field_def bf_set_range_eq)

lemmas bitfield_eqs = get_field_eq put_field_eq bit_law bf_set_bit_eq
  bf_range_msb0_eq bf_set_range_msb0_eq

end

locale bit_field_crate =
  fixes X :: crates
  assumes get_bit_law: "i < 8 \<Longrightarrow> get_bit X b i = bit b i"
    and get_bits_law: "lo < hi \<Longrightarrow> hi \<le> 8 \<Longrightarrow> get_bits X b lo hi = take_bit (hi - lo) (drop_bit lo b)"

locale num_enum_crate =
  fixes X :: crates
  assumes CommandType_from_repr: "CommandType_from X (CommandType_repr c) = c"
    and CommandType_from_default:
      "n \<notin> range CommandType_repr \<Longrightarrow> CommandType_from X n = CommandType.Invalid"
    and MailboxType_from_repr: "MailboxType_from X (MailboxType_repr m) = m"
    and MailboxType_from_default:
      "n8 \<notin> range MailboxType_repr \<Longrightarrow> MailboxType_from X n8 = MailboxType.Other"
    and MailboxErrorDetail_from_repr: "MailboxErrorDetail_from X (MailboxErrorDetail_repr e) = e"
    and MailboxErrorDetail_from_default: "n16 \<notin> range MailboxErrorDetail_repr \<Longrightarrow>
      MailboxErrorDetail_from X n16 = MailboxErrorDetail.Unspecified"
    and CoeServiceType_from_repr: "CoeServiceType_from X (CoeServiceType_repr s) = s"
    and CoeServiceType_from_default:
      "n8 \<notin> range CoeServiceType_repr \<Longrightarrow> CoeServiceType_from X n8 = CoeServiceType.Other"
    and AbortCode_from_repr: "AbortCode_from X (AbortCode_repr a) = a"
    and AbortCode_from_default:
      "n32 \<notin> range AbortCode_repr \<Longrightarrow> AbortCode_from X n32 = AbortCode.UnknownAbortCode"
    and AlStatusCode_try_from_repr: "AlStatusCode_try_from X (AlStatusCode_repr l) = Some l"
    and AlStatusCode_try_from_none:
      "n16 \<notin> range AlStatusCode_repr \<Longrightarrow> AlStatusCode_try_from X n16 = None"

locale crates_laws = bitfield_crate X + bit_field_crate X + num_enum_crate X for X :: crates

section \<open>An implementation of the laws\<close>

definition find_variant :: "('v \<Rightarrow> 'n) \<Rightarrow> 'v list \<Rightarrow> 'n \<Rightarrow> 'v option" where
  "find_variant repr vs n = find (\<lambda>v. repr v = n) vs"

lemma find_variant_repr:
  assumes "distinct (map repr vs)" and "v \<in> set vs"
  shows "find_variant repr vs (repr v) = Some v"
  using assms by (induction vs) (auto simp: find_variant_def image_iff)

lemma find_variant_none: "n \<notin> range repr \<Longrightarrow> find_variant repr vs n = None"
  by (auto simp: find_variant_def find_None_iff)

definition ref_crates :: crates where
  "ref_crates =
     \<lparr>bf_range = (\<lambda>d m l. if m < 8 * length d then Some (field d m l) else None),
      bf_set_range = (\<lambda>d m l v. if m < 8 * length d then Some (set_field d m l v) else None),
      bf_bit = (\<lambda>d i. if i < 8 * length d then Some (bit_at d i) else None),
      bf_set_bit = (\<lambda>d i b. if i < 8 * length d then Some (set_field d i i (of_bool b)) else None),
      bf_range_msb0 = (\<lambda>d m l. if m < 8 * length d then Some (field_msb0 d m l) else None),
      bf_set_range_msb0 =
        (\<lambda>d m l v. if m < 8 * length d then Some (set_field_msb0 d m l v) else None),
      get_bit = bit,
      get_bits = (\<lambda>b lo hi. take_bit (hi - lo) (drop_bit lo b)),
      CommandType_from = (\<lambda>n. case find_variant CommandType_repr CommandType_variants n of
        Some v \<Rightarrow> v | None \<Rightarrow> CommandType.Invalid),
      MailboxType_from = (\<lambda>n. case find_variant MailboxType_repr MailboxType_variants n of
        Some v \<Rightarrow> v | None \<Rightarrow> MailboxType.Other),
      MailboxErrorDetail_from =
        (\<lambda>n. case find_variant MailboxErrorDetail_repr MailboxErrorDetail_variants n of
          Some v \<Rightarrow> v | None \<Rightarrow> MailboxErrorDetail.Unspecified),
      CoeServiceType_from = (\<lambda>n. case find_variant CoeServiceType_repr CoeServiceType_variants n of
        Some v \<Rightarrow> v | None \<Rightarrow> CoeServiceType.Other),
      AbortCode_from = (\<lambda>n. case find_variant AbortCode_repr AbortCode_variants n of
        Some v \<Rightarrow> v | None \<Rightarrow> AbortCode.UnknownAbortCode),
      AlStatusCode_try_from = find_variant AlStatusCode_repr AlStatusCode_variants\<rparr>"

lemma CommandType_variants_complete: "c \<in> set CommandType_variants"
  by (cases c) (simp_all add: CommandType_variants_def)

lemma MailboxType_variants_complete: "m \<in> set MailboxType_variants"
  by (cases m) (simp_all add: MailboxType_variants_def)

lemma MailboxErrorDetail_variants_complete: "e \<in> set MailboxErrorDetail_variants"
  by (cases e) (simp_all add: MailboxErrorDetail_variants_def)

lemma CoeServiceType_variants_complete: "s \<in> set CoeServiceType_variants"
  by (cases s) (simp_all add: CoeServiceType_variants_def)

lemma AbortCode_variants_complete: "a \<in> set AbortCode_variants"
  by (cases a) (simp_all add: AbortCode_variants_def)

lemma AlStatusCode_variants_complete: "l \<in> set AlStatusCode_variants"
  by (cases l) (simp_all add: AlStatusCode_variants_def)

lemmas variants_complete = CommandType_variants_complete MailboxType_variants_complete
  MailboxErrorDetail_variants_complete CoeServiceType_variants_complete
  AbortCode_variants_complete AlStatusCode_variants_complete

lemma repr_distinct:
  "distinct (map CommandType_repr CommandType_variants)"
  "distinct (map MailboxType_repr MailboxType_variants)"
  "distinct (map MailboxErrorDetail_repr MailboxErrorDetail_variants)"
  "distinct (map CoeServiceType_repr CoeServiceType_variants)"
  "distinct (map AbortCode_repr AbortCode_variants)"
  "distinct (map AlStatusCode_repr AlStatusCode_variants)"
  by (simp_all add: CommandType_variants_def MailboxType_variants_def
    MailboxErrorDetail_variants_def CoeServiceType_variants_def AbortCode_variants_def
    AlStatusCode_variants_def)

lemma ref_bitfield: "bitfield_crate ref_crates"
proof (unfold_locales, goal_cases)
  case (1 lsb msb d)
  then show ?case
    by (intro exI [of _ "field d msb lsb"]) (auto simp: ref_crates_def field_less bit_field)
next
  case (8 lsb msb d)
  have "field_msb0 d msb lsb < 2 ^ length (rev (map (bit_at_msb0 d) [lsb..<Suc msb]))"
    unfolding field_msb0_def by (rule of_bits_less)
  with 8 show ?case
    by (intro exI [of _ "field_msb0 d msb lsb"])
      (auto simp: ref_crates_def bit_field_msb0 simp del: upt_Suc)
qed (auto simp: ref_crates_def bit_at_set_field bit_at_msb0_set_field_msb0 bit_0)

lemma ref_bit_field: "bit_field_crate ref_crates"
  by unfold_locales (simp_all add: ref_crates_def)

lemma ref_num_enum: "num_enum_crate ref_crates"
  by unfold_locales
    (simp_all add: ref_crates_def find_variant_repr repr_distinct variants_complete
      find_variant_none)

interpretation ref: crates_laws ref_crates
  by (intro crates_laws.intro ref_bitfield ref_bit_field ref_num_enum)

lemma ref_crates_laws: "crates_laws ref_crates"
  by (fact ref.crates_laws_axioms)

end
