(* ===== verification/Frame.thy ===== *)
theory Frame
  imports Crates
begin

text \<open>
  \<open>src/src/frame/ethercat.rs\<close> (the Ethernet, EtherCAT and PDU headers) and
  \<open>src/src/frame/frame_util.rs\<close> (building a frame command by command, iterating over its PDUs).

  A PDU in a buffer is a \<^emph>\<open>chunk\<close>: ten header bytes, the data, two bytes of working counter; its
  length field counts the data. The library lemmas describe a buffer as a concatenation of
  chunks: iterating over it gives the chunks back (\<open>pdus_collect_chunks\<close>), and \<open>add_command\<close>
  appends one (\<open>add_command_chunks\<close>).
\<close>

section \<open>Constants and header fields\<close>

definition DST_MAC :: u64 where [simp]: "DST_MAC = 0xFFFFFFFFFFFF"
definition SRC_MAC :: u64 where [simp]: "SRC_MAC = 0x050505050505"
definition WKC_LENGTH :: nat where [simp]: "WKC_LENGTH = 2"
definition ETHERCAT_TYPE :: u16 where [simp]: "ETHERCAT_TYPE = 0x88A4"
definition ETHERNET_FRAME_SIZE_WITHOUT_FCS :: nat where [simp]: "ETHERNET_FRAME_SIZE_WITHOUT_FCS = 1514"

definition EthernetFrame_HEADER_SIZE :: nat where [simp]: "EthernetFrame_HEADER_SIZE = 14"
definition EtherCatFrame_HEADER_SIZE :: nat where [simp]: "EtherCatFrame_HEADER_SIZE = 2"
definition EtherCatPdu_HEADER_SIZE :: nat where [simp]: "EtherCatPdu_HEADER_SIZE = 10"

definition MAX_ETHERCAT_DATAGRAM :: nat where
  [simp]: "MAX_ETHERCAT_DATAGRAM =
     ETHERNET_FRAME_SIZE_WITHOUT_FCS - EthernetFrame_HEADER_SIZE - EtherCatFrame_HEADER_SIZE"

definition MAX_PDU_DATAGRAM :: nat where
  [simp]: "MAX_PDU_DATAGRAM = MAX_ETHERCAT_DATAGRAM - EtherCatPdu_HEADER_SIZE - WKC_LENGTH"

definition EthernetFrame_source :: "crates \<Rightarrow> bytes \<Rightarrow> u64 rust" where
  "EthernetFrame_source X d = do { v \<leftarrow> bf_range_msb0 X d 95 48; ret (of_nat v) }"

definition EthernetFrame_ether_type :: "crates \<Rightarrow> bytes \<Rightarrow> u16 rust" where
  "EthernetFrame_ether_type X d = do { v \<leftarrow> bf_range_msb0 X d 111 96; ret (of_nat v) }"

definition set_ethercat_default :: "crates \<Rightarrow> bytes \<Rightarrow> bytes rust" where
  "set_ethercat_default X d = do {
     d \<leftarrow> bf_set_range_msb0 X d 47 0 (unat DST_MAC);
     d \<leftarrow> bf_set_range_msb0 X d 95 48 (unat SRC_MAC);
     bf_set_range_msb0 X d 111 96 (unat ETHERCAT_TYPE) }"

definition EtherCatFrame_length :: "crates \<Rightarrow> bytes \<Rightarrow> u16 rust" where
  "EtherCatFrame_length X d = get_field X d 10 0"

definition EtherCatFrame_set_length :: "crates \<Rightarrow> bytes \<Rightarrow> u16 \<Rightarrow> bytes rust" where
  "EtherCatFrame_set_length X d v = put_field X d 10 0 v"

definition EtherCatFrame_set_ethercat_type :: "crates \<Rightarrow> bytes \<Rightarrow> u8 \<Rightarrow> bytes rust" where
  "EtherCatFrame_set_ethercat_type X d v = put_field X d 15 12 v"

definition EtherCatPdu_command_type :: "crates \<Rightarrow> bytes \<Rightarrow> u8 rust" where
  "EtherCatPdu_command_type X d = get_field X d 7 0"

definition EtherCatPdu_set_command_type :: "crates \<Rightarrow> bytes \<Rightarrow> u8 \<Rightarrow> bytes rust" where
  "EtherCatPdu_set_command_type X d v = put_field X d 7 0 v"

definition EtherCatPdu_index :: "crates \<Rightarrow> bytes \<Rightarrow> u8 rust" where
  "EtherCatPdu_index X d = get_field X d 15 8"

definition EtherCatPdu_set_index :: "crates \<Rightarrow> bytes \<Rightarrow> u8 \<Rightarrow> bytes rust" where
  "EtherCatPdu_set_index X d v = put_field X d 15 8 v"

definition EtherCatPdu_adp :: "crates \<Rightarrow> bytes \<Rightarrow> u16 rust" where
  "EtherCatPdu_adp X d = get_field X d 31 16"

definition EtherCatPdu_set_adp :: "crates \<Rightarrow> bytes \<Rightarrow> u16 \<Rightarrow> bytes rust" where
  "EtherCatPdu_set_adp X d v = put_field X d 31 16 v"

definition EtherCatPdu_ado :: "crates \<Rightarrow> bytes \<Rightarrow> u16 rust" where
  "EtherCatPdu_ado X d = get_field X d 47 32"

definition EtherCatPdu_set_ado :: "crates \<Rightarrow> bytes \<Rightarrow> u16 \<Rightarrow> bytes rust" where
  "EtherCatPdu_set_ado X d v = put_field X d 47 32 v"

definition EtherCatPdu_length :: "crates \<Rightarrow> bytes \<Rightarrow> u16 rust" where
  "EtherCatPdu_length X d = get_field X d 58 48"

definition EtherCatPdu_set_length :: "crates \<Rightarrow> bytes \<Rightarrow> u16 \<Rightarrow> bytes rust" where
  "EtherCatPdu_set_length X d v = put_field X d 58 48 v"

definition EtherCatPdu_set_is_circulated :: "crates \<Rightarrow> bytes \<Rightarrow> bool \<Rightarrow> bytes rust" where
  "EtherCatPdu_set_is_circulated X d b = bf_set_bit X d 62 b"

definition EtherCatPdu_has_next :: "crates \<Rightarrow> bytes \<Rightarrow> bool rust" where
  "EtherCatPdu_has_next X d = bf_bit X d 63"

definition EtherCatPdu_set_has_next :: "crates \<Rightarrow> bytes \<Rightarrow> bool \<Rightarrow> bytes rust" where
  "EtherCatPdu_set_has_next X d b = bf_set_bit X d 63 b"

definition EtherCatPdu_set_irq :: "crates \<Rightarrow> bytes \<Rightarrow> u16 \<Rightarrow> bytes rust" where
  "EtherCatPdu_set_irq X d v = put_field X d 79 64 v"

definition EtherCatPdu_wkc :: "crates \<Rightarrow> bytes \<Rightarrow> u16 option rust" where
  "EtherCatPdu_wkc X d = do {
     len \<leftarrow> EtherCatPdu_length X d;
     ret (do {
       low \<leftarrow> get d (EtherCatPdu_HEADER_SIZE + unat len);
       high \<leftarrow> get d (EtherCatPdu_HEADER_SIZE + unat len + 1);
       Some (push_bit 8 (ucast high) OR ucast low) }) }"

definition EtherCatPdu_without_header :: "bytes \<Rightarrow> bytes rust" where
  "EtherCatPdu_without_header d = slice_from EtherCatPdu_HEADER_SIZE d"

lemmas frame_field_defs = EtherCatFrame_length_def EtherCatFrame_set_length_def
  EtherCatFrame_set_ethercat_type_def EtherCatPdu_command_type_def
  EtherCatPdu_set_command_type_def EtherCatPdu_index_def EtherCatPdu_set_index_def
  EtherCatPdu_adp_def EtherCatPdu_set_adp_def EtherCatPdu_ado_def EtherCatPdu_set_ado_def
  EtherCatPdu_length_def EtherCatPdu_set_length_def EtherCatPdu_set_is_circulated_def
  EtherCatPdu_has_next_def EtherCatPdu_set_has_next_def EtherCatPdu_set_irq_def

section \<open>Iterating over the PDUs of a buffer\<close>

text \<open>The iterators \<open>EtherCatPduIndexes\<close> and \<open>EtherCatPdus\<close> have the same three fields.\<close>

record EtherCatPdus =
  it_buffer :: bytes
  it_offset :: nat
  it_length :: nat

definition EtherCatPdus_new :: "bytes \<Rightarrow> nat \<Rightarrow> nat \<Rightarrow> EtherCatPdus" where
  "EtherCatPdus_new buffer len frame_header_size =
     \<lparr>it_buffer = buffer, it_offset = frame_header_size, it_length = len\<rparr>"

definition EtherCatPdus_new_for_ethercat_frame :: "bytes \<Rightarrow> nat \<Rightarrow> EtherCatPdus" where
  "EtherCatPdus_new_for_ethercat_frame buffer len =
     EtherCatPdus_new buffer len (EtherCatFrame_HEADER_SIZE + EthernetFrame_HEADER_SIZE)"

definition EtherCatPduIndexes_next ::
    "crates \<Rightarrow> EtherCatPdus \<Rightarrow> (nat option \<times> EtherCatPdus) rust" where
  "EtherCatPduIndexes_next X it =
     (if get (it_buffer it) (it_offset it) = None then ret (None, it)
      else do {
        rest \<leftarrow> slice_from (it_offset it) (it_buffer it);
        if get rest (EtherCatPdu_HEADER_SIZE - 1) = None then ret (None, it)
        else do {
          len \<leftarrow> EtherCatPdu_length X rest;
          if len = 0 then ret (None, it)
          else if it_offset it < it_length it then
            ret (Some (it_offset it),
                 it\<lparr>it_offset := it_offset it + EtherCatPdu_HEADER_SIZE + unat len + WKC_LENGTH\<rparr>)
          else ret (None, it) } })"

definition EtherCatPdus_next ::
    "crates \<Rightarrow> EtherCatPdus \<Rightarrow> (bytes option \<times> EtherCatPdus) rust" where
  "EtherCatPdus_next X it =
     (if get (it_buffer it) (it_offset it) = None then ret (None, it)
      else do {
        rest \<leftarrow> slice_from (it_offset it) (it_buffer it);
        if get rest (EtherCatPdu_HEADER_SIZE - 1) = None then ret (None, it)
        else do {
          len \<leftarrow> EtherCatPdu_length X rest;
          if len = 0 then ret (None, it)
          else if it_offset it < it_length it then do {
            let start = it_offset it;
            let offset = it_offset it + EtherCatPdu_HEADER_SIZE + unat len + WKC_LENGTH;
            pdu \<leftarrow> slice start offset (it_buffer it);
            ret (Some pdu, it\<lparr>it_offset := offset\<rparr>) }
          else ret (None, it) } })"

lemma EtherCatPduIndexes_next_progress:
  "EtherCatPduIndexes_next X it = Some (Some i, it') \<Longrightarrow>
     it_buffer it' = it_buffer it \<and> it_offset it < length (it_buffer it) \<and>
     it_offset it < it_offset it'"
  by (auto simp: EtherCatPduIndexes_next_def get_def bind_eq_Some_conv split: if_splits)

lemma EtherCatPdus_next_progress:
  "EtherCatPdus_next X it = Some (Some p, it') \<Longrightarrow>
     it_buffer it' = it_buffer it \<and> it_offset it < length (it_buffer it) \<and>
     it_offset it < it_offset it'"
  by (auto simp: EtherCatPdus_next_def get_def bind_eq_Some_conv Let_def split: if_splits)

text \<open>Running an iterator to its end, as \<open>for pdu in pdus\<close> and \<open>indexes.last()\<close> do.\<close>

function indexes_collect :: "crates \<Rightarrow> EtherCatPdus \<Rightarrow> nat list rust" where
  "indexes_collect X it =
     (case EtherCatPduIndexes_next X it of
        None \<Rightarrow> panic
      | Some (None, _) \<Rightarrow> ret []
      | Some (Some i, it') \<Rightarrow> map_option ((#) i) (indexes_collect X it'))"
  by pat_completeness auto
termination
  by (relation "measure (\<lambda>(X, it). length (it_buffer it) - it_offset it)")
    (auto dest!: EtherCatPduIndexes_next_progress)

function pdus_collect :: "crates \<Rightarrow> EtherCatPdus \<Rightarrow> bytes list rust" where
  "pdus_collect X it =
     (case EtherCatPdus_next X it of
        None \<Rightarrow> panic
      | Some (None, _) \<Rightarrow> ret []
      | Some (Some p, it') \<Rightarrow> map_option ((#) p) (pdus_collect X it'))"
  by pat_completeness auto
termination
  by (relation "measure (\<lambda>(X, it). length (it_buffer it) - it_offset it)")
    (auto dest!: EtherCatPdus_next_progress)

declare indexes_collect.simps [simp del] pdus_collect.simps [simp del]

section \<open>Building a frame\<close>

record EtherCatFrameUtil =
  fu_buffer :: bytes
  fu_free_offset :: nat
  fu_index :: u8

definition EtherCatFrameUtil_new :: "crates \<Rightarrow> bytes \<Rightarrow> EtherCatFrameUtil option rust" where
  "EtherCatFrameUtil_new X buffer =
     (let header_length = EtherCatFrame_HEADER_SIZE + EthernetFrame_HEADER_SIZE in
      if length buffer < header_length then ret None
      else do {
        ec_packet \<leftarrow> slice_from EthernetFrame_HEADER_SIZE buffer;
        len \<leftarrow> EtherCatFrame_length X ec_packet;
        ret (Some \<lparr>fu_buffer = buffer, fu_free_offset = header_length + unat len, fu_index = 0\<rparr>) })"

definition EtherCatFrameUtil_new_unchecked :: "crates \<Rightarrow> bytes \<Rightarrow> EtherCatFrameUtil rust" where
  "EtherCatFrameUtil_new_unchecked X buffer = do {
     let header_length = EtherCatFrame_HEADER_SIZE + EthernetFrame_HEADER_SIZE;
     ec_packet \<leftarrow> slice_from EthernetFrame_HEADER_SIZE buffer;
     len \<leftarrow> EtherCatFrame_length X ec_packet;
     ret \<lparr>fu_buffer = buffer, fu_free_offset = header_length + unat len, fu_index = 0\<rparr> }"

definition dlpdu_indexes :: "crates \<Rightarrow> EtherCatFrameUtil \<Rightarrow> nat list rust" where
  "dlpdu_indexes X u =
     indexes_collect X (EtherCatPdus_new_for_ethercat_frame (fu_buffer u) (length (fu_buffer u)))"

definition dlpdus :: "crates \<Rightarrow> EtherCatFrameUtil \<Rightarrow> bytes list rust" where
  "dlpdus X u =
     pdus_collect X (EtherCatPdus_new_for_ethercat_frame (fu_buffer u) (length (fu_buffer u)))"

definition fu_init :: "crates \<Rightarrow> EtherCatFrameUtil \<Rightarrow> EtherCatFrameUtil rust" where
  "fu_init X u = do {
     let b = replicate (length (fu_buffer u)) 0;
     b \<leftarrow> set_ethercat_default X b;
     b \<leftarrow> update_from EthernetFrame_HEADER_SIZE (\<lambda>e. do {
            e \<leftarrow> EtherCatFrame_set_length X e 0;
            EtherCatFrame_set_ethercat_type X e 1 }) b;
     ret \<lparr>fu_buffer = b,
          fu_free_offset = EthernetFrame_HEADER_SIZE + EtherCatFrame_HEADER_SIZE,
          fu_index = 0\<rparr> }"

text \<open>\<open>add_command\<close> in its four steps: the flag of the previous PDU, the header, the frame length.\<close>

definition mark_previous :: "crates \<Rightarrow> EtherCatFrameUtil \<Rightarrow> bytes rust" where
  "mark_previous X u = do {
     is \<leftarrow> dlpdu_indexes X u;
     if is = [] then ret (fu_buffer u)
     else do {
       let pre = last is;
       rest \<leftarrow> slice_from pre (fu_buffer u);
       if get rest (EtherCatPdu_HEADER_SIZE - 1) \<noteq> None
       then update_from pre (\<lambda>r. EtherCatPdu_set_has_next X r True) (fu_buffer u)
       else ret (fu_buffer u) } }"

definition write_pdu_header ::
    "crates \<Rightarrow> CommandType \<Rightarrow> u16 \<Rightarrow> u16 \<Rightarrow> u8 \<Rightarrow> nat \<Rightarrow> bytes \<Rightarrow> bytes rust" where
  "write_pdu_header X command adp ado idx data_len p = do {
     p \<leftarrow> EtherCatPdu_set_command_type X p (CommandType_repr command);
     p \<leftarrow> EtherCatPdu_set_adp X p adp;
     p \<leftarrow> EtherCatPdu_set_ado X p ado;
     p \<leftarrow> EtherCatPdu_set_index X p idx;
     p \<leftarrow> EtherCatPdu_set_is_circulated X p False;
     p \<leftarrow> EtherCatPdu_set_has_next X p False;
     p \<leftarrow> EtherCatPdu_set_irq X p 0;
     EtherCatPdu_set_length X p (of_nat data_len) }"

definition extend_frame_length :: "crates \<Rightarrow> nat \<Rightarrow> bytes \<Rightarrow> bytes rust" where
  "extend_frame_length X dlpdu_len e = do {
     ec_frame_len \<leftarrow> EtherCatFrame_length X e;
     let datagrams_length = unat ec_frame_len + dlpdu_len;
     EtherCatFrame_set_length X e (of_nat datagrams_length) }"

definition add_command ::
    "crates \<Rightarrow> EtherCatFrameUtil \<Rightarrow> CommandType \<Rightarrow> u16 \<Rightarrow> u16 \<Rightarrow> bytes \<Rightarrow> u8 option \<Rightarrow>
       (bool \<times> EtherCatFrameUtil) rust" where
  "add_command X u command adp ado data idx = do {
     let data_len = length data;
     let dlpdu_len = data_len + EtherCatPdu_HEADER_SIZE + WKC_LENGTH;
     room \<leftarrow> nsub (length (fu_buffer u)) (fu_free_offset u);
     if dlpdu_len > room then ret (False, u)
     else do {
       b \<leftarrow> mark_previous X u;
       b \<leftarrow> update_from (fu_free_offset u)
              (write_pdu_header X command adp ado
                (case idx of Some i \<Rightarrow> i | None \<Rightarrow> fu_index u) data_len) b;
       b \<leftarrow> write_at (fu_free_offset u + EtherCatPdu_HEADER_SIZE) data b;
       b \<leftarrow> store b (fu_free_offset u + EtherCatPdu_HEADER_SIZE + data_len) 0;
       b \<leftarrow> store b (fu_free_offset u + EtherCatPdu_HEADER_SIZE + data_len + 1) 0;
       b \<leftarrow> update_from EthernetFrame_HEADER_SIZE (extend_frame_length X dlpdu_len) b;
       ret (True, u\<lparr>fu_buffer := b, fu_free_offset := fu_free_offset u + dlpdu_len\<rparr>) } }"

end
