(* ===== verification/Frame_Layout.thy ===== *)
theory Frame_Layout
  imports Frame
begin

text \<open>
  The layout of PDUs in a buffer. A chunk is well formed when its length is the one its length
  field promises. The iterators of \<open>frame_util.rs\<close> recover the chunks of a concatenation, and
  \<open>add_command\<close> appends the chunk of the command; what a chunk carries is its \<open>pdu_view\<close>.
\<close>

section \<open>Chunks\<close>

definition chunk_data_len :: "bytes \<Rightarrow> nat" where
  "chunk_data_len c = field c 58 48"

definition wf_chunk :: "bytes \<Rightarrow> bool" where
  "wf_chunk c \<longleftrightarrow> 0 < chunk_data_len c \<and> length c = chunk_data_len c + 12"

record pdu_content =
  pv_command :: u8
  pv_index :: u8
  pv_adp :: u16
  pv_ado :: u16
  pv_data :: bytes
  pv_wkc :: u16

definition pdu_view :: "bytes \<Rightarrow> pdu_content" where
  "pdu_view c =
     \<lparr>pv_command = of_nat (field c 7 0), pv_index = of_nat (field c 15 8),
      pv_adp = of_nat (field c 31 16), pv_ado = of_nat (field c 47 32),
      pv_data = take (chunk_data_len c) (drop 10 c),
      pv_wkc = push_bit 8 (ucast (c ! (11 + chunk_data_len c))) OR ucast (c ! (10 + chunk_data_len c))\<rparr>"

definition chunk_has_next :: "bytes \<Rightarrow> bool" where
  "chunk_has_next c = bit_at c 63"

text \<open>Where iteration stops by itself: at the end, before a partial header, or at a zero length.\<close>

definition stops :: "bytes \<Rightarrow> bool" where
  "stops r \<longleftrightarrow> length r < 10 \<or> field r 58 48 = 0"

fun chunk_offsets :: "nat \<Rightarrow> bytes list \<Rightarrow> nat list" where
  "chunk_offsets k [] = []"
| "chunk_offsets k (c # cs) = k # chunk_offsets (k + length c) cs"

lemma wf_chunk_length: "wf_chunk c \<Longrightarrow> 12 < length c"
  by (simp add: wf_chunk_def)

lemma wf_chunk_append_len: "wf_chunk c \<Longrightarrow> field (c @ r) 58 48 = chunk_data_len c"
  using wf_chunk_length [of c] by (simp add: chunk_data_len_def field_append)

lemma unat_of_nat_len [simp]: "unat (of_nat (field d 58 48) :: u16) = field d 58 48"
  by (rule unat_of_nat_field) simp

lemma of_nat_len_eq_0 [simp]: "(of_nat (field d 58 48) :: u16) = 0 \<longleftrightarrow> field d 58 48 = 0"
  by (metis unat_of_nat_len unat_eq_zero)

lemma length_concat_offsets: "length (chunk_offsets k cs) = length cs"
  by (induction cs arbitrary: k) auto

lemma last_chunk_offsets: "last (chunk_offsets k (cs @ [c])) = k + length (concat cs)"
proof (induction cs arbitrary: k)
  case (Cons a cs)
  have "chunk_offsets (k + length a) (cs @ [c]) \<noteq> []"
    by (metis length_concat_offsets length_greater_0_conv snoc_eq_iff_butlast)
  with Cons.IH [of "k + length a"] show ?case by simp
qed simp

context bitfield_crate
begin

lemma pdu_length_eq:
  "EtherCatPdu_length X d = (if 58 < 8 * length d then Some (of_nat (field d 58 48)) else None)"
  by (simp add: EtherCatPdu_length_def get_field_eq)

lemma pdus_next_chunk:
  assumes "wf_chunk c" and "length pre < L"
  shows "EtherCatPdus_next X \<lparr>it_buffer = pre @ c @ r, it_offset = length pre, it_length = L\<rparr> =
    Some (Some c, \<lparr>it_buffer = pre @ c @ r, it_offset = length pre + length c, it_length = L\<rparr>)"
proof -
  have "length pre + 10 + field (c @ r) 58 48 + 2 = length pre + length c"
    and "field (c @ r) 58 48 \<noteq> 0" and "c \<noteq> []"
    using assms(1) by (auto simp: wf_chunk_append_len wf_chunk_def)
  with assms wf_chunk_length [OF assms(1)] show ?thesis
    by (simp add: EtherCatPdus_next_def rust_simps pdu_length_eq nth_append)
qed

lemma indexes_next_chunk:
  assumes "wf_chunk c" and "length pre < L"
  shows "EtherCatPduIndexes_next X \<lparr>it_buffer = pre @ c @ r, it_offset = length pre, it_length = L\<rparr> =
    Some (Some (length pre), \<lparr>it_buffer = pre @ c @ r, it_offset = length pre + length c, it_length = L\<rparr>)"
proof -
  have "length pre + 10 + field (c @ r) 58 48 + 2 = length pre + length c"
    and "field (c @ r) 58 48 \<noteq> 0" and "c \<noteq> []"
    using assms(1) by (auto simp: wf_chunk_append_len wf_chunk_def)
  with assms wf_chunk_length [OF assms(1)] show ?thesis
    by (simp add: EtherCatPduIndexes_next_def rust_simps pdu_length_eq nth_append)
qed

lemma pdus_next_stop:
  assumes "stops r \<or> L \<le> length pre"
  shows "EtherCatPdus_next X \<lparr>it_buffer = pre @ r, it_offset = length pre, it_length = L\<rparr> =
    Some (None, \<lparr>it_buffer = pre @ r, it_offset = length pre, it_length = L\<rparr>)"
  using assms by (auto simp: EtherCatPdus_next_def rust_simps pdu_length_eq stops_def)

lemma indexes_next_stop:
  assumes "stops r \<or> L \<le> length pre"
  shows "EtherCatPduIndexes_next X \<lparr>it_buffer = pre @ r, it_offset = length pre, it_length = L\<rparr> =
    Some (None, \<lparr>it_buffer = pre @ r, it_offset = length pre, it_length = L\<rparr>)"
  using assms by (auto simp: EtherCatPduIndexes_next_def rust_simps pdu_length_eq stops_def)

lemma pdus_collect_chunks:
  assumes "\<forall>c \<in> set cs. wf_chunk c" and "length pre + length (concat cs) \<le> L"
    and "stops r \<or> L = length pre + length (concat cs)"
  shows "pdus_collect X \<lparr>it_buffer = pre @ concat cs @ r, it_offset = length pre, it_length = L\<rparr> = Some cs"
  using assms
proof (induction cs arbitrary: pre)
  case Nil
  then show ?case
    by (subst pdus_collect.simps) (auto simp: pdus_next_stop)
next
  case (Cons c cs)
  then have c: "wf_chunk c" "length pre < L"
    using wf_chunk_length [of c] by auto
  have "pdus_collect X \<lparr>it_buffer = (pre @ c) @ concat cs @ r, it_offset = length (pre @ c), it_length = L\<rparr>
      = Some cs"
    by (rule Cons.IH) (use Cons.prems in auto)
  then show ?case
    using pdus_next_chunk [OF c, of "concat cs @ r"] by (subst pdus_collect.simps) simp
qed

lemma indexes_collect_chunks:
  assumes "\<forall>c \<in> set cs. wf_chunk c" and "length pre + length (concat cs) \<le> L"
    and "stops r \<or> L = length pre + length (concat cs)"
  shows "indexes_collect X \<lparr>it_buffer = pre @ concat cs @ r, it_offset = length pre, it_length = L\<rparr> =
    Some (chunk_offsets (length pre) cs)"
  using assms
proof (induction cs arbitrary: pre)
  case Nil
  then show ?case
    by (subst indexes_collect.simps) (auto simp: indexes_next_stop)
next
  case (Cons c cs)
  then have c: "wf_chunk c" "length pre < L"
    using wf_chunk_length [of c] by auto
  have "indexes_collect X \<lparr>it_buffer = (pre @ c) @ concat cs @ r, it_offset = length (pre @ c), it_length = L\<rparr>
      = Some (chunk_offsets (length (pre @ c)) cs)"
    by (rule Cons.IH) (use Cons.prems in auto)
  then show ?case
    using indexes_next_chunk [OF c, of "concat cs @ r"] by (subst indexes_collect.simps) simp
qed

text \<open>The accessors of a PDU read its view.\<close>

lemma pdu_accessors:
  assumes "wf_chunk c"
  shows "EtherCatPdu_command_type X c = Some (pv_command (pdu_view c))"
    and "EtherCatPdu_index X c = Some (pv_index (pdu_view c))"
    and "EtherCatPdu_adp X c = Some (pv_adp (pdu_view c))"
    and "EtherCatPdu_ado X c = Some (pv_ado (pdu_view c))"
    and "EtherCatPdu_length X c = Some (of_nat (chunk_data_len c))"
    and "EtherCatPdu_has_next X c = Some (chunk_has_next c)"
    and "EtherCatPdu_wkc X c = Some (Some (pv_wkc (pdu_view c)))"
  using assms wf_chunk_length [OF assms]
  by (simp_all add: frame_field_defs bitfield_eqs pdu_view_def chunk_data_len_def
    chunk_has_next_def EtherCatPdu_wkc_def wf_chunk_def rust_simps add.commute)

end

lemma wf_chunk_data: "wf_chunk c \<Longrightarrow> length (pv_data (pdu_view c)) = chunk_data_len c"
  by (simp add: pdu_view_def wf_chunk_def)

section \<open>The chunk of a command\<close>

definition pdu_header :: "CommandType \<Rightarrow> u16 \<Rightarrow> u16 \<Rightarrow> u8 \<Rightarrow> nat \<Rightarrow> bytes" where
  "pdu_header command adp ado idx data_len =
     set_field (set_field (set_field (set_field (set_field (set_field (set_field
       (set_field (replicate 10 0) 7 0 (unat (CommandType_repr command)))
         31 16 (unat adp)) 47 32 (unat ado)) 15 8 (unat idx)) 62 62 0) 63 63 0) 79 64 0)
       58 48 (unat (of_nat data_len :: u16))"

definition command_chunk :: "CommandType \<Rightarrow> u16 \<Rightarrow> u16 \<Rightarrow> u8 \<Rightarrow> bytes \<Rightarrow> bytes" where
  "command_chunk command adp ado idx data =
     pdu_header command adp ado idx (length data) @ data @ [0, 0]"

definition mark_next :: "bytes \<Rightarrow> bytes" where
  "mark_next c = set_field c 63 63 1"

definition mark_last :: "bytes list \<Rightarrow> bytes list" where
  "mark_last cs = (if cs = [] then [] else butlast cs @ [mark_next (last cs)])"

lemma length_pdu_header [simp]: "length (pdu_header command adp ado idx n) = 10"
  by (simp add: pdu_header_def)

lemma length_command_chunk [simp]: "length (command_chunk command adp ado idx data) = length data + 12"
  by (simp add: command_chunk_def)

lemma take_bit_unat_self [simp]: "take_bit 16 (unat (w :: u16)) = unat w"
    "take_bit 8 (unat (b :: u8)) = unat b"
  using unsigned_less [of w, where ?'a = nat] unsigned_less [of b, where ?'a = nat]
  by (simp_all add: take_bit_nat_eq_self_iff)

lemma chunk_data_len_command_chunk:
  assumes "length data < 2048"
  shows "chunk_data_len (command_chunk command adp ado idx data) = length data"
proof -
  have "unat (of_nat (length data) :: u16) = length data"
    using assms by (simp add: unat_of_nat)
  moreover have "take_bit 11 (length data) = length data"
    using assms by (simp add: take_bit_nat_eq_self_iff)
  ultimately show ?thesis
    by (simp add: chunk_data_len_def command_chunk_def pdu_header_def field_simps_bytes)
qed

lemma wf_command_chunk:
  "data \<noteq> [] \<Longrightarrow> length data < 2048 \<Longrightarrow> wf_chunk (command_chunk command adp ado idx data)"
  by (simp add: wf_chunk_def chunk_data_len_command_chunk)

lemma pdu_view_command_chunk:
  assumes "length data < 2048"
  shows "pdu_view (command_chunk command adp ado idx data) =
    \<lparr>pv_command = CommandType_repr command, pv_index = idx, pv_adp = adp, pv_ado = ado,
     pv_data = data, pv_wkc = 0\<rparr>"
proof -
  have "field (command_chunk command adp ado idx data) 7 0 = unat (CommandType_repr command)"
    and "field (command_chunk command adp ado idx data) 15 8 = unat idx"
    and "field (command_chunk command adp ado idx data) 31 16 = unat adp"
    and "field (command_chunk command adp ado idx data) 47 32 = unat ado"
    by (simp_all add: command_chunk_def pdu_header_def field_simps_bytes)
  moreover have "take (length data) (drop 10 (command_chunk command adp ado idx data)) = data"
    and "command_chunk command adp ado idx data ! (11 + length data) = 0"
    and "command_chunk command adp ado idx data ! (10 + length data) = 0"
    by (simp_all add: command_chunk_def nth_append)
  ultimately show ?thesis
    using assms by (simp add: pdu_view_def chunk_data_len_command_chunk)
qed

lemma mark_next_facts:
  assumes "wf_chunk c"
  shows "wf_chunk (mark_next c)" and "pdu_view (mark_next c) = pdu_view c"
    and "chunk_has_next (mark_next c)" and "length (mark_next c) = length c"
proof -
  note len = wf_chunk_length [OF assms]
  have fl: "field (mark_next c) m l = field c m l" if "m < 63" for m l
    using that len by (simp add: mark_next_def field_simps_bytes)
  have nth: "mark_next c ! j = c ! j" if "8 \<le> j" "j < length c" for j
    using that by (simp add: mark_next_def set_field_def)
  have drp: "drop 10 (mark_next c) = drop 10 c"
    by (rule nth_equalityI) (use nth in \<open>auto simp: mark_next_def\<close>)
  show l: "length (mark_next c) = length c"
    by (simp add: mark_next_def)
  show "wf_chunk (mark_next c)"
    using assms l by (simp add: wf_chunk_def chunk_data_len_def fl)
  have "11 + chunk_data_len c < length c" "10 + chunk_data_len c < length c"
    using assms by (auto simp: wf_chunk_def)
  then show "pdu_view (mark_next c) = pdu_view c"
    by (simp add: pdu_view_def chunk_data_len_def fl drp nth)
  show "chunk_has_next (mark_next c)"
    using len by (simp add: chunk_has_next_def mark_next_def bit_at_set_field bit_0)
qed

lemma mark_last_facts:
  assumes "\<forall>c \<in> set cs. wf_chunk c"
  shows "\<forall>c \<in> set (mark_last cs). wf_chunk c" and "map pdu_view (mark_last cs) = map pdu_view cs"
    and "map length (mark_last cs) = map length cs"
proof -
  have *: "(\<forall>c \<in> set (mark_last cs). wf_chunk c) \<and> map pdu_view (mark_last cs) = map pdu_view cs \<and>
    map length (mark_last cs) = map length cs"
    using assms by (cases cs rule: rev_cases) (auto simp: mark_last_def mark_next_facts)
  then show "\<forall>c \<in> set (mark_last cs). wf_chunk c" "map pdu_view (mark_last cs) = map pdu_view cs"
    "map length (mark_last cs) = map length cs"
    by simp_all
qed

section \<open>Frames made of chunks\<close>

definition frame_chunks :: "EtherCatFrameUtil \<Rightarrow> bytes \<Rightarrow> bytes list \<Rightarrow> nat \<Rightarrow> bool" where
  "frame_chunks u hdr cs n \<longleftrightarrow>
     fu_buffer u = hdr @ concat cs @ replicate n 0 \<and> length hdr = 16 \<and>
     (\<forall>c \<in> set cs. wf_chunk c) \<and> fu_free_offset u = 16 + length (concat cs) \<and>
     field (drop 14 hdr) 10 0 = length (concat cs)"

lemma stops_zeros: "stops (replicate n 0)"
  by (cases "n < 10") (simp_all add: stops_def field_replicate0)

lemma length_concat_mark_last:
  "\<forall>c \<in> set cs. wf_chunk c \<Longrightarrow> length (concat (mark_last cs)) = length (concat cs)"
  using mark_last_facts(3) [of cs] by (simp add: length_concat)

lemma replicate_split: "k \<le> n \<Longrightarrow> replicate n x = replicate k x @ replicate (n - k) x"
  by (simp add: replicate_add [symmetric])

context bitfield_crate
begin

lemma dlpdus_frame_chunks:
  assumes "frame_chunks u hdr cs n"
  shows "dlpdus X u = Some cs" and "dlpdu_indexes X u = Some (chunk_offsets 16 cs)"
proof -
  have hdr: "length hdr = 16" and buf: "fu_buffer u = hdr @ concat cs @ replicate n 0"
    and wf: "\<forall>c \<in> set cs. wf_chunk c"
    using assms by (auto simp: frame_chunks_def)
  have "length hdr + length (concat cs) \<le> length (fu_buffer u)"
    using buf by simp
  from pdus_collect_chunks [OF wf this disjI1 [OF stops_zeros], of n]
    indexes_collect_chunks [OF wf this disjI1 [OF stops_zeros], of n]
  show "dlpdus X u = Some cs" "dlpdu_indexes X u = Some (chunk_offsets 16 cs)"
    by (simp_all add: dlpdus_def dlpdu_indexes_def EtherCatPdus_new_for_ethercat_frame_def
      EtherCatPdus_new_def buf hdr)
qed

text \<open>\<open>set_has_next\<close> on the last PDU.\<close>

lemma mark_last_step:
  assumes "\<forall>c \<in> set cs. wf_chunk c" and "cs \<noteq> []" and "length hdr = 16"
  shows "update_from (last (chunk_offsets 16 cs)) (\<lambda>r. EtherCatPdu_set_has_next X r True)
      (hdr @ concat cs @ r) = Some (hdr @ concat (mark_last cs) @ r)"
    and "\<exists>rest. slice_from (last (chunk_offsets 16 cs)) (hdr @ concat cs @ r) = Some rest \<and> 12 < length rest"
proof -
  obtain bs c where cs: "cs = bs @ [c]" using assms(2) by (metis rev_exhaust)
  have c: "12 < length c" using assms(1) cs wf_chunk_length by auto
  have off: "last (chunk_offsets 16 cs) = length (hdr @ concat bs)"
    using assms(3) by (simp add: cs last_chunk_offsets)
  have eq: "hdr @ concat cs @ r = (hdr @ concat bs) @ (c @ r)" by (simp add: cs)
  have "EtherCatPdu_set_has_next X (c @ r) True = Some (mark_next c @ r)"
    using c by (simp add: EtherCatPdu_set_has_next_def bf_set_bit_eq mark_next_def field_simps_bytes)
  then show "update_from (last (chunk_offsets 16 cs)) (\<lambda>r. EtherCatPdu_set_has_next X r True)
      (hdr @ concat cs @ r) = Some (hdr @ concat (mark_last cs) @ r)"
    unfolding off eq update_from_append [OF refl] by (simp add: cs mark_last_def)
  show "\<exists>rest. slice_from (last (chunk_offsets 16 cs)) (hdr @ concat cs @ r) = Some rest \<and> 12 < length rest"
    unfolding off eq using c by (simp add: slice_from_def)
qed

text \<open>Writing the header of the new PDU into the zeros after the last one.\<close>

lemma header_step:
  assumes "10 \<le> n" and "length pre = k"
  shows "update_from k (write_pdu_header X command adp ado idx data_len) (pre @ replicate n 0)
    = Some (pre @ pdu_header command adp ado idx data_len @ replicate (n - 10) 0)"
  unfolding update_from_append [OF assms(2)] replicate_split [OF assms(1)]
  by (simp add: write_pdu_header_def frame_field_defs bitfield_eqs field_simps_bytes pdu_header_def)

lemma write_at_replicate:
  assumes "length pre = k" and "length ys \<le> n"
  shows "write_at k ys (pre @ replicate n x) = Some (pre @ ys @ replicate (n - length ys) x)"
  using assms by (simp add: write_at_def)

lemma store_zero:
  assumes "length pre \<le> k" and "k < length pre + n"
  shows "store (pre @ replicate n (0::u8)) k 0 = Some (pre @ replicate n 0)"
proof -
  have "(pre @ replicate n (0::u8))[k := (pre @ replicate n 0) ! k] = pre @ replicate n 0"
    by (rule list_update_id)
  moreover have "(pre @ replicate n (0::u8)) ! k = 0"
    using assms by (simp add: nth_append)
  ultimately show ?thesis using assms by (simp add: store_def)
qed

lemma frame_length_step:
  assumes "length hdr = 16" and "field (drop 14 hdr) 10 0 + k < 2048"
  shows "update_from 14 (extend_frame_length X k) (hdr @ r)
    = Some ((take 14 hdr @ set_field (drop 14 hdr) 10 0 (field (drop 14 hdr) 10 0 + k)) @ r)"
proof -
  have split: "hdr @ r = take 14 hdr @ (drop 14 hdr @ r)" by simp
  have len: "length (take 14 hdr) = 14" "length (drop 14 hdr) = 2" using assms(1) by auto
  have "unat (of_nat (field (drop 14 hdr) 10 0) :: u16) = field (drop 14 hdr) 10 0"
    by (rule unat_of_nat_field) simp
  moreover have "unat (of_nat (field (drop 14 hdr) 10 0 + k) :: u16) = field (drop 14 hdr) 10 0 + k"
    using assms(2) by (simp add: unat_of_nat del: of_nat_add)
  ultimately show ?thesis
    unfolding split update_from_append [OF len(1)]
    using len by (simp add: extend_frame_length_def frame_field_defs bitfield_eqs field_simps_bytes
      del: of_nat_add)
qed

lemma mark_previous_chunks:
  assumes "frame_chunks u hdr cs n"
  shows "mark_previous X u = Some (hdr @ concat (mark_last cs) @ replicate n 0)"
proof -
  have hdr: "length hdr = 16" and buf: "fu_buffer u = hdr @ concat cs @ replicate n 0"
    and wf: "\<forall>c \<in> set cs. wf_chunk c"
    using assms by (auto simp: frame_chunks_def)
  show ?thesis
  proof (cases "cs = []")
    case True
    then show ?thesis
      by (simp add: mark_previous_def dlpdus_frame_chunks(2) [OF assms] mark_last_def buf)
  next
    case False
    obtain rest where rest: "12 < length rest"
      "slice_from (last (chunk_offsets 16 cs)) (hdr @ concat cs @ replicate n 0) = Some rest"
      using mark_last_step(2) [OF wf False hdr] by blast
    have "chunk_offsets 16 cs \<noteq> []" using False by (cases cs) auto
    with mark_last_step(1) [OF wf False hdr, of "replicate n 0"] rest show ?thesis
      by (simp add: mark_previous_def dlpdus_frame_chunks(2) [OF assms] buf get_def)
  qed
qed

lemma add_command_chunks:
  assumes fr: "frame_chunks u hdr cs n" and data: "data \<noteq> []" "length data + 12 \<le> n"
    and small: "length (concat cs) + length data + 12 < 2048"
  shows "\<exists>u' hdr'. add_command X u command adp ado data (Some idx) = Some (True, u') \<and>
    frame_chunks u' hdr' (mark_last cs @ [command_chunk command adp ado idx data])
      (n - (length data + 12)) \<and> take 14 hdr' = take 14 hdr \<and> length (fu_buffer u') = length (fu_buffer u)"
proof -
  have hdr: "length hdr = 16" and buf: "fu_buffer u = hdr @ concat cs @ replicate n 0"
    and wf: "\<forall>c \<in> set cs. wf_chunk c" and off: "fu_free_offset u = 16 + length (concat cs)"
    and hlen: "field (drop 14 hdr) 10 0 = length (concat cs)"
    using fr by (auto simp: frame_chunks_def)
  define ms where "ms = mark_last cs"
  define h where "h = pdu_header command adp ado idx (length data)"
  define k where "k = n - 12 - length data"
  define cc where "cc = command_chunk command adp ado idx data"
  define hdr' where "hdr' = take 14 hdr @
    set_field (drop 14 hdr) 10 0 (length (concat cs) + (12 + length data))"
  have ms: "length (concat ms) = length (concat cs)" "\<forall>c \<in> set ms. wf_chunk c"
    unfolding ms_def using wf by (simp_all add: length_concat_mark_last mark_last_facts)
  have n: "n - 10 - length data = k + 2" and n2: "n - (length data + 12) = k"
    using data(2) by (auto simp: k_def)
  have pre: "length (hdr @ concat ms) = fu_free_offset u"
    by (simp add: hdr ms off)
  have head: "update_from (fu_free_offset u)
      (write_pdu_header X command adp ado idx (length data)) (hdr @ concat ms @ replicate n 0)
    = Some (hdr @ concat ms @ h @ replicate (n - 10) 0)"
    using header_step [OF _ pre] data(2) by (simp add: h_def)
  have body: "write_at (fu_free_offset u + 10) data (hdr @ concat ms @ h @ replicate (n - 10) 0)
    = Some ((hdr @ concat ms @ h @ data) @ replicate (k + 2) 0)"
    using write_at_replicate [of "hdr @ concat ms @ h" "fu_free_offset u + 10" data "n - 10" 0]
      pre data(2) n by (simp add: h_def)
  have len: "length (hdr @ concat ms @ h @ data) = fu_free_offset u + 10 + length data"
    using pre by (simp add: h_def)
  have z1: "store ((hdr @ concat ms @ h @ data) @ replicate (k + 2) 0) (fu_free_offset u + 10 + length data) 0
      = Some ((hdr @ concat ms @ h @ data) @ replicate (k + 2) 0)"
    and z2: "store ((hdr @ concat ms @ h @ data) @ replicate (k + 2) 0)
        (fu_free_offset u + 10 + length data + 1) 0
      = Some ((hdr @ concat ms @ h @ data) @ replicate (k + 2) 0)"
    by (rule store_zero; use len in linarith)+
  have "replicate (k + 2) (0::u8) = [0, 0] @ replicate k 0"
    by (simp add: replicate_add [symmetric] numeral_2_eq_2)
  then have tail: "(hdr @ concat ms @ h @ data) @ replicate (k + 2) 0 =
      hdr @ concat (ms @ [cc]) @ replicate k 0"
    by (simp add: command_chunk_def h_def cc_def)
  have fin: "update_from 14 (extend_frame_length X (12 + length data))
      (hdr @ concat (ms @ [cc]) @ replicate k 0)
    = Some (hdr' @ concat (ms @ [cc]) @ replicate k 0)"
    using frame_length_step [OF hdr, of "12 + length data"] small by (simp add: hlen hdr'_def)
  let ?u' = "u\<lparr>fu_buffer := hdr' @ concat (ms @ [cc]) @ replicate k 0,
    fu_free_offset := fu_free_offset u + (12 + length data)\<rparr>"
  have "nsub (length (fu_buffer u)) (fu_free_offset u) = Some n"
    by (simp add: nsub_def buf off hdr)
  moreover have "mark_previous X u = Some (hdr @ concat ms @ replicate n 0)"
    using mark_previous_chunks [OF fr] by (simp add: ms_def)
  moreover have "\<not> n < 12 + length data"
    using data(2) by auto
  ultimately have "add_command X u command adp ado data (Some idx) = Some (True, ?u')"
    using head body z1 z2 fin unfolding tail
    by (simp add: add_command_def Let_def del: append_assoc concat_append)
  moreover have "take_bit 11 (length (concat cs) + (12 + length data)) =
      length (concat cs) + (length data + 12)"
    using small by (simp add: take_bit_nat_eq_self)
  then have "frame_chunks ?u' hdr' (ms @ [cc]) k"
    using hdr ms off small data(1) by (simp add: frame_chunks_def hdr'_def wf_command_chunk cc_def
      field_simps_bytes ball_Un)
  moreover have "take 14 hdr' = take 14 hdr" using hdr by (simp add: hdr'_def)
  ultimately show ?thesis
    using data(2) buf hdr ms(1) by (auto simp: ms_def n2 hdr'_def k_def cc_def)
qed

end

section \<open>Building and reading a whole frame\<close>

record pdu_request =
  rq_command :: CommandType
  rq_adp :: u16
  rq_ado :: u16
  rq_data :: bytes
  rq_index :: u8

text \<open>What \<open>transmit_one_frame\<close> does with the transmit buffer: set it up, add every command.\<close>

fun add_commands :: "crates \<Rightarrow> EtherCatFrameUtil \<Rightarrow> pdu_request list \<Rightarrow> EtherCatFrameUtil rust" where
  "add_commands X u [] = Some u"
| "add_commands X u (r # rs) =
     (case add_command X u (rq_command r) (rq_adp r) (rq_ado r) (rq_data r) (Some (rq_index r)) of
        Some (True, u') \<Rightarrow> add_commands X u' rs
      | _ \<Rightarrow> None)"

definition rq_size :: "pdu_request \<Rightarrow> nat" where
  "rq_size r = length (rq_data r) + 12"

definition rq_view :: "pdu_request \<Rightarrow> pdu_content" where
  "rq_view r = \<lparr>pv_command = CommandType_repr (rq_command r), pv_index = rq_index r,
     pv_adp = rq_adp r, pv_ado = rq_ado r, pv_data = rq_data r, pv_wkc = 0\<rparr>"

definition next_flags :: "bytes list \<Rightarrow> bool" where
  "next_flags cs \<longleftrightarrow> (\<forall>c \<in> set (butlast cs). chunk_has_next c) \<and> (cs \<noteq> [] \<longrightarrow> \<not> chunk_has_next (last cs))"

lemma command_chunk_last: "\<not> chunk_has_next (command_chunk command adp ado idx data)"
proof -
  have "\<not> bit_at (pdu_header command adp ado idx n) 63" for n
    by (simp add: pdu_header_def bit_at_set_field)
  then show ?thesis
    by (simp add: chunk_has_next_def command_chunk_def bit_at_append1)
qed

lemma next_flags_snoc:
  assumes "\<forall>c \<in> set cs. wf_chunk c" and "next_flags cs"
  shows "next_flags (mark_last cs @ [command_chunk command adp ado idx data])"
  using assms
  by (cases cs rule: rev_cases)
    (auto simp: next_flags_def mark_last_def command_chunk_last mark_next_facts butlast_append)

context bitfield_crate
begin

lemma add_commands_chunks:
  assumes "frame_chunks u hdr cs n" and "next_flags cs"
    and "\<forall>r \<in> set rs. rq_data r \<noteq> []" and "sum_list (map rq_size rs) \<le> n"
    and "length (concat cs) + sum_list (map rq_size rs) < 2048"
  shows "\<exists>u' hdr' cs'. add_commands X u rs = Some u' \<and>
    frame_chunks u' hdr' cs' (n - sum_list (map rq_size rs)) \<and> next_flags cs' \<and>
    map pdu_view cs' = map pdu_view cs @ map rq_view rs \<and>
    take 14 hdr' = take 14 hdr \<and> length (fu_buffer u') = length (fu_buffer u)"
  using assms
proof (induction rs arbitrary: u hdr cs n)
  case Nil
  then show ?case by auto
next
  case (Cons r rs)
  have wf: "\<forall>c \<in> set cs. wf_chunk c" using Cons.prems(1) by (simp add: frame_chunks_def)
  let ?cc = "command_chunk (rq_command r) (rq_adp r) (rq_ado r) (rq_index r) (rq_data r)"
  obtain u1 hdr1 where u1: "add_command X u (rq_command r) (rq_adp r) (rq_ado r) (rq_data r)
      (Some (rq_index r)) = Some (True, u1)"
    "frame_chunks u1 hdr1 (mark_last cs @ [?cc]) (n - rq_size r)" "take 14 hdr1 = take 14 hdr"
    "length (fu_buffer u1) = length (fu_buffer u)"
    using add_command_chunks [OF Cons.prems(1), of "rq_data r" "rq_command r" "rq_adp r" "rq_ado r"
      "rq_index r"] Cons.prems(3-5) by (auto simp: rq_size_def)
  have len: "length (concat (mark_last cs @ [?cc])) = length (concat cs) + rq_size r"
    using wf by (simp add: length_concat_mark_last rq_size_def)
  have "\<exists>u' hdr' cs'. add_commands X u1 rs = Some u' \<and>
    frame_chunks u' hdr' cs' (n - rq_size r - sum_list (map rq_size rs)) \<and> next_flags cs' \<and>
    map pdu_view cs' = map pdu_view (mark_last cs @ [?cc]) @ map rq_view rs \<and>
    take 14 hdr' = take 14 hdr1 \<and> length (fu_buffer u') = length (fu_buffer u1)"
    using Cons.prems(3-5) len
    by (intro Cons.IH [OF u1(2)] next_flags_snoc wf Cons.prems(2)) auto
  then obtain u' hdr' cs' where "add_commands X u1 rs = Some u'"
    "frame_chunks u' hdr' cs' (n - rq_size r - sum_list (map rq_size rs))" "next_flags cs'"
    "map pdu_view cs' = map pdu_view (mark_last cs @ [?cc]) @ map rq_view rs"
    "take 14 hdr' = take 14 hdr1" "length (fu_buffer u') = length (fu_buffer u1)"
    by auto
  moreover have "pdu_view ?cc = rq_view r"
    using Cons.prems(5) by (simp add: pdu_view_command_chunk rq_view_def rq_size_def)
  ultimately show ?case
    using u1 wf by (auto simp: mark_last_facts)
qed

end

section \<open>The header \<open>init\<close> writes\<close>

definition init_header :: bytes where
  "init_header =
     set_field_msb0 (set_field_msb0 (set_field_msb0 (replicate 14 0) 47 0 (unat DST_MAC))
       95 48 (unat SRC_MAC)) 111 96 (unat ETHERCAT_TYPE) @
     set_field (set_field (replicate 2 0) 10 0 0) 15 12 1"

lemma length_init_header [simp]: "length init_header = 16"
  by (simp add: init_header_def)

lemma take_init_header: "take 14 (init_header @ r) =
    set_field_msb0 (set_field_msb0 (set_field_msb0 (replicate 14 0) 47 0 (unat DST_MAC))
       95 48 (unat SRC_MAC)) 111 96 (unat ETHERCAT_TYPE)"
  by (simp add: init_header_def)

context bitfield_crate
begin

lemma fu_init_eq:
  assumes "16 \<le> length (fu_buffer u)"
  shows "fu_init X u = Some \<lparr>fu_buffer = init_header @ replicate (length (fu_buffer u) - 16) 0,
    fu_free_offset = 16, fu_index = 0\<rparr>"
proof -
  define n where "n = length (fu_buffer u) - 16"
  have z: "replicate (length (fu_buffer u)) (0::u8) = replicate 14 0 @ replicate 2 0 @ replicate n 0"
    using replicate_split [of 14 "length (fu_buffer u)" "0::u8"]
      replicate_split [of 2 "length (fu_buffer u) - 14" "0::u8"] assms
    by (simp add: n_def)
  let ?e = "set_field_msb0 (set_field_msb0 (set_field_msb0 (replicate 14 (0::u8)) 47 0 (unat DST_MAC))
       95 48 (unat SRC_MAC)) 111 96 (unat ETHERCAT_TYPE)"
  have e: "set_ethercat_default X (replicate 14 0 @ replicate 2 0 @ replicate n 0) =
      Some (?e @ replicate 2 0 @ replicate n 0)"
    by (simp add: set_ethercat_default_def bf_set_range_msb0_eq field_simps_bytes)
  have len: "length ?e = 14" by simp
  have "update_from 14 (\<lambda>e. do {
            e \<leftarrow> EtherCatFrame_set_length X e 0;
            EtherCatFrame_set_ethercat_type X e 1 }) (?e @ replicate 2 0 @ replicate n 0) =
      Some (init_header @ replicate n 0)"
    unfolding update_from_append [OF len]
    by (simp add: frame_field_defs bitfield_eqs field_simps_bytes init_header_def)
  with e show ?thesis
    unfolding fu_init_def z by (simp add: n_def)
qed

lemma frame_chunks_init:
  assumes "fu_init X u = Some u'" and "16 \<le> length (fu_buffer u)"
  shows "frame_chunks u' init_header [] (length (fu_buffer u) - 16)"
  using assms(1) unfolding fu_init_eq [OF assms(2)]
  by (auto simp: frame_chunks_def init_header_def field_simps_bytes)

lemma build_frame:
  assumes "length tx = 16 + sum_list (map rq_size rs)" and "length tx < 2048"
    and "\<forall>r \<in> set rs. rq_data r \<noteq> []"
  shows "\<exists>u0 u1 u hdr cs. EtherCatFrameUtil_new_unchecked X tx = Some u0 \<and> fu_init X u0 = Some u1 \<and>
    add_commands X u1 rs = Some u \<and> dlpdus X u = Some cs \<and> frame_chunks u hdr cs 0 \<and>
    map pdu_view cs = map rq_view rs \<and> next_flags cs \<and> take 14 hdr = take 14 init_header"
proof -
  have new: "EtherCatFrameUtil_new_unchecked X tx =
      Some \<lparr>fu_buffer = tx, fu_free_offset = 16 + field (drop 14 tx) 10 0, fu_index = 0\<rparr>"
    using assms(1) by (simp add: EtherCatFrameUtil_new_unchecked_def rust_simps
      EtherCatFrame_length_def get_field_eq unat_of_nat_field)
  define u0 where "u0 = \<lparr>fu_buffer = tx, fu_free_offset = 16 + field (drop 14 tx) 10 0, fu_index = 0\<rparr>"
  have len: "16 \<le> length (fu_buffer u0)" using assms(1) by (simp add: u0_def)
  then obtain u1 where u1: "fu_init X u0 = Some u1" using fu_init_eq by blast
  have "\<exists>u hdr cs. add_commands X u1 rs = Some u \<and>
    frame_chunks u hdr cs (sum_list (map rq_size rs) - sum_list (map rq_size rs)) \<and> next_flags cs \<and>
    map pdu_view cs = map pdu_view [] @ map rq_view rs \<and>
    take 14 hdr = take 14 init_header \<and> length (fu_buffer u) = length (fu_buffer u1)"
    using frame_chunks_init [OF u1 len] assms
    by (intro add_commands_chunks) (auto simp: next_flags_def u0_def)
  then show ?thesis
    using new u1 dlpdus_frame_chunks(1) by (fastforce simp: u0_def)
qed

end

text \<open>
  C3: building a frame and reading it back is the identity. For a transmit buffer of the length
  the master asks for (the two headers plus 12 bytes and the data of each PDU; the real limit
  of 1514 bytes is within the bound), whatever it held before, \<open>new_unchecked\<close>, \<open>init\<close> and one
  \<open>add_command\<close> per PDU all succeed, and iterating over the PDUs of the result with \<open>dlpdus\<close>
  gives exactly these PDUs in order: command, index, addresses and data as added, working
  counter 0. The \<open>has_next\<close> flag is set on every PDU but the last.
\<close>

theorem frame_roundtrip:
  assumes "crates_laws X"
    and "length tx = 16 + sum_list (map rq_size rs)" and "length tx < 2048"
    and "\<forall>r \<in> set rs. rq_data r \<noteq> []"
  shows "\<exists>u0 u1 u cs. EtherCatFrameUtil_new_unchecked X tx = Some u0 \<and> fu_init X u0 = Some u1 \<and>
    add_commands X u1 rs = Some u \<and> dlpdus X u = Some cs \<and>
    map pdu_view cs = map rq_view rs \<and> next_flags cs"
proof -
  have "bitfield_crate X" using assms(1) by (simp add: crates_laws_def)
  from bitfield_crate.build_frame [OF this assms(2-4)] show ?thesis by blast
qed

definition example_requests :: "pdu_request list" where
  "example_requests =
     [\<lparr>rq_command = CommandType.BRD, rq_adp = 0, rq_ado = 0x130, rq_data = [0, 0], rq_index = 0\<rparr>,
      \<lparr>rq_command = CommandType.FPWR, rq_adp = 0x1001, rq_ado = 0x120, rq_data = [2], rq_index = 1\<rparr>]"

theorem frame_roundtrip_witness:
  "crates_laws ref_crates \<and> map (\<lambda>r. length (rq_data r)) example_requests = [2, 1] \<and>
   (\<exists>u0 u1 u cs. EtherCatFrameUtil_new_unchecked ref_crates (replicate 43 0xAA) = Some u0 \<and>
      fu_init ref_crates u0 = Some u1 \<and> add_commands ref_crates u1 example_requests = Some u \<and>
      dlpdus ref_crates u = Some cs \<and>
      map pdu_view cs = map rq_view example_requests \<and> next_flags cs)"
proof -
  have d: "\<forall>r \<in> set example_requests. rq_data r \<noteq> []" by (simp add: example_requests_def)
  have "length (replicate 43 (0xAA::u8)) = 16 + sum_list (map rq_size example_requests)"
    by (simp add: example_requests_def rq_size_def)
  from frame_roundtrip [OF ref_crates_laws this _ d] have
    "\<exists>u0 u1 u cs. EtherCatFrameUtil_new_unchecked ref_crates (replicate 43 0xAA) = Some u0 \<and>
      fu_init ref_crates u0 = Some u1 \<and> add_commands ref_crates u1 example_requests = Some u \<and>
      dlpdus ref_crates u = Some cs \<and>
      map pdu_view cs = map rq_view example_requests \<and> next_flags cs" by simp
  moreover have "map (\<lambda>r. length (rq_data r)) example_requests = [2, 1]"
    by (simp add: example_requests_def)
  ultimately show ?thesis using ref_crates_laws by blast
qed

end
