(* ===== verification/Pdu_Interface.thy ===== *)
theory Pdu_Interface
  imports Frame_Layout
begin

text \<open>
  \<open>src/src/interface/pdu_if.rs\<close>: commands and addresses, and \<open>PduInterface\<close>, which collects
  PDUs in a buffer, sends them as one Ethernet frame and copies the returned PDUs back.

  The network device is code of the user (the trait \<open>RawEthernetDevice\<close> of
  \<open>src/src/interface/hal.rs\<close>), so it is a parameter: \<open>dev_tx\<close> is \<open>transmit()\<close> with the
  buffer its token passes to the closure of \<open>consume\<close>, \<open>dev_send\<close> what \<open>consume\<close> does with the
  filled buffer, \<open>dev_rx\<close> is \<open>receive()\<close> with the frame its token passes on.
\<close>

section \<open>Commands and addresses\<close>

datatype PhyError = TxError | RxError | TxNotAvailable | RxNotAvailable

record Command =
  cmd_type :: CommandType
  cmd_adp :: u16
  cmd_ado :: u16

datatype SlaveAddress = StationAddress u16 | SlavePosition u16

datatype TargetSlave = Single SlaveAddress | All u16

definition Command_new :: "CommandType \<Rightarrow> u16 \<Rightarrow> u16 \<Rightarrow> Command" where
  "Command_new c_type adp ado = \<lparr>cmd_type = c_type, cmd_adp = adp, cmd_ado = ado\<rparr>"

definition Command_default :: Command where
  "Command_default = Command_new CommandType.APRD 0 0"

definition get_ap_adp :: "u16 \<Rightarrow> u16" where
  "get_ap_adp slave_number = (if slave_number = 0 then 0 else 0xFFFF - (slave_number - 1))"

fun get_adp :: "SlaveAddress \<Rightarrow> u16" where
  "get_adp (StationAddress addr) = addr"
| "get_adp (SlavePosition pos) = get_ap_adp pos"

definition SlaveAddress_default :: SlaveAddress where
  "SlaveAddress_default = SlavePosition 0"

definition TargetSlave_default :: TargetSlave where
  "TargetSlave_default = Single SlaveAddress_default"

fun num_targets :: "TargetSlave \<Rightarrow> u16" where
  "num_targets (All num) = num"
| "num_targets (Single _) = 1"

definition Command_new_read :: "TargetSlave \<Rightarrow> u16 \<Rightarrow> Command" where
  "Command_new_read slave_address ado =
     (case slave_address of
        Single (SlavePosition adp) \<Rightarrow> Command_new CommandType.APRD (get_ap_adp adp) ado
      | Single (StationAddress adp) \<Rightarrow> Command_new CommandType.FPRD adp ado
      | All _ \<Rightarrow> Command_new CommandType.BRD 0 ado)"

definition Command_new_write :: "TargetSlave \<Rightarrow> u16 \<Rightarrow> Command" where
  "Command_new_write slave_address ado =
     (case slave_address of
        Single (SlavePosition adp) \<Rightarrow> Command_new CommandType.APWR (get_ap_adp adp) ado
      | Single (StationAddress adp) \<Rightarrow> Command_new CommandType.FPWR adp ado
      | All _ \<Rightarrow> Command_new CommandType.BWR 0 ado)"

definition Command_new_logical_read_write :: "u32 \<Rightarrow> Command" where
  "Command_new_logical_read_write logical_address =
     Command_new CommandType.LRW (ucast (logical_address AND 0x0000FFFF))
       (ucast (drop_bit 16 logical_address))"

section \<open>The device\<close>

datatype tx_event =
    TxNone \<comment> \<open>\<open>transmit()\<close> returned \<open>None\<close>\<close>
  | TxFail \<comment> \<open>\<open>consume\<close> failed without calling the closure\<close>
  | TxBuffer bytes \<comment> \<open>the buffer passed to the closure\<close>

datatype rx_event =
    RxNone \<comment> \<open>\<open>receive()\<close> returned \<open>None\<close>\<close>
  | RxFail \<comment> \<open>\<open>consume\<close> failed without calling the closure\<close>
  | RxFrame bytes bool \<comment> \<open>the frame passed to the closure; whether \<open>consume\<close> then returned \<open>Ok\<close>\<close>

record 'd device =
  dev_tx :: "'d \<Rightarrow> nat \<Rightarrow> tx_event \<times> 'd"
  dev_send :: "'d \<Rightarrow> bytes \<Rightarrow> bool \<times> 'd"
  dev_rx :: "'d \<Rightarrow> rx_event \<times> 'd"

section \<open>The PDU interface\<close>

record 'd PduInterface =
  ethdev :: 'd
  pi_buffer :: bytes
  pdus_total_size :: nat
  pdu_count :: nat
  tx_count :: nat
  pi_capacity :: nat
  recv_data_size :: nat

definition PduInterface_new :: "'d \<Rightarrow> bytes \<Rightarrow> 'd PduInterface" where
  "PduInterface_new dev buffer =
     \<lparr>ethdev = dev, pi_buffer = buffer, pdus_total_size = 0, pdu_count = 0, tx_count = 0,
      pi_capacity = min (length buffer) MAX_ETHERCAT_DATAGRAM, recv_data_size = 0\<rparr>"

definition remainig_pdu_data_capacity :: "'d PduInterface \<Rightarrow> nat rust" where
  "remainig_pdu_data_capacity i = do {
     a \<leftarrow> nsub (pi_capacity i) (pdus_total_size i);
     b \<leftarrow> nsub a EtherCatPdu_HEADER_SIZE;
     nsub b WKC_LENGTH }"

definition add_pdu_header :: "crates \<Rightarrow> u8 \<Rightarrow> Command \<Rightarrow> nat \<Rightarrow> bytes rust" where
  "add_pdu_header X pdu_index command data_size = do {
     let h = replicate EtherCatPdu_HEADER_SIZE 0;
     h \<leftarrow> EtherCatPdu_set_index X h pdu_index;
     h \<leftarrow> EtherCatPdu_set_command_type X h (CommandType_repr (cmd_type command));
     h \<leftarrow> EtherCatPdu_set_adp X h (cmd_adp command);
     h \<leftarrow> EtherCatPdu_set_ado X h (cmd_ado command);
     EtherCatPdu_set_length X h (of_nat data_size) }"

text \<open>\<open>data_writer\<close> is the closure that fills the data part of the PDU.\<close>

definition add_pdu ::
    "crates \<Rightarrow> 'd PduInterface \<Rightarrow> u8 \<Rightarrow> Command \<Rightarrow> nat \<Rightarrow> (bytes \<Rightarrow> bytes) \<Rightarrow>
       ((Command + unit) \<times> 'd PduInterface) rust" where
  "add_pdu X i pdu_index command data_size data_writer =
     (let t = pdus_total_size i in
      if t + EtherCatPdu_HEADER_SIZE + data_size + WKC_LENGTH > pi_capacity i
      then ret (Inl command, i)
      else if data_size > MAX_PDU_DATAGRAM then ret (Inl command, i)
      else do {
        header \<leftarrow> add_pdu_header X pdu_index command data_size;
        b \<leftarrow> write_at t header (pi_buffer i);
        s \<leftarrow> slice (t + EtherCatPdu_HEADER_SIZE) (t + EtherCatPdu_HEADER_SIZE + data_size) b;
        b \<leftarrow> write_at (t + EtherCatPdu_HEADER_SIZE) (data_writer s) b;
        b \<leftarrow> store b (t + EtherCatPdu_HEADER_SIZE + data_size + 1) 0;
        b \<leftarrow> store b (t + EtherCatPdu_HEADER_SIZE + data_size + 2) 0;
        ret (Inr (), i\<lparr>pi_buffer := b,
                      pdus_total_size := t + (EtherCatPdu_HEADER_SIZE + data_size + WKC_LENGTH),
                      pdu_count := pdu_count i + 1\<rparr>) })"

definition consume_pdus :: "'d PduInterface \<Rightarrow> EtherCatPdus \<times> 'd PduInterface" where
  "consume_pdus i =
     (EtherCatPdus_new (pi_buffer i) (pdus_total_size i) 0,
      i\<lparr>pdus_total_size := 0, recv_data_size := 0\<rparr>)"

text \<open>The loop of \<open>transmit_one_frame\<close> over the collected PDUs.\<close>

fun transmit_loop ::
    "crates \<Rightarrow> EtherCatFrameUtil \<Rightarrow> nat \<Rightarrow> nat \<Rightarrow> bytes list \<Rightarrow>
       (EtherCatFrameUtil \<times> nat \<times> nat) rust" where
  "transmit_loop X u txc pdc [] = ret (u, txc, pdc)"
| "transmit_loop X u txc pdc (pdu # pdus) = do {
     idx \<leftarrow> EtherCatPdu_index X pdu;
     ct \<leftarrow> EtherCatPdu_command_type X pdu;
     adp \<leftarrow> EtherCatPdu_adp X pdu;
     ado \<leftarrow> EtherCatPdu_ado X pdu;
     payload \<leftarrow> EtherCatPdu_without_header pdu;
     len \<leftarrow> EtherCatPdu_length X pdu;
     data \<leftarrow> slice_to (unat len) payload;
     (ok, u) \<leftarrow> add_command X u (CommandType_from X ct) adp ado data (Some idx);
     if \<not> ok then panic
     else do {
       pdc \<leftarrow> nsub pdc 1;
       transmit_loop X u (txc + 1) pdc pdus } }"

definition transmit_one_frame ::
    "crates \<Rightarrow> 'd device \<Rightarrow> 'd PduInterface \<Rightarrow> ((PhyError + bool) \<times> 'd PduInterface) rust" where
  "transmit_one_frame X dev i =
     (if pdu_count i = 0 then ret (Inr True, i)
      else do {
        buffer \<leftarrow> slice 0 (pdus_total_size i) (pi_buffer i);
        let len = EthernetFrame_HEADER_SIZE + EtherCatFrame_HEADER_SIZE + pdus_total_size i;
        case dev_tx dev (ethdev i) len of
          (TxNone, d) \<Rightarrow> ret (Inl TxNotAvailable, i\<lparr>ethdev := d\<rparr>)
        | (TxFail, d) \<Rightarrow> ret (Inl TxError, i\<lparr>ethdev := d\<rparr>)
        | (TxBuffer tx_buffer, d) \<Rightarrow> do {
            ec_frame \<leftarrow> EtherCatFrameUtil_new_unchecked X tx_buffer;
            ec_frame \<leftarrow> fu_init X ec_frame;
            pdus \<leftarrow> pdus_collect X (EtherCatPdus_new buffer (pdus_total_size i) 0);
            (ec_frame, txc, pdc) \<leftarrow> transmit_loop X ec_frame (tx_count i) (pdu_count i) pdus;
            let (ok, d) = dev_send dev d (fu_buffer ec_frame);
            let i = i\<lparr>ethdev := d, tx_count := txc, pdu_count := pdc\<rparr>;
            if \<not> ok then ret (Inl TxError, i)
            else if tx_count i < pdu_count i then ret (Inr False, i)
            else ret (Inr True, i) } })"

text \<open>The loop of \<open>receive_one_frame\<close> over the PDUs of the received frame.\<close>

fun receive_loop ::
    "crates \<Rightarrow> bytes \<Rightarrow> nat \<Rightarrow> nat \<Rightarrow> bytes list \<Rightarrow> (bytes \<times> nat \<times> nat) rust" where
  "receive_loop X buf rds txc [] = ret (buf, rds, txc)"
| "receive_loop X buf rds txc (pdu # pdus) = do {
     len \<leftarrow> EtherCatPdu_length X pdu;
     let pdu_size = EtherCatPdu_HEADER_SIZE + unat len + WKC_LENGTH;
     assert (length pdu = pdu_size);
     buf \<leftarrow> write_at rds pdu buf;
     txc \<leftarrow> nsub txc 1;
     receive_loop X buf (rds + pdu_size) txc pdus }"

definition receive_one_frame ::
    "crates \<Rightarrow> 'd device \<Rightarrow> 'd PduInterface \<Rightarrow> ((PhyError + bool) \<times> 'd PduInterface) rust" where
  "receive_one_frame X dev i =
     (if tx_count i = 0 then ret (Inr True, i)
      else case dev_rx dev (ethdev i) of
        (RxNone, d) \<Rightarrow> ret (Inl RxNotAvailable, i\<lparr>ethdev := d\<rparr>)
      | (RxFail, d) \<Rightarrow> ret (Inl RxError, i\<lparr>ethdev := d\<rparr>)
      | (RxFrame frame ok, d) \<Rightarrow> do {
          src \<leftarrow> EthernetFrame_source X frame;
          skip \<leftarrow> (if src = SRC_MAC then ret True
                  else do { et \<leftarrow> EthernetFrame_ether_type X frame; ret (et \<noteq> ETHERCAT_TYPE) });
          i \<leftarrow> (if skip then ret (i\<lparr>ethdev := d\<rparr>)
               else do {
                 ec_frame \<leftarrow> EtherCatFrameUtil_new_unchecked X frame;
                 pdus \<leftarrow> dlpdus X ec_frame;
                 (b, rds, txc) \<leftarrow> receive_loop X (pi_buffer i) (recv_data_size i) (tx_count i) pdus;
                 ret (i\<lparr>ethdev := d, pi_buffer := b, recv_data_size := rds, tx_count := txc\<rparr>) });
          if \<not> ok then ret (Inl RxError, i)
          else if 0 < tx_count i then ret (Inr False, i)
          else ret (Inr True, i) })"

section \<open>Addressing\<close>

text \<open>
  The auto-increment address of a slave position counts down from 0 modulo 65536, so that the
  slave at position \<open>p\<close>, reached after \<open>p\<close> slaves have each incremented the address, sees 0,
  and no other position does; the subtraction in \<open>get_ap_adp\<close> does not underflow.
\<close>

lemma auto_increment_address: "get_ap_adp p + q = 0 \<longleftrightarrow> q = p"
proof -
  have "get_ap_adp p = - p"
    by (simp add: get_ap_adp_def)
  then show ?thesis by (auto simp: eq_neg_iff_add_eq_0 [symmetric] add.commute)
qed

section \<open>Collected PDUs\<close>

definition request_header :: "u8 \<Rightarrow> Command \<Rightarrow> nat \<Rightarrow> bytes" where
  "request_header idx command n =
     set_field (set_field (set_field (set_field (set_field (replicate 10 0) 15 8 (unat idx))
       7 0 (unat (CommandType_repr (cmd_type command)))) 31 16 (unat (cmd_adp command)))
       47 32 (unat (cmd_ado command))) 58 48 (unat (of_nat n :: u16))"

lemma length_request_header [simp]: "length (request_header idx command n) = 10"
  by (simp add: request_header_def)

lemma field_request_header:
  assumes "n < 2048"
  shows "field (request_header idx command n @ r) 15 8 = unat idx"
    and "field (request_header idx command n @ r) 7 0 = unat (CommandType_repr (cmd_type command))"
    and "field (request_header idx command n @ r) 31 16 = unat (cmd_adp command)"
    and "field (request_header idx command n @ r) 47 32 = unat (cmd_ado command)"
    and "field (request_header idx command n @ r) 58 48 = n"
proof -
  have "unat (of_nat n :: u16) = n" and "take_bit 11 n = n"
    using assms by (simp_all add: unat_of_nat take_bit_nat_eq_self)
  then show "field (request_header idx command n @ r) 15 8 = unat idx"
    "field (request_header idx command n @ r) 7 0 = unat (CommandType_repr (cmd_type command))"
    "field (request_header idx command n @ r) 31 16 = unat (cmd_adp command)"
    "field (request_header idx command n @ r) 47 32 = unat (cmd_ado command)"
    "field (request_header idx command n @ r) 58 48 = n"
    by (simp_all add: request_header_def field_simps_bytes)
qed

text \<open>The PDUs collected so far, as the chunks at the front of the buffer.\<close>

definition pi_chunks :: "'d PduInterface \<Rightarrow> bytes list \<Rightarrow> bool" where
  "pi_chunks i cs \<longleftrightarrow>
     take (pdus_total_size i) (pi_buffer i) = concat cs \<and>
     pdus_total_size i = length (concat cs) \<and> (\<forall>c \<in> set cs. wf_chunk c) \<and>
     pdus_total_size i \<le> pi_capacity i \<and> pi_capacity i \<le> length (pi_buffer i) \<and>
     pi_capacity i \<le> MAX_ETHERCAT_DATAGRAM"

lemma pi_chunks_new: "pi_chunks (PduInterface_new d b) []"
  by (simp add: pi_chunks_def PduInterface_new_def)

text \<open>A buffer split where the next PDU goes: header, data, three more bytes, the rest.\<close>

lemma split_buffer:
  assumes "take (length pre) b = pre" and "length pre + 12 + n < length b"
  obtains h d x y z r where "b = pre @ h @ d @ [x, y, z] @ r" "length h = 10" "length d = n"
proof -
  define b1 where "b1 = drop (length pre) b"
  define b2 where "b2 = drop 10 b1"
  define b3 where "b3 = drop n b2"
  have "3 \<le> length b3" using assms(2) by (simp add: b3_def b2_def b1_def)
  then obtain x y z r where b3: "b3 = [x, y, z] @ r"
    by (metis append_Cons append_Nil length_Cons list.exhaust list.size(3) not_less_eq_eq
      numeral_3_eq_3 zero_le)
  have "b = pre @ b1" using assms(1) by (metis append_take_drop_id b1_def)
  also have "b1 = take 10 b1 @ b2" by (simp add: b2_def)
  also have "b2 = take n b2 @ b3" by (simp add: b3_def)
  finally have "b = pre @ take 10 b1 @ take n b2 @ [x, y, z] @ r" by (simp add: b3)
  moreover have "length (take 10 b1) = 10" "length (take n b2) = n"
    using assms(2) by (simp_all add: b1_def b2_def)
  ultimately show ?thesis using that by blast
qed

definition pi_frame :: "'d PduInterface \<Rightarrow> 'd PduInterface \<Rightarrow> bool" where
  "pi_frame i i' \<longleftrightarrow> ethdev i' = ethdev i \<and> tx_count i' = tx_count i \<and>
     pi_capacity i' = pi_capacity i \<and> recv_data_size i' = recv_data_size i \<and>
     length (pi_buffer i') = length (pi_buffer i)"

context bitfield_crate
begin

lemma add_pdu_header_eq: "add_pdu_header X idx command n = Some (request_header idx command n)"
  by (simp add: add_pdu_header_def frame_field_defs bitfield_eqs request_header_def)

lemma add_pdu_ok:
  assumes pi: "pi_chunks i cs" and n: "0 < n" "n \<le> MAX_PDU_DATAGRAM"
    and fits: "pdus_total_size i + 12 + n \<le> pi_capacity i"
      "pdus_total_size i + 12 + n < length (pi_buffer i)"
    and w: "\<And>s. length (w s) = length s"
  shows "\<exists>i' c. add_pdu X i idx command n w = Some (Inr (), i') \<and> pi_chunks i' (cs @ [c]) \<and>
    pdu_count i' = Suc (pdu_count i) \<and> pi_frame i i' \<and>
    pv_command (pdu_view c) = CommandType_repr (cmd_type command) \<and>
    pv_index (pdu_view c) = idx \<and> pv_adp (pdu_view c) = cmd_adp command \<and>
    pv_ado (pdu_view c) = cmd_ado command \<and>
    pv_data (pdu_view c) = w (take n (drop (pdus_total_size i + 10) (pi_buffer i)))"
proof -
  define pre where "pre = concat cs"
  have t: "pdus_total_size i = length pre" and tk: "take (length pre) (pi_buffer i) = pre"
    using pi by (auto simp: pi_chunks_def pre_def)
  have "length pre + 12 + n < length (pi_buffer i)" using fits(2) t by simp
  then obtain h d x y z r where b: "pi_buffer i = pre @ h @ d @ [x, y, z] @ r"
    "length h = 10" "length d = n"
    using split_buffer [OF tk] by blast
  define H where "H = request_header idx command n"
  have H: "length H = 10" by (simp add: H_def)
  have b1: "write_at (length pre) H (pi_buffer i) = Some (pre @ H @ d @ [x, y, z] @ r)"
    unfolding b(1) by (rule write_at_append) (simp_all add: H b)
  have b2: "slice (length pre + 10) (length pre + 10 + n) (pre @ H @ d @ [x, y, z] @ r) = Some d"
    using H b(3) by (simp add: slice_def)
  have b3: "write_at (length pre + 10) (w d) ((pre @ H) @ d @ [x, y, z] @ r) =
      Some ((pre @ H) @ w d @ [x, y, z] @ r)"
    by (rule write_at_append) (simp_all add: H w)
  have pos: "length pre + 10 + n = length (pre @ H @ w d)" by (simp add: H w b)
  have b4: "store (pre @ H @ w d @ [x, y, z] @ r) (length pre + 10 + n + 1) 0 =
      Some (pre @ H @ w d @ [x, 0, z] @ r)"
    and b5: "store (pre @ H @ w d @ [x, 0, z] @ r) (length pre + 10 + n + 2) 0 =
      Some (pre @ H @ w d @ [x, 0, 0] @ r)"
    unfolding pos by (simp_all add: store_def list_update_append)
  define c where "c = H @ w d @ [x, 0]"
  let ?i' = "i\<lparr>pi_buffer := pre @ H @ w d @ [x, 0, 0] @ r,
    pdus_total_size := length pre + (12 + n), pdu_count := Suc (pdu_count i)\<rparr>"
  have add: "add_pdu X i idx command n w = Some (Inr (), ?i')"
    using fits n b1 b2 b3 b4 b5
    by (simp add: add_pdu_def add_pdu_header_eq t Let_def H_def [symmetric])
  have n2: "n < 2048" using n(2) by simp
  have len: "chunk_data_len c = n" "length c = n + 12"
    using field_request_header(5) [OF n2] by (simp_all add: c_def H_def chunk_data_len_def w b)
  have wf: "wf_chunk c" using len n by (simp add: wf_chunk_def)
  have "take (length pre + (12 + n)) (pre @ H @ w d @ [x, 0, 0] @ r) = pre @ c"
    using H w b(3) by (simp add: c_def)
  moreover have "pi_capacity i \<le> length (pi_buffer i)" "pi_capacity i \<le> MAX_ETHERCAT_DATAGRAM"
    "\<forall>c \<in> set cs. wf_chunk c"
    using pi by (simp_all add: pi_chunks_def)
  ultimately have "pi_chunks ?i' (cs @ [c])"
    using wf fits H w b len by (auto simp: pi_chunks_def pre_def t [unfolded pre_def])
  moreover have "take n (drop (pdus_total_size i + 10) (pi_buffer i)) = d"
    using b by (simp add: t)
  moreover have "take n (drop 10 c) = w d" using H w b(3) by (simp add: c_def)
  moreover have "pi_frame i ?i'" using H w b by (simp add: pi_frame_def)
  ultimately show ?thesis
    using add field_request_header [OF n2] len
    by (intro exI [of _ ?i'] exI [of _ c]) (simp add: pdu_view_def c_def H_def)
qed

lemma add_pdu_full:
  assumes "pi_chunks i cs" and "\<And>s. length (w s) = length s"
    and "pdus_total_size i + 12 + n \<le> pi_capacity i"
    and "length (pi_buffer i) \<le> pdus_total_size i + 12 + n"
  shows "add_pdu X i idx command n w = None"
proof -
  have "pdus_total_size i + 12 + n = length (pi_buffer i)" "n \<le> MAX_PDU_DATAGRAM"
    using assms by (auto simp: pi_chunks_def)
  then show ?thesis
    using assms(2,3) by (simp add: add_pdu_def add_pdu_header_eq rust_simps)
qed

end

section \<open>Transmission\<close>

text \<open>What a collected PDU becomes in the frame: its command byte passes through \<open>CommandType\<close>.\<close>

definition chunk_request :: "crates \<Rightarrow> bytes \<Rightarrow> pdu_request" where
  "chunk_request X c =
     \<lparr>rq_command = CommandType_from X (pv_command (pdu_view c)), rq_adp = pv_adp (pdu_view c),
      rq_ado = pv_ado (pdu_view c), rq_data = pv_data (pdu_view c), rq_index = pv_index (pdu_view c)\<rparr>"

lemma chunk_request_sel [simp]:
  "rq_command (chunk_request X c) = CommandType_from X (pv_command (pdu_view c))"
  "rq_adp (chunk_request X c) = pv_adp (pdu_view c)"
  "rq_ado (chunk_request X c) = pv_ado (pdu_view c)"
  "rq_data (chunk_request X c) = pv_data (pdu_view c)"
  "rq_index (chunk_request X c) = pv_index (pdu_view c)"
  by (simp_all add: chunk_request_def)

lemma rq_size_chunk: "wf_chunk c \<Longrightarrow> rq_size (chunk_request X c) = length c"
  by (simp add: rq_size_def wf_chunk_data) (simp add: wf_chunk_def)

lemma sum_rq_size:
  "\<forall>c \<in> set cs. wf_chunk c \<Longrightarrow> sum_list (map rq_size (map (chunk_request X) cs)) = length (concat cs)"
  by (induction cs) (auto simp: rq_size_chunk)

lemma length_concat_views:
  "\<forall>c \<in> set cs. wf_chunk c \<Longrightarrow>
     length (concat cs) = sum_list (map (\<lambda>v. 12 + length (pv_data v)) (map pdu_view cs))"
  by (induction cs) (auto simp: wf_chunk_data, auto simp: wf_chunk_def)

definition receives_as :: "bytes \<Rightarrow> bytes list \<Rightarrow> bytes \<Rightarrow> bool" where
  "receives_as frame cs r \<longleftrightarrow>
     (\<exists>hdr. frame = hdr @ concat cs @ r \<and> length hdr = 16) \<and> (\<forall>c \<in> set cs. wf_chunk c) \<and> stops r"

text \<open>The frames \<open>receive_one_frame\<close> does not skip.\<close>

definition ethercat_reply :: "bytes \<Rightarrow> bool" where
  "ethercat_reply frame \<longleftrightarrow> 16 \<le> length frame \<and> field_msb0 frame 95 48 \<noteq> unat SRC_MAC \<and>
     field_msb0 frame 111 96 = unat ETHERCAT_TYPE"

context bitfield_crate
begin

lemma transmit_loop_eq:
  assumes "\<forall>c \<in> set cs. wf_chunk c" and "length cs \<le> pdc"
  shows "transmit_loop X u txc pdc cs =
    map_option (\<lambda>u'. (u', txc + length cs, pdc - length cs))
      (add_commands X u (map (chunk_request X) cs))"
  using assms
proof (induction cs arbitrary: u txc pdc)
  case Nil
  then show ?case by simp
next
  case (Cons c cs)
  then have wf: "wf_chunk c" by simp
  have len: "unat (of_nat (chunk_data_len c) :: u16) = chunk_data_len c"
    by (simp add: chunk_data_len_def)
  have data: "slice_to (chunk_data_len c) (drop 10 c) = Some (pv_data (pdu_view c))"
    using wf by (simp add: slice_to_def pdu_view_def wf_chunk_def)
  obtain pdc' where pdc: "pdc = Suc pdc'" "length cs \<le> pdc'"
    using Cons.prems(2) by (cases pdc) auto
  show ?case
  proof (cases "add_command X u (CommandType_from X (pv_command (pdu_view c))) (pv_adp (pdu_view c))
      (pv_ado (pdu_view c)) (pv_data (pdu_view c)) (Some (pv_index (pdu_view c)))")
    case None
    with wf data len show ?thesis
      by (simp add: pdu_accessors EtherCatPdu_without_header_def slice_from_def
        wf_chunk_def)
  next
    case (Some p)
    obtain ok u' where p: "p = (ok, u')" by (cases p)
    have "transmit_loop X u' (txc + 1) pdc' cs =
      map_option (\<lambda>u'. (u', txc + 1 + length cs, pdc' - length cs))
        (add_commands X u' (map (chunk_request X) cs))"
      using Cons pdc by (intro Cons.IH) auto
    with Some p wf data len pdc show ?thesis
      by (cases ok) (simp_all add: pdu_accessors EtherCatPdu_without_header_def slice_from_def
        wf_chunk_def nsub_def)
  qed
qed

lemma transmit_builds:
  assumes pi: "pi_chunks i cs" and tx: "length tx = 16 + pdus_total_size i"
  shows "\<exists>u0 u1 u hdr cs'. EtherCatFrameUtil_new_unchecked X tx = Some u0 \<and> fu_init X u0 = Some u1 \<and>
    add_commands X u1 (map (chunk_request X) cs) = Some u \<and> frame_chunks u hdr cs' 0 \<and>
    map pdu_view cs' = map (rq_view \<circ> chunk_request X) cs \<and> next_flags cs' \<and>
    take 14 hdr = take 14 init_header"
proof -
  have wf: "\<forall>c \<in> set cs. wf_chunk c" and t: "pdus_total_size i = length (concat cs)"
    "pdus_total_size i \<le> 1498"
    using pi by (auto simp: pi_chunks_def)
  have "length tx = 16 + sum_list (map rq_size (map (chunk_request X) cs))"
    using tx t(1) sum_rq_size [OF wf] by simp
  moreover have "\<forall>r \<in> set (map (chunk_request X) cs). rq_data r \<noteq> []"
  proof
    fix r assume "r \<in> set (map (chunk_request X) cs)"
    then obtain c where "c \<in> set cs" "r = chunk_request X c" by auto
    with wf wf_chunk_data [of c] show "rq_data r \<noteq> []"
      by (auto simp: wf_chunk_def)
  qed
  moreover have "length tx < 2048" using tx t(2) by simp
  ultimately obtain u0 u1 u hdr cs' where "EtherCatFrameUtil_new_unchecked X tx = Some u0"
    "fu_init X u0 = Some u1" "add_commands X u1 (map (chunk_request X) cs) = Some u"
    "frame_chunks u hdr cs' 0" "map pdu_view cs' = map rq_view (map (chunk_request X) cs)"
    "next_flags cs'" "take 14 hdr = take 14 init_header"
    using build_frame [of tx "map (chunk_request X) cs"] by blast
  then show ?thesis by auto
qed

lemma transmit_one_frame_ok:
  assumes pi: "pi_chunks i cs" and cnt: "pdu_count i = length cs" "cs \<noteq> []"
    and dev: "dev_tx dev (ethdev i) (16 + pdus_total_size i) = (TxBuffer tx, d)"
    and tx: "length tx = 16 + pdus_total_size i"
  shows "\<exists>frame hdr cs'. transmit_one_frame X dev i =
      Some (if fst (dev_send dev d frame) then Inr True else Inl TxError,
            i\<lparr>ethdev := snd (dev_send dev d frame), tx_count := tx_count i + length cs,
              pdu_count := 0\<rparr>) \<and>
    frame = hdr @ concat cs' \<and> length hdr = 16 \<and> take 14 hdr = take 14 init_header \<and>
    field (drop 14 hdr) 10 0 = pdus_total_size i \<and> (\<forall>c \<in> set cs'. wf_chunk c) \<and>
    map pdu_view cs' = map (rq_view \<circ> chunk_request X) cs \<and> next_flags cs'"
proof -
  have wf: "\<forall>c \<in> set cs. wf_chunk c" and t: "pdus_total_size i = length (concat cs)"
    and bt: "take (length (concat cs)) (pi_buffer i) = concat cs"
      "length (concat cs) \<le> length (pi_buffer i)"
    using pi by (auto simp: pi_chunks_def)
  obtain u0 u1 u hdr cs' where u: "EtherCatFrameUtil_new_unchecked X tx = Some u0"
    "fu_init X u0 = Some u1" "add_commands X u1 (map (chunk_request X) cs) = Some u"
    "frame_chunks u hdr cs' 0" "map pdu_view cs' = map (rq_view \<circ> chunk_request X) cs"
    "next_flags cs'" "take 14 hdr = take 14 init_header"
    using transmit_builds [OF pi tx] by blast
  have coll: "pdus_collect X (EtherCatPdus_new (concat cs) (length (concat cs)) 0) = Some cs"
    using pdus_collect_chunks [of cs "[]" "length (concat cs)" "[]"] wf
    by (simp add: EtherCatPdus_new_def)
  have loop: "transmit_loop X u1 (tx_count i) (pdu_count i) cs =
      Some (u, tx_count i + length cs, 0)"
    using transmit_loop_eq [OF wf, of "pdu_count i"] u(3) cnt by simp
  have tot: "length (concat cs') = length (concat cs)"
  proof -
    have wf': "\<forall>c \<in> set cs'. wf_chunk c" using u(4) by (simp add: frame_chunks_def)
    have "map (\<lambda>v. 12 + length (pv_data v)) (map pdu_view cs') =
        map (\<lambda>v. 12 + length (pv_data v)) (map pdu_view cs)"
      unfolding u(5) by (simp add: rq_view_def)
    then show ?thesis using wf wf' by (simp only: length_concat_views)
  qed
  have "transmit_one_frame X dev i =
      Some (if fst (dev_send dev d (fu_buffer u)) then Inr True else Inl TxError,
            i\<lparr>ethdev := snd (dev_send dev d (fu_buffer u)), tx_count := tx_count i + length cs,
              pdu_count := 0\<rparr>)"
    using cnt dev u(1,2) coll loop bt
    by (simp add: transmit_one_frame_def t slice_def split_beta)
  with u tot show ?thesis
    by (intro exI [of _ "fu_buffer u"] exI [of _ hdr] exI [of _ cs'])
      (simp add: frame_chunks_def t)
qed

section \<open>Reception\<close>

lemma receive_loop_chunks:
  assumes "\<forall>c \<in> set cs. wf_chunk c" and "length cs \<le> txc"
    and "length pre + length (concat cs) \<le> length b" and "take (length pre) b = pre"
  shows "receive_loop X b (length pre) txc cs =
    Some (pre @ concat cs @ drop (length pre + length (concat cs)) b,
          length pre + length (concat cs), txc - length cs)"
  using assms
proof (induction cs arbitrary: b pre txc)
  case Nil
  then show ?case using append_take_drop_id [of "length pre" b] by simp
next
  case (Cons c cs)
  then have wf: "wf_chunk c" by simp
  obtain txc' where txc: "txc = Suc txc'" "length cs \<le> txc'"
    using Cons.prems(2) by (cases txc) auto
  define b' where "b' = pre @ c @ drop (length pre + length c) b"
  have wr: "write_at (length pre) c b = Some b'"
    using Cons.prems(3,4) by (simp add: write_at_def b'_def)
  have sz: "10 + unat (of_nat (chunk_data_len c) :: u16) + 2 = length c"
    using wf by (simp add: chunk_data_len_def wf_chunk_def)
  have lb: "length b' = length b" using Cons.prems(3) by (simp add: b'_def)
  have "receive_loop X b' (length (pre @ c)) txc' cs =
    Some ((pre @ c) @ concat cs @ drop (length (pre @ c) + length (concat cs)) b',
          length (pre @ c) + length (concat cs), txc' - length cs)"
    using Cons.prems txc lb by (intro Cons.IH) (auto simp: b'_def)
  moreover have "drop (length (pre @ c) + length (concat cs)) b' =
      drop (length pre + length (concat (c # cs))) b"
    by (simp add: b'_def add.commute add.left_commute)
  ultimately show ?case
    using wf wr sz txc by (simp add: pdu_accessors assert_def nsub_def Let_def)
qed

lemma receive_one_frame_reply:
  assumes rx: "dev_rx dev (ethdev i) = (RxFrame frame ok, d)" and rep: "ethercat_reply frame"
    and tx: "tx_count i \<noteq> 0"
  shows "receive_one_frame X dev i = do {
    pdus \<leftarrow> pdus_collect X (EtherCatPdus_new frame (length frame) 16);
    (b, rds, txc) \<leftarrow> receive_loop X (pi_buffer i) (recv_data_size i) (tx_count i) pdus;
    let i = i\<lparr>ethdev := d, pi_buffer := b, recv_data_size := rds, tx_count := txc\<rparr>;
    Some (if \<not> ok then Inl RxError else if 0 < tx_count i then Inr False else Inr True, i) }"
proof -
  have len: "16 \<le> length frame" and src: "field_msb0 frame 95 48 \<noteq> unat SRC_MAC"
    and et: "field_msb0 frame 111 96 = unat ETHERCAT_TYPE"
    using rep by (simp_all add: ethercat_reply_def)
  have "field_msb0 frame 95 48 < 2 ^ length (rev (map (bit_at_msb0 frame) [48..<Suc 95]))"
    unfolding field_msb0_def by (rule of_bits_less)
  then have "field_msb0 frame 95 48 < 2 ^ 48" by (simp del: upt_Suc upt_rec_numeral)
  then have "unat (of_nat (field_msb0 frame 95 48) :: u64) = field_msb0 frame 95 48"
    by (simp add: unat_of_nat)
  then have s: "EthernetFrame_source X frame = Some (of_nat (field_msb0 frame 95 48))"
    "(of_nat (field_msb0 frame 95 48) :: u64) \<noteq> SRC_MAC"
    using len src by (auto simp: EthernetFrame_source_def bf_range_msb0_eq)
  have e: "EthernetFrame_ether_type X frame = Some ETHERCAT_TYPE"
    using len et by (simp add: EthernetFrame_ether_type_def bf_range_msb0_eq)
  obtain ec where ec: "EtherCatFrameUtil_new_unchecked X frame = Some ec" "fu_buffer ec = frame"
  proof -
    have "10 < 8 * (length frame - 14)" using len by linarith
    then show thesis
      by (intro that [of "\<lparr>fu_buffer = frame,
          fu_free_offset = 16 + unat (of_nat (field (drop 14 frame) 10 0) :: u16), fu_index = 0\<rparr>"])
        (use len in \<open>simp_all add: EtherCatFrameUtil_new_unchecked_def rust_simps
          EtherCatFrame_length_def get_field_eq\<close>)
  qed
  show ?thesis
    using rx s e ec tx
    by (simp add: receive_one_frame_def dlpdus_def EtherCatPdus_new_for_ethercat_frame_def
      bind_eq_Some_conv split_beta Let_def if_distrib [of Some] cong: if_cong
      split: bind_split)
qed

lemma receive_one_frame_ok:
  assumes rx: "dev_rx dev (ethdev i) = (RxFrame frame True, d)" and rep: "ethercat_reply frame"
    and fr: "receives_as frame cs r"
    and cnt: "tx_count i = length cs" "cs \<noteq> []" and st: "recv_data_size i = 0"
    and fits: "length (concat cs) \<le> length (pi_buffer i)"
  shows "receive_one_frame X dev i = Some (Inr True,
    i\<lparr>ethdev := d, pi_buffer := concat cs @ drop (length (concat cs)) (pi_buffer i),
      recv_data_size := length (concat cs), tx_count := 0\<rparr>)"
proof -
  obtain hdr where frame: "frame = hdr @ concat cs @ r" "length hdr = 16"
    and wf: "\<forall>c \<in> set cs. wf_chunk c" and r: "stops r"
    using fr by (auto simp: receives_as_def)
  have "pdus_collect X (EtherCatPdus_new frame (length frame) 16) = Some cs"
    using pdus_collect_chunks [OF wf, of hdr "length frame" r] frame r
    by (simp add: EtherCatPdus_new_def)
  moreover have "receive_loop X (pi_buffer i) 0 (tx_count i) cs =
      Some (concat cs @ drop (length (concat cs)) (pi_buffer i), length (concat cs), 0)"
    using receive_loop_chunks [OF wf, of "tx_count i" "[]" "pi_buffer i"] cnt fits by simp
  ultimately show ?thesis
    using receive_one_frame_reply [OF rx rep] cnt st by simp
qed

lemma receive_truncated:
  assumes rx: "dev_rx dev (ethdev i) = (RxFrame (hdr @ r) ok, d)" and rep: "ethercat_reply (hdr @ r)"
    and hdr: "length hdr = 16" and tx: "tx_count i \<noteq> 0"
    and r: "10 \<le> length r" "field r 58 48 \<noteq> 0" "length r < 12 + field r 58 48"
  shows "receive_one_frame X dev i = None"
proof -
  have "pdus_collect X (EtherCatPdus_new (hdr @ r) (length (hdr @ r)) 16) = None"
    using hdr r by (subst pdus_collect.simps)
      (auto simp: EtherCatPdus_new_def EtherCatPdus_next_def rust_simps pdu_length_eq)
  with receive_one_frame_reply [OF rx rep tx] show ?thesis by simp
qed

end

section \<open>Properties\<close>


definition example_interface :: "nat \<Rightarrow> unit PduInterface" where
  "example_interface k = PduInterface_new () (replicate k 0xEE)"


text \<open>
  C31: what is transmitted is what was collected. When the device provides a transmit buffer of
  the requested length, the call does not panic and the frame handed to the device is the
  Ethernet and EtherCAT header, whose length field is the total size of the PDUs, followed by
  the collected PDUs in order with index, addresses and data unchanged, working counter 0 and
  the command byte read back through \<open>CommandType\<close>. All PDUs are counted as sent; a failure of
  the device is reported as \<open>TxError\<close>.
\<close>

theorem transmit_sends_collected:
  assumes X: "crates_laws X" and pi: "pi_chunks i cs" and cnt: "pdu_count i = length cs" "cs \<noteq> []"
    and dev: "dev_tx dev (ethdev i) (16 + pdus_total_size i) = (TxBuffer tx, d)"
    and tx: "length tx = 16 + pdus_total_size i"
  shows "\<exists>frame hdr cs'. transmit_one_frame X dev i =
      Some (if fst (dev_send dev d frame) then Inr True else Inl TxError,
            i\<lparr>ethdev := snd (dev_send dev d frame), tx_count := tx_count i + length cs,
              pdu_count := 0\<rparr>) \<and>
    frame = hdr @ concat cs' \<and> length hdr = 16 \<and> take 14 hdr = take 14 init_header \<and>
    field (drop 14 hdr) 10 0 = pdus_total_size i \<and> (\<forall>c \<in> set cs'. wf_chunk c) \<and>
    map pdu_view cs' = map (rq_view \<circ> chunk_request X) cs \<and> next_flags cs'"
  using X by (intro bitfield_crate.transmit_one_frame_ok [OF _ assms(2-6)] crates_laws.axioms)

text \<open>A device that keeps the last frame sent and answers with what \<open>reply\<close> makes of it.\<close>

definition loop_device :: "(bytes \<Rightarrow> bytes) \<Rightarrow> bytes option device" where
  "loop_device reply =
     \<lparr>dev_tx = (\<lambda>d n. (TxBuffer (replicate n 0), d)), dev_send = (\<lambda>d b. (True, Some b)),
      dev_rx = (\<lambda>d. case d of None \<Rightarrow> (RxNone, None) | Some f \<Rightarrow> (RxFrame (reply f) True, None))\<rparr>"

definition example_chunk :: bytes where
  "example_chunk = [7, 0, 0, 0, 0x30, 1, 2, 0, 0, 0, 0xAB, 0xCD, 0, 0]"

lemma example_chunk_wf: "wf_chunk example_chunk"
  by (simp add: wf_chunk_def chunk_data_len_def example_chunk_def field_def of_bits_def bit_at_def)

definition loaded_interface :: "bytes option PduInterface" where
  "loaded_interface = (PduInterface_new None example_chunk)\<lparr>pdus_total_size := 14, pdu_count := 1\<rparr>"

theorem transmit_sends_collected_witness:
  "crates_laws ref_crates \<and> pi_chunks loaded_interface [example_chunk] \<and>
   (\<exists>frame hdr c'. transmit_one_frame ref_crates (loop_device id) loaded_interface =
      Some (Inr True, loaded_interface\<lparr>ethdev := Some frame, tx_count := 1, pdu_count := 0\<rparr>) \<and>
    frame = hdr @ c' \<and> length hdr = 16 \<and> take 14 hdr = take 14 init_header \<and>
    field (drop 14 hdr) 10 0 = 14 \<and>
    pdu_view c' = rq_view (chunk_request ref_crates example_chunk))"
proof -
  have pi: "pi_chunks loaded_interface [example_chunk]"
    using example_chunk_wf
    by (simp add: pi_chunks_def loaded_interface_def PduInterface_new_def) (simp add: example_chunk_def)
  have "\<exists>frame hdr cs'. transmit_one_frame ref_crates (loop_device id) loaded_interface =
      Some (if fst (dev_send (loop_device id) None frame) then Inr True else Inl TxError,
            loaded_interface\<lparr>ethdev := snd (dev_send (loop_device id) None frame),
              tx_count := tx_count loaded_interface + length [example_chunk], pdu_count := 0\<rparr>) \<and>
    frame = hdr @ concat cs' \<and> length hdr = 16 \<and> take 14 hdr = take 14 init_header \<and>
    field (drop 14 hdr) 10 0 = pdus_total_size loaded_interface \<and> (\<forall>c \<in> set cs'. wf_chunk c) \<and>
    map pdu_view cs' = map (rq_view \<circ> chunk_request ref_crates) [example_chunk] \<and> next_flags cs'"
    by (rule transmit_sends_collected [OF ref_crates_laws pi, where tx = "replicate 30 0"])
      (simp_all add: loaded_interface_def PduInterface_new_def loop_device_def)
  then show ?thesis
    using pi ref_crates_laws
    by (fastforce simp: loop_device_def loaded_interface_def PduInterface_new_def)
qed


definition reply_header :: bytes where
  "reply_header = [255, 255, 255, 255, 255, 255, 7, 5, 5, 5, 5, 5, 0x88, 0xA4, 14, 16]"

lemma reply_header_ok: "12 \<le> length r \<Longrightarrow> ethercat_reply (reply_header @ r)"
  by (simp add: ethercat_reply_def reply_header_def field_msb0_def of_bits_def bit_at_msb0_def)

definition waiting_interface :: "bytes option PduInterface" where
  "waiting_interface =
     (PduInterface_new (Some []) (replicate 20 0))\<lparr>pdus_total_size := 14, tx_count := 1\<rparr>"


text \<open>
  A received EtherCAT frame that ends before the PDU its length field announces makes the
  master panic instead of returning an error: the iterator slices the buffer without a check.
\<close>

lemma receive_truncated_panics:
  assumes X: "crates_laws X"
    and "dev_rx dev (ethdev i) = (RxFrame (hdr @ r) ok, d)" and "ethercat_reply (hdr @ r)"
    and "length hdr = 16" and "tx_count i \<noteq> 0"
    and "10 \<le> length r" and "field r 58 48 \<noteq> 0" and "length r < 12 + field r 58 48"
  shows "receive_one_frame X dev i = None"
  using X by (intro bitfield_crate.receive_truncated [OF _ assms(2-8)] crates_laws.axioms)

end
