(* ===== verification/Socket_Interface.thy ===== *)
theory Socket_Interface
  imports Pdu_Interface Index_Set
begin

text \<open>
  \<open>src/src/interface/socket_if.rs\<close>: sockets hold one PDU each; \<open>poll_tx_rx\<close> collects the pending
  ones in the PDU interface, exchanges one frame and hands the returned PDUs back to the sockets
  by the index of the PDU.
\<close>

section \<open>Sockets\<close>

record Pdu =
  pdu_command :: Command
  pdu_data :: bytes
  pdu_wkc :: u16

definition Pdu_new :: "Command \<Rightarrow> bytes \<Rightarrow> Pdu" where
  "Pdu_new command data = \<lparr>pdu_command = command, pdu_data = data, pdu_wkc = 0\<rparr>"

record PduSocket =
  sk_command :: "Command option"
  data_buf :: bytes
  sk_wkc :: u16
  sk_data_length :: nat
  recv_flag :: bool

definition PduSocket_new :: "bytes \<Rightarrow> PduSocket" where
  "PduSocket_new buf =
     \<lparr>sk_command = None, data_buf = buf, sk_wkc = 0, sk_data_length = 0, recv_flag = False\<rparr>"

definition PduSocket_clear :: "PduSocket \<Rightarrow> PduSocket" where
  "PduSocket_clear s =
     s\<lparr>data_buf := replicate (length (data_buf s)) 0, sk_command := None, sk_wkc := 0,
       sk_data_length := 0, recv_flag := False\<rparr>"

text \<open>The closure of \<open>set_pdu\<close> may write the buffer and may panic.\<close>

definition set_pdu ::
    "(bytes \<Rightarrow> ((Command \<times> nat) option \<times> bytes) rust) \<Rightarrow> PduSocket \<Rightarrow> PduSocket rust" where
  "set_pdu command_data s = do {
     let s = s\<lparr>recv_flag := False, sk_wkc := 0\<rparr>;
     (r, buf) \<leftarrow> command_data (data_buf s);
     ret (case r of
            Some (command, len) \<Rightarrow>
              s\<lparr>data_buf := buf, sk_command := Some command, sk_data_length := len\<rparr>
          | None \<Rightarrow> s\<lparr>data_buf := buf, sk_command := None, sk_data_length := 0\<rparr>) }"

definition get_recieved_pdu :: "PduSocket \<Rightarrow> Pdu option rust" where
  "get_recieved_pdu s =
     (if recv_flag s then
        (case sk_command s of
           None \<Rightarrow> ret None
         | Some command \<Rightarrow> do {
             data \<leftarrow> slice_to (sk_data_length s) (data_buf s);
             ret (Some \<lparr>pdu_command = command, pdu_data = data, pdu_wkc = sk_wkc s\<rparr>) })
      else ret None)"

definition data_length :: "PduSocket \<Rightarrow> nat" where
  "data_length s = (if sk_command s \<noteq> None then sk_data_length s else 0)"

definition take_pdu :: "PduSocket \<Rightarrow> (Pdu option \<times> PduSocket) rust" where
  "take_pdu s =
     (if recv_flag s then ret (None, s)
      else case sk_command s of
        None \<Rightarrow> ret (None, s)
      | Some command \<Rightarrow> do {
          let s = s\<lparr>sk_command := None\<rparr>;
          data \<leftarrow> slice_to (sk_data_length s) (data_buf s);
          ret (Some (Pdu_new command data), s) })"

definition recieve :: "PduSocket \<Rightarrow> Pdu \<Rightarrow> PduSocket" where
  "recieve s recv_data =
     s\<lparr>recv_flag := True, sk_command := Some (pdu_command recv_data),
       data_buf := copy_zip (data_buf s) (pdu_data recv_data), sk_wkc := pdu_wkc recv_data\<rparr>"

section \<open>The socket interface\<close>

record 'd SocketInterface =
  iface :: "'d PduInterface"
  socket_set :: "PduSocket IndexSet"
  lost_frame_count :: nat

definition SocketInterface_new :: "nat \<Rightarrow> 'd PduInterface \<Rightarrow> 'd SocketInterface" where
  "SocketInterface_new N i = \<lparr>iface = i, socket_set = index_set_new N, lost_frame_count = 0\<rparr>"

definition add_socket ::
    "'d SocketInterface \<Rightarrow> PduSocket \<Rightarrow> ((PduSocket + nat) \<times> 'd SocketInterface) rust" where
  "add_socket si socket = do {
     (r, s) \<leftarrow> add_item (socket_set si) socket;
     ret (r, si\<lparr>socket_set := s\<rparr>) }"

definition remove_socket ::
    "'d SocketInterface \<Rightarrow> nat \<Rightarrow> PduSocket option \<times> 'd SocketInterface" where
  "remove_socket si socket_handle =
     (let (r, s) = remove_item (socket_set si) socket_handle in (r, si\<lparr>socket_set := s\<rparr>))"

definition get_socket :: "'d SocketInterface \<Rightarrow> nat \<Rightarrow> PduSocket option" where
  "get_socket si socket_handle = get_item (socket_set si) socket_handle"

text \<open>What the caller stores through the reference of \<open>get_socket_mut\<close> is the last argument.\<close>

definition get_socket_mut ::
    "'d SocketInterface \<Rightarrow> nat \<Rightarrow> PduSocket \<Rightarrow> 'd SocketInterface option" where
  "get_socket_mut si socket_handle socket' =
     map_option (\<lambda>s. si\<lparr>socket_set := s\<rparr>) (get_item_mut (socket_set si) socket_handle socket')"

text \<open>The loop of \<open>enqueue_pdus\<close>: \<open>i\<close> counts the occupied slots visited so far.\<close>

fun enqueue_loop ::
    "crates \<Rightarrow> 'd PduInterface \<Rightarrow> nat \<Rightarrow> PduSocket IndexOption list \<Rightarrow>
       (bool \<times> 'd PduInterface \<times> PduSocket IndexOption list) rust" where
  "enqueue_loop X p i [] = ret (True, p, [])"
| "enqueue_loop X p i (NextFreeIndex n # slots) = do {
     (complete, p, slots) \<leftarrow> enqueue_loop X p i slots;
     ret (complete, p, NextFreeIndex n # slots) }"
| "enqueue_loop X p i (Exist socket # slots) = do {
     let len = data_length socket;
     remaining \<leftarrow> remainig_pdu_data_capacity p;
     if remaining < len then ret (False, p, Exist socket # slots)
     else do {
       (taken, socket) \<leftarrow> take_pdu socket;
       p \<leftarrow> (case taken of
              Some command_data \<Rightarrow> do {
                (r, p) \<leftarrow> add_pdu X p (of_nat i) (pdu_command command_data) len
                           (\<lambda>buf. copy_zip buf (pdu_data command_data));
                (case r of Inl _ \<Rightarrow> panic | Inr _ \<Rightarrow> ret p) }
            | None \<Rightarrow> ret p);
       (complete, p, slots) \<leftarrow> enqueue_loop X p (i + 1) slots;
       ret (complete, p, Exist socket # slots) } }"

definition enqueue_pdus :: "crates \<Rightarrow> 'd SocketInterface \<Rightarrow> (bool \<times> 'd SocketInterface) rust" where
  "enqueue_pdus X si = do {
     (complete, p, slots) \<leftarrow> enqueue_loop X (iface si) 0 (items (socket_set si));
     ret (complete, si\<lparr>iface := p, socket_set := (socket_set si)\<lparr>items := slots\<rparr>\<rparr>) }"

text \<open>The PDU a socket receives, and the loop of \<open>transmit_and_receive\<close> that hands the PDUs out.\<close>

definition recv_pdu :: "crates \<Rightarrow> bytes \<Rightarrow> Pdu rust" where
  "recv_pdu X pdu = do {
     wkc \<leftarrow> EtherCatPdu_wkc X pdu;
     ct \<leftarrow> EtherCatPdu_command_type X pdu;
     adp \<leftarrow> EtherCatPdu_adp X pdu;
     ado \<leftarrow> EtherCatPdu_ado X pdu;
     payload \<leftarrow> EtherCatPdu_without_header pdu;
     len \<leftarrow> EtherCatPdu_length X pdu;
     data \<leftarrow> slice_to (unat len) payload;
     ret \<lparr>pdu_command = Command_new (CommandType_from X ct) adp ado, pdu_data = data,
          pdu_wkc = (case wkc of Some w \<Rightarrow> w | None \<Rightarrow> 0)\<rparr> }"

fun dispatch_loop :: "crates \<Rightarrow> PduSocket IndexSet \<Rightarrow> bytes list \<Rightarrow> PduSocket IndexSet rust" where
  "dispatch_loop X s [] = ret s"
| "dispatch_loop X s (pdu # pdus) = do {
     idx \<leftarrow> EtherCatPdu_index X pdu;
     s \<leftarrow> (case get_item s (unat idx) of
            Some socket \<Rightarrow> do {
              recv_data \<leftarrow> recv_pdu X pdu;
              get_item_mut s (unat idx) (recieve socket recv_data) }
          | None \<Rightarrow> ret s);
     dispatch_loop X s pdus }"

definition transmit_and_receive ::
    "crates \<Rightarrow> 'd device \<Rightarrow> 'd SocketInterface \<Rightarrow> ((PhyError + bool) \<times> 'd SocketInterface) rust" where
  "transmit_and_receive X dev si = do {
     (tx, p) \<leftarrow> transmit_one_frame X dev (iface si);
     case tx of
       Inl e \<Rightarrow> ret (Inl e, si\<lparr>iface := p\<rparr>)
     | Inr is_tx_ok \<Rightarrow> do {
         (rx, p) \<leftarrow> receive_one_frame X dev p;
         case rx of
           Inl e \<Rightarrow> ret (Inl e, si\<lparr>iface := p\<rparr>)
         | Inr is_rx_ok \<Rightarrow>
             if \<not> (is_tx_ok \<and> is_rx_ok) then ret (Inr False, si\<lparr>iface := p\<rparr>)
             else do {
               let (it, p) = consume_pdus p;
               pdus \<leftarrow> pdus_collect X it;
               s \<leftarrow> dispatch_loop X (socket_set si) pdus;
               ret (Inr True, si\<lparr>iface := p, socket_set := s\<rparr>) } } }"

definition poll_tx_rx ::
    "crates \<Rightarrow> 'd device \<Rightarrow> 'd SocketInterface \<Rightarrow> ((PhyError + bool) \<times> 'd SocketInterface) rust" where
  "poll_tx_rx X dev si = do {
     (enqueued, si) \<leftarrow> enqueue_pdus X si;
     (processed, si) \<leftarrow> transmit_and_receive X dev si;
     ret (map_sum id (\<lambda>p. enqueued \<and> p) processed, si) }"

section \<open>Collecting the pending sockets\<close>

definition pending :: "PduSocket \<Rightarrow> bool" where
  "pending s \<longleftrightarrow> sk_command s \<noteq> None \<and> \<not> recv_flag s"

definition taken :: "PduSocket \<Rightarrow> PduSocket" where
  "taken s = (if pending s then s\<lparr>sk_command := None\<rparr> else s)"

text \<open>The PDU a pending socket asks for, numbered by the occupied slots before it.\<close>

definition socket_request :: "nat \<times> PduSocket \<Rightarrow> pdu_request" where
  "socket_request = (\<lambda>(i, s). let c = the (sk_command s) in
     \<lparr>rq_command = cmd_type c, rq_adp = cmd_adp c, rq_ado = cmd_ado c,
      rq_data = take (sk_data_length s) (data_buf s), rq_index = of_nat i\<rparr>)"

definition slot_sockets :: "'a IndexOption list \<Rightarrow> 'a list" where
  "slot_sockets = List.map_filter (\<lambda>opt. case opt of Exist x \<Rightarrow> Some x | NextFreeIndex _ \<Rightarrow> None)"

definition pending_requests :: "nat \<Rightarrow> PduSocket IndexOption list \<Rightarrow> pdu_request list" where
  "pending_requests i slots =
     map socket_request (filter (pending \<circ> snd) (enumerate i (slot_sockets slots)))"

definition sockets_size :: "PduSocket IndexOption list \<Rightarrow> nat" where
  "sockets_size slots = sum_list (map (\<lambda>s. 12 + data_length s) (slot_sockets slots))"

definition socket_ok :: "PduSocket \<Rightarrow> bool" where
  "socket_ok s \<longleftrightarrow> (pending s \<longrightarrow> 0 < sk_data_length s \<and> sk_data_length s \<le> length (data_buf s))"

lemma slot_sockets_simps [simp]:
  "slot_sockets [] = []" "slot_sockets (NextFreeIndex n # slots) = slot_sockets slots"
  "slot_sockets (Exist x # slots) = x # slot_sockets slots"
  by (simp_all add: slot_sockets_def List.map_filter_simps)

lemma sockets_size_simps [simp]:
  "sockets_size [] = 0" "sockets_size (NextFreeIndex n # slots) = sockets_size slots"
  "sockets_size (Exist x # slots) = 12 + data_length x + sockets_size slots"
  by (simp_all add: sockets_size_def)

lemma pending_requests_simps [simp]:
  "pending_requests i [] = []"
  "pending_requests i (NextFreeIndex n # slots) = pending_requests i slots"
  "pending_requests i (Exist x # slots) =
     (if pending x then [socket_request (i, x)] else []) @ pending_requests (Suc i) slots"
  by (simp_all add: pending_requests_def)

lemma take_pdu_eq:
  assumes "socket_ok s"
  shows "take_pdu s = Some (if pending s
    then Some (Pdu_new (the (sk_command s)) (take (sk_data_length s) (data_buf s))) else None, taken s)"
  using assms by (auto simp: take_pdu_def taken_def socket_ok_def pending_def rust_simps
    split: option.splits)

lemma slot_induct [case_names Nil Free Exist]:
  assumes "P []" and "\<And>n slots. P slots \<Longrightarrow> P (NextFreeIndex n # slots)"
    and "\<And>s slots. P slots \<Longrightarrow> P (Exist s # slots)"
  shows "P slots"
  using assms by (induction slots) (auto, metis IndexOption.exhaust)

lemma pi_frame_trans: "pi_frame i j \<Longrightarrow> pi_frame j k \<Longrightarrow> pi_frame i k"
  by (simp add: pi_frame_def)

lemma pi_frame_refl [simp]: "pi_frame i i"
  by (simp add: pi_frame_def)

context crates_laws
begin

lemma add_pending_pdu:
  assumes pi: "pi_chunks p cs" and s: "socket_ok s" "pending s"
    and fits: "pdus_total_size p + 12 + sk_data_length s \<le> pi_capacity p"
      "pdus_total_size p + 12 + sk_data_length s < length (pi_buffer p)"
  shows "\<exists>p' c. add_pdu X p (of_nat i) (the (sk_command s)) (sk_data_length s)
      (\<lambda>buf. copy_zip buf (take (sk_data_length s) (data_buf s))) = Some (Inr (), p') \<and>
    pi_chunks p' (cs @ [c]) \<and> pdu_count p' = Suc (pdu_count p) \<and> pi_frame p p' \<and>
    pdus_total_size p' = pdus_total_size p + 12 + sk_data_length s \<and>
    chunk_request X c = socket_request (i, s)"
proof -
  let ?n = "sk_data_length s" and ?d = "take (sk_data_length s) (data_buf s)"
  have n: "0 < ?n" "?n \<le> length (data_buf s)" using s by (auto simp: socket_ok_def)
  have "?n \<le> MAX_PDU_DATAGRAM" using fits(1) pi by (simp add: pi_chunks_def)
  then obtain p' c where p': "add_pdu X p (of_nat i) (the (sk_command s)) ?n
        (\<lambda>buf. copy_zip buf ?d) = Some (Inr (), p')" "pi_chunks p' (cs @ [c])"
      "pdu_count p' = Suc (pdu_count p)" "pi_frame p p'"
    and c: "pv_command (pdu_view c) = CommandType_repr (cmd_type (the (sk_command s)))"
      "pv_index (pdu_view c) = of_nat i" "pv_adp (pdu_view c) = cmd_adp (the (sk_command s))"
      "pv_ado (pdu_view c) = cmd_ado (the (sk_command s))"
      "pv_data (pdu_view c) = copy_zip (take ?n (drop (pdus_total_size p + 10) (pi_buffer p))) ?d"
    using add_pdu_ok [OF pi n(1) _ fits, of "\<lambda>buf. copy_zip buf ?d" "of_nat i" "the (sk_command s)"]
    by auto
  have d: "pv_data (pdu_view c) = ?d"
    unfolding c(5) using n fits by (intro copy_zip_exact) simp
  have "wf_chunk c" using p'(2) by (simp add: pi_chunks_def)
  with d n wf_chunk_data [of c] have "length c = 12 + ?n" by (auto simp: wf_chunk_def)
  then have "pdus_total_size p' = pdus_total_size p + 12 + ?n"
    using p'(2) pi by (simp add: pi_chunks_def)
  moreover have "chunk_request X c = socket_request (i, s)"
    by (simp add: chunk_request_def socket_request_def c(1-4) d CommandType_from_repr Let_def)
  ultimately show ?thesis using p' by blast
qed

lemma enqueue_loop_ok:
  assumes "pi_chunks p cs" and "\<forall>s \<in> set (slot_sockets slots). socket_ok s"
    and "pdus_total_size p + sockets_size slots \<le> pi_capacity p"
    and "pdus_total_size p + sockets_size slots < length (pi_buffer p)"
  shows "\<exists>p' cs'. enqueue_loop X p i slots = Some (True, p', map (map_IndexOption taken) slots) \<and>
    pi_chunks p' (cs @ cs') \<and> pdu_count p' = pdu_count p + length cs' \<and> pi_frame p p' \<and>
    map (chunk_request X) cs' = pending_requests i slots"
  using assms
proof (induction slots arbitrary: p cs i rule: slot_induct)
  case Nil
  then show ?case by auto
next
  case (Free n slots)
  then obtain p' cs' where "enqueue_loop X p i slots = Some (True, p', map (map_IndexOption taken) slots)"
    "pi_chunks p' (cs @ cs')" "pdu_count p' = pdu_count p + length cs'" "pi_frame p p'"
    "map (chunk_request X) cs' = pending_requests i slots"
    by auto (metis (no_types, lifting))
  then show ?case by auto
next
  case (Exist s slots)
  have ok: "socket_ok s" using Exist.prems(2) by simp
  have cap: "remainig_pdu_data_capacity p = Some (pi_capacity p - pdus_total_size p - 12)"
    using Exist.prems(3) by (auto simp: remainig_pdu_data_capacity_def nsub_def)
  show ?case
  proof (cases "pending s")
    case False
    have "\<exists>p' cs'. enqueue_loop X p (Suc i) slots =
        Some (True, p', map (map_IndexOption taken) slots) \<and>
      pi_chunks p' (cs @ cs') \<and> pdu_count p' = pdu_count p + length cs' \<and> pi_frame p p' \<and>
      map (chunk_request X) cs' = pending_requests (Suc i) slots"
      using Exist.prems by (intro Exist.IH) auto
    then show ?thesis
      using False cap Exist.prems(3) by (auto simp: take_pdu_eq [OF ok] Let_def)
  next
    case True
    then have len: "data_length s = sk_data_length s" by (simp add: data_length_def pending_def)
    obtain p1 c where p1: "add_pdu X p (of_nat i) (the (sk_command s)) (sk_data_length s)
        (\<lambda>buf. copy_zip buf (take (sk_data_length s) (data_buf s))) = Some (Inr (), p1)"
      "pi_chunks p1 (cs @ [c])" "pdu_count p1 = Suc (pdu_count p)" "pi_frame p p1"
      "pdus_total_size p1 = pdus_total_size p + 12 + sk_data_length s"
      "chunk_request X c = socket_request (i, s)"
      using add_pending_pdu [OF Exist.prems(1) ok True, of i] Exist.prems(3,4) len by auto
    have "\<exists>p' cs'. enqueue_loop X p1 (Suc i) slots =
        Some (True, p', map (map_IndexOption taken) slots) \<and>
      pi_chunks p' ((cs @ [c]) @ cs') \<and> pdu_count p' = pdu_count p1 + length cs' \<and> pi_frame p1 p' \<and>
      map (chunk_request X) cs' = pending_requests (Suc i) slots"
      using Exist.prems p1(4,5) len by (intro Exist.IH [OF p1(2)]) (auto simp: pi_frame_def)
    then obtain p' cs' where p': "enqueue_loop X p1 (Suc i) slots =
        Some (True, p', map (map_IndexOption taken) slots)"
      "pi_chunks p' (cs @ c # cs')" "pdu_count p' = pdu_count p1 + length cs'" "pi_frame p1 p'"
      "map (chunk_request X) cs' = pending_requests (Suc i) slots"
      by auto
    have "enqueue_loop X p i (Exist s # slots) =
        Some (True, p', map (map_IndexOption taken) (Exist s # slots))"
      using True cap Exist.prems(3) p1(1) p'(1) len
      by (simp add: take_pdu_eq [OF ok] Let_def Pdu_new_def)
    moreover have "pdu_count p' = pdu_count p + length (c # cs')"
      using p'(3) p1(3) by simp
    moreover have "map (chunk_request X) (c # cs') = pending_requests i (Exist s # slots)"
      using True p'(5) p1(6) by simp
    ultimately show ?thesis
      using p'(2) pi_frame_trans [OF p1(4) p'(4)] by blast
  qed
qed

end

section \<open>Handing the PDUs out\<close>

definition chunk_pdu :: "crates \<Rightarrow> bytes \<Rightarrow> Pdu" where
  "chunk_pdu X c = (let v = pdu_view c in
     \<lparr>pdu_command = Command_new (CommandType_from X (pv_command v)) (pv_adp v) (pv_ado v),
      pdu_data = pv_data v, pdu_wkc = pv_wkc v\<rparr>)"

abbreviation chunk_handle :: "bytes \<Rightarrow> nat" where
  "chunk_handle c \<equiv> unat (pv_index (pdu_view c))"

lemma get_item_mut_Some:
  assumes "get_item s i = Some x"
  shows "\<exists>s'. get_item_mut s i y = Some s' \<and> get_item s' = (get_item s)(i \<mapsto> y)"
  using assms by (auto simp: get_item_mut_def get_item_def get_def fun_eq_iff nth_list_update
    split: if_splits IndexOption.splits)

context crates_laws
begin

lemma recv_pdu_eq:
  assumes "wf_chunk c"
  shows "recv_pdu X c = Some (chunk_pdu X c)"
proof -
  have "unat (of_nat (chunk_data_len c) :: u16) = chunk_data_len c"
    by (simp add: chunk_data_len_def)
  then show ?thesis
    using assms by (simp add: recv_pdu_def pdu_accessors EtherCatPdu_without_header_def
      rust_simps wf_chunk_def chunk_pdu_def Let_def pdu_view_def)
qed

lemma dispatch_loop_ok:
  assumes "\<forall>c \<in> set cs. wf_chunk c" and "distinct (map chunk_handle cs)"
  shows "\<exists>s'. dispatch_loop X s cs = Some s' \<and>
    (\<forall>c \<in> set cs. get_item s' (chunk_handle c) =
       map_option (\<lambda>k. recieve k (chunk_pdu X c)) (get_item s (chunk_handle c))) \<and>
    (\<forall>h. h \<notin> chunk_handle ` set cs \<longrightarrow> get_item s' h = get_item s h)"
  using assms
proof (induction cs arbitrary: s)
  case (Cons c cs)
  then have c: "wf_chunk c" "chunk_handle c \<notin> chunk_handle ` set cs" by auto
  define r where "r = map_option (\<lambda>k. recieve k (chunk_pdu X c)) (get_item s (chunk_handle c))"
  obtain s1 where s1: "dispatch_loop X s (c # cs) = dispatch_loop X s1 cs"
    "get_item s1 = (get_item s)(chunk_handle c := r)"
  proof (cases "get_item s (chunk_handle c)")
    case None
    then show thesis
      using c(1) by (intro that [of s]) (auto simp: pdu_accessors r_def fun_eq_iff)
  next
    case (Some k)
    from get_item_mut_Some [OF this] obtain s' where
      "get_item_mut s (chunk_handle c) (recieve k (chunk_pdu X c)) = Some s'"
      "get_item s' = (get_item s)(chunk_handle c \<mapsto> recieve k (chunk_pdu X c))"
      by blast
    with Some c(1) show thesis
      by (intro that [of s']) (simp_all add: pdu_accessors recv_pdu_eq r_def)
  qed
  from Cons.IH [of s1] Cons.prems obtain s' where s': "dispatch_loop X s1 cs = Some s'"
    "\<forall>c \<in> set cs. get_item s' (chunk_handle c) =
       map_option (\<lambda>k. recieve k (chunk_pdu X c)) (get_item s1 (chunk_handle c))"
    "\<forall>h. h \<notin> chunk_handle ` set cs \<longrightarrow> get_item s' h = get_item s1 h"
    by auto
  have "get_item s1 (chunk_handle c') = get_item s (chunk_handle c')" if "c' \<in> set cs" for c'
    using that c(2) s1(2) by (metis fun_upd_other imageI)
  with s1 s' c(2) show ?case
    by (intro exI [of _ s']) (simp add: r_def)
qed simp

end

section \<open>One exchange\<close>

text \<open>
  A network that answers: the device gives a transmit buffer of the requested length, sends, and
  then delivers an EtherCAT frame in which each PDU \<open>c\<close> of the sent frame is replaced by
  \<open>slaves c\<close>, which has the same index and the same length.
\<close>

definition answers :: "'d device \<Rightarrow> (bytes \<Rightarrow> bytes) \<Rightarrow> 'd \<Rightarrow> bool" where
  "answers dev slaves d \<longleftrightarrow>
     (\<forall>n. \<exists>tx d1. dev_tx dev d n = (TxBuffer tx, d1) \<and> length tx = n \<and>
       (\<forall>hdr cs. length hdr = 16 \<and> (\<forall>c \<in> set cs. wf_chunk c) \<longrightarrow>
         (\<exists>d2 reply d3 r. dev_send dev d1 (hdr @ concat cs) = (True, d2) \<and>
           dev_rx dev d2 = (RxFrame reply True, d3) \<and> ethercat_reply reply \<and>
           receives_as reply (map slaves cs) r))) \<and>
     (\<forall>c. wf_chunk c \<longrightarrow> wf_chunk (slaves c) \<and> length (slaves c) = length c \<and>
        pv_index (pdu_view (slaves c)) = pv_index (pdu_view c))"

definition idle :: "'d PduInterface \<Rightarrow> bool" where
  "idle p \<longleftrightarrow> pdus_total_size p = 0 \<and> pdu_count p = 0 \<and> tx_count p = 0 \<and> recv_data_size p = 0 \<and>
     pi_capacity p \<le> length (pi_buffer p) \<and> pi_capacity p \<le> MAX_ETHERCAT_DATAGRAM"

lemma idle_new: "idle (PduInterface_new d b)"
  by (simp add: idle_def PduInterface_new_def)

lemma distinct_pending_index:
  assumes "i + length (slot_sockets slots) \<le> 256"
  shows "distinct (map (unat \<circ> rq_index) (pending_requests i slots)) \<and>
    (\<forall>r \<in> set (pending_requests i slots). i \<le> unat (rq_index r))"
  using assms
proof (induction slots arbitrary: i rule: slot_induct)
  case (Exist s slots)
  have i: "unat (of_nat i :: u8) = i" using Exist.prems by (simp add: unat_of_nat)
  have "distinct (map (unat \<circ> rq_index) (pending_requests (Suc i) slots)) \<and>
    (\<forall>r \<in> set (pending_requests (Suc i) slots). Suc i \<le> unat (rq_index r))"
    using Exist.prems by (intro Exist.IH) simp
  moreover have "rq_index (socket_request (i, s)) = of_nat i"
    by (simp add: socket_request_def Let_def)
  ultimately show ?case using i by (auto simp: image_iff comp_def)
qed simp_all

lemma length_concat_map:
  "\<forall>c \<in> set cs. length (f c) = length c \<Longrightarrow> length (concat (map f cs)) = length (concat cs)"
  by (induction cs) auto

context crates_laws
begin

lemma pdus_collect_pi:
  assumes "pi_chunks p cs"
  shows "pdus_collect X (EtherCatPdus_new (pi_buffer p) (pdus_total_size p) 0) = Some cs"
proof -
  have "take (length (concat cs)) (pi_buffer p) = concat cs" using assms by (auto simp: pi_chunks_def)
  then have "pi_buffer p = concat cs @ drop (length (concat cs)) (pi_buffer p)"
    by (metis append_take_drop_id)
  then show ?thesis
    using assms pdus_collect_chunks [of cs "[]" "length (concat cs)" "drop (length (concat cs)) (pi_buffer p)"]
    by (simp add: pi_chunks_def EtherCatPdus_new_def)
qed

lemma exchange_ok:
  assumes pi: "pi_chunks p cs" and cnt: "pdu_count p = length cs" "cs \<noteq> []" "tx_count p = 0"
      "recv_data_size p = 0"
    and net: "answers dev slaves (ethdev p)"
  shows "\<exists>p1 p2 cs'. transmit_one_frame X dev p = Some (Inr True, p1) \<and>
    receive_one_frame X dev p1 = Some (Inr True, p2) \<and>
    map pdu_view cs' = map (rq_view \<circ> chunk_request X) cs \<and> (\<forall>c \<in> set cs'. wf_chunk c) \<and>
    pi_chunks p2 (map slaves cs') \<and> pdu_count p2 = 0 \<and> tx_count p2 = 0 \<and>
    pi_capacity p2 = pi_capacity p \<and> length (pi_buffer p2) = length (pi_buffer p)"
proof -
  have wf: "\<forall>c \<in> set cs. wf_chunk c" and t: "pdus_total_size p = length (concat cs)"
    using pi by (simp_all add: pi_chunks_def)
  obtain tx d1 where tx: "dev_tx dev (ethdev p) (16 + pdus_total_size p) = (TxBuffer tx, d1)"
    "length tx = 16 + pdus_total_size p"
    and resp: "\<And>hdr cs. length hdr = 16 \<Longrightarrow> \<forall>c \<in> set cs. wf_chunk c \<Longrightarrow>
         \<exists>d2 reply d3 r. dev_send dev d1 (hdr @ concat cs) = (True, d2) \<and>
           dev_rx dev d2 = (RxFrame reply True, d3) \<and> ethercat_reply reply \<and>
           receives_as reply (map slaves cs) r"
    using net unfolding answers_def by meson
  have sl: "wf_chunk (slaves c)" "length (slaves c) = length c" if "wf_chunk c" for c
    using net that by (simp_all add: answers_def)
  obtain frame hdr cs' where tr: "transmit_one_frame X dev p =
      Some (if fst (dev_send dev d1 frame) then Inr True else Inl TxError,
            p\<lparr>ethdev := snd (dev_send dev d1 frame), tx_count := tx_count p + length cs,
              pdu_count := 0\<rparr>)"
    and fr: "frame = hdr @ concat cs'" "length hdr = 16"
      "field (drop 14 hdr) 10 0 = pdus_total_size p" "\<forall>c \<in> set cs'. wf_chunk c"
      "map pdu_view cs' = map (rq_view \<circ> chunk_request X) cs"
    using transmit_one_frame_ok [OF pi cnt(1,2) tx] by blast
  obtain d2 reply d3 r where d: "dev_send dev d1 frame = (True, d2)"
    "dev_rx dev d2 = (RxFrame reply True, d3)" "ethercat_reply reply"
    "receives_as reply (map slaves cs') r"
    using resp [OF fr(2,4)] fr(1) by blast
  have lenc: "length cs' = length cs" using fr(5) by (metis length_map)
  have "length (concat cs') = sum_list (map (\<lambda>v. 12 + length (pv_data v)) (map pdu_view cs'))"
    using fr(4) by (rule length_concat_views)
  also have "\<dots> = sum_list (map (\<lambda>v. 12 + length (pv_data v)) (map pdu_view cs))"
    unfolding fr(5) by (simp add: rq_view_def comp_def)
  also have "\<dots> = length (concat cs)"
    using wf by (simp add: length_concat_views [of cs])
  finally have tot: "length (concat (map slaves cs')) = pdus_total_size p"
    using length_concat_map [of cs' slaves] sl fr(4) t by simp
  define p1 where "p1 = p\<lparr>ethdev := d2, tx_count := length cs, pdu_count := 0\<rparr>"
  have rc: "receive_one_frame X dev p1 = Some (Inr True,
    p1\<lparr>ethdev := d3, pi_buffer := concat (map slaves cs') @
         drop (length (concat (map slaves cs'))) (pi_buffer p1),
      recv_data_size := length (concat (map slaves cs')), tx_count := 0\<rparr>)"
    using d cnt lenc tot pi
    by (intro receive_one_frame_ok [where r = r]) (auto simp: p1_def pi_chunks_def)
  have "pi_chunks (p1\<lparr>ethdev := d3, pi_buffer := concat (map slaves cs') @
         drop (length (concat (map slaves cs'))) (pi_buffer p1),
      recv_data_size := length (concat (map slaves cs')), tx_count := 0\<rparr>) (map slaves cs')"
    using pi tot sl fr(4) by (auto simp: pi_chunks_def p1_def)
  moreover have "length (concat (map slaves cs')) \<le> length (pi_buffer p)"
    using tot pi by (simp add: pi_chunks_def)
  ultimately show ?thesis
    using tr d cnt(3) fr rc
    by (intro exI [of _ p1] exI [of _ "p1\<lparr>ethdev := d3, pi_buffer := concat (map slaves cs') @
         drop (length (concat (map slaves cs'))) (pi_buffer p1),
      recv_data_size := length (concat (map slaves cs')), tx_count := 0\<rparr>"] exI [of _ cs'])
      (simp add: p1_def)
qed

text \<open>The outcome of a poll: which PDUs were exchanged and what each socket holds afterwards.\<close>

lemma poll_outcome:
  assumes idle: "idle (iface si)" and net: "answers dev slaves (ethdev (iface si))"
    and ok: "\<forall>s \<in> set (slot_sockets (items (socket_set si))). socket_ok s"
    and fits: "sockets_size (items (socket_set si)) \<le> pi_capacity (iface si)"
      "sockets_size (items (socket_set si)) < length (pi_buffer (iface si))"
    and few: "length (slot_sockets (items (socket_set si))) \<le> 256"
  shows "\<exists>si' cs. poll_tx_rx X dev si = Some (Inr True, si') \<and> idle (iface si') \<and>
    pi_capacity (iface si') = pi_capacity (iface si) \<and>
    length (pi_buffer (iface si')) = length (pi_buffer (iface si)) \<and> (\<forall>c \<in> set cs. wf_chunk c) \<and>
    map pdu_view cs = map rq_view (pending_requests 0 (items (socket_set si))) \<and>
    (\<forall>c \<in> set cs. get_socket si' (chunk_handle c) =
      map_option (\<lambda>k. recieve (taken k) (chunk_pdu X (slaves c))) (get_socket si (chunk_handle c))) \<and>
    (\<forall>h. h \<notin> chunk_handle ` set cs \<longrightarrow> get_socket si' h = map_option taken (get_socket si h))"
proof -
  let ?slots = "items (socket_set si)"
  define S where "S = (socket_set si)\<lparr>items := map (map_IndexOption taken) ?slots\<rparr>"
  have getS: "get_item S h = map_option taken (get_socket si h)" for h
    by (auto simp: S_def get_item_def get_socket_def get_def split: IndexOption.splits)
  have pi0: "pi_chunks (iface si) []" using idle by (simp add: idle_def pi_chunks_def)
  obtain p cs where enq: "enqueue_loop X (iface si) 0 ?slots = Some (True, p, map (map_IndexOption taken) ?slots)"
    and p: "pi_chunks p cs" "pdu_count p = length cs" "pi_frame (iface si) p"
    and req: "map (chunk_request X) cs = pending_requests 0 ?slots"
    using enqueue_loop_ok [OF pi0 ok, of 0] fits idle by (auto simp: idle_def)
  have st: "tx_count p = 0" "recv_data_size p = 0" "ethdev p = ethdev (iface si)"
    using p(3) idle by (simp_all add: pi_frame_def idle_def)
  obtain p1 p2 cs' where ex: "transmit_one_frame X dev p = Some (Inr True, p1)"
    "receive_one_frame X dev p1 = Some (Inr True, p2)"
    "map pdu_view cs' = map (rq_view \<circ> chunk_request X) cs" "\<forall>c \<in> set cs'. wf_chunk c"
    "pi_chunks p2 (map slaves cs')" "pdu_count p2 = 0" "tx_count p2 = 0"
    "pi_capacity p2 = pi_capacity p" "length (pi_buffer p2) = length (pi_buffer p)"
  proof (cases "cs = []")
    case True
    then show thesis
      using p st by (intro that [of p p "[]"]) (simp_all add: transmit_one_frame_def receive_one_frame_def)
  next
    case False
    with exchange_ok [OF p(1,2) False st(1,2)] net st(3) that show thesis by metis
  qed
  have view: "map pdu_view cs' = map rq_view (pending_requests 0 ?slots)"
    using ex(3) req by (metis map_map)
  have slv: "wf_chunk (slaves c)" "pv_index (pdu_view (slaves c)) = pv_index (pdu_view c)"
    if "wf_chunk c" for c
    using net that by (simp_all add: answers_def)
  have "map chunk_handle (map slaves cs') = map (unat \<circ> pv_index) (map pdu_view cs')"
    using slv(2) ex(4) by simp
  also have "\<dots> = map (unat \<circ> rq_index) (pending_requests 0 ?slots)"
    unfolding view by (simp add: rq_view_def comp_def)
  finally have dist: "distinct (map chunk_handle (map slaves cs'))"
    using distinct_pending_index [of 0 ?slots] few by simp
  have coll: "pdus_collect X (EtherCatPdus_new (pi_buffer p2) (pdus_total_size p2) 0) = Some (map slaves cs')"
    using pdus_collect_pi [OF ex(5)] .
  obtain S' where S': "dispatch_loop X S (map slaves cs') = Some S'"
    "\<forall>c \<in> set (map slaves cs'). get_item S' (chunk_handle c) =
       map_option (\<lambda>k. recieve k (chunk_pdu X c)) (get_item S (chunk_handle c))"
    "\<forall>h. h \<notin> chunk_handle ` set (map slaves cs') \<longrightarrow> get_item S' h = get_item S h"
    using dispatch_loop_ok [OF _ dist, of S] slv(1) ex(4) by auto
  define si' where "si' = si\<lparr>iface := p2\<lparr>pdus_total_size := 0, recv_data_size := 0\<rparr>, socket_set := S'\<rparr>"
  have "poll_tx_rx X dev si = Some (Inr True, si')"
    using enq ex(1,2) coll S'(1)
    by (simp add: poll_tx_rx_def enqueue_pdus_def transmit_and_receive_def consume_pdus_def
      S_def si'_def)
  moreover have "idle (iface si')"
    using ex(5-7) by (simp add: idle_def si'_def pi_chunks_def)
  moreover have "chunk_handle ` set (map slaves cs') = chunk_handle ` set cs'"
    using slv(2) ex(4) by (force simp: image_iff)
  ultimately show ?thesis
    using view S' slv(2) ex(4,8,9) getS p(3)
    by (intro exI [of _ si'] exI [of _ cs'])
      (simp add: get_socket_def si'_def option.map_comp comp_def pi_frame_def)
qed

end

lemma slot_sockets_dense: "slot_sockets (map Exist ss @ map NextFreeIndex ns) = ss"
  by (induction ss) (induction ns, auto)

lemma get_item_dense:
  "items S = map Exist ss @ slots \<Longrightarrow> j < length ss \<Longrightarrow> get_item S j = Some (ss ! j)"
  by (simp add: get_item_Some_iff nth_append)

lemma pending_requests_iff:
  "r \<in> set (pending_requests 0 slots) \<longleftrightarrow>
     (\<exists>j < length (slot_sockets slots). pending (slot_sockets slots ! j) \<and>
        r = socket_request (j, slot_sockets slots ! j))"
  by (auto simp: pending_requests_def in_set_enumerate_eq)

lemma chunk_handle_request:
  "pdu_view c = rq_view (socket_request (j, s)) \<Longrightarrow> j < 256 \<Longrightarrow> chunk_handle c = j"
  by (simp add: rq_view_def socket_request_def Let_def unat_of_nat)

text \<open>The sockets occupy the slots from 0 without a gap.\<close>

definition dense :: "'d SocketInterface \<Rightarrow> PduSocket list \<Rightarrow> bool" where
  "dense si ss \<longleftrightarrow> (\<forall>j. get_socket si j = (if j < length ss then Some (ss ! j) else None))"

lemma dense_items:
  assumes "dense si ss"
  shows "\<exists>ns. items (socket_set si) = map Exist ss @ map NextFreeIndex ns"
proof -
  let ?its = "items (socket_set si)" and ?k = "length ss"
  have get: "get_item (socket_set si) j = (if j < ?k then Some (ss ! j) else None)" for j
    using assms by (simp add: dense_def get_socket_def)
  have occ: "j < length ?its \<and> ?its ! j = Exist (ss ! j)" if "j < ?k" for j
    using get [of j] that by (simp add: get_item_Some_iff)
  have free: "\<exists>n. ?its ! j = NextFreeIndex n" if "?k \<le> j" "j < length ?its" for j
    using get [of j] that by (cases "?its ! j") (auto simp: get_item_def get_def)
  define ns where "ns = map (\<lambda>i. case i of NextFreeIndex n \<Rightarrow> n | Exist _ \<Rightarrow> 0) (drop ?k ?its)"
  have le: "?k \<le> length ?its"
    using occ [of "?k - 1"] by (cases "?k = 0") auto
  have "?its = map Exist ss @ map NextFreeIndex ns"
  proof (rule nth_equalityI)
    show "length ?its = length (map Exist ss @ map NextFreeIndex ns)" using le by (simp add: ns_def)
    fix j assume "j < length ?its"
    then show "?its ! j = (map Exist ss @ map NextFreeIndex ns) ! j"
      using occ [of j] free [of j] le by (cases "j < ?k") (auto simp: nth_append ns_def)
  qed
  then show ?thesis by blast
qed

lemma dense_mut:
  assumes "dense si ss" and "h < length ss"
  shows "\<exists>si'. get_socket_mut si h s = Some si' \<and> dense si' (ss[h := s]) \<and> iface si' = iface si"
proof -
  have "get_item (socket_set si) h = Some (ss ! h)" using assms by (simp add: dense_def get_socket_def)
  from get_item_mut_Some [OF this] obtain S where
    "get_item_mut (socket_set si) h s = Some S" "get_item S = (get_item (socket_set si))(h \<mapsto> s)" by blast
  with assms show ?thesis by (auto simp: get_socket_mut_def dense_def get_socket_def nth_list_update)
qed

lemma poll_dense:
  assumes X: "crates_laws X" and idle: "idle (iface si)"
    and net: "answers dev slaves (ethdev (iface si))"
    and dense: "dense si ss" "length ss \<le> 256"
    and ok: "\<forall>s \<in> set ss. socket_ok s"
    and fits: "sum_list (map (\<lambda>s. 12 + data_length s) ss) \<le> pi_capacity (iface si)"
      "sum_list (map (\<lambda>s. 12 + data_length s) ss) < length (pi_buffer (iface si))"
  shows "\<exists>si' ss'. poll_tx_rx X dev si = Some (Inr True, si') \<and> idle (iface si') \<and>
    dense si' ss' \<and> length ss' = length ss \<and>
    pi_capacity (iface si') = pi_capacity (iface si) \<and>
    length (pi_buffer (iface si')) = length (pi_buffer (iface si)) \<and>
    (\<forall>j < length ss. if pending (ss ! j)
       then \<exists>c. wf_chunk c \<and> pdu_view c = rq_view (socket_request (j, ss ! j)) \<and>
         ss' ! j = recieve (taken (ss ! j)) (chunk_pdu X (slaves c))
       else ss' ! j = ss ! j)"
proof -
  obtain ns where slots: "items (socket_set si) = map Exist ss @ map NextFreeIndex ns"
    using dense_items [OF dense(1)] by blast
  have ss: "slot_sockets (items (socket_set si)) = ss" by (simp add: slots slot_sockets_dense)
  then obtain si' cs where si': "poll_tx_rx X dev si = Some (Inr True, si')" "idle (iface si')"
      "pi_capacity (iface si') = pi_capacity (iface si)"
      "length (pi_buffer (iface si')) = length (pi_buffer (iface si))" "\<forall>c \<in> set cs. wf_chunk c"
    and view: "map pdu_view cs = map rq_view (pending_requests 0 (items (socket_set si)))"
    and rcv: "\<forall>c \<in> set cs. get_socket si' (chunk_handle c) =
      map_option (\<lambda>k. recieve (taken k) (chunk_pdu X (slaves c))) (get_socket si (chunk_handle c))"
    and oth: "\<forall>h. h \<notin> chunk_handle ` set cs \<longrightarrow> get_socket si' h = map_option taken (get_socket si h)"
    using crates_laws.poll_outcome [OF X idle net] ok fits dense(2)
    by (auto simp: sockets_size_def)
  have views: "pdu_view ` set cs = rq_view ` set (pending_requests 0 (items (socket_set si)))"
    using arg_cong [OF view, of set] by simp
  have get: "get_socket si j = (if j < length ss then Some (ss ! j) else None)" for j
    using dense(1) by (simp add: dense_def)
  have handles: "\<exists>k < length ss. chunk_handle c = k \<and> pending (ss ! k)" if "c \<in> set cs" for c
  proof -
    have "pdu_view c \<in> rq_view ` set (pending_requests 0 (items (socket_set si)))"
      using that by (simp flip: views)
    then obtain r where "r \<in> set (pending_requests 0 (items (socket_set si)))" "pdu_view c = rq_view r"
      by blast
    then obtain k where "k < length ss" "pending (ss ! k)"
      "pdu_view c = rq_view (socket_request (k, ss ! k))"
      by (auto simp: pending_requests_iff ss)
    with dense(2) chunk_handle_request [of c k] show ?thesis by auto
  qed
  have pend: "\<exists>c. wf_chunk c \<and> pdu_view c = rq_view (socket_request (j, ss ! j)) \<and>
      get_socket si' j = Some (recieve (taken (ss ! j)) (chunk_pdu X (slaves c)))"
    if j: "j < length ss" "pending (ss ! j)" for j
  proof -
    have "socket_request (j, ss ! j) \<in> set (pending_requests 0 (items (socket_set si)))"
      using j by (auto simp: pending_requests_iff ss)
    then have "rq_view (socket_request (j, ss ! j)) \<in> pdu_view ` set cs" by (simp add: views)
    then obtain c where c: "c \<in> set cs" "pdu_view c = rq_view (socket_request (j, ss ! j))"
      by force
    then have "chunk_handle c = j" using j dense(2) by (intro chunk_handle_request) simp_all
    with bspec [OF rcv c(1)] get [of j] j c si'(5) show ?thesis by auto
  qed
  have other: "get_socket si' j = get_socket si j" if "\<not> (j < length ss \<and> pending (ss ! j))" for j
  proof -
    have "j \<notin> chunk_handle ` set cs" using handles that by auto
    with oth get [of j] that show ?thesis by (auto simp: taken_def)
  qed
  define ss' where "ss' = map (\<lambda>j. the (get_socket si' j)) [0..<length ss]"
  have "dense si' ss'" unfolding dense_def ss'_def
  proof
    fix j
    show "get_socket si' j = (if j < length (map (\<lambda>j. the (get_socket si' j)) [0..<length ss])
        then Some (map (\<lambda>j. the (get_socket si' j)) [0..<length ss] ! j) else None)"
      using pend [of j] other [of j] get [of j] by (cases "j < length ss \<and> pending (ss ! j)") auto
  qed
  moreover have "if pending (ss ! j)
       then \<exists>c. wf_chunk c \<and> pdu_view c = rq_view (socket_request (j, ss ! j)) \<and>
         ss' ! j = recieve (taken (ss ! j)) (chunk_pdu X (slaves c))
       else ss' ! j = ss ! j" if j: "j < length ss" for j
  proof (cases "pending (ss ! j)")
    case True
    then obtain c where "wf_chunk c" "pdu_view c = rq_view (socket_request (j, ss ! j))"
      "get_socket si' j = Some (recieve (taken (ss ! j)) (chunk_pdu X (slaves c)))"
      using pend [OF j] by blast
    moreover from this(3) have "ss' ! j = recieve (taken (ss ! j)) (chunk_pdu X (slaves c))"
      using j by (simp add: ss'_def)
    ultimately show ?thesis using True by (simp only: if_True) blast
  next
    case False
    with other [of j] get [of j] j show ?thesis by (simp add: ss'_def)
  qed
  moreover have "length ss' = length ss" by (simp add: ss'_def)
  ultimately show ?thesis using si' by blast
qed

text \<open>
  C1: one poll serves every pending socket. On an idle interface whose sockets occupy the slots
  from 0 without a gap (at most 256), with their requests within the capacity of one frame, and
  a network that answers, \<open>poll_tx_rx\<close> returns \<open>Ok(true)\<close>; each pending socket then holds the
  answer to its own request (command, data and working counter of the PDU that went out with its
  command, addresses and data, as the slaves returned it), every other socket is unchanged, and
  the interface is idle again.
\<close>

theorem poll_serves_sockets:
  assumes X: "crates_laws X" and idle: "idle (iface si)"
    and net: "answers dev slaves (ethdev (iface si))"
    and dense: "dense si ss" "length ss \<le> 256"
    and ok: "\<forall>s \<in> set ss. socket_ok s"
    and fits: "sum_list (map (\<lambda>s. 12 + data_length s) ss) \<le> pi_capacity (iface si)"
      "sum_list (map (\<lambda>s. 12 + data_length s) ss) < length (pi_buffer (iface si))"
  shows "\<exists>si'. poll_tx_rx X dev si = Some (Inr True, si') \<and> idle (iface si') \<and>
    (\<forall>j < length ss. if pending (ss ! j)
       then \<exists>c. pdu_view c = rq_view (socket_request (j, ss ! j)) \<and>
         get_socket si' j = Some (recieve (taken (ss ! j)) (chunk_pdu X (slaves c)))
       else get_socket si' j = Some (ss ! j))"
proof -
  obtain si' ss' where "poll_tx_rx X dev si = Some (Inr True, si')" "idle (iface si')"
    and d: "dense si' ss'" "length ss' = length ss"
    and p: "\<And>j. j < length ss \<Longrightarrow> if pending (ss ! j)
       then \<exists>c. wf_chunk c \<and> pdu_view c = rq_view (socket_request (j, ss ! j)) \<and>
         ss' ! j = recieve (taken (ss ! j)) (chunk_pdu X (slaves c))
       else ss' ! j = ss ! j"
    using poll_dense [OF X idle net dense ok fits] by blast
  moreover have "get_socket si' j = Some (ss' ! j)" if "j < length ss" for j
    using d that by (simp add: dense_def)
  ultimately show ?thesis by (intro exI [of _ si']) (metis (full_types))
qed

text \<open>A network whose slaves return every PDU unchanged.\<close>

definition echo_device :: "bytes option device" where
  "echo_device = loop_device (\<lambda>f. reply_header @ drop 16 f @ replicate 20 0)"

lemma echo_answers: "answers echo_device (\<lambda>c. c) d"
proof -
  have rep: "ethercat_reply (reply_header @ cs @ replicate 20 0)" for cs
    by (rule reply_header_ok) simp
  have rcv: "receives_as (reply_header @ concat cs @ replicate 20 0) cs (replicate 20 0)"
    if "\<forall>c \<in> set cs. wf_chunk c" for cs
    using that by (auto simp: receives_as_def stops_def field_replicate0 reply_header_def)
  show ?thesis
    unfolding answers_def echo_device_def loop_device_def using rep rcv by fastforce
qed

definition example_socket :: PduSocket where
  "example_socket =
     \<lparr>sk_command = Some (Command_new CommandType.BRD 0 0x130), data_buf = [1, 2, 3, 4], sk_wkc = 0,
      sk_data_length = 2, recv_flag = False\<rparr>"

definition example_sockets :: "PduSocket IndexOption list \<Rightarrow> bytes option SocketInterface" where
  "example_sockets slots =
     (SocketInterface_new 0 (PduInterface_new None (replicate 100 0)))
       \<lparr>socket_set := \<lparr>free_index = length slots, items = slots\<rparr>\<rparr>"

theorem poll_serves_sockets_witness:
  "crates_laws ref_crates \<and> pending example_socket \<and>
   (\<exists>si' c. poll_tx_rx ref_crates echo_device
        (example_sockets [Exist (PduSocket_new [0]), Exist example_socket]) = Some (Inr True, si') \<and>
      get_socket si' 0 = Some (PduSocket_new [0]) \<and>
      pdu_view c = rq_view (socket_request (1, example_socket)) \<and>
      get_socket si' 1 = Some (recieve (taken example_socket) (chunk_pdu ref_crates c)))"
proof -
  let ?si = "example_sockets [Exist (PduSocket_new [0]), Exist example_socket]"
  let ?ss = "[PduSocket_new [0], example_socket]"
  note defs = example_sockets_def SocketInterface_new_def PduSocket_new_def example_socket_def
    socket_ok_def pending_def data_length_def PduInterface_new_def
  have idle: "idle (iface ?si)" by (simp add: idle_new example_sockets_def SocketInterface_new_def)
  have "\<exists>si'. poll_tx_rx ref_crates echo_device ?si = Some (Inr True, si') \<and> idle (iface si') \<and>
    (\<forall>j < length ?ss. if pending (?ss ! j)
       then \<exists>c. pdu_view c = rq_view (socket_request (j, ?ss ! j)) \<and>
         get_socket si' j = Some (recieve (taken (?ss ! j)) (chunk_pdu ref_crates c))
       else get_socket si' j = Some (?ss ! j))"
    by (rule poll_serves_sockets [OF ref_crates_laws idle echo_answers])
      (simp_all add: defs dense_def get_socket_def get_item_def get_def nth_Cons' less_Suc_eq)
  moreover have "pending example_socket" "\<not> pending (PduSocket_new [0])" by (simp_all add: defs)
  ultimately show ?thesis
    using ref_crates_laws by (auto simp: less_Suc_eq numeral_2_eq_2 all_conj_distrib)
qed



lemma enqueue_loop_no_room:
  assumes "pi_capacity p < pdus_total_size p + 12" and "slot_sockets slots \<noteq> []"
  shows "enqueue_loop X p i slots = None"
  using assms by (induction slots rule: slot_induct)
    (auto simp: remainig_pdu_data_capacity_def nsub_def Let_def)

text \<open>
  Running out of room is not reported as \<open>Ok(false)\<close>. Once fewer than the 12 bytes of a PDU
  without data are left, the computation of the remaining capacity underflows, so a poll with any
  socket, pending or not, panics.
\<close>

lemma poll_panics_without_room:
  assumes "pi_capacity (iface si) < pdus_total_size (iface si) + 12"
    and "slot_sockets (items (socket_set si)) \<noteq> []"
  shows "poll_tx_rx X dev si = None"
  using enqueue_loop_no_room [OF assms] by (simp add: poll_tx_rx_def enqueue_pdus_def)

end
