(* ===== verification/Mailbox_Frame.thy ===== *)
theory Mailbox_Frame
  imports Frame
begin

text \<open>
  The mailbox part of \<open>src/src/frame/ethercat.rs\<close> (\<open>MailboxFrame\<close>, \<open>mailbox\<close>, \<open>set_mailbox\<close>)
  and \<open>src/src/frame/coe.rs\<close> (CoE, SDO and emergency frames). \<open>mailbox\<close> parses what a slave
  put into its mailbox, \<open>set_mailbox\<close> writes the two SDO requests the master sends.
\<close>

section \<open>Header fields\<close>

definition MailboxFrame_HEADER_SIZE :: nat where [simp]: "MailboxFrame_HEADER_SIZE = 6"
definition MailboxErrorFrame_SIZE :: nat where [simp]: "MailboxErrorFrame_SIZE = 4"
definition CoeFrame_HEADER_SIZE :: nat where [simp]: "CoeFrame_HEADER_SIZE = 2"
definition SdoFrame_HEADER_SIZE :: nat where [simp]: "SdoFrame_HEADER_SIZE = 4"
definition SdoDownloadNormalRequestFrame_HEADER_SIZE :: nat where
  [simp]: "SdoDownloadNormalRequestFrame_HEADER_SIZE = 4"
definition EmmergencyFrame_SIZE :: nat where [simp]: "EmmergencyFrame_SIZE = 8"

definition MailboxFrame_length :: "crates \<Rightarrow> bytes \<Rightarrow> u16 rust" where
  "MailboxFrame_length X d = get_field X d 15 0"

definition MailboxFrame_set_length :: "crates \<Rightarrow> bytes \<Rightarrow> u16 \<Rightarrow> bytes rust" where
  "MailboxFrame_set_length X d v = put_field X d 15 0 v"

definition MailboxFrame_count :: "crates \<Rightarrow> bytes \<Rightarrow> u8 rust" where
  "MailboxFrame_count X d = get_field X d 46 44"

definition MailboxFrame_set_count :: "crates \<Rightarrow> bytes \<Rightarrow> u8 \<Rightarrow> bytes rust" where
  "MailboxFrame_set_count X d v = put_field X d 46 44 v"

definition MailboxFrame_mb_type :: "crates \<Rightarrow> bytes \<Rightarrow> MailboxType rust" where
  "MailboxFrame_mb_type X d = do { t \<leftarrow> get_field X d 43 40; ret (MailboxType_from X t) }"

definition MailboxFrame_set_mb_type :: "crates \<Rightarrow> bytes \<Rightarrow> MailboxType \<Rightarrow> bytes rust" where
  "MailboxFrame_set_mb_type X d mb_type = put_field X d 43 40 (MailboxType_repr mb_type)"

definition MailboxFrame_without_header :: "bytes \<Rightarrow> bytes rust" where
  "MailboxFrame_without_header d = slice_from MailboxFrame_HEADER_SIZE d"

definition MailboxErrorFrame_error_detail :: "crates \<Rightarrow> bytes \<Rightarrow> MailboxErrorDetail rust" where
  "MailboxErrorFrame_error_detail X d =
     do { v \<leftarrow> get_field X d 31 16; ret (MailboxErrorDetail_from X v) }"

definition CoeFrame_set_number :: "crates \<Rightarrow> bytes \<Rightarrow> u16 \<Rightarrow> bytes rust" where
  "CoeFrame_set_number X d v = put_field X d 8 0 v"

definition CoeFrame_coe_service_type :: "crates \<Rightarrow> bytes \<Rightarrow> CoeServiceType rust" where
  "CoeFrame_coe_service_type X d = do { v \<leftarrow> get_field X d 15 12; ret (CoeServiceType_from X v) }"

definition CoeFrame_set_coe_service_type :: "crates \<Rightarrow> bytes \<Rightarrow> CoeServiceType \<Rightarrow> bytes rust" where
  "CoeFrame_set_coe_service_type X d t = put_field X d 15 12 (CoeServiceType_repr t)"

definition CoeFrame_without_header :: "bytes \<Rightarrow> bytes rust" where
  "CoeFrame_without_header d = slice_from CoeFrame_HEADER_SIZE d"

definition SdoFrame_transfer_type :: "crates \<Rightarrow> bytes \<Rightarrow> bool rust" where
  "SdoFrame_transfer_type X d = bf_bit X d 1"

definition SdoFrame_data_set_size :: "crates \<Rightarrow> bytes \<Rightarrow> u8 rust" where
  "SdoFrame_data_set_size X d = get_field X d 3 2"

definition SdoFrame_command_specifier :: "crates \<Rightarrow> bytes \<Rightarrow> u8 rust" where
  "SdoFrame_command_specifier X d = get_field X d 7 5"

definition SdoFrame_index :: "crates \<Rightarrow> bytes \<Rightarrow> u16 rust" where
  "SdoFrame_index X d = get_field X d 23 8"

definition SdoFrame_sub_index :: "crates \<Rightarrow> bytes \<Rightarrow> u8 rust" where
  "SdoFrame_sub_index X d = get_field X d 31 24"

definition SdoFrame_without_header :: "bytes \<Rightarrow> bytes rust" where
  "SdoFrame_without_header d = slice_from SdoFrame_HEADER_SIZE d"

text \<open>The setters of \<open>SdoFrame\<close> in the order \<open>set_mailbox\<close> calls them.\<close>

definition SdoFrame_set_header ::
    "crates \<Rightarrow> u8 \<Rightarrow> bool \<Rightarrow> u16 \<Rightarrow> u8 \<Rightarrow> bytes \<Rightarrow> bytes rust" where
  "SdoFrame_set_header X specifier size_indicator idx sub_index d = do {
     d \<leftarrow> bf_set_bit X d 4 False;
     d \<leftarrow> put_field X d 3 2 (0 :: u8);
     d \<leftarrow> put_field X d 7 5 specifier;
     d \<leftarrow> bf_set_bit X d 1 False;
     d \<leftarrow> bf_set_bit X d 0 size_indicator;
     d \<leftarrow> put_field X d 23 8 idx;
     put_field X d 31 24 sub_index }"

definition SdoDownloadNormalRequestFrame_set_complete_size :: "crates \<Rightarrow> bytes \<Rightarrow> u32 \<Rightarrow> bytes rust" where
  "SdoDownloadNormalRequestFrame_set_complete_size X d v = put_field X d 31 0 v"

lemmas mailbox_field_defs = MailboxFrame_length_def MailboxFrame_set_length_def
  MailboxFrame_count_def MailboxFrame_set_count_def MailboxFrame_mb_type_def
  MailboxFrame_set_mb_type_def MailboxFrame_without_header_def MailboxErrorFrame_error_detail_def
  CoeFrame_set_number_def CoeFrame_coe_service_type_def CoeFrame_set_coe_service_type_def
  CoeFrame_without_header_def SdoFrame_transfer_type_def SdoFrame_data_set_size_def
  SdoFrame_command_specifier_def SdoFrame_index_def SdoFrame_sub_index_def
  SdoFrame_without_header_def SdoDownloadNormalRequestFrame_set_complete_size_def

section \<open>Mailbox contents\<close>

datatype LengthError = LengthError

record CoeIndex =
  ci_index :: u16
  ci_sub_index :: u8

datatype SdoReq = DownLoad bytes | Upload | Abort AbortCode | Other u8

datatype SdoRes = DownLoad | Upload bytes | Other u8

text \<open>An \<open>EmmergencyFrame\<close> is the bytes it wraps.\<close>

datatype CoE =
    Emmergency bytes
  | SdoReq SdoReq
  | SdoRes SdoRes
  | UnsupportedType CoeServiceType

datatype Mailbox =
    Error MailboxErrorDetail
  | CoE CoeIndex CoE
  | UnsupportedProtocol MailboxType

definition new_sdo_download_request :: "u16 \<Rightarrow> u8 \<Rightarrow> bytes \<Rightarrow> Mailbox" where
  "new_sdo_download_request idx sub_index data =
     Mailbox.CoE \<lparr>ci_index = idx, ci_sub_index = sub_index\<rparr> (CoE.SdoReq (SdoReq.DownLoad data))"

definition new_sdo_upload_request :: "u16 \<Rightarrow> u8 \<Rightarrow> Mailbox" where
  "new_sdo_upload_request idx sub_index =
     Mailbox.CoE \<lparr>ci_index = idx, ci_sub_index = sub_index\<rparr> (CoE.SdoReq SdoReq.Upload)"

definition sdo_upload_response :: "Mailbox \<Rightarrow> bytes option" where
  "sdo_upload_response m =
     (case m of Mailbox.CoE _ (CoE.SdoRes (SdoRes.Upload data)) \<Rightarrow> Some data | _ \<Rightarrow> None)"

definition is_sdo_download_response :: "Mailbox \<Rightarrow> bool" where
  "is_sdo_download_response m =
     (case m of Mailbox.CoE _ (CoE.SdoRes SdoRes.DownLoad) \<Rightarrow> True | _ \<Rightarrow> False)"

section \<open>Parsing\<close>

text \<open>
  The data of an expedited or a normal transfer: the same code stands in the download request and
  in the upload response.
\<close>

definition sdo_transfer_data :: "crates \<Rightarrow> bytes \<Rightarrow> bytes \<Rightarrow> (LengthError + bytes) rust" where
  "sdo_transfer_data X sdo_header sdo_payload = do {
     expedited \<leftarrow> SdoFrame_transfer_type X sdo_header;
     if expedited then do {
       n \<leftarrow> SdoFrame_data_set_size X sdo_header;
       let size = (if n = 0 then 4 else if n = 1 then 3 else if n = 2 then 2
                   else if n = 3 then 1 else 0);
       last \<leftarrow> nsub size 1;
       if get sdo_payload last = None then ret (Inl LengthError)
       else do { data \<leftarrow> slice_to size sdo_payload; ret (Inr data) } }
     else if get sdo_payload (4 - 1) = None then ret (Inl LengthError)
     else do {
       buf \<leftarrow> slice_to 4 sdo_payload;
       let size = from_le_bytes (copy_zip (replicate 4 0) buf);
       if get sdo_payload (size + 4 - 1) = None then ret (Inl LengthError)
       else do { data \<leftarrow> slice 4 (size + 4) sdo_payload; ret (Inr data) } } }"

definition parse_sdo_req :: "crates \<Rightarrow> bytes \<Rightarrow> bytes \<Rightarrow> (LengthError + CoE) rust" where
  "parse_sdo_req X sdo_header sdo_payload = do {
     cs \<leftarrow> SdoFrame_command_specifier X sdo_header;
     if cs = 1 then do {
       r \<leftarrow> sdo_transfer_data X sdo_header sdo_payload;
       ret (map_sum id (\<lambda>data. CoE.SdoReq (SdoReq.DownLoad data)) r) }
     else if cs = 2 then ret (Inr (CoE.SdoReq SdoReq.Upload))
     else if cs = 4 then
       (if get sdo_header (SdoFrame_HEADER_SIZE + 4 - 1) = None then ret (Inl LengthError)
        else ret (Inr (CoE.SdoReq (SdoReq.Abort (AbortCode_from X (of_nat
               (from_le_bytes (copy_zip (replicate 4 0) (drop SdoFrame_HEADER_SIZE sdo_header)))))))))
     else ret (Inr (CoE.SdoReq (SdoReq.Other cs))) }"

definition parse_sdo_res :: "crates \<Rightarrow> bytes \<Rightarrow> bytes \<Rightarrow> (LengthError + CoE) rust" where
  "parse_sdo_res X sdo_header sdo_payload = do {
     cs \<leftarrow> SdoFrame_command_specifier X sdo_header;
     if cs = 2 then do {
       r \<leftarrow> sdo_transfer_data X sdo_header sdo_payload;
       ret (map_sum id (\<lambda>data. CoE.SdoRes (SdoRes.Upload data)) r) }
     else if cs = 3 then ret (Inr (CoE.SdoRes SdoRes.DownLoad))
     else ret (Inr (CoE.SdoRes (SdoRes.Other cs))) }"

definition parse_coe :: "crates \<Rightarrow> bytes \<Rightarrow> (LengthError + Mailbox) rust" where
  "parse_coe X coe_frame = do {
     sdo_frame \<leftarrow> CoeFrame_without_header coe_frame;
     sdo_payload \<leftarrow> SdoFrame_without_header sdo_frame;
     idx \<leftarrow> SdoFrame_index X sdo_frame;
     sub_index \<leftarrow> SdoFrame_sub_index X sdo_frame;
     service \<leftarrow> CoeFrame_coe_service_type X coe_frame;
     coe \<leftarrow> (if service = CoeServiceType.Emmergency then
              (if get sdo_payload (EmmergencyFrame_SIZE - 1) = None then ret (Inl LengthError)
               else ret (Inr (CoE.Emmergency sdo_payload)))
            else if service = CoeServiceType.SdoReq then parse_sdo_req X sdo_frame sdo_payload
            else if service = CoeServiceType.SdoRes then parse_sdo_res X sdo_frame sdo_payload
            else ret (Inr (CoE.UnsupportedType service)));
     ret (map_sum id (Mailbox.CoE \<lparr>ci_index = idx, ci_sub_index = sub_index\<rparr>) coe) }"

definition MailboxFrame_mailbox :: "crates \<Rightarrow> bytes \<Rightarrow> (LengthError + Mailbox) rust" where
  "MailboxFrame_mailbox X d =
     (if length d < MailboxFrame_HEADER_SIZE then ret (Inl LengthError)
      else do {
        coe_frame \<leftarrow> MailboxFrame_without_header d;
        t \<leftarrow> MailboxFrame_mb_type X d;
        if t = MailboxType.Error then
          (if get coe_frame (MailboxErrorFrame_SIZE - 1) = None then ret (Inl LengthError)
           else do {
             detail \<leftarrow> MailboxErrorFrame_error_detail X coe_frame;
             ret (Inr (Mailbox.Error detail)) })
        else if t = MailboxType.CoE then
          (if length d < MailboxFrame_HEADER_SIZE + CoeFrame_HEADER_SIZE + SdoFrame_HEADER_SIZE
           then ret (Inl LengthError)
           else parse_coe X coe_frame)
        else ret (Inr (Mailbox.UnsupportedProtocol t)) })"

section \<open>Writing\<close>

definition write_sdo_download :: "crates \<Rightarrow> CoeIndex \<Rightarrow> bytes \<Rightarrow> bytes \<Rightarrow> bytes rust" where
  "write_sdo_download X coe_index data sdo_frame = do {
     s \<leftarrow> SdoFrame_set_header X 1 True (ci_index coe_index) (ci_sub_index coe_index) sdo_frame;
     s \<leftarrow> update_from SdoFrame_HEADER_SIZE
            (\<lambda>f. SdoDownloadNormalRequestFrame_set_complete_size X f (of_nat (length data))) s;
     assert (CoeFrame_HEADER_SIZE + SdoFrame_HEADER_SIZE +
             SdoDownloadNormalRequestFrame_HEADER_SIZE + length data \<le> 0xFFFF);
     update_from (SdoFrame_HEADER_SIZE + SdoDownloadNormalRequestFrame_HEADER_SIZE)
       (\<lambda>f. ret (copy_zip f data)) s }"

text \<open>\<open>set_mailbox\<close> never returns the \<open>LengthError\<close> of its type; what it cannot write panics.\<close>

definition set_mailbox :: "crates \<Rightarrow> bytes \<Rightarrow> Mailbox \<Rightarrow> ((LengthError + unit) \<times> bytes) rust" where
  "set_mailbox X d m =
     (case m of
        Mailbox.CoE coe_index (CoE.SdoReq sdo_req) \<Rightarrow> do {
          d \<leftarrow> MailboxFrame_set_mb_type X d MailboxType.CoE;
          d \<leftarrow> update_from MailboxFrame_HEADER_SIZE (\<lambda>c. do {
            c \<leftarrow> CoeFrame_set_number X c 0;
            c \<leftarrow> CoeFrame_set_coe_service_type X c CoeServiceType.SdoReq;
            update_from CoeFrame_HEADER_SIZE (\<lambda>s.
              case sdo_req of
                SdoReq.DownLoad data \<Rightarrow> write_sdo_download X coe_index data s
              | SdoReq.Upload \<Rightarrow>
                  SdoFrame_set_header X 2 False (ci_index coe_index) (ci_sub_index coe_index) s
              | _ \<Rightarrow> panic) c }) d;
          let payload_length =
            (case sdo_req of
               SdoReq.DownLoad data \<Rightarrow> CoeFrame_HEADER_SIZE + SdoFrame_HEADER_SIZE +
                 SdoDownloadNormalRequestFrame_HEADER_SIZE + length data
             | _ \<Rightarrow> CoeFrame_HEADER_SIZE + SdoFrame_HEADER_SIZE + 4);
          d \<leftarrow> MailboxFrame_set_length X d (of_nat payload_length);
          ret (Inr (), d) }
      | _ \<Rightarrow> panic)"

section \<open>Emergencies\<close>

datatype (plugins only: code size) EmmergencyErrorCode =
    ErrorResetOrNoError u16
  | GenericError u16
  | Current u16
  | CurrentInputSide u16
  | CurrentInside u16
  | CurrentOutputSide u16
  | Voltage u16
  | MainsVoltage u16
  | VoltageInside u16
  | OutputVoltage u16
  | Temperature u16
  | AmbientTemperature u16
  | DeviceTempreture u16
  | DeviceHardware u16
  | DeviceSoftware u16
  | IntarnalSoftware u16
  | UserSoftware u16
  | DateSet u16
  | AdditionalModules u16
  | Monitoring u16
  | Communication u16
  | ProtocolError u16
  | PdoNotProcessedDueToLengthError u16
  | PdoLengthExceeded u16
  | ExternalError u16
  | EsmTransitionError u16
  | AdditionalFunctions u16
  | DeviceSpecific u16
  | Other u16

text \<open>\<open>u16::to_be_bytes\<close>: the most significant byte first.\<close>

definition u16_to_be_bytes :: "u16 \<Rightarrow> bytes" where
  "u16_to_be_bytes v = [ucast (drop_bit 8 v), ucast v]"

definition emmergency_class :: "u8 \<Rightarrow> u8 \<Rightarrow> u16 \<Rightarrow> EmmergencyErrorCode" where
  "emmergency_class code_h code_l code =
     (if code_h = 0x00 then EmmergencyErrorCode.ErrorResetOrNoError code
      else if code_h = 0x10 then EmmergencyErrorCode.GenericError code
      else if code_h = 0x20 then EmmergencyErrorCode.Current code
      else if code_h = 0x21 then EmmergencyErrorCode.CurrentInputSide code
      else if code_h = 0x22 then EmmergencyErrorCode.CurrentInside code
      else if code_h = 0x23 then EmmergencyErrorCode.CurrentOutputSide code
      else if code_h = 0x30 then EmmergencyErrorCode.Voltage code
      else if code_h = 0x31 then EmmergencyErrorCode.MainsVoltage code
      else if code_h = 0x32 then EmmergencyErrorCode.VoltageInside code
      else if code_h = 0x33 then EmmergencyErrorCode.OutputVoltage code
      else if code_h = 0x40 then EmmergencyErrorCode.Temperature code
      else if code_h = 0x42 then EmmergencyErrorCode.AmbientTemperature code
      else if code_h = 0x41 then EmmergencyErrorCode.DeviceTempreture code
      else if code_h = 0x50 then EmmergencyErrorCode.DeviceHardware code
      else if code_h = 0x60 then EmmergencyErrorCode.DeviceSoftware code
      else if code_h = 0x61 then EmmergencyErrorCode.IntarnalSoftware code
      else if code_h = 0x62 then EmmergencyErrorCode.UserSoftware code
      else if code_h = 0x63 then EmmergencyErrorCode.DateSet code
      else if code_h = 0x70 then EmmergencyErrorCode.AdditionalModules code
      else if code_h = 0x80 then EmmergencyErrorCode.Monitoring code
      else if code_h = 0x81 then EmmergencyErrorCode.Communication code
      else if code_h = 0x82 then
        (if code_l = 0x10 then EmmergencyErrorCode.PdoNotProcessedDueToLengthError code
         else if code_l = 0x20 then EmmergencyErrorCode.PdoLengthExceeded code
         else EmmergencyErrorCode.ProtocolError code)
      else if code_h = 0x90 then EmmergencyErrorCode.ExternalError code
      else if code_h = 0xA0 then EmmergencyErrorCode.EsmTransitionError code
      else if code_h = 0xF0 then EmmergencyErrorCode.AdditionalFunctions code
      else if code_h = 0xFF then EmmergencyErrorCode.DeviceSpecific code
      else EmmergencyErrorCode.Other code)"

definition emmergency_error_code :: "crates \<Rightarrow> bytes \<Rightarrow> EmmergencyErrorCode rust" where
  "emmergency_error_code X d = do {
     code \<leftarrow> get_field X d 15 0;
     let be = u16_to_be_bytes code;
     code_h \<leftarrow> index be 1;
     code_l \<leftarrow> index be 0;
     ret (emmergency_class code_h code_l code) }"

section \<open>Parsing is total\<close>

text \<open>The data handed out stands in the mailbox.\<close>

definition is_slice :: "'a list \<Rightarrow> 'a list \<Rightarrow> bool" where
  "is_slice xs ys \<longleftrightarrow> (\<exists>k. xs = take (length xs) (drop k ys) \<and> k + length xs \<le> length ys)"

lemma is_sliceI: "k + n \<le> length ys \<Longrightarrow> is_slice (take n (drop k ys)) ys"
  unfolding is_slice_def by (intro exI [of _ k]) simp

lemma is_slice_take: "n \<le> length ys \<Longrightarrow> is_slice (take n ys) ys"
  using is_sliceI [of 0 n ys] by simp

lemma is_slice_drop: "is_slice xs (drop n ys) \<Longrightarrow> n \<le> length ys \<Longrightarrow> is_slice xs ys"
  by (auto simp: is_slice_def)

lemma is_slice_refl [simp]: "is_slice xs xs"
  using is_slice_take [of "length xs" xs] by simp

context crates_laws
begin

lemma sdo_transfer_data_total:
  assumes "4 \<le> length h"
  shows "\<exists>r. sdo_transfer_data X h p = Some r \<and> (\<forall>data. r = Inr data \<longrightarrow> is_slice data p)"
proof (cases "bit_at h 1")
  case True
  have "field h 3 2 < 4" using field_less [of h 3 2] by simp
  then have "of_nat (field h 3 2) = (0::u8) \<or> of_nat (field h 3 2) = (1::u8) \<or>
      of_nat (field h 3 2) = (2::u8) \<or> of_nat (field h 3 2) = (3::u8)"
    by (auto simp: less_Suc_eq numeral_eq_Suc)
  with True assms show ?thesis
    by (auto simp: sdo_transfer_data_def mailbox_field_defs bitfield_eqs rust_simps Let_def
      Suc_le_eq intro: is_slice_take)
next
  case False
  with assms show ?thesis
    by (auto simp: sdo_transfer_data_def mailbox_field_defs bitfield_eqs rust_simps Let_def
      intro: is_sliceI)
qed

lemma parse_coe_total:
  assumes "12 \<le> length d"
  shows "\<exists>c. parse_coe X (drop 6 d) = Some c \<and>
    (\<forall>m data. c = Inr m \<and> sdo_upload_response m = Some data \<longrightarrow> is_slice data d)"
proof -
  obtain r where r: "sdo_transfer_data X (drop 8 d) (drop 12 d) = Some r"
    "\<forall>data. r = Inr data \<longrightarrow> is_slice data (drop 12 d)"
    using sdo_transfer_data_total [of "drop 8 d" "drop 12 d"] assms by fastforce
  then have "\<forall>data. r = Inr data \<longrightarrow> is_slice data d"
    using is_slice_drop assms by blast
  with assms r(1) show ?thesis
    by (cases r) (auto simp: parse_coe_def parse_sdo_req_def parse_sdo_res_def mailbox_field_defs
      bitfield_eqs rust_simps sdo_upload_response_def)
qed

lemma mailbox_total_slice:
  "\<exists>r. MailboxFrame_mailbox X d = Some r \<and>
    (\<forall>m data. r = Inr m \<and> sdo_upload_response m = Some data \<longrightarrow> is_slice data d)"
proof (cases "12 \<le> length d \<and> MailboxType_from X (of_nat (field d 43 40)) = MailboxType.CoE")
  case True
  with parse_coe_total show ?thesis
    by (simp add: MailboxFrame_mailbox_def mailbox_field_defs bitfield_eqs rust_simps)
next
  case False
  then show ?thesis
    by (auto simp: MailboxFrame_mailbox_def mailbox_field_defs bitfield_eqs rust_simps
      sdo_upload_response_def)
qed

end

section \<open>Requests round trip\<close>

definition sdo_header :: "u8 \<Rightarrow> bool \<Rightarrow> u16 \<Rightarrow> u8 \<Rightarrow> bytes \<Rightarrow> bytes" where
  "sdo_header specifier size_indicator idx sub_index d =
     set_field (set_field (set_field (set_field (set_field (set_field (set_field d
       4 4 (of_bool False)) 3 2 0) 7 5 (unat specifier)) 1 1 (of_bool False))
       0 0 (of_bool size_indicator)) 23 8 (unat idx)) 31 24 (unat sub_index)"

lemma length_sdo_header [simp]: "length (sdo_header sp si idx sub d) = length d"
  by (simp add: sdo_header_def)

lemma sdo_header_fields:
  assumes "length d = 4"
  shows "field (sdo_header sp si idx sub d @ r) 7 5 = take_bit 3 (unat sp)"
    and "field (sdo_header sp si idx sub d @ r) 23 8 = unat idx"
    and "field (sdo_header sp si idx sub d @ r) 31 24 = unat sub"
    and "\<not> bit_at (sdo_header sp si idx sub d @ r) 1"
proof -
  show "field (sdo_header sp si idx sub d @ r) 7 5 = take_bit 3 (unat sp)"
    "field (sdo_header sp si idx sub d @ r) 23 8 = unat idx"
    "field (sdo_header sp si idx sub d @ r) 31 24 = unat sub"
    using assms by (simp_all add: sdo_header_def field_simps_bytes take_bit_unat)
  show "\<not> bit_at (sdo_header sp si idx sub d @ r) 1"
    using assms by (simp add: sdo_header_def bit_at_append1 bit_at_set_field)
qed

definition mailbox_header :: "u16 \<Rightarrow> bytes \<Rightarrow> bytes" where
  "mailbox_header n d = set_field (set_field d 43 40 3) 15 0 (unat n)"

definition coe_header :: "bytes \<Rightarrow> bytes" where
  "coe_header d = set_field (set_field d 8 0 0) 15 12 2"

context crates_laws
begin

lemma set_header_eq:
  "length d = 4 \<Longrightarrow> SdoFrame_set_header X sp si idx sub (d @ r) = Some (sdo_header sp si idx sub d @ r)"
  by (auto simp: SdoFrame_set_header_def bitfield_eqs sdo_header_def field_simps_bytes)


lemma set_mailbox_eq:
  assumes "length h = 6" and "length c = 2" and "length s = 4"
    and w: "(case req of SdoReq.DownLoad data \<Rightarrow> write_sdo_download X ci data (s @ r)
      | SdoReq.Upload \<Rightarrow> SdoFrame_set_header X 2 False (ci_index ci) (ci_sub_index ci) (s @ r)
      | _ \<Rightarrow> None) = Some t"
    and n: "n = (case req of SdoReq.DownLoad data \<Rightarrow> 10 + length data | _ \<Rightarrow> 10)"
  shows "set_mailbox X (h @ c @ s @ r) (Mailbox.CoE ci (CoE.SdoReq req)) =
    Some (Inr (), mailbox_header (of_nat n) h @ coe_header c @ t)"
proof -
  have "update_from 2 (\<lambda>s. case req of SdoReq.DownLoad data \<Rightarrow> write_sdo_download X ci data s
      | SdoReq.Upload \<Rightarrow> SdoFrame_set_header X 2 False (ci_index ci) (ci_sub_index ci) s
      | _ \<Rightarrow> None) (coe_header c @ s @ r) = Some (coe_header c @ t)"
    using w assms(2) by (subst update_from_append) (simp_all add: coe_header_def)
  then have "update_from 6 (\<lambda>c. do {
      c \<leftarrow> CoeFrame_set_number X c 0;
      c \<leftarrow> CoeFrame_set_coe_service_type X c CoeServiceType.SdoReq;
      update_from 2 (\<lambda>s. case req of SdoReq.DownLoad data \<Rightarrow> write_sdo_download X ci data s
      | SdoReq.Upload \<Rightarrow> SdoFrame_set_header X 2 False (ci_index ci) (ci_sub_index ci) s
      | _ \<Rightarrow> None) c }) (set_field h 43 40 3 @ c @ s @ r) =
      Some (set_field h 43 40 3 @ coe_header c @ t)"
    using assms(1,2) by (subst update_from_append)
      (auto simp: mailbox_field_defs bitfield_eqs field_simps_bytes coe_header_def)
  moreover have "(case req of SdoReq.DownLoad data \<Rightarrow> CoeFrame_HEADER_SIZE + SdoFrame_HEADER_SIZE +
      SdoDownloadNormalRequestFrame_HEADER_SIZE + length data
    | _ \<Rightarrow> CoeFrame_HEADER_SIZE + SdoFrame_HEADER_SIZE + 4) = n"
    by (cases req) (simp_all add: n)
  ultimately show ?thesis
    using assms(1) by (auto simp: set_mailbox_def mailbox_field_defs bitfield_eqs field_simps_bytes
      mailbox_header_def Let_def)
qed

lemma write_sdo_download_eq:
  assumes "length s = 4" and "length l = 4" and "length data \<le> length p" "10 + length data \<le> 0xFFFF"
  shows "write_sdo_download X ci data (s @ l @ p) =
    Some (sdo_header 1 True (ci_index ci) (ci_sub_index ci) s @
      set_field l 31 0 (length data) @ data @ drop (length data) p)"
proof -
  let ?s = "sdo_header 1 True (ci_index ci) (ci_sub_index ci) s"
  have "unat (of_nat (length data) :: u32) = length data"
    using assms(4) by (simp add: unat_of_nat)
  then have "update_from 4 (\<lambda>f. SdoDownloadNormalRequestFrame_set_complete_size X f (of_nat (length data)))
      (?s @ l @ p) = Some (?s @ set_field l 31 0 (length data) @ p)"
    using assms(1,2) by (subst update_from_append) (auto simp: mailbox_field_defs bitfield_eqs field_simps_bytes)
  moreover have "update_from 8 (\<lambda>f. Some (copy_zip f data)) ((?s @ set_field l 31 0 (length data)) @ p) =
      Some ((?s @ set_field l 31 0 (length data)) @ data @ drop (length data) p)"
    using assms(1-3) by (subst update_from_append) (simp_all add: copy_zip_short)
  ultimately show ?thesis
    using assms by (simp add: write_sdo_download_def set_header_eq assert_def)
qed

lemma header_fields:
  assumes "length h = 6"
  shows "MailboxFrame_length X (mailbox_header n h @ r) = Some n"
    and "MailboxFrame_count X (mailbox_header n h @ r) = MailboxFrame_count X (h @ r')"
  using assms by (simp_all add: mailbox_field_defs get_field_eq mailbox_header_def field_simps_bytes
    take_bit_unat)

lemma parse_request:
  assumes "length h = 6" and "length c = 2" and "length s = 4" and sp: "sp < 8"
  shows "MailboxFrame_mailbox X (mailbox_header n h @ coe_header c @ sdo_header sp si idx sub s @ r) =
    map_option (map_sum id (Mailbox.CoE \<lparr>ci_index = idx, ci_sub_index = sub\<rparr>))
      (parse_sdo_req X (sdo_header sp si idx sub s @ r) r)"
proof -
  have t: "field (mailbox_header n h @ d) 43 40 = 3" for d
    using assms(1) by (simp add: mailbox_header_def field_simps_bytes)
  have c: "field (coe_header c @ d) 15 12 = 2" for d
    using assms(2) by (simp add: coe_header_def field_simps_bytes)
  have "MailboxType_from X 3 = MailboxType.CoE" "CoeServiceType_from X 2 = CoeServiceType.SdoReq"
    using MailboxType_from_repr [of MailboxType.CoE] CoeServiceType_from_repr [of CoeServiceType.SdoReq]
    by simp_all
  moreover have "length (mailbox_header n h) = 6" "length (coe_header c) = 2"
    using assms(1,2) by (simp_all add: mailbox_header_def coe_header_def)
  ultimately show ?thesis
    using assms(3) t c
    by (cases "parse_sdo_req X (sdo_header sp si idx sub s @ r) r")
      (simp_all add: MailboxFrame_mailbox_def parse_coe_def mailbox_field_defs get_field_eq
        rust_simps sdo_header_fields)
qed

lemma parse_download:
  assumes "length s = 4" and "length l = 4" and "length data < 2 ^ 32"
  shows "parse_sdo_req X (sdo_header 1 si idx sub s @ set_field l 31 0 (length data) @ data @ r)
      (set_field l 31 0 (length data) @ data @ r) = Some (Inr (CoE.SdoReq (SdoReq.DownLoad data)))"
proof -
  let ?l = "set_field l 31 0 (length data)"
  have "from_le_bytes (copy_zip (replicate 4 0) ?l) = from_le_bytes ?l"
    using assms(2) by (simp add: copy_zip_exact)
  also have "\<dots> = length data"
    using assms(2,3) by (subst from_le_bytes_field)
      (auto simp: field_simps_bytes take_bit_nat_eq_self)
  finally have n: "from_le_bytes (copy_zip (replicate 4 0) ?l) = length data" .
  show ?thesis
    using assms(1,2) sdo_header_fields [OF assms(1), of 1 si idx sub]
    by (simp add: parse_sdo_req_def sdo_transfer_data_def mailbox_field_defs bitfield_eqs rust_simps
      n Let_def)
qed

lemma download_frame:
  assumes "length h = 6" and "length c = 2" and "length s = 4" and "length l = 4"
    and "length data \<le> length p" and len: "10 + length data \<le> 0xFFFF"
  shows "\<exists>d'. set_mailbox X (h @ c @ s @ l @ p) (new_sdo_download_request idx sub data) =
      Some (Inr (), d') \<and> length d' = length (h @ c @ s @ l @ p) \<and>
    MailboxFrame_mailbox X d' = Some (Inr (new_sdo_download_request idx sub data)) \<and>
    MailboxFrame_length X d' = Some (of_nat (10 + length data)) \<and>
    MailboxFrame_count X d' = MailboxFrame_count X (h @ c @ s @ l @ p)"
proof -
  let ?ci = "\<lparr>ci_index = idx, ci_sub_index = sub\<rparr>"
  let ?t = "sdo_header 1 True idx sub s @ set_field l 31 0 (length data) @ data @ drop (length data) p"
  let ?d = "mailbox_header (of_nat (10 + length data)) h @ coe_header c @ ?t"
  have "set_mailbox X (h @ c @ s @ l @ p) (new_sdo_download_request idx sub data) = Some (Inr (), ?d)"
    unfolding new_sdo_download_request_def
    by (rule set_mailbox_eq) (use assms write_sdo_download_eq [of s l data p ?ci] in simp_all)
  moreover have "length ?d = length (h @ c @ s @ l @ p)"
    using assms(5) by (simp add: mailbox_header_def coe_header_def)
  moreover have "MailboxFrame_mailbox X ?d = Some (Inr (new_sdo_download_request idx sub data))"
    using parse_download [OF assms(3,4), of data True idx sub "drop (length data) p"] len
    by (subst parse_request) (use assms in \<open>simp_all add: new_sdo_download_request_def\<close>)
  ultimately show ?thesis
    using header_fields [OF assms(1)] by (intro exI [of _ ?d]) blast
qed

lemma upload_frame:
  assumes len: "12 \<le> length d"
  shows "\<exists>d'. set_mailbox X d (new_sdo_upload_request idx sub_index) = Some (Inr (), d') \<and>
    length d' = length d \<and>
    MailboxFrame_mailbox X d' = Some (Inr (new_sdo_upload_request idx sub_index)) \<and>
    MailboxFrame_length X d' = Some 10 \<and>
    MailboxFrame_count X d' = MailboxFrame_count X d"
proof -
  let ?h = "take 6 d" and ?c = "take 2 (drop 6 d)" and ?s = "take 4 (drop 8 d)" and ?r = "drop 12 d"
  have d: "?h @ ?c @ ?s @ ?r = d"
    using append_take_drop_id [of 2 "drop 6 d"] append_take_drop_id [of 4 "drop 8 d"] by simp
  have ls: "length ?h = 6" "length ?c = 2" "length ?s = 4" using len by simp_all
  let ?d = "mailbox_header (of_nat 10) ?h @ coe_header ?c @ sdo_header 2 False idx sub_index ?s @ ?r"
  have "set_mailbox X (?h @ ?c @ ?s @ ?r) (new_sdo_upload_request idx sub_index) = Some (Inr (), ?d)"
    unfolding new_sdo_upload_request_def
    by (rule set_mailbox_eq [OF ls]) (simp_all only: SdoReq.case CoeIndex.simps set_header_eq [OF ls(3)])
  moreover have "MailboxFrame_mailbox X ?d = Some (Inr (new_sdo_upload_request idx sub_index))"
    using sdo_header_fields(1) [OF ls(3), of 2 False idx sub_index ?r] ls
    by (simp add: parse_request [OF ls] parse_sdo_req_def mailbox_field_defs get_field_eq
      new_sdo_upload_request_def)
  moreover have "length ?d = length d"
    using len by (simp add: mailbox_header_def coe_header_def)
  moreover have "MailboxFrame_length X ?d = Some 10" "MailboxFrame_count X ?d = MailboxFrame_count X d"
    using header_fields(1) [OF ls(1)] header_fields(2) [OF ls(1), of _ _ "drop 6 d"] by simp_all
  ultimately show ?thesis unfolding d by blast
qed

end

lemma split_mailbox:
  assumes "16 + n \<le> length (d :: bytes)"
  obtains h c s l p where "d = h @ c @ s @ l @ p" "length h = 6" "length c = 2" "length s = 4"
    "length l = 4" "n \<le> length p"
proof -
  have "d = take 6 d @ take 2 (drop 6 d) @ take 4 (drop 8 d) @ take 4 (drop 12 d) @ drop 16 d"
    using append_take_drop_id [of 6 d] append_take_drop_id [of 2 "drop 6 d"]
      append_take_drop_id [of 4 "drop 8 d"] append_take_drop_id [of 4 "drop 12 d"] by simp
  with that assms show thesis by auto
qed


definition example_response :: bytes where
  "example_response = [10, 0, 0, 0, 0, 0x13, 0, 0x30, 0x4B, 0x18, 0x10, 1, 0xAA, 0xBB]"


text \<open>
  C34: an SDO download request written into a mailbox that is large enough reads back as the
  same request: index, sub-index and data. The length field counts the CoE part, and the mailbox
  counter is kept.
\<close>

theorem sdo_download_roundtrip:
  assumes X: "crates_laws X" and len: "16 + length data \<le> length d" "10 + length data \<le> 0xFFFF"
  shows "\<exists>d'. set_mailbox X d (new_sdo_download_request idx sub_index data) = Some (Inr (), d') \<and>
    length d' = length d \<and>
    MailboxFrame_mailbox X d' = Some (Inr (new_sdo_download_request idx sub_index data)) \<and>
    MailboxFrame_length X d' = Some (of_nat (10 + length data)) \<and>
    MailboxFrame_count X d' = MailboxFrame_count X d"
proof -
  obtain h c s l p where d: "d = h @ c @ s @ l @ p" "length h = 6" "length c = 2" "length s = 4"
    "length l = 4" "length data \<le> length p"
    using split_mailbox [OF len(1)] by metis
  show ?thesis
    using crates_laws.download_frame [OF X d(2-6) len(2), of idx sub_index] by (simp add: d(1))
qed

theorem sdo_download_roundtrip_witness:
  "crates_laws ref_crates \<and>
   (\<exists>d'. set_mailbox ref_crates (replicate 32 0xFF) (new_sdo_download_request 0x1234 0x56 [0x78, 0x9A]) =
      Some (Inr (), d') \<and> length d' = 32 \<and>
    MailboxFrame_mailbox ref_crates d' =
      Some (Inr (new_sdo_download_request 0x1234 0x56 [0x78, 0x9A])) \<and>
    MailboxFrame_length ref_crates d' = Some 12)"
  using sdo_download_roundtrip [OF ref_crates_laws, of "[0x78, 0x9A]" "replicate 32 0xFF" "0x1234" "0x56"]
    ref_crates_laws by auto

text \<open>
  An SDO upload request written into a mailbox of at least 12 bytes reads back as the same
  request; its length field is 10 and the mailbox counter is kept.
\<close>

lemma sdo_upload_roundtrip:
  assumes X: "crates_laws X" and len: "12 \<le> length d"
  shows "\<exists>d'. set_mailbox X d (new_sdo_upload_request idx sub_index) = Some (Inr (), d') \<and>
    length d' = length d \<and>
    MailboxFrame_mailbox X d' = Some (Inr (new_sdo_upload_request idx sub_index)) \<and>
    MailboxFrame_length X d' = Some 10 \<and>
    MailboxFrame_count X d' = MailboxFrame_count X d"
  using crates_laws.upload_frame [OF X len] .

text \<open>
  The class of an emergency is taken from the wrong byte. The error code is transmitted low
  byte first; \<open>emmergency_error_code\<close> converts it with \<open>to_be_bytes\<close> and takes element 1 as the
  high byte, which is the low byte of the code, and element 0, the high byte, as the low one.
\<close>

lemma emmergency_class_from_low_byte:
  assumes X: "crates_laws X"
  shows "emmergency_error_code X (low # high # rest) =
    Some (emmergency_class low high (push_bit 8 (ucast high) OR ucast low))"
proof -
  let ?d = "low # high # rest"
  have code: "(of_nat (field ?d 15 0) :: u16) = push_bit 8 (ucast high) OR ucast low"
  proof (rule bit_word_eqI)
    fix n assume n: "n < LENGTH(16)"
    have "bit (of_nat (field ?d 15 0) :: u16) n = bit_at ?d n"
      using n by (simp add: bit_of_nat_iff bit_field)
    also have "\<dots> = (if n < 8 then bit low n else bit high (n - 8))"
      using n by (auto simp: bit_at_def not_less le_div_geq le_mod_geq)
    finally show "bit (of_nat (field ?d 15 0) :: u16) n =
        bit (push_bit 8 (ucast high) OR ucast low :: u16) n"
      using n by (auto simp: bit_or_iff bit_push_bit_iff bit_ucast_iff dest: bit_imp_le_length)
  qed
  have "ucast (push_bit 8 (ucast high) OR ucast low :: u16) = low"
    "ucast (drop_bit 8 (push_bit 8 (ucast high) OR ucast low :: u16)) = high"
    by (rule bit_word_eqI; auto simp: bit_ucast_iff bit_or_iff bit_push_bit_iff bit_drop_bit_eq
      dest: bit_imp_le_length)+
  then show ?thesis
    by (simp add: emmergency_error_code_def bitfield_crate.get_field_eq [OF crates_laws.axioms(1) [OF X]]
      code u16_to_be_bytes_def index_def Let_def)
qed

end
