(* ===== verification/Registers.thy ===== *)
theory Registers
  imports Crates
begin

text \<open>
  \<open>src/src/register/\<close>: the slave registers (\<open>datalink.rs\<close>, \<open>application.rs\<close>), the words of the
  slave information interface (\<open>sii.rs\<close>) and the object dictionary entries (\<open>od.rs\<close>). A register
  is its address, its size in bytes and, from its \<open>bitfield!\<close> declaration, the most and least
  significant bit of each field under the name of its getter. A field declared with a single bit
  is a boolean. The accessors the macro generates go through the crate parameter; reading or
  writing a name that a register does not declare does not arise in Rust and is a panic here.
\<close>

type_synonym layout = "(string \<times> nat \<times> nat) list"

record register =
  reg_address :: u16
  reg_size :: nat
  reg_fields :: layout

record od_object =
  od_index :: "u16 option"
  od_sub_index :: u8
  od_size :: nat
  od_fields :: layout

record sii_word =
  sii_word_address :: u16
  sii_word_size :: nat

text \<open>The array \<open>[0; SIZE]\<close> each \<open>new\<close> makes.\<close>

definition reg_new :: "register \<Rightarrow> bytes" where
  "reg_new r = replicate (reg_size r) 0"

definition reg_get :: "crates \<Rightarrow> register \<Rightarrow> string \<Rightarrow> bytes \<Rightarrow> 'a::len word rust" where
  "reg_get X r name d =
     (case map_of (reg_fields r) name of Some (msb, lsb) \<Rightarrow> get_field X d msb lsb | None \<Rightarrow> panic)"

definition reg_set :: "crates \<Rightarrow> register \<Rightarrow> string \<Rightarrow> 'a::len word \<Rightarrow> bytes \<Rightarrow> bytes rust" where
  "reg_set X r name v d =
     (case map_of (reg_fields r) name of Some (msb, lsb) \<Rightarrow> put_field X d msb lsb v | None \<Rightarrow> panic)"

definition reg_bit :: "crates \<Rightarrow> register \<Rightarrow> string \<Rightarrow> bytes \<Rightarrow> bool rust" where
  "reg_bit X r name d =
     (case map_of (reg_fields r) name of Some (_, lsb) \<Rightarrow> bf_bit X d lsb | None \<Rightarrow> panic)"

definition reg_set_bit :: "crates \<Rightarrow> register \<Rightarrow> string \<Rightarrow> bool \<Rightarrow> bytes \<Rightarrow> bytes rust" where
  "reg_set_bit X r name b d =
     (case map_of (reg_fields r) name of Some (_, lsb) \<Rightarrow> bf_set_bit X d lsb b | None \<Rightarrow> panic)"

section \<open>Data link registers\<close>

definition DlInformation :: register where
  "DlInformation =
     \<lparr>reg_address = 0x0000, reg_size = 10,
      reg_fields =
       [(''ethercat_type'', 7, 0),
        (''revision'', 15, 8),
        (''build_number'', 31, 16),
        (''number_of_supported_fmmu_entities'', 39, 32),
        (''number_of_supported_sm_channels'', 47, 40),
        (''ram_size'', 55, 48),
        (''fmmu_bit_operation_not_supported'', 64, 64),
        (''dc_supported'', 66, 66),
        (''dc_range'', 67, 67),
        (''low_jitter_ebus'', 68, 68),
        (''enhanced_link_detection_ebus'', 69, 69),
        (''enhanced_link_detection_mii'', 70, 70),
        (''separate_handling_of_fcs_errors'', 71, 71),
        (''not_lrw_supported'', 73, 73),
        (''not_bafrw_supported'', 74, 74),
        (''is_special_fmmu_sm_configuration'', 75, 75)]\<rparr>"

definition FixedStationAddress :: register where
  "FixedStationAddress =
     \<lparr>reg_address = 0x0010, reg_size = 4,
      reg_fields =
       [(''configured_station_address'', 15, 0),
        (''configured_station_alias'', 31, 16)]\<rparr>"

definition DlControl :: register where
  "DlControl =
     \<lparr>reg_address = 0x0100, reg_size = 4,
      reg_fields =
       [(''forwarding_rule'', 0, 0),
        (''loop_control_port0'', 9, 8),
        (''loop_control_port1'', 11, 10),
        (''loop_control_port2'', 13, 12),
        (''loop_control_port3'', 15, 14),
        (''tx_buffer_size'', 18, 16),
        (''enable_alias_address'', 24, 24)]\<rparr>"

definition DlStatus :: register where
  "DlStatus =
     \<lparr>reg_address = 0x0110, reg_size = 2,
      reg_fields =
       [(''pdi_operational'', 0, 0),
        (''dls_user_watch_dog_status'', 1, 1),
        (''extended_link_detection'', 2, 2),
        (''link_status_port0'', 4, 4),
        (''link_status_port1'', 5, 5),
        (''link_status_port2'', 6, 6),
        (''link_status_port3'', 7, 7),
        (''loop_status_port0'', 8, 8),
        (''signal_detection_port0'', 9, 9),
        (''loop_status_port1'', 10, 10),
        (''signal_detection_port1'', 11, 11),
        (''loop_status_port2'', 12, 12),
        (''signal_detection_port2'', 13, 13),
        (''loop_status_port3'', 14, 14),
        (''signal_detection_port3'', 15, 15)]\<rparr>"

definition RxErrorCounter :: register where
  "RxErrorCounter =
     \<lparr>reg_address = 0x0300, reg_size = 8,
      reg_fields =
       [(''frame_error_count_port0'', 7, 0),
        (''phy_error_count_port0'', 15, 8),
        (''frame_error_count_port1'', 23, 16),
        (''phy_error_count_port1'', 31, 24),
        (''frame_error_count_port2'', 39, 32),
        (''phy_error_count_port2'', 47, 40),
        (''frame_error_count_port3'', 55, 48),
        (''phy_error_count_port3'', 63, 56)]\<rparr>"

definition WatchDogDivider :: register where
  "WatchDogDivider =
     \<lparr>reg_address = 0x0400, reg_size = 2,
      reg_fields =
       [(''watch_dog_divider'', 15, 0)]\<rparr>"

definition DlUserWatchDog :: register where
  "DlUserWatchDog =
     \<lparr>reg_address = 0x0410, reg_size = 2,
      reg_fields =
       [(''dls_user_watch_dog'', 15, 0)]\<rparr>"

definition SyncManagerChannelWatchDog :: register where
  "SyncManagerChannelWatchDog =
     \<lparr>reg_address = 0x0420, reg_size = 2,
      reg_fields =
       [(''sm_channel_watch_dog'', 15, 0)]\<rparr>"

definition SyncManagerChannelWDStatus :: register where
  "SyncManagerChannelWDStatus =
     \<lparr>reg_address = 0x0440, reg_size = 2,
      reg_fields =
       [(''sm_channel_wd_status'', 0, 0)]\<rparr>"

definition SiiAccess :: register where
  "SiiAccess =
     \<lparr>reg_address = 0x0500, reg_size = 2,
      reg_fields =
       [(''owner'', 0, 0),
        (''reset_access'', 1, 1),
        (''pdi_accessed'', 8, 8)]\<rparr>"

definition SiiControl :: register where
  "SiiControl =
     \<lparr>reg_address = 0x0502, reg_size = 2,
      reg_fields =
       [(''enable_write_access'', 0, 0),
        (''read_size'', 6, 6),
        (''address_algorithm'', 7, 7),
        (''read_operation'', 8, 8),
        (''write_operation'', 9, 9),
        (''reload_operation'', 10, 10),
        (''check_sum_error'', 11, 11),
        (''device_info_error'', 12, 12),
        (''command_error'', 13, 13),
        (''busy'', 15, 15)]\<rparr>"

definition SiiAddress :: register where
  "SiiAddress =
     \<lparr>reg_address = 0x0504, reg_size = 4,
      reg_fields =
       [(''sii_address'', 31, 0)]\<rparr>"

definition SiiData :: register where
  "SiiData =
     \<lparr>reg_address = 0x0508, reg_size = 8,
      reg_fields =
       [(''sii_data'', 63, 0)]\<rparr>"

definition FmmuRegister :: register where
  "FmmuRegister =
     \<lparr>reg_address = 0x0600, reg_size = 16,
      reg_fields =
       [(''logical_start_address'', 31, 0),
        (''length'', 47, 32),
        (''logical_start_bit'', 50, 48),
        (''logical_end_bit'', 58, 56),
        (''physical_start_address'', 79, 64),
        (''physical_start_bit'', 82, 80),
        (''read_enable'', 88, 88),
        (''write_enable'', 89, 89),
        (''enable'', 96, 96)]\<rparr>"

definition SyncManagerControl :: register where
  "SyncManagerControl =
     \<lparr>reg_address = 0x0800, reg_size = 5,
      reg_fields =
       [(''physical_start_address'', 15, 0),
        (''length'', 31, 16),
        (''buffer_type'', 33, 32),
        (''direction'', 35, 34),
        (''dls_user_event_enable'', 37, 37)]\<rparr>"

definition SyncManagerStatus :: register where
  "SyncManagerStatus =
     \<lparr>reg_address = 0x0805, reg_size = 1,
      reg_fields =
       [(''write_event'', 0, 0),
        (''read_event'', 1, 1),
        (''is_mailbox_full'', 3, 3),
        (''bufferd_state'', 5, 4)]\<rparr>"

definition SyncManagerActivation :: register where
  "SyncManagerActivation =
     \<lparr>reg_address = 0x0806, reg_size = 1,
      reg_fields =
       [(''channel_enable'', 0, 0),
        (''repeat'', 1, 1)]\<rparr>"

definition SyncManagerPdiControl :: register where
  "SyncManagerPdiControl =
     \<lparr>reg_address = 0x0807, reg_size = 1,
      reg_fields =
       [(''channel_enable_pdi'', 0, 0),
        (''repeat_ack'', 1, 1)]\<rparr>"

definition DcRecieveTime :: register where
  "DcRecieveTime =
     \<lparr>reg_address = 0x0900, reg_size = 16,
      reg_fields =
       [(''receive_time_port0'', 31, 0),
        (''receive_time_port1'', 63, 32),
        (''receive_time_port2'', 95, 64),
        (''receive_time_port3'', 127, 96)]\<rparr>"

definition DcSystemTime :: register where
  "DcSystemTime =
     \<lparr>reg_address = 0x0910, reg_size = 8,
      reg_fields =
       [(''local_system_time'', 63, 0)]\<rparr>"

definition DcSystemTimeOffset :: register where
  "DcSystemTimeOffset =
     \<lparr>reg_address = 0x0920, reg_size = 8,
      reg_fields =
       [(''system_time_offset'', 63, 0)]\<rparr>"

definition DcSystemTimeTransmissionDelay :: register where
  "DcSystemTimeTransmissionDelay =
     \<lparr>reg_address = 0x0928, reg_size = 4,
      reg_fields =
       [(''system_time_transmission_delay'', 31, 0)]\<rparr>"

definition DcSystemTimeDelta :: register where
  "DcSystemTimeDelta =
     \<lparr>reg_address = 0x092C, reg_size = 4,
      reg_fields =
       [(''delta'', 30, 0),
        (''grater_than_system_time'', 31, 31)]\<rparr>"

section \<open>Application and distributed clock registers\<close>

definition AlControl :: register where
  "AlControl =
     \<lparr>reg_address = 0x0120, reg_size = 2,
      reg_fields =
       [(''state'', 3, 0),
        (''acknowledge'', 4, 4),
        (''appl_specific'', 15, 8)]\<rparr>"

definition AlStatus :: register where
  "AlStatus =
     \<lparr>reg_address = 0x0130, reg_size = 6,
      reg_fields =
       [(''state'', 3, 0),
        (''change_err'', 4, 4),
        (''appl_specific'', 15, 8),
        (''al_status_code'', 47, 32)]\<rparr>"

definition PdiControl :: register where
  "PdiControl =
     \<lparr>reg_address = 0x0140, reg_size = 2,
      reg_fields =
       [(''pdi_type'', 7, 0),
        (''strict_al_control'', 8, 8)]\<rparr>"

definition PdiConfig :: register where
  "PdiConfig =
     \<lparr>reg_address = 0x0150, reg_size = 1,
      reg_fields =
       [(''application_specific'', 7, 0)]\<rparr>"

definition SyncConfig :: register where
  "SyncConfig =
     \<lparr>reg_address = 0x0151, reg_size = 1,
      reg_fields =
       [(''signal_conditioning_sync0'', 1, 0),
        (''enable_signal_sync0'', 2, 2),
        (''enable_interrupt_sync0'', 3, 3),
        (''signal_conditioning_sync1'', 5, 4),
        (''enbale_signal_sync1'', 6, 6),
        (''enbale_interrupt_sync1'', 7, 7)]\<rparr>"

definition DcActivation :: register where
  "DcActivation =
     \<lparr>reg_address = 0x0981, reg_size = 1,
      reg_fields =
       [(''cyclic_operation_enable'', 0, 0),
        (''sync0_activate'', 1, 1),
        (''sync1_activate'', 2, 2)]\<rparr>"

definition SyncPulse :: register where
  "SyncPulse =
     \<lparr>reg_address = 0x0982, reg_size = 2,
      reg_fields =
       [(''sync_pulse'', 15, 0)]\<rparr>"

definition InterruptStatus :: register where
  "InterruptStatus =
     \<lparr>reg_address = 0x098E, reg_size = 2,
      reg_fields =
       [(''interrupt0_status'', 0, 0),
        (''interrupt1_status'', 8, 8)]\<rparr>"

definition CyclicOperationStartTime :: register where
  "CyclicOperationStartTime =
     \<lparr>reg_address = 0x0990, reg_size = 4,
      reg_fields =
       [(''cyclic_operation_start_time'', 31, 0)]\<rparr>"

definition Sync0CycleTime :: register where
  "Sync0CycleTime =
     \<lparr>reg_address = 0x09A0, reg_size = 4,
      reg_fields =
       [(''sync0_cycle_time'', 31, 0)]\<rparr>"

definition Sync1CycleTime :: register where
  "Sync1CycleTime =
     \<lparr>reg_address = 0x09A4, reg_size = 4,
      reg_fields =
       [(''sync1_cycle_time'', 31, 0)]\<rparr>"

definition LatchEdge :: register where
  "LatchEdge =
     \<lparr>reg_address = 0x09A8, reg_size = 2,
      reg_fields =
       [(''latch0_positive_edge'', 0, 0),
        (''latch0_negative_edge'', 1, 1),
        (''latch1_positive_edge'', 8, 8),
        (''latch1_negative_edge'', 9, 9)]\<rparr>"

definition LatchEvent :: register where
  "LatchEvent =
     \<lparr>reg_address = 0x09AE, reg_size = 2,
      reg_fields =
       [(''latch0_positive_event'', 0, 0),
        (''latch0_negative_event'', 1, 1),
        (''latch1_positive_event'', 8, 8),
        (''latch1_negative_event'', 9, 9)]\<rparr>"

definition Latch0PositiveEdgeValue :: register where
  "Latch0PositiveEdgeValue =
     \<lparr>reg_address = 0x09B0, reg_size = 4,
      reg_fields =
       [(''latch0_positive_edge_value'', 31, 0)]\<rparr>"

definition Latch0NegativeEdgeValue :: register where
  "Latch0NegativeEdgeValue =
     \<lparr>reg_address = 0x09B8, reg_size = 4,
      reg_fields =
       [(''latch0_negative_edge_value'', 31, 0)]\<rparr>"

definition Latch1PositiveEdgeValue :: register where
  "Latch1PositiveEdgeValue =
     \<lparr>reg_address = 0x09C0, reg_size = 4,
      reg_fields =
       [(''latch0_positive_edge_value'', 31, 0)]\<rparr>"

definition Latch1NegativeEdgeValue :: register where
  "Latch1NegativeEdgeValue =
     \<lparr>reg_address = 0x09CC, reg_size = 4,
      reg_fields =
       [(''latch0_negative_edge_value'', 31, 0)]\<rparr>"

section \<open>Slave information interface\<close>

definition Sii_PdiControl :: sii_word where "Sii_PdiControl = \<lparr>sii_word_address = 0, sii_word_size = 2\<rparr>"
definition Sii_PdiConfig :: sii_word where "Sii_PdiConfig = \<lparr>sii_word_address = 1, sii_word_size = 2\<rparr>"
definition Sii_SyncImpulseLen :: sii_word where "Sii_SyncImpulseLen = \<lparr>sii_word_address = 2, sii_word_size = 2\<rparr>"
definition Sii_PdiConfig2 :: sii_word where "Sii_PdiConfig2 = \<lparr>sii_word_address = 3, sii_word_size = 2\<rparr>"
definition Sii_StationAlias :: sii_word where "Sii_StationAlias = \<lparr>sii_word_address = 4, sii_word_size = 2\<rparr>"
definition Sii_Checksum :: sii_word where "Sii_Checksum = \<lparr>sii_word_address = 7, sii_word_size = 2\<rparr>"
definition Sii_VenderId :: sii_word where "Sii_VenderId = \<lparr>sii_word_address = 8, sii_word_size = 2\<rparr>"
definition Sii_ProductCode :: sii_word where "Sii_ProductCode = \<lparr>sii_word_address = 0xA, sii_word_size = 2\<rparr>"
definition Sii_RevisionNumber :: sii_word where "Sii_RevisionNumber = \<lparr>sii_word_address = 0xC, sii_word_size = 2\<rparr>"
definition Sii_SerialNumber :: sii_word where "Sii_SerialNumber = \<lparr>sii_word_address = 0xE, sii_word_size = 2\<rparr>"
definition Sii_BootstrapRxMailboxOffset :: sii_word where "Sii_BootstrapRxMailboxOffset = \<lparr>sii_word_address = 0x14, sii_word_size = 2\<rparr>"
definition Sii_BootstrapRxMailboxSize :: sii_word where "Sii_BootstrapRxMailboxSize = \<lparr>sii_word_address = 0x15, sii_word_size = 2\<rparr>"
definition Sii_BootstrapTxMailboxOffset :: sii_word where "Sii_BootstrapTxMailboxOffset = \<lparr>sii_word_address = 0x16, sii_word_size = 2\<rparr>"
definition Sii_BootstrapTxMailboxSize :: sii_word where "Sii_BootstrapTxMailboxSize = \<lparr>sii_word_address = 0x17, sii_word_size = 2\<rparr>"
definition Sii_StandardRxMailboxOffset :: sii_word where "Sii_StandardRxMailboxOffset = \<lparr>sii_word_address = 0x18, sii_word_size = 2\<rparr>"
definition Sii_StandardRxMailboxSize :: sii_word where "Sii_StandardRxMailboxSize = \<lparr>sii_word_address = 0x19, sii_word_size = 2\<rparr>"
definition Sii_StandardTxMailboxOffset :: sii_word where "Sii_StandardTxMailboxOffset = \<lparr>sii_word_address = 0x1A, sii_word_size = 2\<rparr>"
definition Sii_StandardTxMailboxSize :: sii_word where "Sii_StandardTxMailboxSize = \<lparr>sii_word_address = 0x1B, sii_word_size = 2\<rparr>"
definition Sii_MailboxProtocol :: sii_word where "Sii_MailboxProtocol = \<lparr>sii_word_address = 0x1C, sii_word_size = 2\<rparr>"
definition Sii_Size :: sii_word where "Sii_Size = \<lparr>sii_word_address = 0x3E, sii_word_size = 2\<rparr>"
definition Sii_Version :: sii_word where "Sii_Version = \<lparr>sii_word_address = 0x3F, sii_word_size = 2\<rparr>"

section \<open>Object dictionary\<close>

definition OdPdoEntry :: od_object where
  "OdPdoEntry =
     \<lparr>od_index = None, od_sub_index = 0, od_size = 4,
      od_fields =
       [(''bit_length'', 7, 0),
        (''sub_index'', 15, 8),
        (''index'', 31, 16)]\<rparr>"

definition DeviceType :: od_object where
  "DeviceType =
     \<lparr>od_index = Some 0x1000, od_sub_index = 0, od_size = 4,
      od_fields =
       [(''device_profile_number'', 15, 0),
        (''device_type'', 23, 16),
        (''mode_bits'', 31, 24)]\<rparr>"

definition ErrorRegister :: od_object where
  "ErrorRegister =
     \<lparr>od_index = Some 0x1001, od_sub_index = 0, od_size = 1,
      od_fields =
       [(''generic'', 0, 0),
        (''current'', 1, 1),
        (''voltage'', 2, 2),
        (''temperature'', 3, 3),
        (''communication'', 4, 4),
        (''device_profile'', 5, 5),
        (''manufacture_specific'', 7, 7)]\<rparr>"

definition IdentityObjectEntries :: od_object where
  "IdentityObjectEntries =
     \<lparr>od_index = Some 0x1018, od_sub_index = 0, od_size = 1,
      od_fields =
       [(''number_of_entries'', 7, 0)]\<rparr>"

definition IdentityObjectVender :: od_object where
  "IdentityObjectVender =
     \<lparr>od_index = Some 0x1018, od_sub_index = 1, od_size = 4,
      od_fields =
       [(''vender'', 31, 0)]\<rparr>"

definition IdentityObjectProduct :: od_object where
  "IdentityObjectProduct =
     \<lparr>od_index = Some 0x1018, od_sub_index = 2, od_size = 4,
      od_fields =
       [(''product'', 31, 0)]\<rparr>"

definition IdentityObjectRevision :: od_object where
  "IdentityObjectRevision =
     \<lparr>od_index = Some 0x1018, od_sub_index = 3, od_size = 4,
      od_fields =
       [(''revision'', 31, 0)]\<rparr>"

definition IdentityObjectSerial :: od_object where
  "IdentityObjectSerial =
     \<lparr>od_index = Some 0x1018, od_sub_index = 4, od_size = 4,
      od_fields =
       [(''serial'', 31, 0)]\<rparr>"

definition ControlWord :: od_object where
  "ControlWord =
     \<lparr>od_index = Some 0x6040, od_sub_index = 0, od_size = 2,
      od_fields =
       [(''switch_on'', 0, 0),
        (''enable_voltage'', 1, 1),
        (''nquick_stop'', 2, 2),
        (''enable_operation'', 3, 3),
        (''operation_mode_specific1'', 4, 4),
        (''operation_mode_specific2'', 5, 5),
        (''operation_mode_specific3'', 6, 6),
        (''fault_reset'', 7, 7),
        (''halt'', 8, 8),
        (''operation_mode_specific4'', 9, 9),
        (''manufacture_specific1'', 11, 11),
        (''manufacture_specific2'', 12, 12),
        (''manufacture_specific3'', 13, 13),
        (''manufacture_specific4'', 14, 14),
        (''manufacture_specific5'', 15, 15)]\<rparr>"

definition StatusWord :: od_object where
  "StatusWord =
     \<lparr>od_index = Some 0x6041, od_sub_index = 0, od_size = 2,
      od_fields =
       [(''ready_to_switch_on'', 0, 0),
        (''switched_on'', 1, 1),
        (''operation_enabled'', 2, 2),
        (''fault'', 3, 3),
        (''voltage_enabled'', 4, 4),
        (''nquick_stop'', 5, 5),
        (''switch_on_disabled'', 6, 6),
        (''warning'', 7, 7),
        (''manufacture_specific1'', 8, 8),
        (''remote'', 9, 9),
        (''operation_mode_specific1'', 10, 10),
        (''internal_limit_active'', 11, 11),
        (''operation_mode_specific2'', 12, 12),
        (''operation_mode_specific3'', 13, 13),
        (''manufacture_specific2'', 14, 14),
        (''manufacture_specific3'', 15, 15)]\<rparr>"

definition OperationMode :: od_object where
  "OperationMode =
     \<lparr>od_index = Some 0x6060, od_sub_index = 0, od_size = 1,
      od_fields =
       [(''modes_of_operation'', 7, 0)]\<rparr>"

definition OperationModeDisplay :: od_object where
  "OperationModeDisplay =
     \<lparr>od_index = Some 0x6061, od_sub_index = 0, od_size = 1,
      od_fields =
       [(''modes_of_operation'', 7, 0)]\<rparr>"

definition SupportedDriveModes :: od_object where
  "SupportedDriveModes =
     \<lparr>od_index = Some 0x6502, od_sub_index = 0, od_size = 4,
      od_fields =
       [(''pp'', 0, 0),
        (''vl'', 1, 1),
        (''pv'', 2, 2),
        (''tq'', 3, 3),
        (''hm'', 5, 5),
        (''ip'', 6, 6),
        (''csp'', 7, 7),
        (''csv'', 8, 8),
        (''cst'', 9, 9),
        (''cstca'', 10, 10)]\<rparr>"

section \<open>Operations on registers\<close>

datatype PortPhysics = MII | EBUS

definition port_physics :: "u8 \<Rightarrow> PortPhysics option" where
  "port_physics b = (if b = 2 then Some EBUS else if b = 3 then Some MII else None)"

text \<open>\<open>port0_type\<close> to \<open>port3_type\<close> read two bits each of byte 7.\<close>

definition port0_type :: "crates \<Rightarrow> bytes \<Rightarrow> PortPhysics option rust" where
  "port0_type X d = do { byte \<leftarrow> index d 7; ret (port_physics (get_bits X byte 0 2)) }"

definition port1_type :: "crates \<Rightarrow> bytes \<Rightarrow> PortPhysics option rust" where
  "port1_type X d = do { byte \<leftarrow> index d 7; ret (port_physics (get_bits X byte 2 4)) }"

definition port2_type :: "crates \<Rightarrow> bytes \<Rightarrow> PortPhysics option rust" where
  "port2_type X d = do { byte \<leftarrow> index d 7; ret (port_physics (get_bits X byte 4 6)) }"

definition port3_type :: "crates \<Rightarrow> bytes \<Rightarrow> PortPhysics option rust" where
  "port3_type X d = do { byte \<leftarrow> index d 7; ret (port_physics (get_bits X byte 6 8)) }"

text \<open>\<open>SiiData::data\<close> copies \<open>size\<close> bytes of the 8 by index.\<close>

definition SiiData_data :: "bytes \<Rightarrow> nat \<Rightarrow> u64 rust" where
  "SiiData_data d n =
     (if n \<le> 8 \<and> n \<le> length d
      then ret (of_nat (from_le_bytes (take n d @ replicate (8 - n) 0)))
      else panic)"

definition get_al_status_code :: "crates \<Rightarrow> bytes \<Rightarrow> AlStatusCode rust" where
  "get_al_status_code X d = do {
     code \<leftarrow> reg_get X AlStatus ''al_status_code'' d;
     AlStatusCode_try_from X code }"

text \<open>The control words of \<open>cia402\<close>.\<close>

definition od_set_bit :: "crates \<Rightarrow> od_object \<Rightarrow> string \<Rightarrow> bool \<Rightarrow> bytes \<Rightarrow> bytes rust" where
  "od_set_bit X r name b d =
     (case map_of (od_fields r) name of Some (_, lsb) \<Rightarrow> bf_set_bit X d lsb b | None \<Rightarrow> panic)"

definition new_disable_voltage :: "bytes" where
  "new_disable_voltage = replicate (od_size ControlWord) 0"

definition new_switch_on_and_enable_operation :: "crates \<Rightarrow> bytes rust" where
  "new_switch_on_and_enable_operation X = do {
     d \<leftarrow> od_set_bit X ControlWord ''nquick_stop'' True (replicate (od_size ControlWord) 0);
     d \<leftarrow> od_set_bit X ControlWord ''switch_on'' True d;
     d \<leftarrow> od_set_bit X ControlWord ''enable_voltage'' True d;
     od_set_bit X ControlWord ''enable_operation'' True d }"

definition new_fault_reset :: "crates \<Rightarrow> bytes rust" where
  "new_fault_reset X = od_set_bit X ControlWord ''fault_reset'' True (replicate (od_size ControlWord) 0)"

definition new_quick_stop :: "crates \<Rightarrow> bytes rust" where
  "new_quick_stop X = od_set_bit X ControlWord ''enable_voltage'' True (replicate (od_size ControlWord) 0)"

section \<open>Layouts\<close>

fun disjoint_fields :: "layout \<Rightarrow> bool" where
  "disjoint_fields [] = True"
| "disjoint_fields ((n, m, l) # fs) =
     (list_all (\<lambda>(n', m', l'). n \<noteq> n' \<and> (m < l' \<or> m' < l)) fs \<and> disjoint_fields fs)"

definition layout_ok :: "nat \<Rightarrow> layout \<Rightarrow> bool" where
  "layout_ok k fs \<longleftrightarrow> list_all (\<lambda>(n, m, l). l \<le> m \<and> m < 8 * k) fs \<and> disjoint_fields fs"

definition registers :: "register list" where
  "registers =
     [DlInformation, FixedStationAddress, DlControl, DlStatus, RxErrorCounter,
      WatchDogDivider, DlUserWatchDog, SyncManagerChannelWatchDog,
      SyncManagerChannelWDStatus, SiiAccess, SiiControl, SiiAddress, SiiData, FmmuRegister,
      SyncManagerControl, SyncManagerStatus, SyncManagerActivation, SyncManagerPdiControl,
      DcRecieveTime, DcSystemTime, DcSystemTimeOffset, DcSystemTimeTransmissionDelay,
      DcSystemTimeDelta, AlControl, AlStatus, PdiControl, PdiConfig, SyncConfig,
      DcActivation, SyncPulse, InterruptStatus, CyclicOperationStartTime, Sync0CycleTime,
      Sync1CycleTime, LatchEdge, LatchEvent, Latch0PositiveEdgeValue,
      Latch0NegativeEdgeValue, Latch1PositiveEdgeValue, Latch1NegativeEdgeValue]"

definition od_objects :: "od_object list" where
  "od_objects =
     [OdPdoEntry, DeviceType, ErrorRegister, IdentityObjectEntries, IdentityObjectVender,
      IdentityObjectProduct, IdentityObjectRevision, IdentityObjectSerial, ControlWord,
      StatusWord, OperationMode, OperationModeDisplay, SupportedDriveModes]"

lemmas register_defs = DlInformation_def FixedStationAddress_def DlControl_def DlStatus_def
  RxErrorCounter_def WatchDogDivider_def DlUserWatchDog_def
  SyncManagerChannelWatchDog_def SyncManagerChannelWDStatus_def SiiAccess_def
  SiiControl_def SiiAddress_def SiiData_def FmmuRegister_def SyncManagerControl_def
  SyncManagerStatus_def SyncManagerActivation_def SyncManagerPdiControl_def
  DcRecieveTime_def DcSystemTime_def DcSystemTimeOffset_def
  DcSystemTimeTransmissionDelay_def DcSystemTimeDelta_def AlControl_def AlStatus_def
  PdiControl_def PdiConfig_def SyncConfig_def DcActivation_def SyncPulse_def
  InterruptStatus_def CyclicOperationStartTime_def Sync0CycleTime_def
  Sync1CycleTime_def LatchEdge_def LatchEvent_def Latch0PositiveEdgeValue_def
  Latch0NegativeEdgeValue_def Latch1PositiveEdgeValue_def Latch1NegativeEdgeValue_def

lemmas od_defs = OdPdoEntry_def DeviceType_def ErrorRegister_def IdentityObjectEntries_def
  IdentityObjectVender_def IdentityObjectProduct_def IdentityObjectRevision_def
  IdentityObjectSerial_def ControlWord_def StatusWord_def OperationMode_def
  OperationModeDisplay_def SupportedDriveModes_def

lemma registers_layout: "list_all (\<lambda>r. layout_ok (reg_size r) (reg_fields r)) registers"
  by code_simp

lemma disjoint_fields_apart:
  assumes "disjoint_fields fs" and "(n, m, l) \<in> set fs" and "(n', m', l') \<in> set fs" and "n \<noteq> n'"
  shows "m < l' \<or> m' < l"
  using assms by (induction fs rule: disjoint_fields.induct) (auto simp: list_all_iff)

lemma disjoint_fields_map_of:
  "disjoint_fields fs \<Longrightarrow> (n, m, l) \<in> set fs \<Longrightarrow> map_of fs n = Some (m, l)"
  by (induction fs rule: disjoint_fields.induct) (auto simp: list_all_iff)



lemma od_objects_layout: "list_all (\<lambda>r. layout_ok (od_size r) (od_fields r)) od_objects"
  by code_simp

end
