(* ===== verification/Logical_Bits.thy ===== *)
theory Logical_Bits
  imports Prelude
begin

text \<open>
  The bit ranges of the process data image: \<open>LogicalBits\<close> and \<open>FmmuConfig\<close> of
  \<open>src/src/slave/slave.rs\<close>. A range starts at bit \<open>start_bit\<close> of the byte at its logical address
  and has \<open>bit_length\<close> bits.
\<close>

record LogicalBits =
  logical_address :: "u32 option"
  start_bit :: u8
  bit_length :: u16

definition LogicalBits_new :: LogicalBits where
  "LogicalBits_new = \<lparr>logical_address = None, start_bit = 0, bit_length = 0\<rparr>"

definition byte_length :: "LogicalBits \<Rightarrow> u16 rust" where
  "byte_length lb = do {
     len \<leftarrow> uadd (bit_length lb) (ucast (start_bit lb));
     if len mod 8 = 0 then ret (drop_bit 3 len) else uadd (drop_bit 3 len) 1 }"

definition end_bit :: "LogicalBits \<Rightarrow> u8 rust" where
  "end_bit lb = do {
     len \<leftarrow> uadd (bit_length lb) (ucast (start_bit lb));
     let mod8 = len mod 8;
     if mod8 = 0 then ret 7 else usub (ucast mod8) 1 }"

text \<open>One byte of \<open>read_to_buffer\<close> (all but the last), then the operation.\<close>

definition read_byte :: "u8 \<Rightarrow> bytes \<Rightarrow> nat \<Rightarrow> bytes \<Rightarrow> nat \<Rightarrow> bytes rust" where
  "read_byte start img pdo_offset buf i = do {
     a \<leftarrow> index img (pdo_offset + i);
     v \<leftarrow> ushr a (unat start);
     b \<leftarrow> index img (pdo_offset + i + 1);
     k \<leftarrow> usub 7 start;
     next_v \<leftarrow> ushl b (unat k);
     store buf i (v OR next_v) }"

definition read_to_buffer :: "LogicalBits \<Rightarrow> u32 \<Rightarrow> bytes \<Rightarrow> bytes \<Rightarrow> (unit option \<times> bytes) rust" where
  "read_to_buffer lb logical_address_offset img buf = do {
     n \<leftarrow> byte_length lb;
     let n = unat n;
     case logical_address lb of
       None \<Rightarrow> ret (None, buf)
     | Some logical_start_address \<Rightarrow> do {
         d \<leftarrow> usub logical_start_address logical_address_offset;
         let pdo_offset = unat d;
         last_byte \<leftarrow> nsub (pdo_offset + n) 1;
         if get img last_byte = None then ret (None, buf)
         else do {
           l \<leftarrow> nsub n 1;
           if get buf l = None then ret (None, buf)
           else do {
             buf \<leftarrow> for_each (read_byte (start_bit lb) img pdo_offset) buf [0..<l];
             a \<leftarrow> index img last_byte;
             v \<leftarrow> ushr a (unat (start_bit lb));
             buf \<leftarrow> store buf l v;
             ret (Some (), buf) } } } }"

text \<open>One byte of \<open>write_from_buffer\<close>, then the operation.\<close>

definition write_byte :: "LogicalBits \<Rightarrow> nat \<Rightarrow> bytes \<Rightarrow> nat \<Rightarrow> bytes \<Rightarrow> nat \<Rightarrow> bytes rust" where
  "write_byte lb n buf pdo_offset img i = do {
     old \<leftarrow> index img (pdo_offset + i);
     kept \<leftarrow>
       (if i = 0 then
          (if start_bit lb = 0 then ret 0
           else do { k \<leftarrow> usub 8 (start_bit lb); m \<leftarrow> ushr 0xFF (unat k); ret (old AND m) })
        else if i = n - 1 then do {
          len \<leftarrow> uadd (bit_length lb) (ucast (start_bit lb));
          let mod8 = (ucast (len mod 8) :: u8);
          if mod8 = 0 then ret 0
          else do { m \<leftarrow> ushl 0xFF (unat mod8); ret (old AND m) } }
        else ret 0);
     b \<leftarrow> index buf i;
     v \<leftarrow> ushl b (unat (start_bit lb));
     carry \<leftarrow>
       (if 1 \<le> i \<and> start_bit lb \<noteq> 0 then do {
          p \<leftarrow> index buf (i - 1);
          k \<leftarrow> usub 8 (start_bit lb);
          ushr p (unat k) }
        else ret 0);
     store img (pdo_offset + i) (kept OR v OR carry) }"

definition write_from_buffer :: "LogicalBits \<Rightarrow> u32 \<Rightarrow> bytes \<Rightarrow> bytes \<Rightarrow> (unit option \<times> bytes) rust" where
  "write_from_buffer lb logical_address_offset img buf = do {
     n \<leftarrow> byte_length lb;
     let n = unat n;
     case logical_address lb of
       None \<Rightarrow> ret (None, img)
     | Some logical_start_address \<Rightarrow> do {
         d \<leftarrow> usub logical_start_address logical_address_offset;
         let pdo_offset = unat d;
         last_byte \<leftarrow> nsub (pdo_offset + n) 1;
         if get img last_byte = None then ret (None, img)
         else do {
           img \<leftarrow> for_each (write_byte lb n buf pdo_offset) img [0..<n];
           ret (Some (), img) } } }"

section \<open>FMMU configurations\<close>

datatype Direction = Input | Output

primrec is_output :: "Direction \<Rightarrow> bool" where
  "is_output Output = True"
| "is_output Input = False"

record FmmuConfig =
  fc_logical_bits :: LogicalBits
  fc_physical_address :: u16
  fc_direction :: Direction

definition FmmuConfig_new :: "u16 \<Rightarrow> u16 \<Rightarrow> Direction \<Rightarrow> FmmuConfig" where
  "FmmuConfig_new physical_address len direction =
     \<lparr>fc_logical_bits = LogicalBits_new\<lparr>bit_length := len\<rparr>, fc_physical_address = physical_address,
      fc_direction = direction\<rparr>"

definition fmmu_byte_length :: "FmmuConfig \<Rightarrow> u16 rust" where
  "fmmu_byte_length f = byte_length (fc_logical_bits f)"

definition fmmu_end_bit :: "FmmuConfig \<Rightarrow> u8 rust" where
  "fmmu_end_bit f = end_bit (fc_logical_bits f)"

definition fmmu_read_to_buffer :: "FmmuConfig \<Rightarrow> u32 \<Rightarrow> bytes \<Rightarrow> bytes \<Rightarrow> (unit option \<times> bytes) rust" where
  "fmmu_read_to_buffer f off img buf = read_to_buffer (fc_logical_bits f) off img buf"

definition fmmu_write_from_buffer :: "FmmuConfig \<Rightarrow> u32 \<Rightarrow> bytes \<Rightarrow> bytes \<Rightarrow> (unit option \<times> bytes) rust" where
  "fmmu_write_from_buffer f off img buf = write_from_buffer (fc_logical_bits f) off img buf"

section \<open>The extent of a range\<close>

definition span :: "LogicalBits \<Rightarrow> nat" where
  "span lb = unat (start_bit lb) + unat (bit_length lb)"

lemma word_of_unat: "unat w = n \<Longrightarrow> w = of_nat n"
  by auto

lemma uadd_of_nat:
  assumes "unat a + unat b = n" and "n < 2 ^ LENGTH('a)"
  shows "uadd a b = Some (of_nat n :: 'a::len word)"
proof -
  have "a + b = of_nat (unat a + unat b)" by simp
  then show ?thesis using assms by (simp add: uadd_def)
qed

lemma uadd_span:
  assumes "span lb < 65536"
  shows "uadd (bit_length lb) (ucast (start_bit lb)) = Some (of_nat (span lb))"
    and "unat (of_nat (span lb) :: u16) = span lb"
proof -
  have "unat (ucast (start_bit lb) :: u16) = unat (start_bit lb)"
    by (simp add: unsigned_ucast_eq take_bit_unat)
  then show "uadd (bit_length lb) (ucast (start_bit lb)) = Some (of_nat (span lb))"
    using assms by (intro uadd_of_nat) (simp_all add: span_def)
  show "unat (of_nat (span lb) :: u16) = span lb" using assms by (simp add: unat_of_nat)
qed

lemma unat_mod8: "unat (w mod 8 :: u16) = unat w mod 8"
  by (simp add: unat_mod)

lemma byte_length_eq:
  assumes "span lb < 65536"
  shows "byte_length lb = Some (of_nat ((span lb + 7) div 8))"
proof -
  let ?n = "of_nat (span lb) :: u16"
  note u = uadd_span [OF assms]
  have m: "?n mod 8 = 0 \<longleftrightarrow> span lb mod 8 = 0"
    using unat_mod8 [of ?n] by (simp add: u(2) flip: unat_eq_zero)
  have d: "unat (drop_bit 3 ?n) = span lb div 8"
    by (simp add: unat_div u(2) drop_bit_eq_div)
  have "uadd (drop_bit 3 ?n) 1 = Some (of_nat (span lb div 8 + 1))"
    using assms by (intro uadd_of_nat) (simp_all add: d)
  moreover have "drop_bit 3 ?n = of_nat (span lb div 8)" by (rule word_of_unat [OF d])
  moreover have "(span lb + 7) div 8 = (if span lb mod 8 = 0 then span lb div 8 else span lb div 8 + 1)"
    by presburger
  ultimately show ?thesis by (simp add: byte_length_def u(1) m)
qed

lemma unat_byte_length: "span lb < 65536 \<Longrightarrow> unat (of_nat ((span lb + 7) div 8) :: u16) = (span lb + 7) div 8"
  by (simp add: unat_of_nat)

lemma end_bit_eq:
  assumes "span lb < 65536"
  shows "end_bit lb = Some (of_nat ((span lb + 7) mod 8))"
proof -
  let ?n = "of_nat (span lb) :: u16"
  note u = uadd_span [OF assms]
  have m: "unat (?n mod 8) = span lb mod 8" using unat_mod8 [of ?n] by (simp add: u(2))
  have c: "unat (ucast (?n mod 8) :: u8) = span lb mod 8"
    by (simp add: unsigned_ucast_eq m take_bit_nat_eq_self)
  show ?thesis
  proof (cases "span lb mod 8 = 0")
    case True
    then have "?n mod 8 = 0" using m by (simp flip: unat_eq_zero)
    moreover have "(span lb + 7) mod 8 = 7" using True by presburger
    ultimately show ?thesis by (simp add: end_bit_def u(1))
  next
    case False
    then have nz: "?n mod 8 \<noteq> 0" using m by (metis unat_eq_zero)
    have e: "(span lb + 7) mod 8 = span lb mod 8 - 1" using False by presburger
    have le: "1 \<le> (ucast (?n mod 8) :: u8)" using False by (simp add: word_le_nat_alt c)
    then have "unat (ucast (?n mod 8) - 1 :: u8) = span lb mod 8 - 1"
      by (simp add: unat_sub c)
    then have "ucast (?n mod 8) - 1 = (of_nat ((span lb + 7) mod 8) :: u8)"
      unfolding e by (rule word_of_unat)
    with nz le show ?thesis by (simp add: end_bit_def u(1) usub_def)
  qed
qed

text \<open>
  \<open>byte_length\<close> and \<open>end_bit\<close> describe the extent of a range. The range ends at bit
  \<open>end_bit\<close> of the byte \<open>byte_length - 1\<close> behind the first, and the bytes are as few as
  possible; neither computation overflows.
\<close>

lemma logical_bits_extent:
  assumes "0 < unat (bit_length lb)" and "span lb < 65536"
  shows "\<exists>n e. byte_length lb = Some n \<and> end_bit lb = Some e \<and> 0 < unat n \<and> unat e < 8 \<and>
    8 * (unat n - 1) + unat e = unat (start_bit lb) + unat (bit_length lb) - 1"
proof -
  have "unat (of_nat ((span lb + 7) mod 8) :: u8) = (span lb + 7) mod 8" by (simp add: unat_of_nat)
  moreover have "0 < span lb" using assms(1) by (simp add: span_def)
  then have "0 < (span lb + 7) div 8" "8 * ((span lb + 7) div 8 - 1) + (span lb + 7) mod 8 = span lb - 1"
    by presburger+
  ultimately show ?thesis
    using assms(2) by (simp add: byte_length_eq end_bit_eq unat_byte_length) (simp add: span_def)
qed

definition example_bits :: "nat \<Rightarrow> nat \<Rightarrow> LogicalBits" where
  "example_bits k n = \<lparr>logical_address = Some 100, start_bit = of_nat k, bit_length = of_nat n\<rparr>"

section \<open>Writing\<close>

text \<open>What one step of the loop stores: the kept bits of the old byte and bits of the buffer.\<close>

definition kept_bit :: "LogicalBits \<Rightarrow> nat \<Rightarrow> nat \<Rightarrow> nat \<Rightarrow> bool" where
  "kept_bit lb n i k \<longleftrightarrow>
     (if i = 0 then k < unat (start_bit lb) else i = n - 1 \<and> span lb mod 8 \<noteq> 0 \<and> span lb mod 8 \<le> k)"

definition new_byte :: "LogicalBits \<Rightarrow> nat \<Rightarrow> bytes \<Rightarrow> nat \<Rightarrow> u8 \<Rightarrow> u8" where
  "new_byte lb n buf i old = byte_of (\<lambda>k. kept_bit lb n i k \<and> bit old k \<or>
     unat (start_bit lb) \<le> 8 * i + k \<and> bit_at buf (8 * i + k - unat (start_bit lb)))"

lemma byte_of_eqI: "(\<And>k. k < 8 \<Longrightarrow> bit w k = f k) \<Longrightarrow> w = byte_of f"
  by (rule bit_word_eqI) (simp add: bit_byte_of)

lemma bit_at_byte: "k < 8 \<Longrightarrow> bit_at d (8 * i + k) = bit (d ! i) k"
  by (simp add: bit_at_def)

lemma bit_0xFF: "bit (0xFF :: u8) k \<longleftrightarrow> k < 8"
proof -
  have "(0xFF :: u8) = - 1" by simp
  then show ?thesis by (simp only: bit_minus_1_iff possible_bit_word) simp
qed

lemma write_byte_eq:
  assumes sb: "unat (start_bit lb) < 8" and sp: "span lb < 65536"
    and i: "i < n" "n \<le> length buf" "pdo_offset + i < length img"
  shows "write_byte lb n buf pdo_offset img i =
    Some (img[pdo_offset + i := new_byte lb n buf i (img ! (pdo_offset + i))])"
proof -
  define old where "old = img ! (pdo_offset + i)"
  define s where "s = unat (start_bit lb)"
  have s8: "s < 8" using sb by (simp add: s_def)
  have z: "start_bit lb = 0 \<longleftrightarrow> s = 0" by (simp add: s_def unat_eq_zero)
  obtain k8 where u8: "usub 8 (start_bit lb) = Some k8" and un: "unat k8 = 8 - s"
    using s8 by (simp add: usub_def word_le_nat_alt s_def unat_sub)
  have m8: "unat (ucast ((of_nat (span lb) :: u16) mod 8) :: u8) = span lb mod 8"
    by (simp add: unsigned_ucast_eq unat_mod8 uadd_span(2) [OF sp] take_bit_nat_eq_self)
  have z8: "(ucast ((of_nat (span lb) :: u16) mod 8) :: u8) = 0 \<longleftrightarrow> span lb mod 8 = 0"
    by (simp add: m8 flip: unat_eq_zero)
  have kept: "(if i = 0 then
          (if start_bit lb = 0 then Some 0
           else do { k \<leftarrow> usub 8 (start_bit lb); m \<leftarrow> ushr 0xFF (unat k); Some (old AND m) })
        else if i = n - 1 then do {
          len \<leftarrow> uadd (bit_length lb) (ucast (start_bit lb));
          let mod8 = (ucast (len mod 8) :: u8);
          if mod8 = 0 then Some 0
          else do { m \<leftarrow> ushl 0xFF (unat mod8); Some (old AND m) } }
        else Some 0) = Some (byte_of (\<lambda>k. kept_bit lb n i k \<and> bit old k))"
  proof -
    have "bit (drop_bit (8 - s) (0xFF :: u8)) k \<longleftrightarrow> k < s" for k
      using s8 by (simp only: bit_drop_bit_eq comp_apply bit_0xFF) arith
    then have "old AND drop_bit (8 - s) 0xFF = byte_of (\<lambda>k. k < s \<and> bit old k)"
      by (intro byte_of_eqI) (auto simp only: bit_and_iff)
    moreover have "bit (push_bit (span lb mod 8) (0xFF :: u8)) k \<longleftrightarrow> span lb mod 8 \<le> k"
      if "k < 8" for k
      using that by (simp only: bit_push_bit_iff possible_bit_word bit_0xFF) auto
    then have "old AND push_bit (span lb mod 8) 0xFF = byte_of (\<lambda>k. span lb mod 8 \<le> k \<and> bit old k)"
      by (intro byte_of_eqI) (auto simp only: bit_and_iff)
    moreover have "byte_of (\<lambda>k. False) = 0" by (rule sym, rule byte_of_eqI) simp
    ultimately show ?thesis
      using s8 by (auto simp: kept_bit_def s_def [symmetric] z u8 un uadd_span(1) [OF sp] z8 m8
        ushr_def ushl_def Let_def)
  qed
  have carry: "(if 1 \<le> i \<and> start_bit lb \<noteq> 0 then do {
          p \<leftarrow> index buf (i - 1); k \<leftarrow> usub 8 (start_bit lb); ushr p (unat k) }
        else Some 0) = Some (if 1 \<le> i \<and> s \<noteq> 0 then drop_bit (8 - s) (buf ! (i - 1)) else 0)"
    using s8 i by (auto simp: index_def u8 un ushr_def z)
  have "byte_of (\<lambda>k. kept_bit lb n i k \<and> bit old k) OR push_bit s (buf ! i) OR
      (if 1 \<le> i \<and> s \<noteq> 0 then drop_bit (8 - s) (buf ! (i - 1)) else 0) = new_byte lb n buf i old"
    unfolding new_byte_def
  proof (rule byte_of_eqI, goal_cases)
    case (1 k)
    have "bit_at buf (8 * i + k - s) \<longleftrightarrow>
        (if s \<le> k then bit (buf ! i) (k - s) else bit (buf ! (i - 1)) (8 - s + k))" if "s \<le> 8 * i + k"
    proof (cases "s \<le> k")
      case True
      then have "8 * i + k - s = 8 * i + (k - s)" "k - s < 8" using 1 by auto
      then have "bit_at buf (8 * i + k - s) = bit (buf ! i) (k - s)" by (simp only: bit_at_byte)
      with True show ?thesis by simp
    next
      case False
      then have "i \<noteq> 0" using that by auto
      then obtain j where "i = Suc j" by (cases i) auto
      then have "8 * i + k - s = 8 * j + (8 - s + k)" "8 - s + k < 8" using False s8 by auto
      then have "bit_at buf (8 * i + k - s) = bit (buf ! j) (8 - s + k)" by (simp only: bit_at_byte)
      with False \<open>i = Suc j\<close> show ?thesis by simp
    qed
    moreover have "\<not> bit (buf ! (i - 1)) (8 - s + k)" if "s \<le> k"
      using that bit_imp_le_length [of "buf ! (i - 1)" "8 - s + k"] s8 by auto
    ultimately show ?case
      using 1 s8 by (auto simp: bit_or_iff bit_push_bit_iff bit_drop_bit_eq bit_byte_of s_def [symmetric])
  qed
  moreover have "index img (pdo_offset + i) = Some old" "index buf i = Some (buf ! i)"
    using i by (simp_all add: index_def old_def)
  moreover have "ushl (buf ! i) s = Some (push_bit s (buf ! i))" using s8 by (simp add: ushl_def)
  ultimately show ?thesis
    unfolding write_byte_def using kept carry i
    by (simp add: store_def s_def [symmetric] old_def [symmetric])
qed

text \<open>What a range refers to in an image that starts at logical address \<open>off\<close>: byte \<open>base\<close>.\<close>

definition range_at :: "LogicalBits \<Rightarrow> u32 \<Rightarrow> nat \<Rightarrow> bool" where
  "range_at lb off base \<longleftrightarrow> unat (start_bit lb) < 8 \<and> 0 < unat (bit_length lb) \<and> span lb < 65536 \<and>
     (\<exists>a. logical_address lb = Some a \<and> off \<le> a \<and> base = unat (a - off))"

abbreviation range_bytes :: "LogicalBits \<Rightarrow> nat" where
  "range_bytes lb \<equiv> (span lb + 7) div 8"

lemma range_bytes_pos: "range_at lb off base \<Longrightarrow> 0 < range_bytes lb"
  by (auto simp: range_at_def span_def)

lemma write_from_buffer_bytes:
  assumes r: "range_at lb off base" and img: "base + range_bytes lb \<le> length img"
    and buf: "range_bytes lb \<le> length buf"
  shows "\<exists>img'. write_from_buffer lb off img buf = Some (Some (), img') \<and> length img' = length img \<and>
    (\<forall>j < length img. img' ! j = (if base \<le> j \<and> j < base + range_bytes lb
       then new_byte lb (range_bytes lb) buf (j - base) (img ! j) else img ! j))"
proof -
  let ?n = "range_bytes lb"
  obtain a where a: "logical_address lb = Some a" "off \<le> a" "base = unat (a - off)"
    and sb: "unat (start_bit lb) < 8" and sp: "span lb < 65536"
    using r by (auto simp: range_at_def)
  have "\<exists>img'. for_each (write_byte lb ?n buf base) img [0..<?n] = Some img' \<and> length img' = length img \<and>
    (\<forall>j < length img. img' ! j = (if base \<le> j \<and> j - base \<in> set [0..<?n]
       then new_byte lb ?n buf (j - base) (img ! j) else img ! j))"
    using img buf by (intro for_each_store write_byte_eq [OF sb sp]) auto
  moreover have "base \<le> j \<and> j - base \<in> set [0..<?n] \<longleftrightarrow> base \<le> j \<and> j < base + ?n" for j
    by auto
  ultimately obtain img' where "for_each (write_byte lb ?n buf base) img [0..<?n] = Some img'"
    "length img' = length img"
    "\<forall>j < length img. img' ! j = (if base \<le> j \<and> j < base + ?n
       then new_byte lb ?n buf (j - base) (img ! j) else img ! j)"
    by auto
  with a img range_bytes_pos [OF r] show ?thesis
    by (auto simp: write_from_buffer_def byte_length_eq [OF sp] unat_byte_length [OF sp] usub_def
      nsub_def get_def Let_def)
qed

lemma last_byte_extent:
  assumes "0 < S"
  shows "(S :: nat) = 8 * ((S + 7) div 8 - 1) + (if S mod 8 = 0 then 8 else S mod 8)"
proof (cases "S mod 8 = 0")
  case True
  then obtain q where "S = 8 * q" by auto
  with assms show ?thesis by simp
next
  case False
  define q r where "q = S div 8" and "r = S mod 8"
  have S: "S = 8 * q + r" "r < 8" "r \<noteq> 0" using False by (simp_all add: q_def r_def)
  then have "(S + 7) div 8 = q + 1" by (simp add: div_nat_eqI)
  with S show ?thesis by simp
qed

text \<open>The bits the loop leaves in byte \<open>i\<close> of the range.\<close>

lemma new_byte_bits:
  assumes sb: "unat (start_bit lb) < 8" and pos: "0 < unat (bit_length lb)"
    and i: "i < range_bytes lb" and k: "k < 8"
    and pad: "\<forall>p. unat (bit_length lb) \<le> p \<and> p < 8 * range_bytes lb \<longrightarrow> \<not> bit_at buf p"
  shows "bit (new_byte lb (range_bytes lb) buf i old) k \<longleftrightarrow>
    (if unat (start_bit lb) \<le> 8 * i + k \<and> 8 * i + k < span lb
     then bit_at buf (8 * i + k - unat (start_bit lb))
     else if range_bytes lb = 1 \<and> span lb \<le> k then False else bit old k)"
proof -
  let ?s = "unat (start_bit lb)" and ?n = "range_bytes lb" and ?p = "8 * i + k"
  have beyond: "\<not> bit_at buf (?p - ?s)" if "span lb \<le> ?p"
  proof -
    have "unat (bit_length lb) \<le> ?p - ?s" "?p - ?s < 8 * ?n"
      using that i k by (auto simp: span_def)
    with pad show ?thesis by blast
  qed
  have in_field: "?p < span lb" if "i < ?n - 1" using that k by linarith
  have last: "span lb mod 8 \<noteq> 0 \<and> span lb mod 8 \<le> k \<longleftrightarrow> span lb \<le> ?p" if "i = ?n - 1"
  proof -
    have "0 < span lb" using pos by (simp add: span_def)
    then have "span lb = 8 * i + (if span lb mod 8 = 0 then 8 else span lb mod 8)"
      unfolding that by (rule last_byte_extent)
    then show ?thesis using k by (auto split: if_splits)
  qed
  have kept: "kept_bit lb ?n i k \<longleftrightarrow>
      \<not> (?s \<le> ?p \<and> ?p < span lb) \<and> \<not> (?n = 1 \<and> span lb \<le> k)"
  proof (cases "i = 0")
    case True
    then show ?thesis
      using in_field i pos by (cases "?n = 1") (auto simp: kept_bit_def span_def)
  next
    case False
    then have "?s \<le> ?p" "?n \<noteq> 1" using sb i by auto
    with False in_field last i show ?thesis
      by (cases "i = ?n - 1") (auto simp: kept_bit_def)
  qed
  show ?thesis
    using kept beyond k by (auto simp: new_byte_def bit_byte_of)
qed



section \<open>Reading\<close>

text \<open>
  Reading a range that lies in one byte gives its bits from bit 0 of the buffer on; the
  bits of the byte above the range follow them unmasked, the rest of the buffer is kept.
\<close>

lemma read_single_byte:
  assumes r: "range_at lb off base" and one: "span lb \<le> 8"
    and img: "base < length img" and buf: "buf \<noteq> []"
  shows "\<exists>buf'. read_to_buffer lb off img buf = Some (Some (), buf') \<and> tl buf' = tl buf \<and>
    (\<forall>k < 8. bit_at buf' k \<longleftrightarrow> unat (start_bit lb) + k < 8 \<and> bit_at img (8 * base + unat (start_bit lb) + k))"
proof -
  obtain a where a: "logical_address lb = Some a" "off \<le> a" "base = unat (a - off)"
    and sb: "unat (start_bit lb) < 8" and sp: "span lb < 65536"
    using r by (auto simp: range_at_def)
  have "0 < span lb" using r by (simp add: range_at_def span_def)
  then have n: "range_bytes lb = 1" using one by (simp add: div_nat_eqI)
  let ?v = "drop_bit (unat (start_bit lb)) (img ! base)"
  have "read_to_buffer lb off img buf = Some (Some (), buf[0 := ?v])"
    using a img buf sb
    by (simp add: read_to_buffer_def byte_length_eq [OF sp] n usub_def nsub_def get_def index_def
      store_def ushr_def Let_def)
  moreover have "bit ?v k \<longleftrightarrow> unat (start_bit lb) + k < 8 \<and> bit_at img (8 * base + unat (start_bit lb) + k)" for k
    using bit_at_byte [of "unat (start_bit lb) + k" img base]
      bit_imp_le_length [of "img ! base" "unat (start_bit lb) + k"]
    by (auto simp: bit_drop_bit_eq add.assoc)
  moreover obtain x xs where "buf = x # xs" using buf by (cases buf) auto
  ultimately show ?thesis by (auto simp: bit_at_def)
qed



end
