(* ===== verification/Slave.thy ===== *)
theory Slave
  imports Logical_Bits Registers Pdu_Interface
begin

text \<open>
  What the master knows of its slaves: \<open>src/src/slave/slave.rs\<close> (identity, sync managers, AL
  state, mailbox counter), \<open>src/src/slave/config.rs\<close> (process data configuration) and
  \<open>src/src/slave/network.rs\<close> (the list of slaves found on the network). Arrays are lists;
  \<open>Cell\<close> and \<open>RefCell\<close> fields are fields of the records, returned updated.
\<close>

section \<open>Slave information\<close>

datatype SlaveError =
    PdiNotOperational | UnexpectedAlState | SmSettingsAreNotCorrect | WatchdogTimeout
  | PdoStateError | PdoControlError | PdoToggleError | EarlySmEvent | SmEvnetJitterTooMuch
  | SmEventNotRecieved | OutputCalcAndCopyNotFinished | Sync0NotRecieved | Sync1NotRecieved
  | SyncEventNotDetected

record SlaveId =
  vender_id :: u16
  product_code :: u16
  revision_number :: u16

definition SlaveId_default :: SlaveId where
  "SlaveId_default = \<lparr>vender_id = 0, product_code = 0, revision_number = 0\<rparr>"

record SyncManager =
  sm_number :: u8
  sm_size :: u16
  sm_start_address :: u16

definition SyncManager_default :: SyncManager where
  "SyncManager_default = \<lparr>sm_number = 0, sm_size = 0, sm_start_address = 0\<rparr>"

datatype SyncManagerType =
    MailboxRx SyncManager
  | MailboxTx SyncManager
  | ProcessDataRx
  | ProcessDataTx

record SlaveInfo =
  si_configured_address :: u16
  si_id :: SlaveId
  si_linked_ports :: "bool list"
  si_ports :: "PortPhysics option list"
  si_ram_size_kb :: u8
  si_number_of_fmmu :: u8
  si_number_of_sm :: u8
  si_pdo_start_address :: "u16 option"
  si_pdo_ram_size :: u16
  si_sm :: "SyncManagerType option list"
  si_support_dc :: bool
  si_support_fmmu_bit_operation :: bool
  si_support_coe :: bool
  si_strict_al_control :: bool

definition SlaveInfo_default :: SlaveInfo where
  "SlaveInfo_default =
     \<lparr>si_configured_address = 0, si_id = SlaveId_default, si_linked_ports = replicate 4 False,
      si_ports = replicate 4 None, si_ram_size_kb = 0, si_number_of_fmmu = 0, si_number_of_sm = 0,
      si_pdo_start_address = None, si_pdo_ram_size = 0, si_sm = replicate 4 None,
      si_support_dc = False, si_support_fmmu_bit_operation = False, si_support_coe = False,
      si_strict_al_control = False\<rparr>"

definition slave_address :: "SlaveInfo \<Rightarrow> SlaveAddress" where
  "slave_address info = StationAddress (si_configured_address info)"

definition mailbox_rx_sm :: "SlaveInfo \<Rightarrow> SyncManager option" where
  "mailbox_rx_sm info =
     map_option (\<lambda>t. case t of Some (MailboxRx sm) \<Rightarrow> sm | _ \<Rightarrow> SyncManager_default)
       (find (\<lambda>t. case t of Some (MailboxRx _) \<Rightarrow> True | _ \<Rightarrow> False) (si_sm info))"

definition mailbox_tx_sm :: "SlaveInfo \<Rightarrow> SyncManager option" where
  "mailbox_tx_sm info =
     map_option (\<lambda>t. case t of Some (MailboxTx sm) \<Rightarrow> sm | _ \<Rightarrow> SyncManager_default)
       (find (\<lambda>t. case t of Some (MailboxTx _) \<Rightarrow> True | _ \<Rightarrow> False) (si_sm info))"

fun position :: "('a \<Rightarrow> bool) \<Rightarrow> 'a list \<Rightarrow> nat option" where
  "position P [] = None"
| "position P (x # xs) = (if P x then Some 0 else map_option Suc (position P xs))"

definition process_data_rx_sm_number :: "SlaveInfo \<Rightarrow> u8 option" where
  "process_data_rx_sm_number info =
     map_option of_nat (position (\<lambda>t. t = Some ProcessDataRx) (si_sm info))"

definition process_data_tx_sm_number :: "SlaveInfo \<Rightarrow> u8 option" where
  "process_data_tx_sm_number info =
     map_option of_nat (position (\<lambda>t. t = Some ProcessDataTx) (si_sm info))"

section \<open>Builders\<close>

record SlaveIdBuilder =
  idb_vender_id :: u16
  idb_product_code :: u16
  idb_revision_number :: u16

definition SlaveIdBuilder_build :: "SlaveIdBuilder \<Rightarrow> SlaveId" where
  "SlaveIdBuilder_build b =
     \<lparr>vender_id = idb_vender_id b, product_code = idb_product_code b,
      revision_number = idb_revision_number b\<rparr>"

record SyncManagerBuilder =
  smb_number :: u8
  smb_size :: u16
  smb_start_address :: u16

definition SyncManagerBuilder_default :: SyncManagerBuilder where
  "SyncManagerBuilder_default = \<lparr>smb_number = 0, smb_size = 0, smb_start_address = 0\<rparr>"

definition SyncManagerBuilder_build :: "SyncManagerBuilder \<Rightarrow> SyncManager" where
  "SyncManagerBuilder_build b =
     \<lparr>sm_number = smb_number b, sm_size = smb_size b, sm_start_address = smb_start_address b\<rparr>"

datatype SyncManagerTypeBuilder =
    MailboxRxB SyncManagerBuilder
  | MailboxTxB SyncManagerBuilder
  | ProcessDataRxB
  | ProcessDataTxB

fun SyncManagerTypeBuilder_build :: "SyncManagerTypeBuilder \<Rightarrow> SyncManagerType" where
  "SyncManagerTypeBuilder_build (MailboxRxB sm) = MailboxRx (SyncManagerBuilder_build sm)"
| "SyncManagerTypeBuilder_build (MailboxTxB sm) = MailboxTx (SyncManagerBuilder_build sm)"
| "SyncManagerTypeBuilder_build ProcessDataRxB = ProcessDataRx"
| "SyncManagerTypeBuilder_build ProcessDataTxB = ProcessDataTx"

record SlaveInfoBuilder =
  sib_configured_address :: u16
  sib_id :: SlaveIdBuilder
  sib_linked_ports :: "bool list"
  sib_ports :: "PortPhysics option list"
  sib_ram_size_kb :: u8
  sib_number_of_fmmu :: u8
  sib_number_of_sm :: u8
  sib_pdo_start_address :: "u16 option"
  sib_pdo_ram_size :: u16
  sib_sm :: "SyncManagerTypeBuilder option list"
  sib_support_dc :: bool
  sib_support_fmmu_bit_operation :: bool
  sib_support_coe :: bool
  sib_strict_al_control :: bool

definition SlaveInfoBuilder_default :: SlaveInfoBuilder where
  "SlaveInfoBuilder_default =
     \<lparr>sib_configured_address = 0,
      sib_id = \<lparr>idb_vender_id = 0, idb_product_code = 0, idb_revision_number = 0\<rparr>,
      sib_linked_ports = replicate 4 False, sib_ports = replicate 4 None, sib_ram_size_kb = 0,
      sib_number_of_fmmu = 0, sib_number_of_sm = 0, sib_pdo_start_address = None,
      sib_pdo_ram_size = 0, sib_sm = replicate 4 None, sib_support_dc = False,
      sib_support_fmmu_bit_operation = False, sib_support_coe = False,
      sib_strict_al_control = False\<rparr>"

definition SlaveInfoBuilder_build :: "SlaveInfoBuilder \<Rightarrow> SlaveInfo" where
  "SlaveInfoBuilder_build b =
     \<lparr>si_configured_address = sib_configured_address b, si_id = SlaveIdBuilder_build (sib_id b),
      si_linked_ports = sib_linked_ports b, si_ports = sib_ports b,
      si_ram_size_kb = sib_ram_size_kb b, si_number_of_fmmu = sib_number_of_fmmu b,
      si_number_of_sm = sib_number_of_sm b, si_pdo_start_address = sib_pdo_start_address b,
      si_pdo_ram_size = sib_pdo_ram_size b,
      si_sm = map (map_option SyncManagerTypeBuilder_build) (take 4 (sib_sm b)),
      si_support_dc = sib_support_dc b,
      si_support_fmmu_bit_operation = sib_support_fmmu_bit_operation b,
      si_support_coe = sib_support_coe b, si_strict_al_control = sib_strict_al_control b\<rparr>"

section \<open>AL states\<close>

datatype AlState =
    Init | PreOperational | Bootstrap | SafeOperational | Operational | InvalidOrMixed

primrec AlState_repr :: "AlState \<Rightarrow> u8" where
  "AlState_repr Init = 0x1"
| "AlState_repr PreOperational = 0x2"
| "AlState_repr Bootstrap = 0x3"
| "AlState_repr SafeOperational = 0x4"
| "AlState_repr Operational = 0x8"
| "AlState_repr InvalidOrMixed = 0x9"

definition AlState_from :: "u8 \<Rightarrow> AlState" where
  "AlState_from v =
     (if v = AlState_repr Init then Init
      else if v = AlState_repr PreOperational then PreOperational
      else if v = AlState_repr Bootstrap then Bootstrap
      else if v = AlState_repr SafeOperational then SafeOperational
      else if v = AlState_repr Operational then Operational
      else InvalidOrMixed)"

section \<open>A slave\<close>

record DcContext =
  parent_port :: "(u16 \<times> u8) option"
  current_port :: u8
  latched_local_sys_time :: u64
  recieved_port_time :: "u32 list"
  dc_delay :: u32
  dc_offset :: u64

definition DcContext_default :: DcContext where
  "DcContext_default =
     \<lparr>parent_port = None, current_port = 0, latched_local_sys_time = 0,
      recieved_port_time = replicate 4 0, dc_delay = 0, dc_offset = 0\<rparr>"

record Slave =
  sl_info :: SlaveInfo
  sl_fmmu :: "FmmuConfig option list"
  sl_al_state :: AlState
  sl_mailbox_count :: u8
  dc_context :: DcContext

definition Slave_default :: Slave where
  "Slave_default =
     \<lparr>sl_info = SlaveInfo_default, sl_fmmu = replicate 3 None, sl_al_state = InvalidOrMixed,
      sl_mailbox_count = 0, dc_context = DcContext_default\<rparr>"

definition set_mailbox_count :: "Slave \<Rightarrow> u8 \<Rightarrow> (unit + unit) \<times> Slave" where
  "set_mailbox_count s count =
     (if count \<le> 7 then (Inr (), s\<lparr>sl_mailbox_count := count\<rparr>) else (Inl (), s))"

definition increment_mb_count :: "Slave \<Rightarrow> (u8 \<times> Slave) rust" where
  "increment_mb_count s = do {
     let count = sl_mailbox_count s;
     count' \<leftarrow> (if count < 7 then uadd count 1 else ret 1);
     let s = s\<lparr>sl_mailbox_count := count'\<rparr>;
     ret (sl_mailbox_count s, s) }"

section \<open>Configuration\<close>

datatype SyncMode = FreeRun | SyncManagerEvent | Sync0Event | Sync1Event

primrec SyncMode_repr :: "SyncMode \<Rightarrow> u8" where
  "SyncMode_repr FreeRun = 0x00"
| "SyncMode_repr SyncManagerEvent = 0x01"
| "SyncMode_repr Sync0Event = 0x02"
| "SyncMode_repr Sync1Event = 0x03"

datatype CycleTime = DefaultValue | SpecifiedValue u32

record PdoEntry =
  pe_logical_bits :: LogicalBits
  pe_index :: u16
  pe_sub_index :: u8

definition PdoEntry_new :: "u16 \<Rightarrow> u8 \<Rightarrow> u8 \<Rightarrow> PdoEntry" where
  "PdoEntry_new idx sub_index len =
     \<lparr>pe_logical_bits = LogicalBits_new\<lparr>bit_length := ucast len\<rparr>, pe_index = idx,
      pe_sub_index = sub_index\<rparr>"

definition PdoEntry_bit_length :: "PdoEntry \<Rightarrow> u8" where
  "PdoEntry_bit_length e = ucast (bit_length (pe_logical_bits e))"

definition PdoEntry_read_to_buffer :: "PdoEntry \<Rightarrow> u32 \<Rightarrow> bytes \<Rightarrow> bytes \<Rightarrow> (unit option \<times> bytes) rust" where
  "PdoEntry_read_to_buffer e off img buf = read_to_buffer (pe_logical_bits e) off img buf"

definition PdoEntry_write_from_buffer :: "PdoEntry \<Rightarrow> u32 \<Rightarrow> bytes \<Rightarrow> bytes \<Rightarrow> (unit option \<times> bytes) rust" where
  "PdoEntry_write_from_buffer e off img buf = write_from_buffer (pe_logical_bits e) off img buf"

record PdoMapping =
  pm_is_fixed :: bool
  pm_index :: u16
  pm_entries :: "PdoEntry list"

record SlaveConfig =
  input_pdo_mappings :: "PdoMapping list"
  output_pdo_mappings :: "PdoMapping list"
  expectec_id :: "SlaveId option"
  sync_mode :: SyncMode
  cycle_time_ns :: CycleTime

definition SlaveConfig_default :: SlaveConfig where
  "SlaveConfig_default =
     \<lparr>input_pdo_mappings = [], output_pdo_mappings = [], expectec_id = None, sync_mode = FreeRun,
      cycle_time_ns = DefaultValue\<rparr>"

section \<open>The network\<close>

record Network =
  nw_slaves :: "(Slave option \<times> SlaveConfig) list"
  push_count :: u16

definition Network_new :: "(Slave option \<times> SlaveConfig) list \<Rightarrow> Network" where
  "Network_new slave_buf = \<lparr>nw_slaves = slave_buf, push_count = 0\<rparr>"

definition Network_clear :: "Network \<Rightarrow> Network" where
  "Network_clear n = \<lparr>nw_slaves = map (\<lambda>(_, c). (None, c)) (nw_slaves n), push_count = 0\<rparr>"

definition push_slave :: "Network \<Rightarrow> Slave \<Rightarrow> ((Slave + unit) \<times> Network) rust" where
  "push_slave n s =
     (if length (nw_slaves n) \<le> unat (push_count n) then ret (Inl s, n)
      else do {
        (_, c) \<leftarrow> index (nw_slaves n) (unat (push_count n));
        slaves \<leftarrow> store (nw_slaves n) (unat (push_count n)) (Some s, c);
        k \<leftarrow> uadd (push_count n) 1;
        ret (Inr (), \<lparr>nw_slaves = slaves, push_count = k\<rparr>) })"

definition num_slaves :: "Network \<Rightarrow> u16" where
  "num_slaves n = push_count n"

definition slave_index :: "SlaveAddress \<Rightarrow> u16 option" where
  "slave_index addr =
     (case addr of
        SlavePosition n \<Rightarrow> Some n
      | StationAddress n \<Rightarrow> (if n = 0 then None else Some (n - 1)))"

definition network_slave :: "Network \<Rightarrow> SlaveAddress \<Rightarrow> (Slave \<times> SlaveConfig) option rust" where
  "network_slave n addr =
     (case slave_index addr of
        None \<Rightarrow> ret None
      | Some a \<Rightarrow>
          if a < push_count n then do {
            (s, c) \<leftarrow> index (nw_slaves n) (unat a);
            s \<leftarrow> s;
            ret (Some (s, c)) }
          else ret None)"

text \<open>\<open>slave_mut\<close> with what the caller stores through the two references.\<close>

definition network_slave_mut ::
    "Network \<Rightarrow> SlaveAddress \<Rightarrow> (Slave \<times> SlaveConfig \<Rightarrow> Slave \<times> SlaveConfig) \<Rightarrow> Network option rust" where
  "network_slave_mut n addr f =
     (case slave_index addr of
        None \<Rightarrow> ret None
      | Some a \<Rightarrow>
          if a < push_count n then do {
            (s, c) \<leftarrow> index (nw_slaves n) (unat a);
            s \<leftarrow> s;
            let (s', c') = f (s, c);
            slaves \<leftarrow> store (nw_slaves n) (unat a) (Some s', c');
            ret (Some (n\<lparr>nw_slaves := slaves\<rparr>)) }
          else ret None)"

definition slaves_list :: "Network \<Rightarrow> (Slave \<times> SlaveConfig) list" where
  "slaves_list n =
     List.map_filter (\<lambda>(s, c). map_option (\<lambda>s. (s, c)) s) (nw_slaves n)"

section \<open>The order in which ports receive a frame\<close>

record RecievedPort =
  rp_slave_position :: u16
  rp_port :: u8

record RecievedPorts =
  rp_slaves :: "(Slave option \<times> SlaveConfig) list"
  rp_position :: u16
  rp_length :: nat

definition set_current_port :: "u8 \<Rightarrow> Slave \<Rightarrow> Slave" where
  "set_current_port p s = s\<lparr>dc_context := (dc_context s)\<lparr>current_port := p\<rparr>\<rparr>"

definition first_port :: "Slave \<Rightarrow> nat" where
  "first_port s = (case position (\<lambda>p. p) (si_linked_ports (sl_info s)) of Some p \<Rightarrow> p | None \<Rightarrow> 4)"

definition RecievedPorts_new :: "(Slave option \<times> SlaveConfig) list \<Rightarrow> RecievedPorts" where
  "RecievedPorts_new slaves =
     \<lparr>rp_slaves = map (\<lambda>(s, c). (map_option (\<lambda>s. set_current_port (of_nat (first_port s)) s) s, c)) slaves,
      rp_position = 0, rp_length = length (filter (\<lambda>(s, c). s \<noteq> None) slaves)\<rparr>"

definition next_linked_port :: "bool list \<Rightarrow> u8 \<Rightarrow> nat option" where
  "next_linked_port linked_ports current =
     position (\<lambda>(port_num, has_port). has_port \<and> unat current < port_num) (enumerate 0 linked_ports)"

definition RecievedPorts_next :: "RecievedPorts \<Rightarrow> (RecievedPort option \<times> RecievedPorts) rust" where
  "RecievedPorts_next r = do {
     let pos = rp_position r;
     (s, c) \<leftarrow> index (rp_slaves r) (unat pos);
     s \<leftarrow> s;
     let current = current_port (dc_context s);
     (p, pos') \<leftarrow>
       (case next_linked_port (si_linked_ports (sl_info s)) current of
          Some next_port \<Rightarrow> do { q \<leftarrow> uadd pos 1; ret (of_nat next_port, q) }
        | None \<Rightarrow> ret (4, if 1 \<le> pos then pos - 1 else pos));
     slaves \<leftarrow> store (rp_slaves r) (unat pos) (Some (set_current_port p s), c);
     ret (if unat pos < rp_length r \<and> current < 4
          then Some \<lparr>rp_slave_position = pos, rp_port = current\<rparr> else None,
          r\<lparr>rp_slaves := slaves, rp_position := pos'\<rparr>) }"

section \<open>Properties\<close>

text \<open>
  The conversion of the state field reads every AL state back from its number, and nothing
  else: each other number, in particular the or of the states of several slaves, is
  \<open>InvalidOrMixed\<close>.
\<close>

lemma AlState_from_iff:
  "AlState_from v = s \<longleftrightarrow> v = AlState_repr s \<or> s = InvalidOrMixed \<and> v \<notin> {1, 2, 3, 4, 8}"
  by (cases s) (auto simp: AlState_from_def)

text \<open>
  The mailbox counter of a slave, once at most 7, stays in 1 to 7 from the first increment
  on, consecutive messages carry different counts, and nothing else of the slave changes;
  the addition does not overflow.
\<close>

lemma increment_mb_count_spec:
  assumes "sl_mailbox_count s \<le> 7"
  shows "\<exists>c. increment_mb_count s = Some (c, s\<lparr>sl_mailbox_count := c\<rparr>) \<and> 1 \<le> c \<and> c \<le> 7 \<and>
    c \<noteq> sl_mailbox_count s \<and>
    c = of_nat (unat (sl_mailbox_count s) mod 7 + 1)"
proof -
  define n where "n = unat (sl_mailbox_count s)"
  have w: "sl_mailbox_count s = of_nat n" by (simp add: n_def)
  have "n \<le> 7" using assms by (simp add: n_def word_le_nat_alt)
  then have "n = 0 \<or> n = 1 \<or> n = 2 \<or> n = 3 \<or> n = 4 \<or> n = 5 \<or> n = 6 \<or> n = 7" by arith
  then show ?thesis
    by (elim disjE) (simp_all add: increment_mb_count_def w uadd_def)
qed

text \<open>A network into which the slaves \<open>ss\<close> have been pushed.\<close>

definition net_of :: "Slave list \<Rightarrow> SlaveConfig list \<Rightarrow> Network" where
  "net_of ss cs =
     \<lparr>nw_slaves = map2 (\<lambda>s c. (Some s, c)) ss cs @ map (Pair None) (drop (length ss) cs),
      push_count = of_nat (length ss)\<rparr>"

definition push_all :: "Network \<Rightarrow> Slave list \<Rightarrow> Network rust" where
  "push_all = for_each (\<lambda>n s. do { (r, n) \<leftarrow> push_slave n s; if r = Inr () then Some n else None })"

lemma clear_net_of: "Network_clear (Network_new buf) = net_of [] (map snd buf)"
  by (simp add: Network_clear_def Network_new_def net_of_def case_prod_unfold)

lemma map2_snoc:
  "length xs < length ys \<Longrightarrow> map2 f (xs @ [x]) ys = map2 f xs ys @ [f x (ys ! length xs)]"
proof (induction xs arbitrary: ys)
  case Nil
  then show ?case by (cases ys) auto
next
  case (Cons a xs)
  then show ?case by (cases ys) auto
qed

lemma push_net_of:
  assumes "length ss < 65535"
  shows "push_slave (net_of ss cs) s =
    (if length ss < length cs then Some (Inr (), net_of (ss @ [s]) cs) else Some (Inl s, net_of ss cs))"
proof -
  have u: "unat (of_nat (length ss) :: u16) = length ss" using assms by (simp add: unat_of_nat)
  then have add: "uadd (of_nat (length ss) :: u16) 1 = Some (of_nat (Suc (length ss)))"
    using assms by (intro uadd_of_nat) simp_all
  show ?thesis
  proof (cases "length ss < length cs")
    case True
    have nw: "nw_slaves (net_of ss cs) = map2 (\<lambda>s c. (Some s, c)) ss cs @
        (None, cs ! length ss) # map (Pair None) (drop (Suc (length ss)) cs)"
      unfolding net_of_def Network.simps Cons_nth_drop_Suc [OF True, symmetric] by simp
    have "map2 (\<lambda>s c. (Some s, c)) (ss @ [s]) cs =
        map2 (\<lambda>s c. (Some s, c)) ss cs @ [(Some s, cs ! length ss)]"
      using True by (rule map2_snoc)
    then have "net_of (ss @ [s]) cs = \<lparr>nw_slaves = map2 (\<lambda>s c. (Some s, c)) ss cs @
        (Some s, cs ! length ss) # map (Pair None) (drop (Suc (length ss)) cs),
        push_count = of_nat (Suc (length ss))\<rparr>"
      by (simp add: net_of_def)
    moreover have "push_count (net_of ss cs) = of_nat (length ss)" by (simp add: net_of_def)
    moreover have "length (map2 (\<lambda>s c. (Some s, c)) ss cs) = length ss" using True by simp
    ultimately show ?thesis
      using True add u unfolding push_slave_def nw
      by (simp add: index_def store_def nth_append list_update_append)
  next
    case False
    then have "length (nw_slaves (net_of ss cs)) = length cs" by (simp add: net_of_def)
    with False u show ?thesis by (simp add: push_slave_def net_of_def)
  qed
qed

lemma push_all_net_of:
  "length (ss @ ts) \<le> length cs \<Longrightarrow> length (ss @ ts) \<le> 65535 \<Longrightarrow>
     push_all (net_of ss cs) ts = Some (net_of (ss @ ts) cs)"
  by (induction ts arbitrary: ss) (auto simp: push_all_def push_net_of)

lemma network_slave_net_of:
  assumes "length ss \<le> length cs" and "length ss \<le> 65535" and a: "slave_index addr = Some a"
  shows "network_slave (net_of ss cs) addr =
    Some (if unat a < length ss then Some (ss ! unat a, cs ! unat a) else None)"
  using assms by (simp add: network_slave_def net_of_def word_less_nat_alt unat_of_nat index_def
    nth_append)

text \<open>
  Slaves are found again. Pushing slaves into a cleared network whose buffer has room for them
  succeeds; afterwards the number of slaves is right and each slave is found by its position and
  by its station address, which is the position plus one, with the configuration of its place;
  any other address gives \<open>None\<close>, without a panic.
\<close>

lemma network_push_lookup:
  assumes len: "length ss \<le> length buf" "length ss \<le> 65535"
  shows "\<exists>n. push_all (Network_clear (Network_new buf)) ss = Some n \<and> unat (num_slaves n) = length ss \<and>
    (\<forall>p. network_slave n (SlavePosition p) =
       Some (if unat p < length ss then Some (ss ! unat p, snd (buf ! unat p)) else None)) \<and>
    (\<forall>p. p \<noteq> 0xFFFF \<longrightarrow> network_slave n (StationAddress (p + 1)) = network_slave n (SlavePosition p)) \<and>
    network_slave n (StationAddress 0) = Some None"
proof -
  let ?n = "net_of ss (map snd buf)"
  have "push_all (Network_clear (Network_new buf)) ss = Some ?n"
    using push_all_net_of [of "[]" ss "map snd buf"] len by (simp add: clear_net_of)
  moreover have "unat (num_slaves ?n) = length ss"
    using len(2) by (simp add: num_slaves_def net_of_def unat_of_nat)
  moreover have "network_slave ?n (SlavePosition p) =
      Some (if unat p < length ss then Some (ss ! unat p, snd (buf ! unat p)) else None)" for p
    using network_slave_net_of [of ss "map snd buf" "SlavePosition p" p] len
    by (simp add: slave_index_def)
  moreover have "network_slave ?n (StationAddress (p + 1)) = network_slave ?n (SlavePosition p)"
    if "p \<noteq> 0xFFFF" for p
  proof -
    have "(- 1 :: u16) = 0xFFFF" by simp
    then have "p + 1 \<noteq> 0" using that by (metis add_eq_0_iff2)
    then show ?thesis by (simp add: network_slave_def slave_index_def)
  qed
  moreover have "network_slave ?n (StationAddress 0) = Some None"
    by (simp add: network_slave_def slave_index_def)
  ultimately show ?thesis by blast
qed

end
