(* ===== verification/Cyclic_Task.thy ===== *)
theory Cyclic_Task
  imports Socket_Interface
begin

text \<open>
  \<open>src/src/task/error.rs\<close> and the driver of \<open>src/src/task/mod.rs\<close>: the trait \<open>CyclicTask\<close> with its
  provided method \<open>process_one_step\<close>, and \<open>block_on\<close>, which polls the interface until a task is
  done.

  A task is its three operations (\<open>cyclic_task_ops\<close>). What the driver relies on is the contract of
  the locale \<open>cyclic_task\<close>: from a state that satisfies the invariant of the task and with a buffer
  of the required size, the next PDU is produced without a panic, fits into the buffer and tells
  the length of the data the task expects back; data of that length is processed without a panic.
  Every task of the library interprets it. \<open>terminating_task\<close> adds that a task that is not busy asks
  for nothing more.

  \<open>block_on\<close> may run forever, so it is a partial function: \<open>None\<close> is a call that does not return,
  \<open>Some None\<close> one that panics.
\<close>

record UnexpectedWkc =
  wkc_expected :: u16
  wkc_recieved :: u16

datatype 'e TaskError =
    UnexpectedCommand
  | UnexpectedWkc UnexpectedWkc
  | Interface PhyError
  | TaskSpecific 'e
  | Timeout

definition unexpected_wkc :: "u16 \<Rightarrow> u16 \<Rightarrow> 'e TaskError" where
  "unexpected_wkc expected recieved =
     UnexpectedWkc \<lparr>wkc_expected = expected, wkc_recieved = recieved\<rparr>"

section \<open>Tasks\<close>

record 't cyclic_task_ops =
  ct_next_pdu :: "'t \<Rightarrow> bytes \<Rightarrow> ((Command \<times> nat) option \<times> 't \<times> bytes) rust"
  ct_recieve_and_process :: "'t \<Rightarrow> Pdu \<Rightarrow> u64 \<Rightarrow> 't rust"
  ct_is_busy :: "'t \<Rightarrow> bool"

definition process_one_step ::
    "'t cyclic_task_ops \<Rightarrow> 't \<Rightarrow> PduSocket \<Rightarrow> u64 \<Rightarrow> ('t \<times> PduSocket) rust" where
  "process_one_step ops t socket sys_time = do {
     recv_data \<leftarrow> get_recieved_pdu socket;
     t \<leftarrow> (case recv_data of
            Some recv_data \<Rightarrow> ct_recieve_and_process ops t recv_data sys_time
          | None \<Rightarrow> ret t);
     (r, t, buf) \<leftarrow> ct_next_pdu ops t (data_buf socket);
     socket \<leftarrow> set_pdu (\<lambda>_. ret (r, buf)) socket;
     ret (t, socket) }"

partial_function (option) block_on_loop ::
    "crates \<Rightarrow> 'd device \<Rightarrow> 't cyclic_task_ops \<Rightarrow> nat \<Rightarrow> 'd SocketInterface \<Rightarrow> 't \<Rightarrow> u64 \<Rightarrow>
       (('e TaskError + unit) \<times> 'd SocketInterface \<times> 't) rust option" where
  "block_on_loop X dev ops handle si t count =
     (case poll_tx_rx X dev si of
        None \<Rightarrow> Some panic
      | Some (r, si) \<Rightarrow>
          if r = Inr False \<or> r = Inl TxNotAvailable \<or> r = Inl RxNotAvailable
          then block_on_loop X dev ops handle si t count
          else case r of
            Inl e \<Rightarrow> Some (ret (Inl (Interface e), si, t))
          | Inr _ \<Rightarrow>
              (case get_socket si handle of
                 None \<Rightarrow> Some panic
               | Some socket \<Rightarrow>
                   (case process_one_step ops t socket count of
                      None \<Rightarrow> Some panic
                    | Some (t, socket) \<Rightarrow>
                        (case get_socket_mut si handle socket of
                           None \<Rightarrow> Some panic
                         | Some si \<Rightarrow>
                             if \<not> ct_is_busy ops t then Some (ret (Inr (), si, t))
                             else if 100000 < count + 1 then Some (ret (Inl Timeout, si, t))
                             else block_on_loop X dev ops handle si t (count + 1)))))"

definition block_on ::
    "crates \<Rightarrow> 'd device \<Rightarrow> 't cyclic_task_ops \<Rightarrow> nat \<Rightarrow> 'd SocketInterface \<Rightarrow> 't \<Rightarrow>
       (('e TaskError + unit) \<times> 'd SocketInterface \<times> 't) rust option" where
  "block_on X dev ops handle si t = block_on_loop X dev ops handle si t 0"

text \<open>Code that calls \<open>block_on\<close>: it may not return, may panic, or goes on with the result.\<close>

type_synonym 'a run = "'a rust option"

definition and_then :: "'a run \<Rightarrow> ('a \<Rightarrow> 'b run) \<Rightarrow> 'b run" where
  "and_then m f = (case m of None \<Rightarrow> None | Some None \<Rightarrow> Some None | Some (Some x) \<Rightarrow> f x)"

definition socket_fits :: "PduSocket \<Rightarrow> bool" where
  "socket_fits s \<longleftrightarrow> (sk_command s \<noteq> None \<longrightarrow> 0 < sk_data_length s \<and> sk_data_length s \<le> length (data_buf s))"

section \<open>The contract of a task\<close>

text \<open>
  The general contract. \<open>I\<close> holds of the task after it has taken an answer, \<open>J\<close> after it has made its
  next request. A request can always be made. An answer that is \<open>allowed\<close> keeps the invariants, unless the
  task panics at it; where the task is \<open>safe\<close>, it does not.
\<close>

locale answered_task =
  fixes ops :: "'t cyclic_task_ops" and J :: "'t \<Rightarrow> bool" and I :: "'t \<Rightarrow> bool" and need :: "'t \<Rightarrow> nat"
    and expects :: "'t \<Rightarrow> nat" and allowed :: "'t \<Rightarrow> Pdu \<Rightarrow> bool" and safe :: bool
  assumes request_taken: "J t \<Longrightarrow> I t"
    and request_ok: "I t \<Longrightarrow> need t \<le> length buf \<Longrightarrow>
      \<exists>r t' buf'. ct_next_pdu ops t buf = Some (r, t', buf') \<and> J t' \<and> need t' \<le> need t \<and>
        length buf' = length buf \<and> (\<forall>c n. r = Some (c, n) \<longrightarrow> 0 < n \<and> n \<le> length buf \<and> expects t' = n)"
    and answer_ok: "J t \<Longrightarrow> allowed t p \<Longrightarrow> length (pdu_data p) = expects t \<Longrightarrow> safe \<Longrightarrow>
      ct_recieve_and_process ops t p time \<noteq> None"
    and answer_keeps: "J t \<Longrightarrow> allowed t p \<Longrightarrow> length (pdu_data p) = expects t \<Longrightarrow>
      ct_recieve_and_process ops t p time = Some t' \<Longrightarrow> I t' \<and> need t' \<le> need t"
begin

text \<open>The socket holds a request of the task, or what came back for it.\<close>

definition serves :: "'t \<Rightarrow> PduSocket \<Rightarrow> bool" where
  "serves t s \<longleftrightarrow> need t \<le> length (data_buf s) \<and>
     (sk_command s \<noteq> None \<longrightarrow> 0 < sk_data_length s \<and> sk_data_length s \<le> length (data_buf s) \<and>
        sk_data_length s = expects t)"

lemma serves_fits: "serves t s \<Longrightarrow> socket_fits s"
  by (auto simp: serves_def socket_fits_def)

lemma step_outcome:
  assumes J: "J t" and s: "serves t s"
    and al: "\<And>p. get_recieved_pdu s = Some (Some p) \<Longrightarrow> allowed t p"
  obtains (panics) "process_one_step ops t s time = None" "\<not> safe"
  | (steps) t' s' where "process_one_step ops t s time = Some (t', s')" "J t'" "serves t' s'"
      "need t' \<le> need t" "\<not> recv_flag s'" "length (data_buf s') = length (data_buf s)"
proof -
  have "\<exists>r. get_recieved_pdu s = Some r \<and> (\<forall>p. r = Some p \<longrightarrow> length (pdu_data p) = expects t)"
    using s by (auto simp: get_recieved_pdu_def serves_def slice_to_def split: option.splits)
  then obtain r where r: "get_recieved_pdu s = Some r"
    "\<And>p. r = Some p \<Longrightarrow> length (pdu_data p) = expects t" by blast
  have al': "r = Some p \<Longrightarrow> allowed t p" for p using al r(1) by simp
  show thesis
  proof (cases "case r of Some p \<Rightarrow> ct_recieve_and_process ops t p time | None \<Rightarrow> Some t")
    case None
    then obtain p where p: "r = Some p" "ct_recieve_and_process ops t p time = None"
      by (cases r) auto
    then have "\<not> safe" using answer_ok [OF J al' r(2)] by blast
    with p r(1) show thesis by (intro panics) (simp_all add: process_one_step_def)
  next
    case t1: (Some t1)
    then have I: "I t1" "need t1 \<le> need t"
      using answer_keeps [OF J al' r(2)] request_taken [OF J] by (auto split: option.splits)
    have "need t1 \<le> length (data_buf s)" using I(2) s by (simp add: serves_def)
    then obtain q t' buf' where n: "ct_next_pdu ops t1 (data_buf s) = Some (q, t', buf')" "J t'"
      "need t' \<le> need t1" "length buf' = length (data_buf s)"
      "\<And>c n. q = Some (c, n) \<Longrightarrow> 0 < n \<and> n \<le> length (data_buf s) \<and> expects t' = n"
      using request_ok [OF I(1)] by blast
    have "\<exists>s'. process_one_step ops t s time = Some (t', s') \<and> serves t' s' \<and> \<not> recv_flag s' \<and>
        length (data_buf s') = length (data_buf s)"
      using r(1) t1 I(2) n s by (cases q) (auto simp: process_one_step_def set_pdu_def serves_def)
    with n(2,3) I(2) show thesis using steps le_trans by blast
  qed
qed

end

text \<open>The contract of a task that has one invariant and panics at no answer it accepts.\<close>

locale cyclic_task =
  fixes ops :: "'t cyclic_task_ops" and inv :: "'t \<Rightarrow> bool" and need :: "'t \<Rightarrow> nat"
    and expects :: "'t \<Rightarrow> nat" and accepts :: "'t \<Rightarrow> Pdu \<Rightarrow> bool"
  assumes next_ok: "inv t \<Longrightarrow> need t \<le> length buf \<Longrightarrow>
      \<exists>r t' buf'. ct_next_pdu ops t buf = Some (r, t', buf') \<and> inv t' \<and> need t' \<le> need t \<and>
        length buf' = length buf \<and> (\<forall>c n. r = Some (c, n) \<longrightarrow> 0 < n \<and> n \<le> length buf \<and> expects t' = n)"
    and recieve_ok: "inv t \<Longrightarrow> accepts t p \<Longrightarrow> length (pdu_data p) = expects t \<Longrightarrow>
      \<exists>t'. ct_recieve_and_process ops t p time = Some t' \<and> inv t' \<and> need t' \<le> need t"

sublocale cyclic_task \<subseteq> answered_task ops inv inv need expects accepts True
proof unfold_locales
  show "inv t \<Longrightarrow> accepts t p \<Longrightarrow> length (pdu_data p) = expects t \<Longrightarrow> True \<Longrightarrow>
      ct_recieve_and_process ops t p time \<noteq> None" for t p time
    using recieve_ok [of t p time] by auto
  show "inv t \<Longrightarrow> accepts t p \<Longrightarrow> length (pdu_data p) = expects t \<Longrightarrow>
      ct_recieve_and_process ops t p time = Some t' \<Longrightarrow> inv t' \<and> need t' \<le> need t" for t p time t'
    using recieve_ok [of t p time] by auto
qed (assumption | erule (1) next_ok)+

context cyclic_task
begin

lemma step_ok:
  assumes inv: "inv t" and s: "serves t s"
    and acc: "\<And>p. get_recieved_pdu s = Some (Some p) \<Longrightarrow> accepts t p"
  shows "\<exists>t' s'. process_one_step ops t s time = Some (t', s') \<and> inv t' \<and> serves t' s' \<and>
    need t' \<le> need t \<and> \<not> recv_flag s' \<and> length (data_buf s') = length (data_buf s)"
  by (rule step_outcome [OF inv s acc, of time]) auto

end

locale terminating_task = cyclic_task +
  assumes idle_next: "inv t \<Longrightarrow> \<not> ct_is_busy ops t \<Longrightarrow> need t \<le> length buf \<Longrightarrow>
    ct_next_pdu ops t buf = Some (None, t, buf)"

text \<open>
  What a task keeps whatever comes back: \<open>I\<close> after it has taken an answer, \<open>J\<close> after it has made its
  next request. A call of \<open>block_on\<close> that returns leaves the task in a state of \<open>J\<close>, on any network.
\<close>

locale task_invariant =
  fixes ops :: "'t cyclic_task_ops" and J :: "'t \<Rightarrow> bool" and I :: "'t \<Rightarrow> bool"
  assumes sent_taken: "J t \<Longrightarrow> I t"
    and next_keeps: "I t \<Longrightarrow> ct_next_pdu ops t buf = Some (r, t', buf') \<Longrightarrow> J t'"
    and recieve_keeps: "J t \<Longrightarrow> ct_recieve_and_process ops t p time = Some t' \<Longrightarrow> I t'"
begin

lemma step_keeps: "J t \<Longrightarrow> process_one_step ops t s time = Some (t', s') \<Longrightarrow> J t'"
  by (auto simp: process_one_step_def intro: next_keeps recieve_keeps sent_taken
    split: Option.bind_splits option.splits)

lemma block_on_keeps:
  assumes "block_on_loop X dev ops h si t count = Some (Some (r, si', t'))" and "J t"
  shows "J t' \<and> (r = Inr () \<longrightarrow> \<not> ct_is_busy ops t')"
proof -
  let ?P = "\<lambda>X dev ops' h si t count q. ops' = ops \<longrightarrow> J t \<longrightarrow>
    (\<forall>r si' t'. q = Some (r, si', t') \<longrightarrow> J t' \<and> (r = Inr () \<longrightarrow> \<not> ct_is_busy ops t'))"
  have "?P X dev ops h si t count (Some (r, si', t'))"
  proof (rule block_on_loop.raw_induct [where P = ?P, OF _ assms(1)])
    fix f X dev ops' h si t count q
    assume IH: "\<And>X dev ops' h si t count q. f X dev ops' h si t count = Some q \<Longrightarrow>
        ?P X dev ops' h si t count q"
      and body: "(case poll_tx_rx X dev si of
        None \<Rightarrow> Some panic
      | Some (r, si) \<Rightarrow>
          if r = Inr False \<or> r = Inl TxNotAvailable \<or> r = Inl RxNotAvailable
          then f X dev ops' h si t count
          else case r of
            Inl e \<Rightarrow> Some (ret (Inl (Interface e), si, t))
          | Inr _ \<Rightarrow>
              (case get_socket si h of
                 None \<Rightarrow> Some panic
               | Some socket \<Rightarrow>
                   (case process_one_step ops' t socket count of
                      None \<Rightarrow> Some panic
                    | Some (t, socket) \<Rightarrow>
                        (case get_socket_mut si h socket of
                           None \<Rightarrow> Some panic
                         | Some si \<Rightarrow>
                             if \<not> ct_is_busy ops' t then Some (ret (Inr (), si, t))
                             else if 100000 < count + 1 then Some (ret (Inl Timeout, si, t))
                             else f X dev ops' h si t (count + 1))))) = Some q"
    show "?P X dev ops' h si t count q"
      using body step_keeps [of t _ count] IH
      by (auto split: option.splits if_splits sum.splits)
  qed
  with assms(2) show ?thesis by blast
qed

end

section \<open>Driving a task\<close>

text \<open>Room for the sockets in one frame, whatever PDU each of them holds.\<close>

definition roomy :: "'d SocketInterface \<Rightarrow> PduSocket list \<Rightarrow> bool" where
  "roomy si ss \<longleftrightarrow> length ss \<le> 256 \<and>
     sum_list (map (\<lambda>s. 12 + length (data_buf s)) ss) \<le> pi_capacity (iface si) \<and>
     sum_list (map (\<lambda>s. 12 + length (data_buf s)) ss) < length (pi_buffer (iface si))"

lemma roomy_fits:
  assumes "roomy si ss" and "\<forall>s \<in> set ss. socket_fits s"
  shows "sum_list (map (\<lambda>s. 12 + data_length s) ss) \<le> pi_capacity (iface si)"
    and "sum_list (map (\<lambda>s. 12 + data_length s) ss) < length (pi_buffer (iface si))"
    and "\<forall>s \<in> set ss. socket_ok s"
proof -
  have "sum_list (map (\<lambda>s. 12 + data_length s) ss) \<le> sum_list (map (\<lambda>s. 12 + length (data_buf s)) ss)"
    using assms(2) by (intro sum_list_mono) (auto simp: data_length_def socket_fits_def)
  with assms(1) show "sum_list (map (\<lambda>s. 12 + data_length s) ss) \<le> pi_capacity (iface si)"
    "sum_list (map (\<lambda>s. 12 + data_length s) ss) < length (pi_buffer (iface si))"
    by (auto simp: roomy_def)
  show "\<forall>s \<in> set ss. socket_ok s"
    using assms(2) by (auto simp: socket_ok_def socket_fits_def pending_def)
qed

text \<open>
  One poll on an answering network, in the terms a task sees. The answers may differ from poll to
  poll: \<open>slaves d c\<close> is what comes back for the PDU \<open>c\<close> when the device is in state \<open>d\<close>.
\<close>

definition answered :: "crates \<Rightarrow> (bytes \<Rightarrow> bytes) \<Rightarrow> nat \<Rightarrow> PduSocket \<Rightarrow> PduSocket \<Rightarrow> bool" where
  "answered X slaves h s s' \<longleftrightarrow>
     (if pending s
      then \<exists>c. wf_chunk c \<and> pdu_view c = rq_view (socket_request (h, s)) \<and>
        s' = recieve (taken s) (chunk_pdu X (slaves c))
      else s' = s)"

lemma answered_fits:
  "answered X slaves h s s' \<Longrightarrow> socket_fits s \<Longrightarrow>
     socket_fits s' \<and> length (data_buf s') = length (data_buf s) \<and> sk_data_length s' = sk_data_length s \<and>
     (sk_command s' = None \<longrightarrow> sk_command s = None) \<and> (sk_command s = None \<longrightarrow> s' = s)"
  by (auto simp: answered_def socket_fits_def recieve_def taken_def pending_def split: if_splits)

text \<open>What the task sees of the answer.\<close>

lemma answered_pdu:
  assumes an: "answered X slaves h s s1" and s: "pending s" "socket_fits s"
    and net: "answers dev slaves d"
  obtains c where "wf_chunk c" "pdu_view c = rq_view (socket_request (h, s))"
    "get_recieved_pdu s1 = Some (Some (chunk_pdu X (slaves c)))"
    "length (pv_data (pdu_view (slaves c))) = sk_data_length s"
    "data_buf s1 = pv_data (pdu_view (slaves c)) @ drop (sk_data_length s) (data_buf s)"
    "sk_data_length s1 = sk_data_length s"
proof -
  obtain c where c: "wf_chunk c" "pdu_view c = rq_view (socket_request (h, s))"
    "s1 = recieve (taken s) (chunk_pdu X (slaves c))"
    using an s(1) by (auto simp: answered_def)
  have n: "sk_data_length s \<le> length (data_buf s)"
    using s by (auto simp: socket_fits_def pending_def)
  have "wf_chunk (slaves c)" "length (slaves c) = length c"
    using net c(1) by (auto simp: answers_def)
  moreover have "length (pv_data (pdu_view c)) = sk_data_length s"
    using c(2) n by (simp add: rq_view_def socket_request_def Let_def)
  ultimately have len: "length (pv_data (pdu_view (slaves c))) = sk_data_length s"
    using c(1) wf_chunk_data [of c] wf_chunk_data [of "slaves c"] by (simp add: wf_chunk_def)
  show thesis
    using s(1) n len
    by (intro that [OF c(1,2) _ len])
      (simp_all add: c(3) recieve_def taken_def get_recieved_pdu_def chunk_pdu_def Let_def copy_zip_def
        slice_to_def)
qed

lemma answered_waiting: "answered X slaves h s s1 \<Longrightarrow> \<not> pending s \<Longrightarrow> s1 = s"
  by (simp add: answered_def)

lemma poll_answered:
  assumes "crates_laws X" and "idle (iface si)" and "answers dev slaves (ethdev (iface si))"
    and "dense si ss" and "roomy si ss" and "\<forall>s \<in> set ss. socket_fits s"
  shows "\<exists>si' ss'. poll_tx_rx X dev si = Some (Inr True, si') \<and> idle (iface si') \<and>
    dense si' ss' \<and> roomy si' ss' \<and> length ss' = length ss \<and> (\<forall>s \<in> set ss'. socket_fits s) \<and>
    (\<forall>j < length ss. answered X slaves j (ss ! j) (ss' ! j))"
proof -
  have few: "length ss \<le> 256" using assms(5) by (simp add: roomy_def)
  obtain si' ss' where si': "poll_tx_rx X dev si = Some (Inr True, si')" "idle (iface si')"
    "dense si' ss'" "length ss' = length ss" "pi_capacity (iface si') = pi_capacity (iface si)"
    "length (pi_buffer (iface si')) = length (pi_buffer (iface si))"
    "\<forall>j < length ss. answered X slaves j (ss ! j) (ss' ! j)"
    using poll_dense [OF assms(1,2,3,4) few roomy_fits(3,1,2) [OF assms(5,6)]]
    unfolding answered_def by blast
  have each: "socket_fits (ss' ! j) \<and> length (data_buf (ss' ! j)) = length (data_buf (ss ! j))"
    if "j < length ss" for j
    using answered_fits si'(7) assms(6) that by (metis nth_mem)
  have "map (\<lambda>s. 12 + length (data_buf s)) ss' = map (\<lambda>s. 12 + length (data_buf s)) ss"
    using each si'(4) by (intro nth_equalityI) auto
  then have "roomy si' ss'" using assms(5) si'(4,5,6) by (simp add: roomy_def)
  moreover have "\<forall>s \<in> set ss'. socket_fits s" using each si'(4) by (metis in_set_conv_nth)
  ultimately show ?thesis using si' by blast
qed

lemma roomy_update:
  assumes "roomy si ss" and "h < length ss" and "length (data_buf s) = length (data_buf (ss ! h))"
    and "iface si' = iface si"
  shows "roomy si' (ss[h := s])"
proof -
  have "map (\<lambda>s. 12 + length (data_buf s)) (ss[h := s]) = map (\<lambda>s. 12 + length (data_buf s)) ss"
    using assms(2,3) by (intro nth_equalityI) (auto simp: nth_list_update)
  with assms(1,4) show ?thesis by (simp add: roomy_def del: map_update)
qed

definition ready :: "'d SocketInterface \<Rightarrow> PduSocket list \<Rightarrow> nat \<Rightarrow> bool" where
  "ready si ss h \<longleftrightarrow> idle (iface si) \<and> dense si ss \<and> roomy si ss \<and>
     (\<forall>s \<in> set ss. socket_fits s) \<and> h < length ss"

lemma ready_socket: "ready si ss h \<Longrightarrow> get_socket si h = Some (ss ! h)"
  by (simp add: ready_def dense_def)

lemma ready_fits: "ready si ss h \<Longrightarrow> socket_fits (ss ! h)"
  by (simp add: ready_def)

text \<open>The sockets other than \<open>h\<close> that hold no request are left alone.\<close>

definition others_kept :: "nat \<Rightarrow> PduSocket list \<Rightarrow> PduSocket list \<Rightarrow> bool" where
  "others_kept h ss ss' \<longleftrightarrow> length ss' = length ss \<and>
     (\<forall>j < length ss. j \<noteq> h \<longrightarrow> \<not> pending (ss ! j) \<longrightarrow> ss' ! j = ss ! j)"

lemma others_kept_trans: "others_kept h ss ss' \<Longrightarrow> others_kept h ss' ss'' \<Longrightarrow> others_kept h ss ss''"
  by (simp add: others_kept_def)

text \<open>
  One iteration of \<open>block_on\<close> on an answering network: the socket \<open>s1\<close> with the answer, and what
  the iteration does with the outcome of the step.
\<close>

definition iterates ::
    "('d SocketInterface \<Rightarrow> 't \<Rightarrow> u64 \<Rightarrow> (('e TaskError + unit) \<times> 'd SocketInterface \<times> 't) run) \<Rightarrow>
       't cyclic_task_ops \<Rightarrow> nat \<Rightarrow> 'd SocketInterface \<Rightarrow> 't \<Rightarrow> u64 \<Rightarrow> PduSocket list \<Rightarrow> PduSocket \<Rightarrow> bool" where
  "iterates loop ops h si t count ss s1 \<longleftrightarrow>
     (process_one_step ops t s1 count = None \<longrightarrow> loop si t count = Some None) \<and>
     (\<forall>t2 s2. process_one_step ops t s1 count = Some (t2, s2) \<longrightarrow> socket_fits s2 \<longrightarrow>
        length (data_buf s2) = length (data_buf s1) \<longrightarrow>
        (\<exists>si2 ss2. ready si2 ss2 h \<and> ss2 ! h = s2 \<and> others_kept h ss ss2 \<and>
           loop si t count =
             (if \<not> ct_is_busy ops t2 then Some (Some (Inr (), si2, t2))
              else if 100000 < count + 1 then Some (Some (Inl Timeout, si2, t2))
              else loop si2 t2 (count + 1))))"

lemma iteratesD:
  assumes "iterates loop ops h si t count ss s1"
    and "process_one_step ops t s1 count = Some (t2, s2)" and "socket_fits s2"
    and "length (data_buf s2) = length (data_buf s1)"
  obtains si2 ss2 where "ready si2 ss2 h" "ss2 ! h = s2" "others_kept h ss ss2"
    "loop si t count =
       (if \<not> ct_is_busy ops t2 then Some (Some (Inr (), si2, t2))
        else if 100000 < count + 1 then Some (Some (Inl Timeout, si2, t2))
        else loop si2 t2 (count + 1))"
  using assms unfolding iterates_def by meson

lemma iterates_busy:
  assumes "iterates loop ops h si t count ss s1"
    and "process_one_step ops t s1 count = Some (t2, s2)" and "socket_fits s2"
    and "length (data_buf s2) = length (data_buf s1)"
    and "ct_is_busy ops t2" and "\<not> 100000 < count + 1"
  obtains si2 ss2 where "ready si2 ss2 h" "ss2 ! h = s2" "loop si t count = loop si2 t2 (count + 1)"
  by (rule iteratesD [OF assms(1-4)]) (use assms(5,6) that in simp)

lemma iterates_done:
  assumes "iterates loop ops h si t count ss s1"
    and "process_one_step ops t s1 count = Some (t2, s2)" and "socket_fits s2"
    and "length (data_buf s2) = length (data_buf s1)"
    and "\<not> ct_is_busy ops t2"
  obtains si2 ss2 where "ready si2 ss2 h" "ss2 ! h = s2" "loop si t count = Some (Some (Inr (), si2, t2))"
  by (rule iteratesD [OF assms(1-4)]) (use assms(5) that in simp)

lemma block_on_iterate:
  assumes X: "crates_laws X" and net: "\<And>d. answers dev (slaves d) d" and rd: "ready si ss h"
  obtains s1 where "answered X (slaves (ethdev (iface si))) h (ss ! h) s1"
    and "iterates (block_on_loop X dev ops h) ops h si t count ss s1"
proof -
  have r: "idle (iface si)" "dense si ss" "roomy si ss" "\<forall>s \<in> set ss. socket_fits s" "h < length ss"
    using rd by (simp_all add: ready_def)
  obtain si1 ss1 where poll: "poll_tx_rx X dev si = Some (Inr True, si1)" "idle (iface si1)"
    "dense si1 ss1" "roomy si1 ss1" "length ss1 = length ss" "\<forall>s \<in> set ss1. socket_fits s"
    "\<forall>j < length ss. answered X (slaves (ethdev (iface si))) j (ss ! j) (ss1 ! j)"
    using poll_answered [OF X r(1) net r(2,3,4)] by blast
  have h: "h < length ss1" using r(5) poll(5) by simp
  have get: "get_socket si1 h = Some (ss1 ! h)" using poll(3) h by (simp add: dense_def)
  have "iterates (block_on_loop X dev ops h) ops h si t count ss (ss1 ! h)"
    unfolding iterates_def
  proof (intro conjI allI impI)
    assume "process_one_step ops t (ss1 ! h) count = None"
    then show "block_on_loop X dev ops h si t count = Some None"
      by (subst block_on_loop.simps) (simp add: poll(1) get)
  next
    fix t2 s2
    assume st: "process_one_step ops t (ss1 ! h) count = Some (t2, s2)" "socket_fits s2"
      "length (data_buf s2) = length (data_buf (ss1 ! h))"
    obtain si2 where si2: "get_socket_mut si1 h s2 = Some si2" "dense si2 (ss1[h := s2])"
      "iface si2 = iface si1"
      using dense_mut [OF poll(3) h] by blast
    have "roomy si2 (ss1[h := s2])" using roomy_update [OF poll(4) h st(3)] si2(3) by simp
    moreover have "\<forall>s \<in> set (ss1[h := s2]). socket_fits s"
      using poll(6) st(2) set_update_subset_insert [of ss1 h s2] by auto
    ultimately have "ready si2 (ss1[h := s2]) h"
      using poll(2) si2(2,3) h by (simp add: ready_def)
    moreover have "block_on_loop X dev ops h si t count =
             (if \<not> ct_is_busy ops t2 then Some (Some (Inr (), si2, t2))
              else if 100000 < count + 1 then Some (Some (Inl Timeout, si2, t2))
              else block_on_loop X dev ops h si2 t2 (count + 1))"
      by (subst block_on_loop.simps) (simp add: poll(1) get st(1) si2(1))
    moreover have "others_kept h ss (ss1[h := s2])"
      using poll(5,7) answered_waiting by (auto simp: others_kept_def)
    ultimately show "\<exists>si2 ss2. ready si2 ss2 h \<and> ss2 ! h = s2 \<and> others_kept h ss ss2 \<and>
        block_on_loop X dev ops h si t count =
             (if \<not> ct_is_busy ops t2 then Some (Some (Inr (), si2, t2))
              else if 100000 < count + 1 then Some (Some (Inl Timeout, si2, t2))
              else block_on_loop X dev ops h si2 t2 (count + 1))"
      using h poll(5) by (intro exI [of _ si2] exI [of _ "ss1[h := s2]"]) simp
  qed
  with poll(7) r(5) that show thesis by blast
qed

context answered_task
begin

text \<open>
  On a network that answers, and answers as allowed, \<open>block_on\<close> ends: the task is done, the count of
  iterations has run out, or the task, when it is not safe, has panicked at an answer.
\<close>

lemma block_on_ends:
  fixes si :: "'d SocketInterface"
  assumes X: "crates_laws X" and net: "\<And>d. answers dev (slaves d) d"
    and al: "\<And>t d c. J t \<Longrightarrow> wf_chunk c \<Longrightarrow> pv_wkc (pdu_view c) = 0 \<Longrightarrow>
      allowed t (chunk_pdu X (slaves d c))"
    and "J t" and "ready si ss h" and "serves t (ss ! h)" and "count \<le> 100000"
    and "\<not> recv_flag (ss ! h)"
  shows "\<exists>q. block_on_loop X dev ops h si t count =
      (Some q :: (('e TaskError + unit) \<times> 'd SocketInterface \<times> 't) run) \<and>
    (q = None \<longrightarrow> \<not> safe) \<and>
    (\<forall>r si' t'. q = Some (r, si', t') \<longrightarrow> J t' \<and> (r = Inr () \<and> \<not> ct_is_busy ops t' \<or> r = Inl Timeout) \<and>
       (\<exists>ss'. ready si' ss' h \<and> others_kept h ss ss' \<and> length (data_buf (ss' ! h)) = length (data_buf (ss ! h))))"
  using assms(4-)
proof (induction "100000 - unat count" arbitrary: si ss t count rule: less_induct)
  case less
  obtain s1 where an: "answered X (slaves (ethdev (iface si))) h (ss ! h) s1"
    and it: "iterates (block_on_loop X dev ops h ::
      'd SocketInterface \<Rightarrow> 't \<Rightarrow> u64 \<Rightarrow> (('e TaskError + unit) \<times> 'd SocketInterface \<times> 't) run)
      ops h si t count ss s1"
    by (rule block_on_iterate [OF X net less.prems(2)])
  have sv: "serves t s1"
    using answered_fits [OF an] less.prems(3) serves_fits [OF less.prems(3)]
    by (auto simp: serves_def socket_fits_def)
  have alw: "allowed t p" if "get_recieved_pdu s1 = Some (Some p)" for p
  proof (cases "pending (ss ! h)")
    case True
    from answered_pdu [OF an True serves_fits [OF less.prems(3)] net] obtain c where
      c: "wf_chunk c" "pdu_view c = rq_view (socket_request (h, ss ! h))"
      "get_recieved_pdu s1 = Some (Some (chunk_pdu X (slaves (ethdev (iface si)) c)))" by blast
    have "allowed t (chunk_pdu X (slaves (ethdev (iface si)) c))"
      using c(2) by (intro al less.prems(1) c(1)) (simp add: rq_view_def)
    with that c(3) show ?thesis by simp
  next
    case False
    then show ?thesis
      using that answered_waiting [OF an] less.prems(5) by (simp add: get_recieved_pdu_def)
  qed
  show ?case
  proof (rule step_outcome [OF less.prems(1) sv alw, of count])
    assume panics: "process_one_step ops t s1 count = None" "\<not> safe"
    with it have "block_on_loop X dev ops h si t count =
        (Some None :: (('e TaskError + unit) \<times> 'd SocketInterface \<times> 't) run)"
      by (simp add: iterates_def)
    with panics(2) show ?thesis by auto
  next
    fix t2 s2
    assume steps: "process_one_step ops t s1 count = Some (t2, s2)" "J t2" "serves t2 s2" "need t2 \<le> need t"
      "\<not> recv_flag s2" "length (data_buf s2) = length (data_buf s1)"
    obtain si2 ss2 where s2: "ready si2 ss2 h" "ss2 ! h = s2" "others_kept h ss ss2"
      and loop: "block_on_loop X dev ops h si t count =
        (if \<not> ct_is_busy ops t2 then Some (Some (Inr (), si2, t2))
         else if 100000 < count + 1 then Some (Some (Inl Timeout, si2, t2))
         else block_on_loop X dev ops h si2 t2 (count + 1) ::
         (('e TaskError + unit) \<times> 'd SocketInterface \<times> 't) run)"
      by (rule iteratesD [OF it steps(1) serves_fits [OF steps(3)] steps(6)])
    have len: "length (data_buf s2) = length (data_buf (ss ! h))"
      using steps(6) answered_fits [OF an serves_fits [OF less.prems(3)]] by simp
    show ?thesis
    proof (cases "ct_is_busy ops t2 \<and> count < 100000")
      case True
      then have "unat count < 100000" by (simp add: word_less_nat_alt)
      then have cnt: "unat (count + 1) = unat count + 1" "count + 1 \<le> 100000"
        by (auto simp: word_le_nat_alt unat_word_ariths)
      with \<open>unat count < 100000\<close> have less2: "100000 - unat (count + 1) < 100000 - unat count" by linarith
      have "\<exists>q. block_on_loop X dev ops h si2 t2 (count + 1) =
          (Some q :: (('e TaskError + unit) \<times> 'd SocketInterface \<times> 't) run) \<and> (q = None \<longrightarrow> \<not> safe) \<and>
        (\<forall>r si' t'. q = Some (r, si', t') \<longrightarrow> J t' \<and> (r = Inr () \<and> \<not> ct_is_busy ops t' \<or> r = Inl Timeout) \<and>
          (\<exists>ss'. ready si' ss' h \<and> others_kept h ss2 ss' \<and> length (data_buf (ss' ! h)) = length (data_buf (ss2 ! h))))"
        by (rule less.hyps [OF _ steps(2) s2(1) _ cnt(2)]) (use less2 steps(3,5) s2(2) in simp_all)
      then show ?thesis
        unfolding loop using True leD [OF cnt(2)] others_kept_trans [OF s2(3)] len by (auto simp: s2(2)) blast+
    next
      case False
      then have "\<not> ct_is_busy ops t2 \<or> 100000 < count + 1"
        using less.prems(4) by (auto simp: word_less_nat_alt word_le_nat_alt unat_word_ariths not_less)
      then show ?thesis unfolding loop using steps(2) s2 len by auto
    qed
  qed
qed

lemma block_on_free_ends:
  fixes si :: "'d SocketInterface"
  assumes "crates_laws X" and "\<And>d. answers dev (slaves d) d"
    and "\<And>t d c. J t \<Longrightarrow> wf_chunk c \<Longrightarrow> pv_wkc (pdu_view c) = 0 \<Longrightarrow>
      allowed t (chunk_pdu X (slaves d c))"
    and "J t" and "ready si ss h" and "sk_command (ss ! h) = None" and "\<not> recv_flag (ss ! h)"
    and "need t \<le> length (data_buf (ss ! h))"
  shows "\<exists>q. block_on X dev ops h si t = (Some q :: (('e TaskError + unit) \<times> 'd SocketInterface \<times> 't) run) \<and>
    (q = None \<longrightarrow> \<not> safe) \<and>
    (\<forall>r si' t'. q = Some (r, si', t') \<longrightarrow> J t' \<and> (r = Inr () \<and> \<not> ct_is_busy ops t' \<or> r = Inl Timeout) \<and>
       (\<exists>ss'. ready si' ss' h \<and> others_kept h ss ss' \<and> length (data_buf (ss' ! h)) = length (data_buf (ss ! h))))"
proof -
  have "serves t (ss ! h)" using assms(6,8) by (simp add: serves_def)
  from block_on_ends [OF assms(1-5) this word_zero_le assms(7)] show ?thesis unfolding block_on_def .
qed

end

context cyclic_task
begin

lemma block_on_free:
  fixes si :: "'d SocketInterface"
  assumes "crates_laws X" and "\<And>d. answers dev (slaves d) d"
    and "\<And>t d c. inv t \<Longrightarrow> wf_chunk c \<Longrightarrow> pv_wkc (pdu_view c) = 0 \<Longrightarrow>
      accepts t (chunk_pdu X (slaves d c))"
    and "inv t" and "ready si ss h" and "sk_command (ss ! h) = None" and "\<not> recv_flag (ss ! h)"
    and "need t \<le> length (data_buf (ss ! h))"
  obtains r si' t' where "block_on X dev ops h si t =
      (Some (Some (r, si', t')) :: (('e TaskError + unit) \<times> 'd SocketInterface \<times> 't) run)"
    and "inv t'" and "r = Inr () \<and> \<not> ct_is_busy ops t' \<or> r = Inl Timeout"
proof -
  have "\<exists>q. block_on X dev ops h si t = (Some q :: (('e TaskError + unit) \<times> 'd SocketInterface \<times> 't) run) \<and>
    q \<noteq> None \<and> (\<forall>r si' t'. q = Some (r, si', t') \<longrightarrow>
      inv t' \<and> (r = Inr () \<and> \<not> ct_is_busy ops t' \<or> r = Inl Timeout))"
    using block_on_free_ends [OF assms] by blast
  then show thesis using that by auto
qed

end

section \<open>A lost frame\<close>

definition not_ready :: "PhyError + bool \<Rightarrow> bool" where
  "not_ready r \<longleftrightarrow> r = Inr False \<or> r = Inl TxNotAvailable \<or> r = Inl RxNotAvailable"

lemma block_on_stuck:
  assumes step: "\<And>si. I si \<Longrightarrow> \<exists>r si'. poll_tx_rx X dev si = Some (r, si') \<and> I si' \<and> not_ready r"
    and "I si"
  shows "(block_on_loop X dev ops h si t count ::
    (('e TaskError + unit) \<times> 'd SocketInterface \<times> 't) rust option) = None"
proof (rule ccontr)
  let ?r = "block_on_loop X dev ops h si t count ::
    (('e TaskError + unit) \<times> 'd SocketInterface \<times> 't) rust option"
  assume "?r \<noteq> None"
  then obtain y where y: "?r = Some y" by auto
  have "X = X \<longrightarrow> dev = dev \<longrightarrow> \<not> I si"
  proof (rule block_on_loop.raw_induct
      [where P = "\<lambda>X' dev' ops h si t count y. X' = X \<longrightarrow> dev' = dev \<longrightarrow> \<not> I si", OF _ y])
    fix f :: "crates \<Rightarrow> 'd device \<Rightarrow> 't cyclic_task_ops \<Rightarrow> nat \<Rightarrow> 'd SocketInterface \<Rightarrow> 't \<Rightarrow> u64 \<Rightarrow>
      (('e TaskError + unit) \<times> 'd SocketInterface \<times> 't) rust option"
    fix X' dev' ops h si t count y
    assume f: "\<And>X' dev' ops h si t count y. f X' dev' ops h si t count = Some y \<Longrightarrow>
        X' = X \<longrightarrow> dev' = dev \<longrightarrow> \<not> I si"
      and body: "(case poll_tx_rx X' dev' si of
        None \<Rightarrow> Some None
      | Some (r, si) \<Rightarrow>
          if r = Inr False \<or> r = Inl TxNotAvailable \<or> r = Inl RxNotAvailable
          then f X' dev' ops h si t count
          else case r of
            Inl e \<Rightarrow> Some (Some (Inl (Interface e), si, t))
          | Inr _ \<Rightarrow>
              (case get_socket si h of
                 None \<Rightarrow> Some None
               | Some socket \<Rightarrow>
                   (case process_one_step ops t socket count of
                      None \<Rightarrow> Some None
                    | Some (t, socket) \<Rightarrow>
                        (case get_socket_mut si h socket of
                           None \<Rightarrow> Some None
                         | Some si \<Rightarrow>
                             if \<not> ct_is_busy ops t then Some (Some (Inr (), si, t))
                             else if 100000 < count + 1 then Some (Some (Inl Timeout, si, t))
                             else f X' dev' ops h si t (count + 1))))) = Some y"
    show "X' = X \<longrightarrow> dev' = dev \<longrightarrow> \<not> I si"
    proof (intro impI notI)
      assume eq: "X' = X" "dev' = dev" and "I si"
      then obtain r si' where "poll_tx_rx X dev si = Some (r, si')" "I si'" "not_ready r"
        using step by blast
      with body eq f show False by (auto simp: not_ready_def)
    qed
  qed
  with assms(2) show False by simp
qed

lemma enqueue_loop_none:
  assumes "\<forall>s \<in> set (slot_sockets slots). \<not> pending s \<and>
      pdus_total_size p + 12 + data_length s \<le> pi_capacity p"
  shows "enqueue_loop X p i slots = Some (True, p, slots)"
  using assms
proof (induction slots arbitrary: i rule: slot_induct)
  case (Exist s slots)
  then have "remainig_pdu_data_capacity p = Some (pi_capacity p - pdus_total_size p - 12)"
    "data_length s \<le> pi_capacity p - pdus_total_size p - 12"
    by (auto simp: remainig_pdu_data_capacity_def nsub_def)
  moreover have "take_pdu s = Some (None, s)"
    using Exist.prems by (auto simp: take_pdu_def pending_def split: option.splits)
  ultimately show ?case using Exist by (simp add: not_less)
qed simp_all

text \<open>
  C38: one lost frame blocks the master forever. Once all PDUs of a frame are sent and the device
  delivers nothing any more, \<open>block_on\<close> does not return for any task: \<open>RxNotAvailable\<close> is retried
  without counting, so the \<open>Timeout\<close> behind the 100000 iterations is never reached.
\<close>

theorem block_on_lost_frame:
  assumes silent: "\<And>d. dev_rx dev d = (RxNone, d)"
    and sent: "pdu_count (iface si) = 0" "tx_count (iface si) \<noteq> 0"
    and none: "\<forall>s \<in> set (slot_sockets (items (socket_set si))). \<not> pending s \<and>
      pdus_total_size (iface si) + 12 + data_length s \<le> pi_capacity (iface si)"
  shows "block_on X dev ops h si t = None"
  unfolding block_on_def
proof (rule block_on_stuck [where I = "\<lambda>si'. si' = si"])
  fix si' assume "si' = si"
  with enqueue_loop_none [OF none, of X 0] sent silent
  show "\<exists>r si''. poll_tx_rx X dev si' = Some (r, si'') \<and> si'' = si \<and> not_ready r"
    by (simp add: poll_tx_rx_def enqueue_pdus_def transmit_and_receive_def transmit_one_frame_def
      receive_one_frame_def not_ready_def)
qed simp

definition silent_device :: "unit device" where
  "silent_device = \<lparr>dev_tx = (\<lambda>d n. (TxBuffer (replicate n 0), d)), dev_send = (\<lambda>d b. (True, d)),
     dev_rx = (\<lambda>d. (RxNone, d))\<rparr>"

definition waiting_sockets :: "unit SocketInterface" where
  "waiting_sockets =
     \<lparr>iface = (PduInterface_new () (replicate 100 0))\<lparr>pdus_total_size := 14, tx_count := 1\<rparr>,
      socket_set = \<lparr>free_index = 1, items = [Exist (example_socket\<lparr>sk_command := None\<rparr>)]\<rparr>,
      lost_frame_count = 0\<rparr>"

theorem block_on_lost_frame_witness:
  "tx_count (iface waiting_sockets) \<noteq> 0 \<and>
   (\<forall>(ops :: unit cyclic_task_ops) t. block_on ref_crates silent_device ops 0 waiting_sockets t =
      (None :: ((unit TaskError + unit) \<times> unit SocketInterface \<times> unit) rust option))"
proof -
  have "block_on ref_crates silent_device ops 0 waiting_sockets t =
      (None :: ((unit TaskError + unit) \<times> unit SocketInterface \<times> unit) rust option)"
    for ops :: "unit cyclic_task_ops" and t
    by (rule block_on_lost_frame)
      (simp_all add: silent_device_def waiting_sockets_def PduInterface_new_def pending_def
        example_socket_def data_length_def)
  then show ?thesis by (simp add: waiting_sockets_def)
qed

end
