(* ===== verification/Address_Access.thy ===== *)
theory Address_Access
  imports Cyclic_Task
begin

text \<open>
  \<open>src/src/task/address_access_task.rs\<close> and its callers \<open>read_register\<close> and \<open>write_register\<close> of
  \<open>src/src/task/mod.rs\<close>: one read or write of slave memory at a physical address.
\<close>

section \<open>The task\<close>

datatype aa_state = AaError "unit TaskError" | AaIdle | AaRead | AaWrite | AaComplete

record AddressAccessTask =
  aa_state :: aa_state
  aa_slave_address :: TargetSlave
  aa_command :: Command
  aa_data_size :: nat
  aa_ado :: u16

definition AddressAccessTask_new :: AddressAccessTask where
  "AddressAccessTask_new =
     \<lparr>aa_state = AaIdle, aa_slave_address = TargetSlave_default, aa_command = Command_default,
      aa_data_size = 0, aa_ado = 0\<rparr>"

definition aa_start_to_read ::
    "AddressAccessTask \<Rightarrow> TargetSlave \<Rightarrow> u16 \<Rightarrow> nat \<Rightarrow> AddressAccessTask" where
  "aa_start_to_read t addr ado data_size =
     t\<lparr>aa_slave_address := addr, aa_state := AaRead, aa_command := Command_default,
       aa_data_size := data_size, aa_ado := ado\<rparr>"

definition aa_start_to_write ::
    "AddressAccessTask \<Rightarrow> TargetSlave \<Rightarrow> u16 \<Rightarrow> bytes \<Rightarrow> bytes \<Rightarrow> (AddressAccessTask \<times> bytes) rust" where
  "aa_start_to_write t addr ado data buf = do {
     assert (length data \<le> length buf);
     b \<leftarrow> slice_to (length data) buf;
     ret (t\<lparr>aa_slave_address := addr, aa_state := AaWrite, aa_command := Command_default,
            aa_data_size := length data, aa_ado := ado\<rparr>,
          copy_zip b data @ drop (length data) buf) }"

definition aa_wait :: "AddressAccessTask \<Rightarrow> (unit TaskError + unit) option" where
  "aa_wait t =
     (case aa_state t of AaComplete \<Rightarrow> Some (Inr ()) | AaError e \<Rightarrow> Some (Inl e) | _ \<Rightarrow> None)"

definition aa_is_busy :: "AddressAccessTask \<Rightarrow> bool" where
  "aa_is_busy t =
     (case aa_state t of AaIdle \<Rightarrow> False | AaComplete \<Rightarrow> False | AaError _ \<Rightarrow> False | _ \<Rightarrow> True)"

definition aa_next_pdu ::
    "AddressAccessTask \<Rightarrow> bytes \<Rightarrow> ((Command \<times> nat) option \<times> AddressAccessTask \<times> bytes) rust" where
  "aa_next_pdu t buf =
     (case aa_state t of
        AaIdle \<Rightarrow> ret (None, t, buf)
      | AaError _ \<Rightarrow> ret (None, t, buf)
      | AaRead \<Rightarrow>
          let t = t\<lparr>aa_command := Command_new_read (aa_slave_address t) (aa_ado t)\<rparr> in
          ret (Some (aa_command t, aa_data_size t), t, buf)
      | AaWrite \<Rightarrow>
          let t = t\<lparr>aa_command := Command_new_write (aa_slave_address t) (aa_ado t)\<rparr> in
          ret (Some (aa_command t, aa_data_size t), t, buf)
      | AaComplete \<Rightarrow> ret (None, t, buf))"

definition aa_recieve_and_process :: "AddressAccessTask \<Rightarrow> Pdu \<Rightarrow> u64 \<Rightarrow> AddressAccessTask rust" where
  "aa_recieve_and_process t recv_data sys_time = (
     let command = pdu_command recv_data; wkc = pdu_wkc recv_data;
       t = (if \<not> (cmd_type command = cmd_type (aa_command t) \<and> cmd_ado command = cmd_ado (aa_command t))
            then t\<lparr>aa_state := AaError UnexpectedCommand\<rparr> else t);
       t = (case aa_slave_address t of
              Single _ \<Rightarrow>
                if wkc \<noteq> 1 then t\<lparr>aa_state := AaError (unexpected_wkc 1 wkc)\<rparr> else t
            | All num_slaves \<Rightarrow>
                if wkc \<noteq> num_slaves then t\<lparr>aa_state := AaError (unexpected_wkc num_slaves wkc)\<rparr> else t)
     in ret (case aa_state t of
          AaIdle \<Rightarrow> t
        | AaError _ \<Rightarrow> t
        | AaRead \<Rightarrow> t\<lparr>aa_state := AaComplete\<rparr>
        | AaWrite \<Rightarrow> t\<lparr>aa_data_size := 0, aa_state := AaComplete\<rparr>
        | AaComplete \<Rightarrow> t))"

definition address_access_ops :: "AddressAccessTask cyclic_task_ops" where
  "address_access_ops =
     \<lparr>ct_next_pdu = aa_next_pdu, ct_recieve_and_process = aa_recieve_and_process,
      ct_is_busy = aa_is_busy\<rparr>"

section \<open>Reading and writing registers\<close>

definition read_register ::
    "crates \<Rightarrow> 'd device \<Rightarrow> 'd SocketInterface \<Rightarrow> nat \<Rightarrow> TargetSlave \<Rightarrow> u16 \<Rightarrow> nat \<Rightarrow>
       ((unit TaskError + bytes) \<times> 'd SocketInterface) run" where
  "read_register X dev si handle target_slave register_address data_size =
     and_then (Some (do {
         socket \<leftarrow> get_socket si handle;
         assert (data_size \<le> length (data_buf socket));
         ret (aa_start_to_read AddressAccessTask_new target_slave register_address data_size) }))
     (\<lambda>t. and_then (block_on X dev address_access_ops handle si t)
     (\<lambda>(r, si, t). Some (case r of
         Inl e \<Rightarrow> ret (Inl e, si)
       | Inr _ \<Rightarrow> do {
           w \<leftarrow> aa_wait t;
           case w of
             Inl e \<Rightarrow> ret (Inl e, si)
           | Inr _ \<Rightarrow> do {
               socket \<leftarrow> get_socket si handle;
               data \<leftarrow> slice_to data_size (data_buf socket);
               ret (Inr data, si) } })))"

definition write_register ::
    "crates \<Rightarrow> 'd device \<Rightarrow> 'd SocketInterface \<Rightarrow> nat \<Rightarrow> TargetSlave \<Rightarrow> u16 \<Rightarrow> bytes \<Rightarrow>
       ((unit TaskError + unit) \<times> 'd SocketInterface) run" where
  "write_register X dev si handle target_slave register_address data =
     and_then (Some (do {
         socket \<leftarrow> get_socket si handle;
         assert (length data \<le> length (data_buf socket));
         (t, buf) \<leftarrow> aa_start_to_write AddressAccessTask_new target_slave register_address data
                      (data_buf socket);
         si \<leftarrow> get_socket_mut si handle (socket\<lparr>data_buf := buf\<rparr>);
         ret (t, si) }))
     (\<lambda>(t, si). and_then (block_on X dev address_access_ops handle si t)
     (\<lambda>(r, si, t). Some (case r of
         Inl e \<Rightarrow> ret (Inl e, si)
       | Inr _ \<Rightarrow> do { w \<leftarrow> aa_wait t; ret (w, si) })))"

section \<open>The contract\<close>

definition aa_inv :: "AddressAccessTask \<Rightarrow> bool" where
  "aa_inv t \<longleftrightarrow> (aa_state t = AaRead \<or> aa_state t = AaWrite \<longrightarrow> 0 < aa_data_size t)"

definition aa_need :: "AddressAccessTask \<Rightarrow> nat" where
  "aa_need t = (if aa_is_busy t then aa_data_size t else 0)"

lemma aa_recieve_state:
  "\<exists>t'. aa_recieve_and_process t p time = Some t' \<and> \<not> aa_is_busy t' \<and>
     aa_state t' = (if pdu_wkc p \<noteq> num_targets (aa_slave_address t)
                    then AaError (unexpected_wkc (num_targets (aa_slave_address t)) (pdu_wkc p))
                    else if \<not> (cmd_type (pdu_command p) = cmd_type (aa_command t) \<and>
                               cmd_ado (pdu_command p) = cmd_ado (aa_command t))
                    then AaError UnexpectedCommand
                    else if aa_is_busy t then AaComplete else aa_state t)"
  by (cases "aa_state t"; cases "aa_slave_address t")
    (simp_all add: aa_recieve_and_process_def aa_is_busy_def Let_def)

interpretation aa: terminating_task address_access_ops aa_inv aa_need aa_data_size "\<lambda>_ _. True"
proof (unfold_locales, goal_cases)
  case (1 t buf)
  then show ?case
    by (cases "aa_state t") (auto simp: address_access_ops_def aa_next_pdu_def aa_inv_def aa_need_def
      aa_is_busy_def)
next
  case (2 t p time)
  obtain t' where t': "aa_recieve_and_process t p time = Some t'" "\<not> aa_is_busy t'"
    using aa_recieve_state by blast
  then have "aa_inv t'" "aa_need t' = 0"
    by (auto simp: aa_inv_def aa_is_busy_def aa_need_def)
  with t'(1) show ?case by (simp add: address_access_ops_def)
next
  case (3 t buf)
  then show ?case
    by (cases "aa_state t") (auto simp: address_access_ops_def aa_next_pdu_def aa_is_busy_def)
qed

section \<open>One access\<close>

definition aa_next_command :: "AddressAccessTask \<Rightarrow> Command" where
  "aa_next_command t =
     (if aa_state t = AaRead then Command_new_read (aa_slave_address t) (aa_ado t)
      else Command_new_write (aa_slave_address t) (aa_ado t))"

definition access_request :: "nat \<Rightarrow> Command \<Rightarrow> bytes \<Rightarrow> pdu_request" where
  "access_request h c data =
     \<lparr>rq_command = cmd_type c, rq_adp = cmd_adp c, rq_ado = cmd_ado c, rq_data = data,
      rq_index = of_nat h\<rparr>"

text \<open>The verdict of the task on what came back.\<close>

definition access_verdict :: "crates \<Rightarrow> TargetSlave \<Rightarrow> Command \<Rightarrow> pdu_content \<Rightarrow> unit TaskError + unit" where
  "access_verdict X target c v =
     (if pv_wkc v \<noteq> num_targets target then Inl (unexpected_wkc (num_targets target) (pv_wkc v))
      else if \<not> (CommandType_from X (pv_command v) = cmd_type c \<and> pv_ado v = cmd_ado c)
      then Inl UnexpectedCommand else Inr ())"

lemma aa_first_step:
  assumes "sk_command s = None" and "aa_is_busy t"
  shows "process_one_step address_access_ops t s time =
    Some (t\<lparr>aa_command := aa_next_command t\<rparr>,
          s\<lparr>recv_flag := False, sk_wkc := 0, sk_command := Some (aa_next_command t),
            sk_data_length := aa_data_size t\<rparr>)"
  using assms by (cases "aa_state t") (auto simp: process_one_step_def get_recieved_pdu_def set_pdu_def
    address_access_ops_def aa_next_pdu_def aa_is_busy_def aa_next_command_def)

lemma aa_last_step:
  assumes "get_recieved_pdu s = Some (Some p)" and "aa_is_busy t"
  shows "\<exists>t'. process_one_step address_access_ops t s time =
      Some (t', s\<lparr>recv_flag := False, sk_wkc := 0, sk_command := None, sk_data_length := 0\<rparr>) \<and>
    \<not> aa_is_busy t' \<and>
    aa_state t' = (if pdu_wkc p \<noteq> num_targets (aa_slave_address t)
      then AaError (unexpected_wkc (num_targets (aa_slave_address t)) (pdu_wkc p))
      else if \<not> (cmd_type (pdu_command p) = cmd_type (aa_command t) \<and>
                 cmd_ado (pdu_command p) = cmd_ado (aa_command t))
      then AaError UnexpectedCommand else AaComplete)"
proof -
  obtain t' where t': "aa_recieve_and_process t p time = Some t'" "\<not> aa_is_busy t'"
    "aa_state t' = (if pdu_wkc p \<noteq> num_targets (aa_slave_address t)
      then AaError (unexpected_wkc (num_targets (aa_slave_address t)) (pdu_wkc p))
      else if \<not> (cmd_type (pdu_command p) = cmd_type (aa_command t) \<and>
                 cmd_ado (pdu_command p) = cmd_ado (aa_command t))
      then AaError UnexpectedCommand else AaComplete)"
    using aa_recieve_state [of t p time] assms(2) by auto
  have "aa_next_pdu t' (data_buf s) = Some (None, t', data_buf s)"
    using t'(2) by (cases "aa_state t'") (auto simp: aa_next_pdu_def aa_is_busy_def)
  with t'(1) assms(1)
  have "process_one_step address_access_ops t s time =
      Some (t', s\<lparr>recv_flag := False, sk_wkc := 0, sk_command := None, sk_data_length := 0\<rparr>)"
    by (simp add: process_one_step_def set_pdu_def address_access_ops_def)
  with t'(2,3) show ?thesis by blast
qed

lemma aa_block_on:
  fixes si :: "'d SocketInterface"
  assumes X: "crates_laws X" and net: "\<And>d. answers dev (slaves d) d" and rd: "ready si ss h"
    and s: "sk_command (ss ! h) = None" and t: "aa_is_busy t"
    and n: "0 < aa_data_size t" "aa_data_size t \<le> length (data_buf (ss ! h))"
  shows "\<exists>c d si' ss' t'. wf_chunk c \<and>
    pdu_view c = rq_view (access_request h (aa_next_command t) (take (aa_data_size t) (data_buf (ss ! h)))) \<and>
    block_on X dev address_access_ops h si t =
      (Some (Some (Inr (), si', t')) :: ((unit TaskError + unit) \<times> 'd SocketInterface \<times> AddressAccessTask) run) \<and>
    ready si' ss' h \<and>
    data_buf (ss' ! h) = pv_data (pdu_view (slaves d c)) @ drop (aa_data_size t) (data_buf (ss ! h)) \<and>
    length (pv_data (pdu_view (slaves d c))) = aa_data_size t \<and>
    aa_wait t' = Some (access_verdict X (aa_slave_address t) (aa_next_command t) (pdu_view (slaves d c)))"
proof -
  let ?s = "ss ! h" and ?n = "aa_data_size t" and ?c = "aa_next_command t"
  let ?s1 = "?s\<lparr>recv_flag := False, sk_wkc := 0, sk_command := Some ?c, sk_data_length := ?n\<rparr>"
  let ?t1 = "t\<lparr>aa_command := ?c\<rparr>"
  have fits1: "socket_fits ?s1" using n by (simp add: socket_fits_def)
  have np: "\<not> pending ?s" using s by (simp add: pending_def)
  obtain s0 where s0: "answered X (slaves (ethdev (iface si))) h ?s s0"
    "iterates (block_on_loop X dev address_access_ops h :: 'd SocketInterface \<Rightarrow> AddressAccessTask \<Rightarrow>
      u64 \<Rightarrow> ((unit TaskError + unit) \<times> 'd SocketInterface \<times> AddressAccessTask) run)
      address_access_ops h si t 0 ss s0"
    by (rule block_on_iterate [OF X net rd])
  have "s0 = ?s" using s0(1) np by (simp add: answered_def)
  then have step1: "process_one_step address_access_ops t s0 0 = Some (?t1, ?s1)"
    using aa_first_step [OF s t] by simp
  have "length (data_buf ?s1) = length (data_buf s0)" using \<open>s0 = ?s\<close> by simp
  moreover have b1: "ct_is_busy address_access_ops ?t1"
    using t by (simp add: address_access_ops_def aa_is_busy_def)
  ultimately obtain si1 ss1 where r1: "ready si1 ss1 h" "ss1 ! h = ?s1"
    and loop1: "block_on_loop X dev address_access_ops h si t 0 =
      (block_on_loop X dev address_access_ops h si1 ?t1 (0 + 1) ::
        ((unit TaskError + unit) \<times> 'd SocketInterface \<times> AddressAccessTask) run)"
    by (rule iterates_busy [OF s0(2) step1 fits1]) simp
  let ?d = "ethdev (iface si1)"
  obtain s2 where s2: "answered X (slaves ?d) h ?s1 s2"
    "iterates (block_on_loop X dev address_access_ops h :: 'd SocketInterface \<Rightarrow> AddressAccessTask \<Rightarrow>
      u64 \<Rightarrow> ((unit TaskError + unit) \<times> 'd SocketInterface \<times> AddressAccessTask) run)
      address_access_ops h si1 ?t1 1 ss1 s2"
    by (rule block_on_iterate [OF X net r1(1), unfolded r1(2)])
  have "pending ?s1" by (simp add: pending_def)
  from answered_pdu [OF s2(1) this fits1 net] obtain c where
    c: "wf_chunk c" "pdu_view c = rq_view (socket_request (h, ?s1))"
      "get_recieved_pdu s2 = Some (Some (chunk_pdu X (slaves ?d c)))"
    and len: "length (pv_data (pdu_view (slaves ?d c))) = ?n"
    and s2': "data_buf s2 = pv_data (pdu_view (slaves ?d c)) @ drop ?n (data_buf ?s)"
    by auto
  let ?v = "pdu_view (slaves ?d c)"
  have "aa_is_busy ?t1" using t by (simp add: aa_is_busy_def)
  from aa_last_step [OF c(3) this, of 1] obtain t' where
    step2: "process_one_step address_access_ops ?t1 s2 1 =
      Some (t', s2\<lparr>recv_flag := False, sk_wkc := 0, sk_command := None, sk_data_length := 0\<rparr>)"
    and t': "\<not> aa_is_busy t'" "aa_wait t' = Some (access_verdict X (aa_slave_address t) ?c ?v)"
    by (auto simp: aa_wait_def access_verdict_def chunk_pdu_def Let_def Command_new_def)
  have "socket_fits (s2\<lparr>recv_flag := False, sk_wkc := 0, sk_command := None, sk_data_length := 0\<rparr>)"
    by (simp add: socket_fits_def)
  moreover have "\<not> ct_is_busy address_access_ops t'" using t'(1) by (simp add: address_access_ops_def)
  ultimately obtain si' ss' where r2: "ready si' ss' h"
    "ss' ! h = s2\<lparr>recv_flag := False, sk_wkc := 0, sk_command := None, sk_data_length := 0\<rparr>"
    and loop2: "block_on_loop X dev address_access_ops h si1 ?t1 1 =
      (Some (Some (Inr (), si', t')) :: ((unit TaskError + unit) \<times> 'd SocketInterface \<times> AddressAccessTask) run)"
    using iterates_done [OF s2(2) step2] by auto
  have "socket_request (h, ?s1) = access_request h ?c (take ?n (data_buf ?s))"
    by (simp add: socket_request_def access_request_def Let_def)
  with c r2 loop1 loop2 t'(2) len s2' show ?thesis
    unfolding block_on_def by (intro exI [of _ c] exI [of _ ?d] exI [of _ si'] exI [of _ ss'] exI [of _ t']) simp
qed

text \<open>
  C4: reading a register works end to end. With an idle interface, a free socket in handle \<open>h\<close>
  whose buffer holds the requested bytes and a network that answers, \<open>read_register\<close> returns after
  a finite number of polls and does not panic. A read command for the target and the register
  address has gone out; if the answer has the expected working counter and the same command and
  address, the result is the data of the answer, otherwise it is the error that names the
  difference. The interface is ready for the next request.
\<close>

theorem read_register_answer:
  fixes si :: "'d SocketInterface"
  assumes X: "crates_laws X" and net: "\<And>d. answers dev (slaves d) d" and rd: "ready si ss h"
    and s: "sk_command (ss ! h) = None" and n: "0 < n" "n \<le> length (data_buf (ss ! h))"
  shows "\<exists>c d si' ss'. wf_chunk c \<and>
    pdu_view c = rq_view (access_request h (Command_new_read target reg) (take n (data_buf (ss ! h)))) \<and>
    ready si' ss' h \<and>
    read_register X dev si h target reg n = Some (Some (
      map_sum id (\<lambda>_. pv_data (pdu_view (slaves d c)))
        (access_verdict X target (Command_new_read target reg) (pdu_view (slaves d c))), si'))"
proof -
  let ?t = "aa_start_to_read AddressAccessTask_new target reg n"
  have t: "aa_is_busy ?t" "aa_data_size ?t = n" "aa_slave_address ?t = target"
    "aa_next_command ?t = Command_new_read target reg"
    by (simp_all add: aa_start_to_read_def aa_is_busy_def aa_next_command_def)
  obtain c d si' ss' t' where c: "wf_chunk c"
    "pdu_view c = rq_view (access_request h (Command_new_read target reg) (take n (data_buf (ss ! h))))"
    and run: "block_on X dev address_access_ops h si ?t =
      (Some (Some (Inr (), si', t')) :: ((unit TaskError + unit) \<times> 'd SocketInterface \<times> AddressAccessTask) run)"
    and rd': "ready si' ss' h"
      "data_buf (ss' ! h) = pv_data (pdu_view (slaves d c)) @ drop n (data_buf (ss ! h))"
      "length (pv_data (pdu_view (slaves d c))) = n"
    and w: "aa_wait t' = Some (access_verdict X target (Command_new_read target reg) (pdu_view (slaves d c)))"
    using aa_block_on [OF X net rd s t(1)] n unfolding t(2,3,4) by blast
  have "read_register X dev si h target reg n = Some (Some (
      map_sum id (\<lambda>_. pv_data (pdu_view (slaves d c)))
        (access_verdict X target (Command_new_read target reg) (pdu_view (slaves d c))), si'))"
    using ready_socket [OF rd] ready_socket [OF rd'(1)] n(2) rd'(2,3) w
    by (cases "access_verdict X target (Command_new_read target reg) (pdu_view (slaves d c))")
      (simp_all add: read_register_def and_then_def assert_def run slice_to_def)
  with c rd'(1) show ?thesis by blast
qed

definition one_socket :: "nat \<Rightarrow> bytes option SocketInterface" where
  "one_socket k = example_sockets [Exist (PduSocket_new (replicate k 0))]"

lemma one_socket_ready: "k < 80 \<Longrightarrow> ready (one_socket k) [PduSocket_new (replicate k 0)] 0"
  by (auto simp: ready_def one_socket_def example_sockets_def SocketInterface_new_def idle_def
    dense_def get_socket_def get_item_def get_def roomy_def PduSocket_new_def socket_fits_def
    PduInterface_new_def)

theorem read_register_answer_witness:
  "crates_laws ref_crates \<and> (\<forall>d. answers echo_device (\<lambda>c. c) d) \<and>
   ready (one_socket 4) [PduSocket_new (replicate 4 0)] 0 \<and>
   (\<exists>c si'. pdu_view c = rq_view (access_request 0 (Command_new_read (All 0) 0x130) [0, 0]) \<and>
      read_register ref_crates echo_device (one_socket 4) 0 (All 0) 0x130 2 =
        Some (Some (Inr [0, 0], si')))"
proof -
  have rd: "ready (one_socket 4) [PduSocket_new (replicate 4 0)] 0" by (rule one_socket_ready) simp
  obtain c si' where c: "pdu_view c = rq_view (access_request 0 (Command_new_read (All 0) 0x130) [0, 0])"
    and r: "read_register ref_crates echo_device (one_socket 4) 0 (All 0) 0x130 2 = Some (Some (
      map_sum id (\<lambda>_. pv_data (pdu_view c))
        (access_verdict ref_crates (All 0) (Command_new_read (All 0) 0x130) (pdu_view c)), si'))"
    using read_register_answer [OF ref_crates_laws echo_answers rd, of 2 "All 0" "0x130"]
    by (auto simp: PduSocket_new_def numeral_2_eq_2)
  have "access_verdict ref_crates (All 0) (Command_new_read (All 0) 0x130) (pdu_view c) = Inr ()"
    using ref.CommandType_from_repr [of CommandType.BRD]
    by (simp add: c rq_view_def access_request_def access_verdict_def Command_new_read_def Command_new_def)
  with c r have "read_register ref_crates echo_device (one_socket 4) 0 (All 0) 0x130 2 =
      Some (Some (Inr [0, 0], si'))"
    by (simp add: rq_view_def access_request_def)
  with c rd ref_crates_laws echo_answers show ?thesis by blast
qed

text \<open>
  C5: writing a register works end to end, under the same conditions: the write command carries
  exactly the given data, and the result says whether the expected number of slaves has taken it.
\<close>

theorem write_register_answer:
  fixes si :: "'d SocketInterface"
  assumes X: "crates_laws X" and net: "\<And>d. answers dev (slaves d) d" and rd: "ready si ss h"
    and s: "sk_command (ss ! h) = None" and n: "data \<noteq> []" "length data \<le> length (data_buf (ss ! h))"
  shows "\<exists>c d si' ss'. wf_chunk c \<and>
    pdu_view c = rq_view (access_request h (Command_new_write target reg) data) \<and>
    ready si' ss' h \<and>
    write_register X dev si h target reg data = Some (Some (
      access_verdict X target (Command_new_write target reg) (pdu_view (slaves d c)), si'))"
proof -
  let ?buf = "copy_zip (take (length data) (data_buf (ss ! h))) data @ drop (length data) (data_buf (ss ! h))"
  let ?s = "(ss ! h)\<lparr>data_buf := ?buf\<rparr>"
  let ?t = "AddressAccessTask_new\<lparr>aa_slave_address := target, aa_state := AaWrite,
    aa_command := Command_default, aa_data_size := length data, aa_ado := reg\<rparr>"
  have buf: "?buf = data @ drop (length data) (data_buf (ss ! h))"
    using n(2) by (simp add: copy_zip_exact)
  have h: "h < length ss" and dn: "dense si ss" and rm: "roomy si ss" using rd by (auto simp: ready_def)
  obtain si1 where si1: "get_socket_mut si h ?s = Some si1" "dense si1 (ss[h := ?s])" "iface si1 = iface si"
    using dense_mut [OF dn h] by blast
  have "roomy si1 (ss[h := ?s])" using n(2) si1(3) by (intro roomy_update [OF rm h]) simp_all
  moreover have "\<forall>s \<in> set (ss[h := ?s]). socket_fits s"
    using rd s set_update_subset_insert [of ss h ?s] by (auto simp: ready_def socket_fits_def)
  ultimately have rd1: "ready si1 (ss[h := ?s]) h" using rd si1 h by (simp add: ready_def)
  have s1: "sk_command ((ss[h := ?s]) ! h) = None" using s h by simp
  have t: "aa_is_busy ?t" by (simp add: aa_is_busy_def)
  have n1: "0 < aa_data_size ?t" "aa_data_size ?t \<le> length (data_buf ((ss[h := ?s]) ! h))"
    using n h by (simp_all add: buf)
  obtain c d si' ss' t' where c: "wf_chunk c"
    "pdu_view c = rq_view (access_request h (aa_next_command ?t) (take (aa_data_size ?t) (data_buf ((ss[h := ?s]) ! h))))"
    and run: "block_on X dev address_access_ops h si1 ?t =
      (Some (Some (Inr (), si', t')) :: ((unit TaskError + unit) \<times> 'd SocketInterface \<times> AddressAccessTask) run)"
    and rd': "ready si' ss' h"
    and w: "aa_wait t' = Some (access_verdict X (aa_slave_address ?t) (aa_next_command ?t) (pdu_view (slaves d c)))"
    using aa_block_on [OF X net rd1 s1 t n1] by blast
  have "take (aa_data_size ?t) (data_buf ((ss[h := ?s]) ! h)) = data" using h by (simp add: buf)
  moreover have "aa_next_command ?t = Command_new_write target reg" by (simp add: aa_next_command_def)
  moreover have "write_register X dev si h target reg data = Some (Some (
      access_verdict X target (aa_next_command ?t) (pdu_view (slaves d c)), si'))"
    using ready_socket [OF rd] n(2) si1(1) w
    by (simp add: write_register_def and_then_def assert_def run slice_to_def aa_start_to_write_def)
  ultimately show ?thesis using c rd' by auto
qed

theorem write_register_answer_witness:
  "crates_laws ref_crates \<and> (\<forall>d. answers echo_device (\<lambda>c. c) d) \<and>
   ready (one_socket 4) [PduSocket_new (replicate 4 0)] 0 \<and>
   (\<exists>c si'. pdu_view c = rq_view (access_request 0 (Command_new_write (Single (StationAddress 1)) 0x120) [2, 0]) \<and>
      write_register ref_crates echo_device (one_socket 4) 0 (Single (StationAddress 1)) 0x120 [2, 0] =
        Some (Some (Inl (unexpected_wkc 1 0), si')))"
proof -
  have rd: "ready (one_socket 4) [PduSocket_new (replicate 4 0)] 0" by (rule one_socket_ready) simp
  obtain c si' where c: "pdu_view c = rq_view (access_request 0 (Command_new_write (Single (StationAddress 1)) 0x120) [2, 0])"
    and r: "write_register ref_crates echo_device (one_socket 4) 0 (Single (StationAddress 1)) 0x120 [2, 0] =
      Some (Some (access_verdict ref_crates (Single (StationAddress 1))
        (Command_new_write (Single (StationAddress 1)) 0x120) (pdu_view c), si'))"
    using write_register_answer [OF ref_crates_laws echo_answers rd, of "[2, 0]" "Single (StationAddress 1)" "0x120"]
    by (auto simp: PduSocket_new_def)
  have "access_verdict ref_crates (Single (StationAddress 1))
      (Command_new_write (Single (StationAddress 1)) 0x120) (pdu_view c) = Inl (unexpected_wkc 1 0)"
    by (simp add: c rq_view_def access_verdict_def)
  with c r rd ref_crates_laws echo_answers show ?thesis by auto
qed

end
