(* ===== verification/Task_Support.thy ===== *)
theory Task_Support
  imports Cyclic_Task Registers Slave
begin

text \<open>
  What the tasks share: the evaluation of register accessors, the laws that a task which only
  exchanges PDUs of a fixed register keeps, and a scripted network, whose slaves answer the PDUs of
  the \<open>k\<close>-th frame as a given function says. The witnesses about tasks run on it.
\<close>

section \<open>Register accessors\<close>

text \<open>\<open>||\<close> and \<open>&&\<close> on operands that may panic.\<close>

definition lazy_or :: "bool rust \<Rightarrow> bool rust \<Rightarrow> bool rust" where
  "lazy_or a b = do { x \<leftarrow> a; if x then ret True else b }"

definition lazy_and :: "bool rust \<Rightarrow> bool rust \<Rightarrow> bool rust" where
  "lazy_and a b = do { x \<leftarrow> a; if x then b else ret False }"

lemma lazy_simps [simp]:
  "lazy_or (Some x) (Some y) = Some (x \<or> y)" "lazy_and (Some x) (Some y) = Some (x \<and> y)"
  "lazy_or (Some True) b = Some True" "lazy_and (Some False) b = Some False"
  by (auto simp: lazy_or_def lazy_and_def)

text \<open>
  The checks with which most tasks begin: the working counter has to be the expected one and the
  command the one sent. The later check wins when both fail.
\<close>

definition unexpected :: "u16 \<Rightarrow> Command \<Rightarrow> Pdu \<Rightarrow> 'e TaskError option" where
  "unexpected wkc command p =
     (if pdu_wkc p \<noteq> wkc then Some (unexpected_wkc wkc (pdu_wkc p))
      else if \<not> (cmd_type (pdu_command p) = cmd_type command \<and> cmd_ado (pdu_command p) = cmd_ado command)
      then Some UnexpectedCommand else None)"

context bitfield_crate
begin

lemmas reg_eqs = reg_get_def reg_set_def reg_bit_def reg_set_bit_def bitfield_eqs

end

section \<open>The dialogue of a task\<close>

text \<open>
  What a task sends, with the data of each request, when its requests are answered one after the
  other: by the given data and working counter, under the command that was sent, at the given
  time. The answer overwrites the front of the buffer, as it does in the socket.
\<close>

fun dialogue ::
    "'t cyclic_task_ops \<Rightarrow> 't \<Rightarrow> bytes \<Rightarrow> (bytes \<times> u16 \<times> u64) list \<Rightarrow> ((Command \<times> bytes) list \<times> 't) rust" where
  "dialogue ops t buf [] = ret ([], t)"
| "dialogue ops t buf ((data, wkc, time) # as) = do {
     (r, t, buf) \<leftarrow> ct_next_pdu ops t buf;
     case r of
       None \<Rightarrow> ret ([], t)
     | Some (c, n) \<Rightarrow> do {
         t \<leftarrow> ct_recieve_and_process ops t \<lparr>pdu_command = c, pdu_data = data, pdu_wkc = wkc\<rparr> time;
         (rs, t) \<leftarrow> dialogue ops t (copy_zip buf data) as;
         ret ((c, take n buf) # rs, t) } }"

text \<open>A dialogue that is the same with every buffer of the required size.\<close>

definition says ::
    "'t cyclic_task_ops \<Rightarrow> nat \<Rightarrow> 't \<Rightarrow> (bytes \<times> u16 \<times> u64) list \<Rightarrow> (Command \<times> bytes) list \<Rightarrow> 't \<Rightarrow> bool" where
  "says ops k t as rs t' \<longleftrightarrow> (\<forall>buf. k \<le> length buf \<longrightarrow> dialogue ops t buf as = Some (rs, t'))"

lemma says_Nil: "says ops k t [] [] t"
  by (simp add: says_def)

lemma says_Cons:
  assumes "\<And>buf. k \<le> length buf \<Longrightarrow> \<exists>buf'. ct_next_pdu ops t buf = Some (Some (c, n), t1, buf') \<and>
      length buf' = length buf \<and> take n buf' = b"
    and "ct_recieve_and_process ops t1 \<lparr>pdu_command = c, pdu_data = data, pdu_wkc = wkc\<rparr> time = Some t2"
    and "says ops k t2 as rs t'"
  shows "says ops k t ((data, wkc, time) # as) ((c, b) # rs) t'"
  unfolding says_def
proof (intro allI impI)
  fix buf :: bytes
  assume k: "k \<le> length buf"
  from assms(1) [OF this] obtain buf' where
    n: "ct_next_pdu ops t buf = Some (Some (c, n), t1, buf')" "length buf' = length buf" "take n buf' = b"
    by blast
  have "dialogue ops t2 (copy_zip buf' data) as = Some (rs, t')"
    using assms(3) k n(2) by (simp add: says_def)
  with n assms(2) show "dialogue ops t buf ((data, wkc, time) # as) = Some ((c, b) # rs, t')" by simp
qed

declare dialogue.simps(2) [simp del]

section \<open>A scripted network\<close>

definition reply_chunk :: "bytes \<Rightarrow> bytes \<Rightarrow> u16 \<Rightarrow> bytes" where
  "reply_chunk c data wkc =
     take 10 c @ copy_zip (pv_data (pdu_view c)) data @ [ucast wkc, ucast (drop_bit 8 wkc)]"

lemma reply_chunk_wf:
  assumes "wf_chunk c"
  shows "wf_chunk (reply_chunk c data wkc)" and "length (reply_chunk c data wkc) = length c"
    and "pdu_view (reply_chunk c data wkc) =
      (pdu_view c)\<lparr>pv_data := copy_zip (pv_data (pdu_view c)) data, pv_wkc := wkc\<rparr>"
proof -
  let ?n = "chunk_data_len c" and ?r = "reply_chunk c data wkc"
  have n: "length c = ?n + 12" using assms by (simp add: wf_chunk_def)
  have len: "length (pv_data (pdu_view c)) = ?n" using n by (simp add: pdu_view_def)
  have fld: "field ?r m l = field c m l" if "m < 80" for m l
  proof -
    have "field (take 10 c @ ys) m l = field (take 10 c) m l" for ys
      using that n by (intro field_append) simp
    moreover have "field c m l = field (take 10 c) m l"
      using field_append [where xs = "take 10 c" and ys = "drop 10 c" and m = m and l = l] that n by simp
    ultimately show ?thesis by (simp add: reply_chunk_def)
  qed
  have dl: "chunk_data_len ?r = ?n" by (simp add: chunk_data_len_def fld)
  show l: "length ?r = length c" using n len by (simp add: reply_chunk_def)
  then show "wf_chunk ?r" using assms dl by (simp add: wf_chunk_def)
  have tk: "take ?n (drop 10 ?r) = copy_zip (pv_data (pdu_view c)) data"
    using n len by (simp add: reply_chunk_def)
  have "?r ! (10 + ?n) = ucast wkc" "?r ! (11 + ?n) = ucast (drop_bit 8 wkc)"
    using n len by (simp_all add: reply_chunk_def nth_append)
  moreover have "push_bit 8 (ucast (ucast (drop_bit 8 wkc) :: u8)) OR ucast (ucast wkc :: u8) = wkc"
    by (rule bit_word_eqI) (auto simp: bit_simps)
  ultimately show "pdu_view ?r = (pdu_view c)\<lparr>pv_data := copy_zip (pv_data (pdu_view c)) data, pv_wkc := wkc\<rparr>"
    using tk by (simp add: pdu_view_def dl fld)
qed

definition frame_pdus :: "bytes \<Rightarrow> bytes list" where
  "frame_pdus payload =
     (case pdus_collect ref_crates (EtherCatPdus_new payload (length payload) 0) of
        Some cs \<Rightarrow> cs | None \<Rightarrow> [])"

lemma frame_pdus_concat: "\<forall>c \<in> set cs. wf_chunk c \<Longrightarrow> frame_pdus (concat cs) = cs"
  using ref.pdus_collect_chunks [of cs "[]" "length (concat cs)" "[]"]
  by (simp add: frame_pdus_def EtherCatPdus_new_def)

text \<open>\<open>script k v\<close> is the data and the working counter the slaves return for the PDU \<open>v\<close> of frame \<open>k\<close>.\<close>

definition scripted :: "(nat \<Rightarrow> pdu_content \<Rightarrow> bytes \<times> u16) \<Rightarrow> nat \<times> bytes option \<Rightarrow> bytes \<Rightarrow> bytes" where
  "scripted script d c =
     reply_chunk c (fst (script (fst d) (pdu_view c))) (snd (script (fst d) (pdu_view c)))"

definition scripted_device :: "(nat \<Rightarrow> pdu_content \<Rightarrow> bytes \<times> u16) \<Rightarrow> (nat \<times> bytes option) device" where
  "scripted_device script =
     \<lparr>dev_tx = (\<lambda>d n. (TxBuffer (replicate n 0), d)),
      dev_send = (\<lambda>(k, _) b. (True, (k, Some b))),
      dev_rx = (\<lambda>(k, f). case f of
        None \<Rightarrow> (RxNone, (k, None))
      | Some b \<Rightarrow>
          (RxFrame (reply_header @ concat (map (scripted script (k, None)) (frame_pdus (drop 16 b))) @
             replicate 20 0) True, (k + 1, None)))\<rparr>"

lemma scripted_answers: "answers (scripted_device script) (scripted script d) d"
proof -
  have sc: "scripted script (fst d, None) = scripted script d" by (simp add: scripted_def fun_eq_iff)
  have rep: "ethercat_reply (reply_header @ cs @ replicate 20 0)" for cs
    by (rule reply_header_ok) simp
  have rcv: "receives_as (reply_header @ concat cs @ replicate 20 0) cs (replicate 20 0)"
    if "\<forall>c \<in> set cs. wf_chunk c" for cs
    using that by (auto simp: receives_as_def stops_def field_replicate0 reply_header_def)
  have wf: "wf_chunk (scripted script d c)" "length (scripted script d c) = length c"
    "pv_index (pdu_view (scripted script d c)) = pv_index (pdu_view c)" if "wf_chunk c" for c
    using reply_chunk_wf [OF that] by (simp_all add: scripted_def)
  show ?thesis unfolding answers_def
  proof (intro conjI allI)
    fix n
    show "\<exists>tx d1. dev_tx (scripted_device script) d n = (TxBuffer tx, d1) \<and> length tx = n \<and>
       (\<forall>hdr cs. length hdr = 16 \<and> (\<forall>c \<in> set cs. wf_chunk c) \<longrightarrow>
         (\<exists>d2 reply d3 r. dev_send (scripted_device script) d1 (hdr @ concat cs) = (True, d2) \<and>
           dev_rx (scripted_device script) d2 = (RxFrame reply True, d3) \<and> ethercat_reply reply \<and>
           receives_as reply (map (scripted script d) cs) r))"
    proof (rule exI [of _ "replicate n 0"], rule exI [of _ d], intro conjI allI impI)
      fix hdr :: bytes and cs :: "bytes list"
      assume a: "length hdr = 16 \<and> (\<forall>c \<in> set cs. wf_chunk c)"
      then have "\<forall>c \<in> set (map (scripted script d) cs). wf_chunk c" using wf(1) by simp
      from a rep rcv [OF this] show "\<exists>d2 reply d3 r. dev_send (scripted_device script) d (hdr @ concat cs) = (True, d2) \<and>
           dev_rx (scripted_device script) d2 = (RxFrame reply True, d3) \<and> ethercat_reply reply \<and>
           receives_as reply (map (scripted script d) cs) r"
        by (intro exI [of _ "(fst d, Some (hdr @ concat cs))"]) (auto simp: scripted_device_def frame_pdus_concat
          sc case_prod_unfold)
    qed (simp_all add: scripted_device_def)
  next
    fix c
    show "wf_chunk c \<longrightarrow> wf_chunk (scripted script d c) \<and> length (scripted script d c) = length c \<and>
        pv_index (pdu_view (scripted script d c)) = pv_index (pdu_view c)"
      using wf by simp
  qed
qed

text \<open>An interface with one free socket.\<close>

definition free_socket :: "nat \<Rightarrow> (nat \<times> bytes option) SocketInterface" where
  "free_socket k =
     (SocketInterface_new 0 (PduInterface_new (0, None) (replicate 200 0)))
       \<lparr>socket_set := \<lparr>free_index = 1, items = [Exist (PduSocket_new (replicate k 0))]\<rparr>\<rparr>"

lemma free_socket_ready: "k < 180 \<Longrightarrow> ready (free_socket k) [PduSocket_new (replicate k 0)] 0"
  by (auto simp: ready_def free_socket_def SocketInterface_new_def idle_def
    dense_def get_socket_def get_item_def get_def roomy_def PduSocket_new_def socket_fits_def
    PduInterface_new_def)

end
