(* ===== verification/Al_State_Transfer.thy ===== *)
theory Al_State_Transfer
  imports Task_Support
begin

text \<open>
  \<open>src/src/task/al_state_transfer.rs\<close> and \<open>change_al_state\<close> of \<open>src/src/task/mod.rs\<close>: moving slaves to
  another state of the application layer. The task reads the status, acknowledges a pending error
  (acknowledge flag on, then off, then the status again), takes the SII back, requests the target
  state and polls the status until the slave has arrived, reports an error or runs out of time.
\<close>

section \<open>The task\<close>

definition PREOP_TIMEOUT_DEFAULT_MS :: u32 where "PREOP_TIMEOUT_DEFAULT_MS = 3000"
definition SAFEOP_OP_TIMEOUT_DEFAULT_MS :: u32 where "SAFEOP_OP_TIMEOUT_DEFAULT_MS = 10000"
definition BACK_TO_INIT_TIMEOUT_DEFAULT_MS :: u32 where "BACK_TO_INIT_TIMEOUT_DEFAULT_MS = 5000"
definition BACK_TO_SAFEOP_TIMEOUT_DEFAULT_MS :: u32 where "BACK_TO_SAFEOP_TIMEOUT_DEFAULT_MS = 200"

definition max_timeout_ms :: u32 where
  "max_timeout_ms =
     (let m = PREOP_TIMEOUT_DEFAULT_MS;
          m = (if m < SAFEOP_OP_TIMEOUT_DEFAULT_MS then SAFEOP_OP_TIMEOUT_DEFAULT_MS else m);
          m = (if m < BACK_TO_INIT_TIMEOUT_DEFAULT_MS then BACK_TO_INIT_TIMEOUT_DEFAULT_MS else m)
      in if m < BACK_TO_SAFEOP_TIMEOUT_DEFAULT_MS then BACK_TO_SAFEOP_TIMEOUT_DEFAULT_MS else m)"

lemmas timeout_defs = PREOP_TIMEOUT_DEFAULT_MS_def SAFEOP_OP_TIMEOUT_DEFAULT_MS_def
  BACK_TO_INIT_TIMEOUT_DEFAULT_MS_def BACK_TO_SAFEOP_TIMEOUT_DEFAULT_MS_def max_timeout_ms_def

datatype AlStateTransferTaskError = AlStatusCodeError "AlState \<times> AlStatusCode"

datatype at_state =
    AtError "AlStateTransferTaskError TaskError" | AtIdle | AtRead | AtResetError AlState
  | AtOffAck AlState | AtResetSiiOwnership | AtRequest | AtPoll | AtComplete

record AlStateTransferTask =
  at_timer_start :: u64
  at_state :: at_state
  at_slave_address :: TargetSlave
  at_target_al :: AlState
  at_command :: Command
  at_current_al_state :: AlState
  at_timeout_ms :: u32

definition at_buffer_size :: nat where
  "at_buffer_size =
     const_max (const_max (const_max 0 (reg_size AlStatus)) (reg_size AlControl)) (reg_size SiiAccess)"

definition AlStateTransferTask_new :: AlStateTransferTask where
  "AlStateTransferTask_new =
     \<lparr>at_timer_start = 0, at_state = AtIdle, at_slave_address = TargetSlave_default,
      at_target_al = AlState.Init, at_command = Command_default, at_current_al_state = AlState.Init,
      at_timeout_ms = 0\<rparr>"

definition at_start :: "AlStateTransferTask \<Rightarrow> TargetSlave \<Rightarrow> AlState \<Rightarrow> AlStateTransferTask" where
  "at_start t addr target_al_state =
     t\<lparr>at_slave_address := addr, at_target_al := target_al_state, at_state := AtRead,
       at_command := Command_default\<rparr>"

definition at_wait :: "AlStateTransferTask \<Rightarrow> (AlStateTransferTaskError TaskError + AlState) option" where
  "at_wait t =
     (case at_state t of
        AtComplete \<Rightarrow> Some (Inr (at_current_al_state t))
      | AtError err \<Rightarrow> Some (Inl err)
      | _ \<Rightarrow> None)"

definition at_is_busy :: "AlStateTransferTask \<Rightarrow> bool" where
  "at_is_busy t =
     (case at_state t of AtIdle \<Rightarrow> False | AtComplete \<Rightarrow> False | AtError _ \<Rightarrow> False | _ \<Rightarrow> True)"

definition at_timeout :: "AlState \<Rightarrow> AlState \<Rightarrow> u32" where
  "at_timeout current target =
     (if current = PreOperational \<and> target = SafeOperational \<or> target = Operational
      then SAFEOP_OP_TIMEOUT_DEFAULT_MS
      else case target of
        PreOperational \<Rightarrow> PREOP_TIMEOUT_DEFAULT_MS
      | Bootstrap \<Rightarrow> PREOP_TIMEOUT_DEFAULT_MS
      | AlState.Init \<Rightarrow> BACK_TO_INIT_TIMEOUT_DEFAULT_MS
      | SafeOperational \<Rightarrow> BACK_TO_SAFEOP_TIMEOUT_DEFAULT_MS
      | _ \<Rightarrow> max_timeout_ms)"

definition at_next_pdu ::
    "crates \<Rightarrow> AlStateTransferTask \<Rightarrow> bytes \<Rightarrow>
       ((Command \<times> nat) option \<times> AlStateTransferTask \<times> bytes) rust" where
  "at_next_pdu X t buf =
     (let read_status = Command_new_read (at_slave_address t) (reg_address AlStatus);
          write_control = Command_new_write (at_slave_address t) (reg_address AlControl);
          write_access = Command_new_write (at_slave_address t) (reg_address SiiAccess) in
      case at_state t of
        AtIdle \<Rightarrow> ret (None, t, buf)
      | AtError _ \<Rightarrow> ret (None, t, buf)
      | AtRead \<Rightarrow> do {
          buf \<leftarrow> fill_to (reg_size AlStatus) 0 buf;
          ret (Some (read_status, reg_size AlStatus), t\<lparr>at_command := read_status\<rparr>, buf) }
      | AtResetError current_al_state \<Rightarrow> do {
          buf \<leftarrow> fill_to (reg_size AlStatus) 0 buf;
          buf \<leftarrow> reg_set X AlControl ''state'' (AlState_repr current_al_state) buf;
          buf \<leftarrow> reg_set_bit X AlControl ''acknowledge'' True buf;
          ret (Some (write_control, reg_size AlControl), t\<lparr>at_command := write_control\<rparr>, buf) }
      | AtOffAck current_al_state \<Rightarrow> do {
          buf \<leftarrow> fill_to (reg_size AlControl) 0 buf;
          buf \<leftarrow> reg_set X AlControl ''state'' (AlState_repr current_al_state) buf;
          buf \<leftarrow> reg_set_bit X AlControl ''acknowledge'' False buf;
          ret (Some (write_control, reg_size AlControl), t\<lparr>at_command := write_control\<rparr>, buf) }
      | AtResetSiiOwnership \<Rightarrow> do {
          buf \<leftarrow> fill_to (reg_size SiiAccess) 0 buf;
          buf \<leftarrow> reg_set_bit X SiiAccess ''owner'' True buf;
          buf \<leftarrow> reg_set_bit X SiiAccess ''reset_access'' False buf;
          ret (Some (write_access, reg_size SiiAccess), t\<lparr>at_command := write_access\<rparr>, buf) }
      | AtRequest \<Rightarrow> do {
          buf \<leftarrow> fill_to (reg_size AlControl) 0 buf;
          buf \<leftarrow> reg_set X AlControl ''state'' (AlState_repr (at_target_al t)) buf;
          ret (Some (write_control, reg_size AlControl),
               t\<lparr>at_command := write_control,
                 at_timeout_ms := at_timeout (at_current_al_state t) (at_target_al t)\<rparr>, buf) }
      | AtPoll \<Rightarrow> do {
          buf \<leftarrow> fill_to (reg_size AlStatus) 0 buf;
          ret (Some (read_status, reg_size AlStatus), t\<lparr>at_command := read_status\<rparr>, buf) }
      | AtComplete \<Rightarrow> ret (None, t, buf))"

text \<open>The checks of \<open>recieve_and_process\<close> on the command and the working counter.\<close>

definition at_check :: "AlStateTransferTask \<Rightarrow> Pdu \<Rightarrow> AlStateTransferTask" where
  "at_check t recv_data = (
     let command = pdu_command recv_data; wkc = pdu_wkc recv_data;
       t = (if \<not> (cmd_type command = cmd_type (at_command t) \<and> cmd_ado command = cmd_ado (at_command t))
            then t\<lparr>at_state := AtError UnexpectedCommand\<rparr> else t)
     in case at_slave_address t of
          Single _ \<Rightarrow> if wkc \<noteq> 1 then t\<lparr>at_state := AtError (unexpected_wkc 1 wkc)\<rparr> else t
        | All n \<Rightarrow>
            if wkc \<noteq> n then t\<lparr>at_state := AtError (unexpected_wkc n wkc)\<rparr> else t)"

definition at_recieve_and_process ::
    "crates \<Rightarrow> AlStateTransferTask \<Rightarrow> Pdu \<Rightarrow> u64 \<Rightarrow> AlStateTransferTask rust" where
  "at_recieve_and_process X t recv_data sys_time = (
     let data = pdu_data recv_data; t = at_check t recv_data in
     case at_state t of
       AtIdle \<Rightarrow> ret t
     | AtError _ \<Rightarrow> ret t
     | AtComplete \<Rightarrow> ret t
     | AtRead \<Rightarrow> do {
         state \<leftarrow> reg_get X AlStatus ''state'' data;
         let al_state = AlState_from state;
         let t = t\<lparr>at_current_al_state := al_state\<rparr>;
         if al_state = at_target_al t then ret (t\<lparr>at_state := AtComplete\<rparr>)
         else do {
           change_err \<leftarrow> reg_bit X AlStatus ''change_err'' data;
           ret (if change_err
                then t\<lparr>at_state := AtResetError (if al_state = InvalidOrMixed then AlState.Init else al_state)\<rparr>
                else t\<lparr>at_state := AtResetSiiOwnership\<rparr>) } }
     | AtResetError al_state \<Rightarrow> ret (t\<lparr>at_state := AtOffAck al_state\<rparr>)
     | AtOffAck _ \<Rightarrow> ret (t\<lparr>at_state := AtRead\<rparr>)
     | AtResetSiiOwnership \<Rightarrow> ret (t\<lparr>at_state := AtRequest\<rparr>)
     | AtRequest \<Rightarrow> ret (t\<lparr>at_timer_start := sys_time, at_state := AtPoll\<rparr>)
     | AtPoll \<Rightarrow> do {
         state \<leftarrow> reg_get X AlStatus ''state'' data;
         let al_state = AlState_from state;
         let t = t\<lparr>at_current_al_state := al_state\<rparr>;
         if at_target_al t = al_state then ret (t\<lparr>at_state := AtComplete\<rparr>)
         else do {
           change_err \<leftarrow> reg_bit X AlStatus ''change_err'' data;
           if change_err then do {
             code \<leftarrow> reg_get X AlStatus ''al_status_code'' data;
             al_status_code \<leftarrow> AlStatusCode_try_from X code;
             ret (t\<lparr>at_state := AtError (TaskSpecific (AlStatusCodeError (al_state, al_status_code)))\<rparr>) }
           else if at_timer_start t < sys_time then do {
             limit \<leftarrow> umul (ucast (at_timeout_ms t)) (1000000000 :: u64);
             elapsed \<leftarrow> usub sys_time (at_timer_start t);
             ret (if limit < elapsed then t\<lparr>at_state := AtError Timeout\<rparr> else t) }
           else ret t } })"

definition al_state_transfer_ops :: "crates \<Rightarrow> AlStateTransferTask cyclic_task_ops" where
  "al_state_transfer_ops X =
     \<lparr>ct_next_pdu = at_next_pdu X, ct_recieve_and_process = at_recieve_and_process X,
      ct_is_busy = at_is_busy\<rparr>"

definition change_al_state ::
    "crates \<Rightarrow> 'd device \<Rightarrow> 'd SocketInterface \<Rightarrow> nat \<Rightarrow> TargetSlave \<Rightarrow> AlState \<Rightarrow>
       ((AlStateTransferTaskError TaskError + AlState) \<times> 'd SocketInterface) run" where
  "change_al_state X dev si handle target_slave al_state =
     and_then (Some (do {
         socket \<leftarrow> get_socket si handle;
         assert (at_buffer_size \<le> length (data_buf socket));
         ret (at_start AlStateTransferTask_new target_slave al_state) }))
     (\<lambda>t. and_then (block_on X dev (al_state_transfer_ops X) handle si t)
     (\<lambda>(r, si, t). Some (case r of
         Inl e \<Rightarrow> ret (Inl e, si)
       | Inr _ \<Rightarrow> do { w \<leftarrow> at_wait t; ret (w, si) })))"

section \<open>The contract\<close>

lemma at_check_eq:
  "at_check t p = t\<lparr>at_state :=
     (if pdu_wkc p \<noteq> num_targets (at_slave_address t)
      then AtError (unexpected_wkc (num_targets (at_slave_address t)) (pdu_wkc p))
      else if \<not> (cmd_type (pdu_command p) = cmd_type (at_command t) \<and>
                 cmd_ado (pdu_command p) = cmd_ado (at_command t))
      then AtError UnexpectedCommand else at_state t)\<rparr>"
  by (cases "at_slave_address t") (simp_all add: at_check_def Let_def)

text \<open>What an AL status says, and whether an answer carries it for all the addressed slaves.\<close>

definition status_state :: "bytes \<Rightarrow> AlState" where
  "status_state d = AlState_from (of_nat (field d 3 0))"

definition status_error :: "bytes \<Rightarrow> bool" where
  "status_error d = bit_at d 4"

definition status_code :: "bytes \<Rightarrow> u16" where
  "status_code d = of_nat (field d 47 32)"

definition at_expects :: "AlStateTransferTask \<Rightarrow> nat" where
  "at_expects t = (if at_state t = AtRead \<or> at_state t = AtPoll then 6 else if at_is_busy t then 2 else 0)"

definition at_need :: "AlStateTransferTask \<Rightarrow> nat" where
  "at_need t = (if at_is_busy t then 6 else 0)"

text \<open>
  The invariant relates a finished task to the answers \<open>R\<close> it was given: it completes only when
  one of them, from as many slaves as were addressed, reported the target state.
\<close>

definition at_inv :: "(Pdu \<Rightarrow> bool) \<Rightarrow> TargetSlave \<Rightarrow> AlState \<Rightarrow> AlStateTransferTask \<Rightarrow> bool" where
  "at_inv R addr target t \<longleftrightarrow> at_slave_address t = addr \<and> at_target_al t = target \<and> at_state t \<noteq> AtIdle \<and>
     (at_state t = AtComplete \<longrightarrow> at_current_al_state t = target \<and>
       (\<exists>p. R p \<and> pdu_wkc p = num_targets addr \<and> status_state (pdu_data p) = target))"

definition at_accepts :: "crates \<Rightarrow> (Pdu \<Rightarrow> bool) \<Rightarrow> AlStateTransferTask \<Rightarrow> Pdu \<Rightarrow> bool" where
  "at_accepts X R t p \<longleftrightarrow> R p \<and>
     (pdu_wkc p = num_targets (at_slave_address t) \<and> status_error (pdu_data p) \<longrightarrow>
       AlStatusCode_try_from X (status_code (pdu_data p)) \<noteq> None)"

lemma at_buffer_size_eq: "at_buffer_size = 6"
  by (simp add: at_buffer_size_def const_max_def AlStatus_def AlControl_def SiiAccess_def)

lemma umul_timeout: "umul (ucast (ms :: u32)) (1000000000 :: u64) = Some (ucast ms * 1000000000)"
proof -
  have "unat (ucast ms :: u64) = unat ms" by (simp add: unsigned_ucast_eq take_bit_unat)
  moreover have "unat ms < 2 ^ 32" using unsigned_less [of ms] by simp
  ultimately show ?thesis by (simp add: umul_def)
qed

lemma unat_timeout: "unat (ucast (ms :: u32) * 1000000000 :: u64) = unat ms * 1000000000"
proof -
  have "unat (ucast ms :: u64) = unat ms" by (simp add: unsigned_ucast_eq take_bit_unat)
  moreover have "unat ms < 2 ^ 32" using unsigned_less [of ms] by simp
  ultimately show ?thesis by (simp add: unat_word_ariths)
qed

context crates_laws
begin

lemma at_next_eq:
  assumes "at_need t \<le> length buf"
  shows "\<exists>r t' buf'. at_next_pdu X t buf = Some (r, t', buf') \<and> at_state t' = at_state t \<and>
    at_slave_address t' = at_slave_address t \<and> at_target_al t' = at_target_al t \<and>
    at_current_al_state t' = at_current_al_state t \<and>
    length buf' = length buf \<and> (if at_is_busy t then \<exists>c. r = Some (c, at_expects t) else r = None)"
  using assms
  by (cases "at_state t") (auto simp: at_next_pdu_def at_need_def at_is_busy_def at_expects_def reg_eqs
    AlStatus_def AlControl_def SiiAccess_def rust_simps Let_def)


text \<open>One answer, on each state of the task.\<close>

lemma at_recieve_error:
  "at_state (at_check t p) = AtError e \<Longrightarrow> at_recieve_and_process X t p time = Some (at_check t p)"
  by (simp add: at_recieve_and_process_def)

lemma at_recieve_read:
  assumes "at_state (at_check t p) = AtRead" and "length (pdu_data p) = 6"
  shows "at_recieve_and_process X t p time = Some (t\<lparr>at_current_al_state := status_state (pdu_data p),
    at_state := (if status_state (pdu_data p) = at_target_al t then AtComplete
      else if status_error (pdu_data p)
      then AtResetError (if status_state (pdu_data p) = InvalidOrMixed then AlState.Init
                         else status_state (pdu_data p))
      else AtResetSiiOwnership)\<rparr>)"
  using assms by (simp add: at_recieve_and_process_def reg_eqs AlStatus_def status_state_def
    status_error_def Let_def at_check_eq split: if_splits)

lemma at_recieve_poll:
  assumes "at_state (at_check t p) = AtPoll" and "length (pdu_data p) = 6"
    and "status_error (pdu_data p) \<Longrightarrow> AlStatusCode_try_from X (status_code (pdu_data p)) \<noteq> None"
  shows "at_recieve_and_process X t p time = Some (t\<lparr>at_current_al_state := status_state (pdu_data p),
    at_state := (if status_state (pdu_data p) = at_target_al t then AtComplete
      else if status_error (pdu_data p)
      then AtError (TaskSpecific (AlStatusCodeError (status_state (pdu_data p),
             the (AlStatusCode_try_from X (status_code (pdu_data p))))))
      else if unat (at_timeout_ms t) * 1000000000 < unat time - unat (at_timer_start t)
      then AtError Timeout else AtPoll)\<rparr>)"
proof -
  have t: "at_check t p = t" and st: "at_state t = AtPoll"
    using assms(1) by (auto simp: at_check_eq split: if_splits)
  have le: "ucast (at_timeout_ms t) * 1000000000 < time - at_timer_start t \<longleftrightarrow>
      unat (at_timeout_ms t) * 1000000000 < unat time - unat (at_timer_start t)"
    if "at_timer_start t < time"
    using that by (simp add: word_less_nat_alt unat_timeout unat_sub word_le_nat_alt)
  have ne: "\<not> unat (at_timeout_ms t) * 1000000000 < unat time - unat (at_timer_start t)"
    if "\<not> at_timer_start t < time"
    using that by (simp add: word_less_nat_alt)
  show ?thesis
    using assms(2,3) le ne st
    by (auto simp: at_recieve_and_process_def t reg_eqs AlStatus_def status_state_def
      status_error_def status_code_def Let_def umul_timeout usub_def)
qed

lemma at_recieve_other:
  assumes "\<nexists>e. at_state (at_check t p) = AtError e" and "at_state t \<noteq> AtRead" and "at_state t \<noteq> AtPoll"
  shows "\<exists>t'. at_recieve_and_process X t p time = Some t' \<and> at_slave_address t' = at_slave_address t \<and>
    at_target_al t' = at_target_al t \<and> at_current_al_state t' = at_current_al_state t \<and>
    (at_is_busy t' \<longleftrightarrow> at_is_busy t) \<and> (at_state t' = AtComplete \<longleftrightarrow> at_state t = AtComplete) \<and>
    (at_state t' = AtIdle \<longleftrightarrow> at_state t = AtIdle)"
proof -
  have t: "at_check t p = t"
    using assms(1) by (auto simp: at_check_eq split: if_splits)
  show ?thesis
    using assms(2,3)
    by (cases "at_state t") (auto simp: at_recieve_and_process_def t at_is_busy_def)
qed

lemma at_recieve_inv:
  assumes inv: "at_inv R addr target t" and acc: "at_accepts X R t p"
    and len: "length (pdu_data p) = at_expects t"
  shows "\<exists>t'. at_recieve_and_process X t p time = Some t' \<and> at_inv R addr target t' \<and> at_need t' \<le> at_need t"
proof (cases "\<exists>e. at_state (at_check t p) = AtError e")
  case True
  then obtain e where e: "at_state (at_check t p) = AtError e" by blast
  with inv have "at_inv R addr target (at_check t p)" "at_need (at_check t p) \<le> at_need t"
    by (auto simp: at_inv_def at_check_eq at_need_def at_is_busy_def)
  with at_recieve_error [OF e] show ?thesis by auto
next
  case False
  then have st: "at_state (at_check t p) = at_state t" and wkc: "pdu_wkc p = num_targets addr"
    using inv by (auto simp: at_check_eq at_inv_def split: if_splits)
  show ?thesis
  proof (cases "at_state t = AtRead \<or> at_state t = AtPoll")
    case True
    then have l: "length (pdu_data p) = 6" using len by (auto simp: at_expects_def)
    have code: "status_error (pdu_data p) \<Longrightarrow> AlStatusCode_try_from X (status_code (pdu_data p)) \<noteq> None"
      using acc wkc inv by (auto simp: at_accepts_def at_inv_def)
    from acc have R: "R p" by (simp add: at_accepts_def)
    from inv have t: "at_slave_address t = addr" "at_target_al t = target" by (simp_all add: at_inv_def)
    from True show ?thesis
    proof
      assume s: "at_state t = AtRead"
      then show ?thesis
        using R wkc t by (simp add: at_recieve_read [OF _ l] st at_inv_def at_need_def at_is_busy_def) blast
    next
      assume s: "at_state t = AtPoll"
      then show ?thesis
        using R wkc t by (simp add: at_recieve_poll [OF _ l code] st at_inv_def at_need_def at_is_busy_def) blast
    qed
  next
    case other: False
    obtain t' where t': "at_recieve_and_process X t p time = Some t'" "at_slave_address t' = at_slave_address t"
      "at_target_al t' = at_target_al t" "at_current_al_state t' = at_current_al_state t"
      "at_is_busy t' \<longleftrightarrow> at_is_busy t" "at_state t' = AtComplete \<longleftrightarrow> at_state t = AtComplete"
      "at_state t' = AtIdle \<longleftrightarrow> at_state t = AtIdle"
      using at_recieve_other [of t p time] False other by blast
    with inv show ?thesis by (auto simp: at_inv_def at_need_def)
  qed
qed

end

sublocale crates_laws \<subseteq> at: terminating_task "al_state_transfer_ops X" "at_inv R addr target"
    at_need at_expects "at_accepts X R" for R addr target
proof (unfold_locales, goal_cases)
  case (1 t buf)
  from at_next_eq [OF this(2)] obtain r t' buf' where
    "at_next_pdu X t buf = Some (r, t', buf')" "at_state t' = at_state t"
    "at_slave_address t' = at_slave_address t" "at_target_al t' = at_target_al t"
    "at_current_al_state t' = at_current_al_state t" "length buf' = length buf"
    "if at_is_busy t then \<exists>c. r = Some (c, at_expects t) else r = None" by blast
  with 1 show ?case
    by (auto simp: al_state_transfer_ops_def at_inv_def at_need_def at_expects_def at_is_busy_def
      split: if_splits)
next
  case (2 t p time)
  then show ?case using at_recieve_inv by (simp add: al_state_transfer_ops_def)
next
  case (3 t buf)
  then show ?case
    by (cases "at_state t") (auto simp: al_state_transfer_ops_def at_next_pdu_def at_is_busy_def Let_def)
qed

context crates_laws
begin

lemmas at_block_on = at.block_on_free

end

section \<open>Changing the state\<close>

text \<open>Every AL status an answer carries is one whose error code the program knows.\<close>

text \<open>
  On a network that may lose, alter or invent answers the task still finishes as complete only
  with the target as the state it has read.
\<close>

definition at_true :: "AlState \<Rightarrow> AlStateTransferTask \<Rightarrow> bool" where
  "at_true target t \<longleftrightarrow>
     at_target_al t = target \<and> (at_state t = AtComplete \<longrightarrow> at_current_al_state t = target)"

lemma at_true_next: "at_true target t \<Longrightarrow> at_next_pdu X t buf = Some (r, t', buf') \<Longrightarrow> at_true target t'"
  by (auto simp: at_true_def at_next_pdu_def Let_def split: at_state.splits Option.bind_splits)

lemma at_true_recieve:
  "at_true target t \<Longrightarrow> at_recieve_and_process X t p time = Some t' \<Longrightarrow> at_true target t'"
  by (auto simp: at_true_def at_recieve_and_process_def at_check_eq Let_def
    split: at_state.splits Option.bind_splits if_splits)

lemma at_true_wait: "at_true target t \<Longrightarrow> at_wait t = Some (Inr s) \<Longrightarrow> s = target"
  by (auto simp: at_true_def at_wait_def split: at_state.splits)

interpretation at_target: task_invariant "al_state_transfer_ops X" "at_true target" "at_true target"
  for X target
  by unfold_locales (auto simp: al_state_transfer_ops_def intro: at_true_next at_true_recieve)

text \<open>
  C7: a state change that is reported as done has reached the requested state, whatever the
  network does. For every device, every socket interface and every behaviour of the macros the
  code relies on, a run of \<open>change_al_state\<close> that returns \<open>Ok(s)\<close> returns the target for \<open>s\<close>.
\<close>

theorem change_al_state_target:
  "case change_al_state X dev si h addr target of Some (Some (Inr s, si')) \<Rightarrow> s = target | _ \<Rightarrow> True"
proof -
  have "s = target" if run: "change_al_state X dev si h addr target = Some (Some (Inr s, si'))" for s si'
  proof -
    let ?t = "at_start AlStateTransferTask_new addr target"
    from run obtain si1 t1 where
      b: "block_on X dev (al_state_transfer_ops X) h si ?t =
        Some (Some (Inr () :: AlStateTransferTaskError TaskError + unit, si1, t1))" and w: "at_wait t1 = Some (Inr s)"
      by (auto simp: change_al_state_def and_then_def split: option.splits sum.splits Option.bind_splits)
    from at_target.block_on_keeps [of X dev X h si ?t 0 _ si1 t1 target] b
    have "at_true target t1"
      by (auto simp: block_on_def at_true_def at_start_def AlStateTransferTask_new_def)
    with w show ?thesis by (simp add: at_true_wait)
  qed
  then show ?thesis by (auto split: option.splits prod.splits sum.splits)
qed

definition known_codes :: "crates \<Rightarrow> (bytes \<Rightarrow> bytes) \<Rightarrow> bool" where
  "known_codes X slaves \<longleftrightarrow> (\<forall>c. wf_chunk c \<and> pv_wkc (pdu_view c) = 0 \<and>
     pv_wkc (pdu_view (slaves c)) \<noteq> 0 \<and> status_error (pv_data (pdu_view (slaves c))) \<longrightarrow>
     AlStatusCode_try_from X (status_code (pv_data (pdu_view (slaves c)))) \<noteq> None)"

text \<open>
  C6: changing the state of slaves ends, and a success is real. On a network that answers, with
  slaves that report only known error codes, and with a free socket of at least six bytes,
  \<open>change_al_state\<close> returns without a panic; when it returns \<open>Ok(s)\<close>, then \<open>s\<close> is the requested
  state, and some answer of the network, counted by as many slaves as were addressed, has
  reported it.
\<close>

theorem change_al_state_confirmed:
  fixes si :: "'d SocketInterface"
  assumes X: "crates_laws X" and net: "\<And>d. answers dev (slaves d) d" and rd: "ready si ss h"
    and s: "sk_command (ss ! h) = None" "\<not> recv_flag (ss ! h)" "6 \<le> length (data_buf (ss ! h))"
    and code: "\<And>d. known_codes X (slaves d)" and addr: "num_targets addr \<noteq> 0"
  shows "\<exists>r si'. change_al_state X dev si h addr target = Some (Some (r, si')) \<and>
    (\<forall>s. r = Inr s \<longrightarrow> s = target \<and>
      (\<exists>d c. wf_chunk c \<and> pv_wkc (pdu_view (slaves d c)) = num_targets addr \<and>
         status_state (pv_data (pdu_view (slaves d c))) = target))"
proof -
  let ?t = "at_start AlStateTransferTask_new addr target"
  let ?R = "\<lambda>p. \<exists>d c. wf_chunk c \<and> p = chunk_pdu X (slaves d c)"
  have inv: "at_inv ?R addr target ?t" by (simp add: at_inv_def at_start_def)
  have acc: "at_accepts X ?R t (chunk_pdu X (slaves d c))"
    if "at_inv ?R addr target t" "wf_chunk c" "pv_wkc (pdu_view c) = 0" for t d c
    using that code [of d] addr
    by (auto simp: at_accepts_def at_inv_def known_codes_def chunk_pdu_def Let_def)
  have need: "at_need ?t \<le> length (data_buf (ss ! h))" using s(3) by (simp add: at_need_def)
  obtain r si' t' where run: "block_on X dev (al_state_transfer_ops X) h si ?t =
      (Some (Some (r, si', t')) ::
        ((AlStateTransferTaskError TaskError + unit) \<times> 'd SocketInterface \<times> AlStateTransferTask) run)"
    and t': "at_inv ?R addr target t'"
      "r = Inr () \<and> \<not> ct_is_busy (al_state_transfer_ops X) t' \<or> r = Inl Timeout"
    by (rule crates_laws.at_block_on [OF X X net acc inv rd s(1,2) need])
  have ch: "change_al_state X dev si h addr target = Some (case r of
         Inl e \<Rightarrow> ret (Inl e, si')
       | Inr _ \<Rightarrow> do { w \<leftarrow> at_wait t'; ret (w, si') })"
    using ready_socket [OF rd] s(3) by (simp add: change_al_state_def and_then_def assert_def run at_buffer_size_eq)
  show ?thesis
    using t' by (cases "at_state t'") (auto simp: ch at_wait_def at_is_busy_def at_inv_def chunk_pdu_def Let_def
      al_state_transfer_ops_def, blast)
qed

definition preop_slave :: "nat \<Rightarrow> pdu_content \<Rightarrow> bytes \<times> u16" where
  "preop_slave k v = ([2, 0, 0, 0, 0, 0], 1)"

theorem change_al_state_confirmed_witness:
  "crates_laws ref_crates \<and> ready (free_socket 6) [PduSocket_new (replicate 6 0)] 0 \<and>
   (\<exists>r si'. change_al_state ref_crates (scripted_device preop_slave) (free_socket 6) 0
        (Single (StationAddress 1)) PreOperational = Some (Some (r, si')) \<and>
      (\<forall>s. r = Inr s \<longrightarrow> s = PreOperational))"
proof -
  have rd: "ready (free_socket 6) [PduSocket_new (replicate 6 0)] 0"
    by (rule free_socket_ready) simp
  have "known_codes ref_crates (scripted preop_slave d)" for d
  proof -
    have "\<not> status_error (pv_data (pdu_view (scripted preop_slave d c)))" if "wf_chunk c" for c
      using reply_chunk_wf(3) [OF that] wf_chunk_data [OF that] that
      by (cases "pv_data (pdu_view c)")
        (auto simp: scripted_def preop_slave_def status_error_def bit_at_def copy_zip_def wf_chunk_def nth_append)
    then show ?thesis by (auto simp: known_codes_def)
  qed
  from change_al_state_confirmed [OF ref_crates_laws scripted_answers rd _ _ _ this,
      of "Single (StationAddress 1)" PreOperational]
  show ?thesis using rd ref_crates_laws by (auto simp: PduSocket_new_def)
qed

section \<open>Acknowledging an error\<close>

definition at_answer :: "AlStateTransferTask \<Rightarrow> Pdu \<Rightarrow> bool" where
  "at_answer t p \<longleftrightarrow> pdu_wkc p = num_targets (at_slave_address t) \<and>
     cmd_type (pdu_command p) = cmd_type (at_command t) \<and> cmd_ado (pdu_command p) = cmd_ado (at_command t)"

lemma at_check_answer: "at_answer t p \<Longrightarrow> at_check t p = t"
  by (simp add: at_check_eq at_answer_def)

lemma control_bytes:
  "set_field (set_field [0, 0] 3 0 (unat (AlState_repr s))) 4 4 (of_bool b) =
     [AlState_repr s OR (if b then 0x10 else 0), 0]"
  by (cases s; cases b)
    (simp_all add: set_field_def byte_of_def bit_at_def upt_rec of_bits_def bit_Suc_0_iff)

lemma control_buffer:
  "take 2 (set_field (set_field ([0, 0] @ buf) 3 0 (unat (AlState_repr s))) 4 4 (of_bool b)) =
     [AlState_repr s OR (if b then 0x10 else 0), 0]"
proof -
  have "set_field (set_field ([0, 0] @ buf) 3 0 (unat (AlState_repr s))) 4 4 (of_bool b) =
    set_field (set_field [0, 0] 3 0 (unat (AlState_repr s))) 4 4 (of_bool b) @ buf"
    by (subst set_field_append, simp, subst set_field_append, simp, rule refl)
  then show ?thesis unfolding control_bytes by simp
qed

context crates_laws
begin

lemma at_next_control:
  assumes "at_state t = AtResetError s \<and> b \<or> at_state t = AtOffAck s \<and> \<not> b" and "6 \<le> length buf"
    and "w = Command_new_write (at_slave_address t) 0x120"
  shows "\<exists>buf'. at_next_pdu X t buf = Some (Some (w, 2), t\<lparr>at_command := w\<rparr>, buf') \<and>
    length buf' = length buf \<and> take 2 buf' = [AlState_repr s OR (if b then 0x10 else 0), 0]"
proof -
  have two: "replicate 2 (0::u8) = [0, 0]" by (simp add: numeral_2_eq_2)
  have six: "replicate 6 (0::u8) @ xs = [0, 0] @ [0, 0, 0, 0] @ xs" for xs
    by (simp add: eval_nat_numeral)
  from assms show ?thesis
    using control_buffer [of "[0, 0, 0, 0] @ drop 6 buf" s True] control_buffer [of "drop 2 buf" s False]
    by (auto simp: at_next_pdu_def reg_eqs AlStatus_def AlControl_def rust_simps Let_def two six)
qed

lemma at_recieve_control:
  assumes "at_answer t p"
  shows "at_state t = AtResetError s \<Longrightarrow> at_recieve_and_process X t p time = Some (t\<lparr>at_state := AtOffAck s\<rparr>)"
    and "at_state t = AtOffAck s \<Longrightarrow> at_recieve_and_process X t p time = Some (t\<lparr>at_state := AtRead\<rparr>)"
  by (simp_all add: at_recieve_and_process_def at_check_answer [OF assms])

end

text \<open>
  An error of the slave is acknowledged before anything is requested. When the first status
  read shows the error flag in a state other than the target, the task writes the AL control
  register twice, with the reported state (\<open>Init\<close> for a mixed one), first with the acknowledge flag
  and, once that is answered, without it, and then reads the status again.
\<close>

lemma al_error_acknowledged:
  assumes X: "crates_laws X" and t: "at_state t = AtRead" and p: "at_answer t p"
    and d: "length (pdu_data p) = 6" "status_error (pdu_data p)" "status_state (pdu_data p) \<noteq> at_target_al t"
    and buf: "6 \<le> length buf"
    and s: "s = (if status_state (pdu_data p) = InvalidOrMixed then AlState.Init else status_state (pdu_data p))"
    and w: "w = Command_new_write (at_slave_address t) 0x120"
  shows "\<exists>t1 t2 buf1. at_recieve_and_process X t p time = Some t1 \<and>
    at_next_pdu X t1 buf = Some (Some (w, 2), t2, buf1) \<and> take 2 buf1 = [AlState_repr s OR 0x10, 0] \<and>
    (\<forall>p'. at_answer t2 p' \<longrightarrow> (\<exists>t3 t4 buf2. at_recieve_and_process X t2 p' time' = Some t3 \<and>
      at_next_pdu X t3 buf1 = Some (Some (w, 2), t4, buf2) \<and> take 2 buf2 = [AlState_repr s, 0] \<and>
      (\<forall>p''. at_answer t4 p'' \<longrightarrow> (\<exists>t5. at_recieve_and_process X t4 p'' time'' = Some t5 \<and>
        at_state t5 = AtRead \<and> at_target_al t5 = at_target_al t))))"
proof -
  define t1 where "t1 = t\<lparr>at_current_al_state := status_state (pdu_data p), at_state := AtResetError s\<rparr>"
  have r1: "at_recieve_and_process X t p time = Some t1"
    using crates_laws.at_recieve_read [OF X, of t p time] t d at_check_answer [OF p]
    by (simp add: t1_def s)
  obtain buf1 where n1: "at_next_pdu X t1 buf = Some (Some (w, 2), t1\<lparr>at_command := w\<rparr>, buf1)"
    "length buf1 = length buf" "take 2 buf1 = [AlState_repr s OR 0x10, 0]"
    using crates_laws.at_next_control [OF X, of t1 s True buf w] buf w by (auto simp: t1_def)
  have "\<exists>t3 t4 buf2. at_recieve_and_process X (t1\<lparr>at_command := w\<rparr>) p' time' = Some t3 \<and>
      at_next_pdu X t3 buf1 = Some (Some (w, 2), t4, buf2) \<and> take 2 buf2 = [AlState_repr s, 0] \<and>
      (\<forall>p''. at_answer t4 p'' \<longrightarrow> (\<exists>t5. at_recieve_and_process X t4 p'' time'' = Some t5 \<and>
        at_state t5 = AtRead \<and> at_target_al t5 = at_target_al t))"
    if p': "at_answer (t1\<lparr>at_command := w\<rparr>) p'" for p'
  proof -
    define t3 where "t3 = t1\<lparr>at_command := w, at_state := AtOffAck s\<rparr>"
    have r3: "at_recieve_and_process X (t1\<lparr>at_command := w\<rparr>) p' time' = Some t3"
      using crates_laws.at_recieve_control(1) [OF X p', of s time'] by (simp add: t1_def t3_def)
    obtain buf2 where n3: "at_next_pdu X t3 buf1 = Some (Some (w, 2), t3\<lparr>at_command := w\<rparr>, buf2)"
      "take 2 buf2 = [AlState_repr s, 0]"
      using crates_laws.at_next_control [OF X, of t3 s False buf1 w] buf n1(2) w
      by (auto simp: t1_def t3_def)
    have "\<exists>t5. at_recieve_and_process X (t3\<lparr>at_command := w\<rparr>) p'' time'' = Some t5 \<and>
        at_state t5 = AtRead \<and> at_target_al t5 = at_target_al t"
      if "at_answer (t3\<lparr>at_command := w\<rparr>) p''" for p''
      using crates_laws.at_recieve_control(2) [OF X that, of s time''] by (simp add: t1_def t3_def)
    with r3 n3 show ?thesis by blast
  qed
  with r1 n1 show ?thesis by blast
qed

section \<open>Running out of time\<close>

text \<open>
  While the task polls, a status that shows neither the target state nor an error ends it
  only by the time limit, and the limit is the timeout in milliseconds times \<open>10^9\<close> of the clock,
  which counts nanoseconds: a thousand times the intended time.
\<close>

lemma al_poll_timeout:
  assumes X: "crates_laws X" and t: "at_state t = AtPoll" and p: "at_answer t p"
    and d: "length (pdu_data p) = 6" "\<not> status_error (pdu_data p)" "status_state (pdu_data p) \<noteq> at_target_al t"
  shows "at_recieve_and_process X t p time = Some (t\<lparr>at_current_al_state := status_state (pdu_data p),
    at_state := (if unat (at_timer_start t) + unat (at_timeout_ms t) * 1000 * 1000000 < unat time
                 then AtError Timeout else AtPoll)\<rparr>)"
  using crates_laws.at_recieve_poll [OF X, of t p time] t d at_check_answer [OF p]
  by (simp add: less_diff_conv add.commute)

end
