(* ===== verification/Sii_Read.thy ===== *)
theory Sii_Read
  imports Task_Support
begin

text \<open>
  \<open>src/src/task/sii_read.rs\<close> and \<open>read_sii\<close> of \<open>src/src/task/mod.rs\<close>: reading a word of the slave
  information interface. The task looks at the control register, takes the ownership of the
  interface, writes the address, starts the read, waits until the slave is done and fetches the
  data.
\<close>

section \<open>The task\<close>

definition TIMEOUT_MS :: u32 where "TIMEOUT_MS = 100"

datatype SiiTaskError =
    PermittionDenied | AddressSizeOver | Busy | CheckSumError | DeviceInfoError | CommandError

datatype sr_state =
    SrError "SiiTaskError TaskError" | SrIdle | SrInit | SrSetOwnership | SrCheckOwnership
  | SrSetAddress | SrSetReadOperation | SrWait | SrRead | SrComplete

record SiiReader =
  sr_timer_start :: u64
  sr_command :: Command
  sr_slave_address :: SlaveAddress
  sr_state :: sr_state
  sr_sii_address :: u16
  sr_read_size :: nat
  sr_sii_data :: bytes

definition sr_buffer_size :: nat where
  "sr_buffer_size =
     const_max (const_max (const_max (const_max 0 (reg_size SiiAccess)) (reg_size SiiControl))
       (reg_size SiiAddress)) (reg_size SiiData)"

definition SiiReader_new :: SiiReader where
  "SiiReader_new =
     \<lparr>sr_timer_start = 0, sr_command = Command_default, sr_slave_address = SlavePosition 0,
      sr_state = SrIdle, sr_sii_address = 0, sr_read_size = 0, sr_sii_data = reg_new SiiData\<rparr>"

definition sr_start :: "SiiReader \<Rightarrow> SlaveAddress \<Rightarrow> u16 \<Rightarrow> SiiReader" where
  "sr_start t addr sii_address =
     t\<lparr>sr_slave_address := addr, sr_sii_address := sii_address, sr_state := SrInit,
       sr_command := Command_default\<rparr>"

definition sr_wait :: "SiiReader \<Rightarrow> (SiiTaskError TaskError + bytes \<times> nat) option" where
  "sr_wait t =
     (case sr_state t of
        SrComplete \<Rightarrow> Some (Inr (sr_sii_data t, sr_read_size t))
      | SrError err \<Rightarrow> Some (Inl err)
      | _ \<Rightarrow> None)"

definition sr_is_busy :: "SiiReader \<Rightarrow> bool" where
  "sr_is_busy t =
     (case sr_state t of SrIdle \<Rightarrow> False | SrComplete \<Rightarrow> False | SrError _ \<Rightarrow> False | _ \<Rightarrow> True)"

definition sr_next_pdu ::
    "crates \<Rightarrow> SiiReader \<Rightarrow> bytes \<Rightarrow> ((Command \<times> nat) option \<times> SiiReader \<times> bytes) rust" where
  "sr_next_pdu X t buf =
     (let read = (\<lambda>r. Command_new_read (Single (sr_slave_address t)) (reg_address r));
          write = (\<lambda>r. Command_new_write (Single (sr_slave_address t)) (reg_address r));
          request = (\<lambda>c r buf. ret (Some (c, reg_size r), t\<lparr>sr_command := c\<rparr>, buf)) in
      case sr_state t of
        SrIdle \<Rightarrow> ret (None, t, buf)
      | SrError _ \<Rightarrow> ret (None, t, buf)
      | SrInit \<Rightarrow> do {
          buf \<leftarrow> fill_to (reg_size SiiControl) 0 buf;
          request (read SiiControl) SiiControl buf }
      | SrSetOwnership \<Rightarrow> do {
          buf \<leftarrow> fill_to (reg_size SiiAccess) 0 buf;
          b \<leftarrow> slice 0 (reg_size SiiAccess) buf;
          b \<leftarrow> reg_set_bit X SiiAccess ''owner'' False b;
          b \<leftarrow> reg_set_bit X SiiAccess ''reset_access'' True b;
          request (write SiiAccess) SiiAccess (b @ drop (reg_size SiiAccess) buf) }
      | SrCheckOwnership \<Rightarrow> do {
          buf \<leftarrow> fill_to (reg_size SiiAccess) 0 buf;
          request (read SiiAccess) SiiAccess buf }
      | SrSetAddress \<Rightarrow> do {
          buf \<leftarrow> fill_to (reg_size SiiAddress) 0 buf;
          b \<leftarrow> slice 0 (reg_size SiiAddress) buf;
          b \<leftarrow> reg_set X SiiAddress ''sii_address'' (ucast (sr_sii_address t) :: u32) b;
          request (write SiiAddress) SiiAddress (b @ drop (reg_size SiiAddress) buf) }
      | SrSetReadOperation \<Rightarrow> do {
          buf \<leftarrow> fill_to (reg_size SiiControl) 0 buf;
          b \<leftarrow> slice 0 (reg_size SiiControl) buf;
          b \<leftarrow> reg_set_bit X SiiControl ''read_operation'' True b;
          request (write SiiControl) SiiControl (b @ drop (reg_size SiiControl) buf) }
      | SrWait \<Rightarrow> do {
          buf \<leftarrow> fill_to (reg_size SiiControl) 0 buf;
          request (read SiiControl) SiiControl buf }
      | SrRead \<Rightarrow> do {
          buf \<leftarrow> fill_to (reg_size SiiData) 0 buf;
          request (read SiiData) SiiData buf }
      | SrComplete \<Rightarrow> ret (None, t, buf))"

definition sr_check :: "SiiReader \<Rightarrow> Pdu \<Rightarrow> SiiReader" where
  "sr_check t recv_data = (
     let command = pdu_command recv_data; wkc = pdu_wkc recv_data;
       t = (if \<not> (cmd_type command = cmd_type (sr_command t) \<and> cmd_ado command = cmd_ado (sr_command t))
            then t\<lparr>sr_state := SrError UnexpectedCommand\<rparr> else t)
     in if wkc \<noteq> 1 then t\<lparr>sr_state := SrError (unexpected_wkc 1 wkc)\<rparr> else t)"

text \<open>The branch \<open>State::Init\<close>: every error that is found is overwritten at the end.\<close>

definition sr_init :: "crates \<Rightarrow> SiiReader \<Rightarrow> bytes \<Rightarrow> SiiReader rust" where
  "sr_init X t data = do {
     check_sum_error \<leftarrow> reg_bit X SiiControl ''check_sum_error'' data;
     let t = (if check_sum_error then t\<lparr>sr_state := SrError (TaskSpecific CheckSumError)\<rparr> else t);
     device_info_error \<leftarrow> reg_bit X SiiControl ''device_info_error'' data;
     let t = (if device_info_error then t\<lparr>sr_state := SrError (TaskSpecific DeviceInfoError)\<rparr> else t);
     size_over \<leftarrow> lazy_and (map_option Not (reg_bit X SiiControl ''address_algorithm'' data))
                    (map_option (\<lambda>a. a \<noteq> 0) (ushr (sr_sii_address t) 8));
     let t = (if size_over then t\<lparr>sr_state := SrError (TaskSpecific AddressSizeOver)\<rparr> else t);
     busy \<leftarrow> lazy_or (reg_bit X SiiControl ''busy'' data)
              (lazy_or (reg_bit X SiiControl ''read_operation'' data)
                (lazy_or (reg_bit X SiiControl ''write_operation'' data)
                  (reg_bit X SiiControl ''reload_operation'' data)));
     let t = (if busy then t\<lparr>sr_state := SrError (TaskSpecific Busy)\<rparr> else t);
     read_size \<leftarrow> reg_bit X SiiControl ''read_size'' data;
     ret (t\<lparr>sr_read_size := (if read_size then 8 else 4), sr_state := SrSetOwnership\<rparr>) }"

definition sr_recieve_and_process :: "crates \<Rightarrow> SiiReader \<Rightarrow> Pdu \<Rightarrow> u64 \<Rightarrow> SiiReader rust" where
  "sr_recieve_and_process X t recv_data sys_time = (
     let data = pdu_data recv_data; t = sr_check t recv_data in
     case sr_state t of
       SrIdle \<Rightarrow> ret t
     | SrError _ \<Rightarrow> ret t
     | SrInit \<Rightarrow> sr_init X t data
     | SrSetOwnership \<Rightarrow> ret (t\<lparr>sr_state := SrCheckOwnership\<rparr>)
     | SrCheckOwnership \<Rightarrow> do {
         denied \<leftarrow> lazy_or (reg_bit X SiiAccess ''owner'' data) (reg_bit X SiiAccess ''pdi_accessed'' data);
         let t = (if denied then t\<lparr>sr_state := SrError (TaskSpecific PermittionDenied)\<rparr> else t);
         ret (t\<lparr>sr_state := SrSetAddress\<rparr>) }
     | SrSetAddress \<Rightarrow> ret (t\<lparr>sr_state := SrSetReadOperation\<rparr>)
     | SrSetReadOperation \<Rightarrow> ret (t\<lparr>sr_state := SrWait, sr_timer_start := sys_time\<rparr>)
     | SrWait \<Rightarrow> do {
         command_error \<leftarrow> reg_bit X SiiControl ''command_error'' data;
         if command_error then ret (t\<lparr>sr_state := SrError (TaskSpecific CommandError)\<rparr>)
         else do {
           finished \<leftarrow> lazy_and (map_option Not (reg_bit X SiiControl ''busy'' data))
                      (map_option Not (reg_bit X SiiControl ''read_operation'' data));
           if finished then ret (t\<lparr>sr_state := SrRead\<rparr>)
           else if sr_timer_start t < sys_time then do {
             limit \<leftarrow> umul (ucast TIMEOUT_MS) (1000 :: u64);
             elapsed \<leftarrow> usub sys_time (sr_timer_start t);
             ret (if limit < elapsed then t\<lparr>sr_state := SrError Timeout\<rparr> else t) }
           else ret t } }
     | SrRead \<Rightarrow> ret (t\<lparr>sr_sii_data := copy_zip (sr_sii_data t) data, sr_state := SrComplete\<rparr>)
     | SrComplete \<Rightarrow> ret t)"

definition sii_reader_ops :: "crates \<Rightarrow> SiiReader cyclic_task_ops" where
  "sii_reader_ops X =
     \<lparr>ct_next_pdu = sr_next_pdu X, ct_recieve_and_process = sr_recieve_and_process X,
      ct_is_busy = sr_is_busy\<rparr>"

definition read_sii ::
    "crates \<Rightarrow> 'd device \<Rightarrow> 'd SocketInterface \<Rightarrow> nat \<Rightarrow> SlaveAddress \<Rightarrow> u16 \<Rightarrow>
       ((SiiTaskError TaskError + bytes \<times> nat) \<times> 'd SocketInterface) run" where
  "read_sii X dev si handle addr sii_address =
     and_then (Some (do {
         socket \<leftarrow> get_socket si handle;
         assert (sr_buffer_size \<le> length (data_buf socket));
         ret (sr_start SiiReader_new addr sii_address) }))
     (\<lambda>t. and_then (block_on X dev (sii_reader_ops X) handle si t)
     (\<lambda>(r, si, t). Some (case r of
         Inl e \<Rightarrow> ret (Inl e, si)
       | Inr _ \<Rightarrow> do { w \<leftarrow> sr_wait t; ret (w, si) })))"

section \<open>The contract\<close>

lemma sr_check_eq:
  "sr_check t p = (case unexpected 1 (sr_command t) p of Some e \<Rightarrow> t\<lparr>sr_state := SrError e\<rparr> | None \<Rightarrow> t)"
  by (simp add: sr_check_def unexpected_def Let_def)

definition sr_expects :: "SiiReader \<Rightarrow> nat" where
  "sr_expects t = (case sr_state t of SrSetAddress \<Rightarrow> 4 | SrRead \<Rightarrow> 8 | _ \<Rightarrow> if sr_is_busy t then 2 else 0)"

definition sr_need :: "SiiReader \<Rightarrow> nat" where
  "sr_need t = (if sr_is_busy t then 8 else 0)"

text \<open>
  A request of the task that the invariant records: while it waits for the answer to the last
  read, the command is the read of the data register at the slave. A finished task holds the data
  of an answer from the answers \<open>R\<close> to that read.
\<close>

definition sr_inv :: "(Pdu \<Rightarrow> bool) \<Rightarrow> SlaveAddress \<Rightarrow> SiiReader \<Rightarrow> bool" where
  "sr_inv R addr t \<longleftrightarrow> sr_slave_address t = addr \<and> sr_state t \<noteq> SrIdle \<and> length (sr_sii_data t) = 8 \<and>
     (sr_state t \<in> {SrSetOwnership, SrCheckOwnership, SrSetAddress, SrSetReadOperation, SrWait, SrRead,
        SrComplete} \<longrightarrow> sr_read_size t \<in> {4, 8}) \<and>
     (sr_state t = SrComplete \<longrightarrow> (\<exists>p. R p \<and> pdu_wkc p = 1 \<and> sr_sii_data t = pdu_data p))"

lemma sr_buffer_size_eq: "sr_buffer_size = 8"
  by (simp add: sr_buffer_size_def const_max_def SiiAccess_def SiiControl_def SiiAddress_def SiiData_def)

lemma umul_TIMEOUT_MS: "umul (ucast TIMEOUT_MS) (1000 :: u64) = Some 100000"
  by (simp add: umul_def TIMEOUT_MS_def)

context crates_laws
begin

lemma sr_next_eq:
  assumes "sr_need t \<le> length buf"
  shows "\<exists>r c buf'. sr_next_pdu X t buf = Some (r, t\<lparr>sr_command := c\<rparr>, buf') \<and>
    length buf' = length buf \<and> r = (if sr_is_busy t then Some (c, sr_expects t) else None)"
proof (cases "sr_is_busy t")
  case True
  with assms show ?thesis
    by (cases "sr_state t") (auto simp: sr_next_pdu_def sr_need_def sr_is_busy_def sr_expects_def reg_eqs
      SiiAccess_def SiiControl_def SiiAddress_def SiiData_def rust_simps Let_def)
next
  case False
  then show ?thesis
    by (cases "sr_state t") (auto simp: sr_next_pdu_def sr_is_busy_def Let_def intro: exI [of _ "sr_command t"])
qed

lemma sr_init_eq:
  assumes "length d = 2"
  shows "sr_init X t d = Some (t\<lparr>sr_read_size := (if bit_at d 6 then 8 else 4), sr_state := SrSetOwnership\<rparr>)"
  using assms by (simp add: sr_init_def reg_eqs SiiControl_def ushr_def Let_def)

lemma sr_recieve_inv:
  assumes inv: "sr_inv R addr t" and acc: "R p" and len: "length (pdu_data p) = sr_expects t"
  shows "\<exists>t'. sr_recieve_and_process X t p time = Some t' \<and> sr_inv R addr t' \<and> sr_need t' \<le> sr_need t"
proof (cases "unexpected 1 (sr_command t) p :: SiiTaskError TaskError option")
  case (Some e)
  then show ?thesis
    using inv by (auto simp: sr_recieve_and_process_def sr_check_eq sr_inv_def sr_need_def sr_is_busy_def)
next
  case None
  then have t: "sr_check t p = t" and wkc: "pdu_wkc p = 1"
    by (auto simp: sr_check_eq unexpected_def split: if_splits)
  show ?thesis
    using inv len acc wkc
    by (cases "sr_state t") (auto simp: sr_recieve_and_process_def t sr_init_eq sr_expects_def
      sr_is_busy_def reg_eqs SiiAccess_def SiiControl_def umul_TIMEOUT_MS usub_def Let_def sr_inv_def
      sr_need_def copy_zip_exact)
qed

end

sublocale crates_laws \<subseteq> sr: terminating_task "sii_reader_ops X" "sr_inv R addr" sr_need sr_expects
    "\<lambda>_. R" for R addr
proof (unfold_locales, goal_cases)
  case (1 t buf)
  from sr_next_eq [OF this(2)] 1 show ?case
    by (fastforce simp: sii_reader_ops_def sr_inv_def sr_need_def sr_expects_def sr_is_busy_def
      split: if_splits sr_state.splits)
next
  case (2 t p time)
  then show ?case using sr_recieve_inv by (simp add: sii_reader_ops_def)
next
  case (3 t buf)
  then show ?case
    by (cases "sr_state t") (auto simp: sii_reader_ops_def sr_next_pdu_def sr_is_busy_def Let_def)
qed

context crates_laws
begin

lemmas sr_block_on = sr.block_on_free

end

section \<open>Reading the SII\<close>

text \<open>
  C10: \<open>read_sii\<close> ends, and what it returns has been read. On a network that answers, with a free
  socket of at least eight bytes, it returns without a panic; a success is the eight bytes of
  data of an answer that one slave has taken, with a read size of four or eight.
\<close>

theorem read_sii_confirmed:
  fixes si :: "'d SocketInterface"
  assumes X: "crates_laws X" and net: "\<And>d. answers dev (slaves d) d" and rd: "ready si ss h"
    and s: "sk_command (ss ! h) = None" "\<not> recv_flag (ss ! h)" "8 \<le> length (data_buf (ss ! h))"
  shows "\<exists>r si'. read_sii X dev si h addr sii_address = Some (Some (r, si')) \<and>
    (\<forall>data n. r = Inr (data, n) \<longrightarrow> n \<in> {4, 8} \<and> length data = 8 \<and>
      (\<exists>d c. wf_chunk c \<and> pv_wkc (pdu_view (slaves d c)) = 1 \<and> data = pv_data (pdu_view (slaves d c))))"
proof -
  let ?t = "sr_start SiiReader_new addr sii_address"
  let ?R = "\<lambda>p. \<exists>d c. wf_chunk c \<and> p = chunk_pdu X (slaves d c)"
  have inv: "sr_inv ?R addr ?t"
    by (simp add: sr_inv_def sr_start_def SiiReader_new_def reg_new_def SiiData_def)
  have need: "sr_need ?t \<le> length (data_buf (ss ! h))" using s(3) by (simp add: sr_need_def)
  obtain r si' t' where run: "block_on X dev (sii_reader_ops X) h si ?t =
      (Some (Some (r, si', t')) :: ((SiiTaskError TaskError + unit) \<times> 'd SocketInterface \<times> SiiReader) run)"
    and t': "sr_inv ?R addr t'" "r = Inr () \<and> \<not> ct_is_busy (sii_reader_ops X) t' \<or> r = Inl Timeout"
    by (rule crates_laws.sr_block_on [OF X X net _ inv rd s(1,2) need]) auto
  have rs: "read_sii X dev si h addr sii_address = Some (case r of
         Inl e \<Rightarrow> ret (Inl e, si')
       | Inr _ \<Rightarrow> do { w \<leftarrow> sr_wait t'; ret (w, si') })"
    using ready_socket [OF rd] s(3) by (simp add: read_sii_def and_then_def assert_def run sr_buffer_size_eq)
  show ?thesis
    using t' by (cases "sr_state t'") (auto simp: rs sr_wait_def sr_is_busy_def sr_inv_def chunk_pdu_def Let_def
      sii_reader_ops_def, blast+)
qed

definition sii_slave :: "nat \<Rightarrow> pdu_content \<Rightarrow> bytes \<times> u16" where
  "sii_slave k v = (if pv_ado v = 0x508 then [1, 2, 3, 4, 0, 0, 0, 0] else [0, 0], 1)"

theorem read_sii_confirmed_witness:
  "crates_laws ref_crates \<and> ready (free_socket 8) [PduSocket_new (replicate 8 0)] 0 \<and>
   (\<exists>r si'. read_sii ref_crates (scripted_device sii_slave) (free_socket 8) 0 (StationAddress 1) 8 =
        Some (Some (r, si')) \<and> (\<forall>data n. r = Inr (data, n) \<longrightarrow> n \<in> {4, 8} \<and> length data = 8))"
proof -
  have rd: "ready (free_socket 8) [PduSocket_new (replicate 8 0)] 0"
    by (rule free_socket_ready) simp
  from read_sii_confirmed [OF ref_crates_laws scripted_answers rd, of sii_slave "StationAddress 1" 8]
  show ?thesis using rd ref_crates_laws by (auto simp: PduSocket_new_def)
qed

section \<open>The protocol\<close>

text \<open>The bytes the task writes.\<close>

lemma access_bytes: "set_field (set_field [0, 0] 0 0 0) (Suc 0) (Suc 0) (Suc 0) = [2, 0]"
  by (simp add: set_field_def byte_of_def bit_at_def upt_rec of_bits_def bit_Suc_0_iff)

lemma operation_bytes: "set_field [0, 0] 8 8 (Suc 0) = [0, 1]"
  by (simp add: set_field_def byte_of_def bit_at_def upt_rec of_bits_def bit_Suc_0_iff)

lemma address_bytes:
  "from_le_bytes (set_field [0, 0, 0, 0] 31 0 (unat (ucast (a :: u16) :: u32))) = unat a"
proof -
  have "from_le_bytes (set_field [0, 0, 0, 0] 31 0 v) = take_bit 32 v" for v
    by (subst from_le_bytes_field) (simp_all add: field_simps_bytes)
  moreover have "unat (ucast a :: u32) = unat a" by (simp add: unsigned_ucast_eq take_bit_unat)
  ultimately show ?thesis by (simp add: take_bit_unat)
qed

definition sr_request :: "SiiReader \<Rightarrow> Command \<times> bytes" where
  "sr_request t =
     (let rd = Command_new_read (Single (sr_slave_address t)); wr = Command_new_write (Single (sr_slave_address t)) in
      case sr_state t of
        SrSetOwnership \<Rightarrow> (wr 0x500, [2, 0])
      | SrCheckOwnership \<Rightarrow> (rd 0x500, [0, 0])
      | SrSetAddress \<Rightarrow> (wr 0x504, set_field [0, 0, 0, 0] 31 0 (unat (ucast (sr_sii_address t) :: u32)))
      | SrSetReadOperation \<Rightarrow> (wr 0x502, [0, 1])
      | SrRead \<Rightarrow> (rd 0x508, replicate 8 0)
      | _ \<Rightarrow> (rd 0x502, [0, 0]))"

definition sr_answered :: "SiiReader \<Rightarrow> bytes \<Rightarrow> u64 \<Rightarrow> SiiReader" where
  "sr_answered t data time =
     (let t' = t\<lparr>sr_command := fst (sr_request t)\<rparr> in
      case sr_state t of
        SrInit \<Rightarrow> t'\<lparr>sr_state := SrSetOwnership, sr_read_size := (if bit_at data 6 then 8 else 4)\<rparr>
      | SrSetOwnership \<Rightarrow> t'\<lparr>sr_state := SrCheckOwnership\<rparr>
      | SrCheckOwnership \<Rightarrow> t'\<lparr>sr_state := SrSetAddress\<rparr>
      | SrSetAddress \<Rightarrow> t'\<lparr>sr_state := SrSetReadOperation\<rparr>
      | SrSetReadOperation \<Rightarrow> t'\<lparr>sr_state := SrWait, sr_timer_start := time\<rparr>
      | SrWait \<Rightarrow> t'\<lparr>sr_state := SrRead\<rparr>
      | SrRead \<Rightarrow> t'\<lparr>sr_sii_data := copy_zip (sr_sii_data t) data, sr_state := SrComplete\<rparr>
      | _ \<Rightarrow> t')"

lemma sii_regs: "reg_address SiiControl = 0x502" "reg_address SiiAccess = 0x500" "reg_address SiiData = 0x508"
  "reg_address SiiAddress = 0x504" "reg_size SiiControl = 2" "reg_size SiiAccess = 2" "reg_size SiiData = 8"
  "reg_size SiiAddress = 4" "replicate 2 (0::u8) = [0, 0]"
  by (simp_all add: SiiControl_def SiiAccess_def SiiData_def SiiAddress_def eval_nat_numeral)

context crates_laws
begin

lemma sr_next_read:
  assumes "sr_state t = SrInit \<and> r = SiiControl \<or> sr_state t = SrCheckOwnership \<and> r = SiiAccess \<or>
      sr_state t = SrWait \<and> r = SiiControl \<or> sr_state t = SrRead \<and> r = SiiData"
    and "8 \<le> length buf" and "c = Command_new_read (Single (sr_slave_address t)) (reg_address r)"
  shows "\<exists>buf'. sr_next_pdu X t buf = Some (Some (c, reg_size r), t\<lparr>sr_command := c\<rparr>, buf') \<and>
    length buf' = length buf \<and> take (reg_size r) buf' = replicate (reg_size r) 0"
  using assms
  by (auto simp: sr_next_pdu_def rust_simps Let_def SiiAccess_def SiiControl_def SiiData_def)

lemma sr_next_write:
  assumes "sr_state t = SrSetOwnership \<and> r = SiiAccess \<and> b = [2, 0] \<or>
      sr_state t = SrSetReadOperation \<and> r = SiiControl \<and> b = [0, 1] \<or>
      sr_state t = SrSetAddress \<and> r = SiiAddress \<and>
        b = set_field [0, 0, 0, 0] 31 0 (unat (ucast (sr_sii_address t) :: u32))"
    and "8 \<le> length buf" and "c = Command_new_write (Single (sr_slave_address t)) (reg_address r)"
  shows "\<exists>buf'. sr_next_pdu X t buf = Some (Some (c, reg_size r), t\<lparr>sr_command := c\<rparr>, buf') \<and>
    length buf' = length buf \<and> take (reg_size r) buf' = b"
proof -
  have two: "replicate 2 (0::u8) = [0, 0]" and four: "replicate 4 (0::u8) = [0, 0, 0, 0]"
    by (simp_all add: eval_nat_numeral)
  show ?thesis
    using assms
    by (auto simp: sr_next_pdu_def reg_eqs rust_simps Let_def SiiAccess_def SiiControl_def SiiAddress_def
      two four access_bytes operation_bytes)
qed

text \<open>An answered request in each state: what was sent, and the task afterwards.\<close>

lemma sr_says:
  assumes "sr_is_busy t" and "length data = sr_expects t"
    and "sr_state t = SrWait \<Longrightarrow> \<not> bit_at data 13 \<and> \<not> bit_at data 15 \<and> \<not> bit_at data 8"
    and "says (sii_reader_ops X) 8 (sr_answered t data time) as rs t'"
  shows "says (sii_reader_ops X) 8 t ((data, 1, time) # as) (sr_request t # rs) t'"
proof -
  let ?c = "fst (sr_request t)" and ?b = "snd (sr_request t)"
  have nx: "\<exists>buf'. ct_next_pdu (sii_reader_ops X) t buf = Some (Some (?c, sr_expects t), t\<lparr>sr_command := ?c\<rparr>, buf') \<and>
      length buf' = length buf \<and> take (sr_expects t) buf' = ?b" if "8 \<le> length buf" for buf
    using sr_next_read [of t _ buf ?c] sr_next_write [of t _ ?b buf ?c] that assms(1)
    by (cases "sr_state t") (auto simp: sii_reader_ops_def sr_request_def sr_expects_def sr_is_busy_def
      sii_regs)
  have chk: "sr_check (t\<lparr>sr_command := ?c\<rparr>) \<lparr>pdu_command = ?c, pdu_data = data, pdu_wkc = 1\<rparr> = t\<lparr>sr_command := ?c\<rparr>"
    by (simp add: sr_check_eq unexpected_def)
  have "ct_recieve_and_process (sii_reader_ops X) (t\<lparr>sr_command := ?c\<rparr>)
      \<lparr>pdu_command = ?c, pdu_data = data, pdu_wkc = 1\<rparr> time = Some (sr_answered t data time)"
    using assms(1-3)
    by (cases "sr_state t") (auto simp: sii_reader_ops_def sr_recieve_and_process_def chk sr_init_eq reg_eqs
      SiiAccess_def SiiControl_def Let_def sr_answered_def sr_expects_def sr_is_busy_def)
  from says_Cons [OF nx this assms(4)] show ?thesis by simp
qed

end

text \<open>
  C11: the protocol of a successful read. With one slave answering each request (working counter
  1), whatever the control and access registers show at first, and the read done when the control
  register is looked at again, the task sends exactly: read control, write access (reset), read
  access, write the SII address (little endian), write the read command, read control, read the
  data register; and it ends with the eight bytes of the last answer and the read size the first
  answer announced. The error flags of the first answers (checksum, device information, busy,
  address size, ownership) do not stop it.
\<close>

theorem sii_dialogue:
  assumes X: "crates_laws X" and buf: "8 \<le> length buf"
    and len: "length d1 = 2" "length d2 = 2" "length d3 = 2" "length d4 = 4" "length d5 = 2"
      "length d6 = 2" "length d7 = 8"
    and ready: "\<not> bit_at d6 13" "\<not> bit_at d6 15" "\<not> bit_at d6 8"
    and rd: "rd = Command_new_read (Single addr)" and wr: "wr = Command_new_write (Single addr)"
  shows "\<exists>t' ab. dialogue (sii_reader_ops X) (sr_start SiiReader_new addr a) buf
      [(d1, 1, t1), (d2, 1, t2), (d3, 1, t3), (d4, 1, t4), (d5, 1, t5), (d6, 1, t6), (d7, 1, t7)] =
    Some ([(rd 0x502, [0, 0]), (wr 0x500, [2, 0]), (rd 0x500, [0, 0]), (wr 0x504, ab),
           (wr 0x502, [0, 1]), (rd 0x502, [0, 0]), (rd 0x508, replicate 8 0)], t') \<and>
    length ab = 4 \<and> from_le_bytes ab = unat a \<and>
    sr_wait t' = Some (Inr (d7, if bit_at d1 6 then 8 else 4))"
proof -
  let ?s0 = "sr_start SiiReader_new addr a"
  let ?s1 = "sr_answered ?s0 d1 t1" let ?s2 = "sr_answered ?s1 d2 t2" let ?s3 = "sr_answered ?s2 d3 t3"
  let ?s4 = "sr_answered ?s3 d4 t4" let ?s5 = "sr_answered ?s4 d5 t5" let ?s6 = "sr_answered ?s5 d6 t6"
  let ?s7 = "sr_answered ?s6 d7 t7"
  note states = sr_answered_def sr_start_def SiiReader_new_def Let_def
  have "says (sii_reader_ops X) 8 ?s0
      [(d1, 1, t1), (d2, 1, t2), (d3, 1, t3), (d4, 1, t4), (d5, 1, t5), (d6, 1, t6), (d7, 1, t7)]
      [sr_request ?s0, sr_request ?s1, sr_request ?s2, sr_request ?s3, sr_request ?s4, sr_request ?s5,
       sr_request ?s6] ?s7"
    by (intro crates_laws.sr_says [OF X] says_Nil)
      (use len ready in \<open>simp_all add: sr_is_busy_def sr_expects_def states\<close>)
  then have "dialogue (sii_reader_ops X) ?s0 buf
      [(d1, 1, t1), (d2, 1, t2), (d3, 1, t3), (d4, 1, t4), (d5, 1, t5), (d6, 1, t6), (d7, 1, t7)] =
    Some ([(rd 0x502, [0, 0]), (wr 0x500, [2, 0]), (rd 0x500, [0, 0]),
      (wr 0x504, set_field [0, 0, 0, 0] 31 0 (unat (ucast a :: u32))),
      (wr 0x502, [0, 1]), (rd 0x502, [0, 0]), (rd 0x508, replicate 8 0)], ?s7)"
    using buf by (simp add: says_def sr_request_def states rd wr)
  moreover have "sr_wait ?s7 = Some (Inr (d7, if bit_at d1 6 then 8 else 4))"
    using len by (simp add: sr_wait_def states reg_new_def SiiData_def copy_zip_exact)
  ultimately show ?thesis using address_bytes [of a] by (intro exI conjI) simp_all
qed

theorem sii_dialogue_witness:
  "crates_laws ref_crates \<and>
   (\<exists>t' ab. dialogue (sii_reader_ops ref_crates) (sr_start SiiReader_new (StationAddress 7) 0x1C) (replicate 8 0xFF)
      [([0xC0, 0xFF], 1, 0), ([0, 0], 1, 0), ([1, 1], 1, 0), ([0, 0, 0, 0], 1, 0), ([0, 0], 1, 0),
       ([0, 0], 1, 0), ([1, 2, 3, 4, 5, 6, 7, 8], 1, 0)] =
    Some ([(Command_new_read (Single (StationAddress 7)) 0x502, [0, 0]),
           (Command_new_write (Single (StationAddress 7)) 0x500, [2, 0]),
           (Command_new_read (Single (StationAddress 7)) 0x500, [0, 0]),
           (Command_new_write (Single (StationAddress 7)) 0x504, ab),
           (Command_new_write (Single (StationAddress 7)) 0x502, [0, 1]),
           (Command_new_read (Single (StationAddress 7)) 0x502, [0, 0]),
           (Command_new_read (Single (StationAddress 7)) 0x508, replicate 8 0)], t') \<and>
    from_le_bytes ab = 0x1C \<and> sr_wait t' = Some (Inr ([1, 2, 3, 4, 5, 6, 7, 8], 8)))"
proof -
  have "(\<exists>t' ab. dialogue (sii_reader_ops ref_crates) (sr_start SiiReader_new (StationAddress 7) 0x1C) (replicate 8 0xFF)
        [([0xC0, 0xFF], 1, 0), ([0, 0], 1, 0), ([1, 1], 1, 0), ([0, 0, 0, 0], 1, 0), ([0, 0], 1, 0),
         ([0, 0], 1, 0), ([1, 2, 3, 4, 5, 6, 7, 8], 1, 0)] =
      Some ([(Command_new_read (Single (StationAddress 7)) 0x502, [0, 0]),
             (Command_new_write (Single (StationAddress 7)) 0x500, [2, 0]),
             (Command_new_read (Single (StationAddress 7)) 0x500, [0, 0]),
             (Command_new_write (Single (StationAddress 7)) 0x504, ab),
             (Command_new_write (Single (StationAddress 7)) 0x502, [0, 1]),
             (Command_new_read (Single (StationAddress 7)) 0x502, [0, 0]),
             (Command_new_read (Single (StationAddress 7)) 0x508, replicate 8 0)], t') \<and>
      length ab = 4 \<and> from_le_bytes ab = unat (0x1C :: u16) \<and> sr_wait t' = Some (Inr ([1, 2, 3, 4, 5, 6, 7, 8], if bit_at [0xC0, 0xFF] 6 then 8 else 4)))"
    by (rule sii_dialogue [OF ref_crates_laws]) (simp_all add: bit_at_def)
  then obtain t' ab where r: "length ab = 4" "from_le_bytes ab = 0x1C"
    "sr_wait t' = Some (Inr ([1, 2, 3, 4, 5, 6, 7, 8], 8))"
    and "dialogue (sii_reader_ops ref_crates) (sr_start SiiReader_new (StationAddress 7) 0x1C) (replicate 8 0xFF)
          [([0xC0, 0xFF], 1, 0), ([0, 0], 1, 0), ([1, 1], 1, 0), ([0, 0, 0, 0], 1, 0), ([0, 0], 1, 0),
           ([0, 0], 1, 0), ([1, 2, 3, 4, 5, 6, 7, 8], 1, 0)] =
        Some ([(Command_new_read (Single (StationAddress 7)) 0x502, [0, 0]),
               (Command_new_write (Single (StationAddress 7)) 0x500, [2, 0]),
               (Command_new_read (Single (StationAddress 7)) 0x500, [0, 0]),
               (Command_new_write (Single (StationAddress 7)) 0x504, ab),
               (Command_new_write (Single (StationAddress 7)) 0x502, [0, 1]),
               (Command_new_read (Single (StationAddress 7)) 0x502, [0, 0]),
               (Command_new_read (Single (StationAddress 7)) 0x508, replicate 8 0)], t')"
    by (auto simp: bit_at_def)
  with ref_crates_laws show ?thesis by blast
qed

end
