(* ===== verification/Mailbox_Tasks.thy ===== *)
theory Mailbox_Tasks
  imports Task_Support Mailbox_Frame
begin

text \<open>
  \<open>src/src/task/mailbox_read.rs\<close>, \<open>mailbox_write.rs\<close> and \<open>mailbox.rs\<close>, with \<open>read_mailbox\<close> and
  \<open>write_mailbox\<close> of \<open>src/src/task/mod.rs\<close>: fetching a message from the mailbox of a slave and
  leaving one there. Both tasks first look at the status of the sync manager. The writer finds the
  message in the buffer it is given and saves the two bytes that the status request overwrites.
\<close>

datatype MailboxTaskError = NoSlaveReaction | MailboxEmpty | MailboxAlreadyExisted | BufferSmall

section \<open>Reading\<close>

definition MAILBOX_RESPONSE_RETRY_TIMEOUT_DEFAULT_MS :: u32 where
  "MAILBOX_RESPONSE_RETRY_TIMEOUT_DEFAULT_MS = 2000"

datatype mr_state =
    MrError "MailboxTaskError TaskError" | MrIdle | MrComplete
  | MrCheckMailboxAlreadyExisted bool bool | MrRead | MrRequestRepeat | MrWaitRepeatAck

record MailboxReadTask =
  mr_timer_start :: u64
  mr_command :: Command
  mr_slave_address :: SlaveAddress
  mr_state :: mr_state
  mr_activation_buf :: bytes
  mr_sm_ado_offset :: u16
  mr_sm_size :: u16
  mr_sm_start_address :: u16

definition MailboxReadTask_new :: MailboxReadTask where
  "MailboxReadTask_new =
     \<lparr>mr_timer_start = 0, mr_command = Command_default, mr_slave_address = SlaveAddress_default,
      mr_state = MrIdle, mr_activation_buf = replicate (reg_size SyncManagerActivation) 0,
      mr_sm_ado_offset = 0, mr_sm_size = 0, mr_sm_start_address = 0\<rparr>"

definition mr_start :: "MailboxReadTask \<Rightarrow> SlaveAddress \<Rightarrow> SyncManager \<Rightarrow> bool \<Rightarrow> MailboxReadTask rust" where
  "mr_start t addr tx_sm wait_full = do {
     ado_offset \<leftarrow> umul (ucast (sm_number tx_sm)) 0x08;
     ret (t\<lparr>mr_timer_start := 0, mr_command := Command_default, mr_slave_address := addr,
            mr_state := MrCheckMailboxAlreadyExisted True wait_full, mr_sm_ado_offset := ado_offset,
            mr_sm_size := sm_size tx_sm, mr_sm_start_address := sm_start_address tx_sm\<rparr>) }"

definition mr_wait :: "MailboxReadTask \<Rightarrow> (MailboxTaskError TaskError + unit) option" where
  "mr_wait t =
     (case mr_state t of MrComplete \<Rightarrow> Some (Inr ()) | MrError err \<Rightarrow> Some (Inl err) | _ \<Rightarrow> None)"

definition mr_is_busy :: "MailboxReadTask \<Rightarrow> bool" where
  "mr_is_busy t =
     (case mr_state t of MrIdle \<Rightarrow> False | MrComplete \<Rightarrow> False | MrError _ \<Rightarrow> False | _ \<Rightarrow> True)"

definition mr_next_pdu ::
    "crates \<Rightarrow> MailboxReadTask \<Rightarrow> bytes \<Rightarrow>
       ((Command \<times> nat) option \<times> MailboxReadTask \<times> bytes) rust" where
  "mr_next_pdu X t buf =
     (case mr_state t of
        MrIdle \<Rightarrow> ret (None, t, buf)
      | MrError _ \<Rightarrow> ret (None, t, buf)
      | MrComplete \<Rightarrow> ret (None, t, buf)
      | MrCheckMailboxAlreadyExisted _ _ \<Rightarrow> do {
          ado \<leftarrow> uadd (reg_address SyncManagerStatus) (mr_sm_ado_offset t);
          let t = t\<lparr>mr_command := Command_new_read (Single (mr_slave_address t)) ado\<rparr>;
          let length = reg_size SyncManagerStatus + reg_size SyncManagerActivation;
          buf \<leftarrow> fill_to length 0 buf;
          ret (Some (mr_command t, length), t, buf) }
      | MrRead \<Rightarrow>
          (let t = t\<lparr>mr_command := Command_new_read (Single (mr_slave_address t)) (mr_sm_start_address t)\<rparr> in
           if length buf < unat (mr_sm_size t)
           then ret (None, t\<lparr>mr_state := MrError (TaskSpecific BufferSmall)\<rparr>, buf)
           else do {
             buf \<leftarrow> fill_to (unat (mr_sm_size t)) 0 buf;
             ret (Some (mr_command t, unat (mr_sm_size t)), t, buf) })
      | MrRequestRepeat \<Rightarrow> do {
          ado \<leftarrow> uadd (reg_address SyncManagerActivation) (mr_sm_ado_offset t);
          let t = t\<lparr>mr_command := Command_new_write (Single (mr_slave_address t)) ado\<rparr>;
          repeat \<leftarrow> reg_bit X SyncManagerActivation ''repeat'' (mr_activation_buf t);
          activation_buf \<leftarrow> reg_set_bit X SyncManagerActivation ''repeat'' (\<not> repeat) (mr_activation_buf t);
          buf \<leftarrow> write_at 0 activation_buf buf;
          ret (Some (mr_command t, length activation_buf), t\<lparr>mr_activation_buf := activation_buf\<rparr>, buf) }
      | MrWaitRepeatAck \<Rightarrow> do {
          ado \<leftarrow> uadd (reg_address SyncManagerPdiControl) (mr_sm_ado_offset t);
          let t = t\<lparr>mr_command := Command_new_read (Single (mr_slave_address t)) ado\<rparr>;
          buf \<leftarrow> fill_to (reg_size SyncManagerPdiControl) 0 buf;
          ret (Some (mr_command t, reg_size SyncManagerPdiControl), t, buf) })"

text \<open>The timeout check with which both tasks end \<open>recieve_and_process\<close>.\<close>

definition mailbox_timed_out :: "u32 \<Rightarrow> u64 \<Rightarrow> u64 \<Rightarrow> bool rust" where
  "mailbox_timed_out timeout_ms timer_start sys_time = do {
     us \<leftarrow> umul (ucast timeout_ms) (1000 :: u64);
     timeout_ns \<leftarrow> umul us 1000;
     if timer_start < sys_time then do {
       elapsed \<leftarrow> usub sys_time timer_start;
       ret (timeout_ns < elapsed) }
     else ret False }"

definition mr_process :: "crates \<Rightarrow> MailboxReadTask \<Rightarrow> bytes \<Rightarrow> u16 \<Rightarrow> u64 \<Rightarrow> MailboxReadTask rust" where
  "mr_process X t data wkc sys_time =
     (case mr_state t of
        MrCheckMailboxAlreadyExisted is_first wait_full \<Rightarrow>
          (let t = (if is_first then t\<lparr>mr_timer_start := sys_time\<rparr> else t) in
           if wkc \<noteq> 1 then ret (t\<lparr>mr_state := MrError (TaskSpecific NoSlaveReaction)\<rparr>)
           else do {
             activation \<leftarrow> slice_from (reg_size SyncManagerStatus) data;
             assert (length activation = length (mr_activation_buf t));
             let t = t\<lparr>mr_activation_buf := activation\<rparr>;
             full \<leftarrow> reg_bit X SyncManagerStatus ''is_mailbox_full'' data;
             ret (t\<lparr>mr_state :=
               (if full then MrRead
                else if wait_full then MrCheckMailboxAlreadyExisted False wait_full
                else MrError (TaskSpecific MailboxEmpty))\<rparr>) })
      | MrRead \<Rightarrow> ret (t\<lparr>mr_state := (if wkc \<noteq> 1 then MrRequestRepeat else MrComplete)\<rparr>)
      | MrRequestRepeat \<Rightarrow> ret (t\<lparr>mr_state := MrWaitRepeatAck\<rparr>)
      | MrWaitRepeatAck \<Rightarrow>
          if wkc \<noteq> 1 then ret (t\<lparr>mr_state := MrError (unexpected_wkc 1 wkc)\<rparr>)
          else do {
            repeat_ack \<leftarrow> reg_bit X SyncManagerPdiControl ''repeat_ack'' data;
            repeat \<leftarrow> reg_bit X SyncManagerActivation ''repeat'' (mr_activation_buf t);
            ret (t\<lparr>mr_state :=
              (if repeat_ack = repeat then MrCheckMailboxAlreadyExisted False True
               else MrWaitRepeatAck)\<rparr>) }
      | _ \<Rightarrow> ret t)"

definition mr_recieve_and_process ::
    "crates \<Rightarrow> MailboxReadTask \<Rightarrow> Pdu \<Rightarrow> u64 \<Rightarrow> MailboxReadTask rust" where
  "mr_recieve_and_process X t recv_data sys_time = (
     let command = pdu_command recv_data;
       t = (if \<not> (cmd_type command = cmd_type (mr_command t) \<and> cmd_ado command = cmd_ado (mr_command t))
            then t\<lparr>mr_state := MrError UnexpectedCommand\<rparr> else t)
     in do {
       t \<leftarrow> mr_process X t (pdu_data recv_data) (pdu_wkc recv_data) sys_time;
       late \<leftarrow> mailbox_timed_out MAILBOX_RESPONSE_RETRY_TIMEOUT_DEFAULT_MS (mr_timer_start t) sys_time;
       ret (if late then t\<lparr>mr_state := MrError Timeout\<rparr> else t) })"

section \<open>Writing\<close>

definition MAILBOX_REQUEST_RETRY_TIMEOUT_DEFAULT_MS :: u32 where
  "MAILBOX_REQUEST_RETRY_TIMEOUT_DEFAULT_MS = 100"

datatype mw_state =
    MwError "MailboxTaskError TaskError" | MwIdle | MwComplete | MwCheckMailboxEmpty bool bool | MwWrite

record MailboxWriteTask =
  mw_timer_start :: u64
  mw_command :: Command
  mw_slave_address :: SlaveAddress
  mw_empty_check_buffer :: bytes
  mw_state :: mw_state
  mw_sm_ado_offset :: u16
  mw_sm_size :: u16
  mw_sm_start_address :: u16

definition MailboxWriteTask_new :: MailboxWriteTask where
  "MailboxWriteTask_new =
     \<lparr>mw_timer_start = 0, mw_command = Command_default, mw_slave_address = SlaveAddress_default,
      mw_empty_check_buffer = replicate (reg_size SyncManagerStatus + reg_size SyncManagerActivation) 0,
      mw_state = MwIdle, mw_sm_ado_offset = 0, mw_sm_size = 0, mw_sm_start_address = 0\<rparr>"

definition mw_start :: "MailboxWriteTask \<Rightarrow> SlaveAddress \<Rightarrow> SyncManager \<Rightarrow> bool \<Rightarrow> MailboxWriteTask rust" where
  "mw_start t addr rx_sm wait_empty = do {
     ado_offset \<leftarrow> umul (ucast (sm_number rx_sm)) 0x08;
     ret (t\<lparr>mw_timer_start := 0, mw_command := Command_default, mw_slave_address := addr,
            mw_state := MwCheckMailboxEmpty True wait_empty, mw_sm_ado_offset := ado_offset,
            mw_sm_size := sm_size rx_sm, mw_sm_start_address := sm_start_address rx_sm\<rparr>) }"

definition mw_wait :: "MailboxWriteTask \<Rightarrow> (MailboxTaskError TaskError + unit) option" where
  "mw_wait t =
     (case mw_state t of MwComplete \<Rightarrow> Some (Inr ()) | MwError err \<Rightarrow> Some (Inl err) | _ \<Rightarrow> None)"

definition mw_is_busy :: "MailboxWriteTask \<Rightarrow> bool" where
  "mw_is_busy t =
     (case mw_state t of MwIdle \<Rightarrow> False | MwComplete \<Rightarrow> False | MwError _ \<Rightarrow> False | _ \<Rightarrow> True)"

definition mw_next_pdu ::
    "MailboxWriteTask \<Rightarrow> bytes \<Rightarrow> ((Command \<times> nat) option \<times> MailboxWriteTask \<times> bytes) rust" where
  "mw_next_pdu t buf =
     (case mw_state t of
        MwIdle \<Rightarrow> ret (None, t, buf)
      | MwError _ \<Rightarrow> ret (None, t, buf)
      | MwComplete \<Rightarrow> ret (None, t, buf)
      | MwCheckMailboxEmpty _ _ \<Rightarrow> do {
          ado \<leftarrow> uadd (reg_address SyncManagerStatus) (mw_sm_ado_offset t);
          let t = t\<lparr>mw_command := Command_new_read (Single (mw_slave_address t)) ado\<rparr>;
          let length = reg_size SyncManagerStatus + reg_size SyncManagerActivation;
          let t = t\<lparr>mw_empty_check_buffer := copy_zip (mw_empty_check_buffer t) buf\<rparr>;
          buf \<leftarrow> fill_to length 0 buf;
          ret (Some (mw_command t, length), t, buf) }
      | MwWrite \<Rightarrow>
          (let t = t\<lparr>mw_command := Command_new_write (Single (mw_slave_address t)) (mw_sm_start_address t)\<rparr>;
               buf = copy_zip buf (mw_empty_check_buffer t) in
           if length buf < unat (mw_sm_size t)
           then ret (None, t\<lparr>mw_state := MwError (TaskSpecific BufferSmall)\<rparr>, buf)
           else ret (Some (mw_command t, unat (mw_sm_size t)), t, buf)))"

definition mw_process :: "crates \<Rightarrow> MailboxWriteTask \<Rightarrow> bytes \<Rightarrow> u16 \<Rightarrow> u64 \<Rightarrow> MailboxWriteTask rust" where
  "mw_process X t data wkc sys_time =
     (case mw_state t of
        MwCheckMailboxEmpty is_first wait_empty \<Rightarrow>
          (let t = (if is_first then t\<lparr>mw_timer_start := sys_time\<rparr> else t) in
           if wkc \<noteq> 1 then ret (t\<lparr>mw_state := MwError (TaskSpecific NoSlaveReaction)\<rparr>)
           else do {
             full \<leftarrow> reg_bit X SyncManagerStatus ''is_mailbox_full'' data;
             ret (t\<lparr>mw_state :=
               (if \<not> full then MwWrite
                else if wait_empty then MwCheckMailboxEmpty False wait_empty
                else MwError (TaskSpecific MailboxAlreadyExisted))\<rparr>) })
      | MwWrite \<Rightarrow> ret (t\<lparr>mw_state := (if wkc \<noteq> 1 then MwWrite else MwComplete)\<rparr>)
      | _ \<Rightarrow> ret t)"

definition mw_recieve_and_process ::
    "crates \<Rightarrow> MailboxWriteTask \<Rightarrow> Pdu \<Rightarrow> u64 \<Rightarrow> MailboxWriteTask rust" where
  "mw_recieve_and_process X t recv_data sys_time = (
     let command = pdu_command recv_data;
       t = (if \<not> (cmd_type command = cmd_type (mw_command t) \<and> cmd_ado command = cmd_ado (mw_command t))
            then t\<lparr>mw_state := MwError UnexpectedCommand\<rparr> else t)
     in do {
       t \<leftarrow> mw_process X t (pdu_data recv_data) (pdu_wkc recv_data) sys_time;
       late \<leftarrow> mailbox_timed_out MAILBOX_REQUEST_RETRY_TIMEOUT_DEFAULT_MS (mw_timer_start t) sys_time;
       ret (if late then t\<lparr>mw_state := MwError Timeout\<rparr> else t) })"

section \<open>The mailbox task\<close>

datatype mb_state = MbError "MailboxTaskError TaskError" | MbIdle | MbComplete | MbProcessing

datatype mb_inner = Reader MailboxReadTask | Writer MailboxWriteTask

record MailboxTask =
  mb_state :: mb_state
  mb_inner :: mb_inner

definition MailboxTask_new :: MailboxTask where
  "MailboxTask_new = \<lparr>mb_state = MbIdle, mb_inner = Reader MailboxReadTask_new\<rparr>"

definition mb_start_to_read :: "MailboxTask \<Rightarrow> SlaveAddress \<Rightarrow> SyncManager \<Rightarrow> bool \<Rightarrow> MailboxTask rust" where
  "mb_start_to_read t addr tx_sm wait_full = do {
     reader \<leftarrow> mr_start MailboxReadTask_new addr tx_sm wait_full;
     ret (t\<lparr>mb_inner := Reader reader, mb_state := MbProcessing\<rparr>) }"

definition mb_start_to_write :: "MailboxTask \<Rightarrow> SlaveAddress \<Rightarrow> SyncManager \<Rightarrow> bool \<Rightarrow> MailboxTask rust" where
  "mb_start_to_write t addr rx_sm wait_empty = do {
     writer \<leftarrow> mw_start MailboxWriteTask_new addr rx_sm wait_empty;
     ret (t\<lparr>mb_inner := Writer writer, mb_state := MbProcessing\<rparr>) }"

definition mb_is_write_mode :: "MailboxTask \<Rightarrow> bool" where
  "mb_is_write_mode t = (case mb_inner t of Writer _ \<Rightarrow> True | Reader _ \<Rightarrow> False)"

definition mb_is_read_mode :: "MailboxTask \<Rightarrow> bool" where
  "mb_is_read_mode t = (case mb_inner t of Reader _ \<Rightarrow> True | Writer _ \<Rightarrow> False)"

definition mb_slave_address :: "MailboxTask \<Rightarrow> SlaveAddress" where
  "mb_slave_address t =
     (case mb_inner t of Reader reader \<Rightarrow> mr_slave_address reader | Writer writer \<Rightarrow> mw_slave_address writer)"

definition mb_wait :: "MailboxTask \<Rightarrow> (MailboxTaskError TaskError + unit) option" where
  "mb_wait t =
     (case mb_state t of MbComplete \<Rightarrow> Some (Inr ()) | MbError err \<Rightarrow> Some (Inl err) | _ \<Rightarrow> None)"

definition mb_is_busy :: "MailboxTask \<Rightarrow> bool" where
  "mb_is_busy t =
     (case mb_state t of MbIdle \<Rightarrow> False | MbComplete \<Rightarrow> False | MbError _ \<Rightarrow> False | MbProcessing \<Rightarrow> True)"

definition mb_next_pdu ::
    "crates \<Rightarrow> MailboxTask \<Rightarrow> bytes \<Rightarrow> ((Command \<times> nat) option \<times> MailboxTask \<times> bytes) rust" where
  "mb_next_pdu X t buf =
     (case mb_state t of
        MbProcessing \<Rightarrow>
          (case mb_inner t of
             Reader reader \<Rightarrow> do {
               (r, reader, buf) \<leftarrow> mr_next_pdu X reader buf;
               ret (r, t\<lparr>mb_inner := Reader reader\<rparr>, buf) }
           | Writer writer \<Rightarrow> do {
               (r, writer, buf) \<leftarrow> mw_next_pdu writer buf;
               ret (r, t\<lparr>mb_inner := Writer writer\<rparr>, buf) })
      | _ \<Rightarrow> ret (None, t, buf))"

definition mb_finish :: "MailboxTask \<Rightarrow> (MailboxTaskError TaskError + unit) option \<Rightarrow> MailboxTask" where
  "mb_finish t w =
     (case w of
        None \<Rightarrow> t
      | Some (Inr _) \<Rightarrow> t\<lparr>mb_state := MbComplete\<rparr>
      | Some (Inl err) \<Rightarrow> t\<lparr>mb_state := MbError err\<rparr>)"

definition mb_recieve_and_process :: "crates \<Rightarrow> MailboxTask \<Rightarrow> Pdu \<Rightarrow> u64 \<Rightarrow> MailboxTask rust" where
  "mb_recieve_and_process X t recv_data sys_time =
     (case mb_state t of
        MbProcessing \<Rightarrow>
          (case mb_inner t of
             Reader reader \<Rightarrow> do {
               reader \<leftarrow> mr_recieve_and_process X reader recv_data sys_time;
               ret (mb_finish (t\<lparr>mb_inner := Reader reader\<rparr>) (mr_wait reader)) }
           | Writer writer \<Rightarrow> do {
               writer \<leftarrow> mw_recieve_and_process X writer recv_data sys_time;
               ret (mb_finish (t\<lparr>mb_inner := Writer writer\<rparr>) (mw_wait writer)) })
      | _ \<Rightarrow> ret t)"

definition mailbox_ops :: "crates \<Rightarrow> MailboxTask cyclic_task_ops" where
  "mailbox_ops X =
     \<lparr>ct_next_pdu = mb_next_pdu X, ct_recieve_and_process = mb_recieve_and_process X,
      ct_is_busy = mb_is_busy\<rparr>"

section \<open>Mailbox access\<close>

definition or_default :: "SyncManager option \<Rightarrow> SyncManager" where
  "or_default m = (case m of Some sm \<Rightarrow> sm | None \<Rightarrow> SyncManager_default)"

text \<open>The frame that \<open>read_mailbox\<close> returns borrows the whole buffer of the socket.\<close>

definition read_mailbox ::
    "crates \<Rightarrow> 'd device \<Rightarrow> 'd SocketInterface \<Rightarrow> nat \<Rightarrow> SlaveInfo \<Rightarrow> bool \<Rightarrow>
       ((MailboxTaskError TaskError + bytes) \<times> 'd SocketInterface) run" where
  "read_mailbox X dev si handle slave_info wait_full =
     and_then (Some (do {
         socket \<leftarrow> get_socket si handle;
         let tx_sm = or_default (mailbox_tx_sm slave_info);
         assert (unat (sm_size tx_sm) \<le> length (data_buf socket));
         mb_start_to_read MailboxTask_new (slave_address slave_info) tx_sm wait_full }))
     (\<lambda>t. and_then (block_on X dev (mailbox_ops X) handle si t)
     (\<lambda>(r, si, t). Some (case r of
         Inl e \<Rightarrow> ret (Inl e, si)
       | Inr _ \<Rightarrow> do {
           w \<leftarrow> mb_wait t;
           case w of
             Inl e \<Rightarrow> ret (Inl e, si)
           | Inr _ \<Rightarrow> do {
               socket \<leftarrow> get_socket si handle;
               ret (Inr (data_buf socket), si) } })))"

text \<open>\<open>mb_frame_writer\<close> writes into the buffer of the socket, also when it then fails.\<close>

definition write_mailbox ::
    "crates \<Rightarrow> 'd device \<Rightarrow> 'd SocketInterface \<Rightarrow> nat \<Rightarrow> SlaveInfo \<Rightarrow>
       (bytes \<Rightarrow> ((LengthError + unit) \<times> bytes) rust) \<Rightarrow> bool \<Rightarrow>
       ((MailboxTaskError TaskError + unit) \<times> 'd SocketInterface) run" where
  "write_mailbox X dev si handle slave_info mb_frame_writer wait_empty =
     and_then (Some (do {
         socket \<leftarrow> get_socket si handle;
         let rx_sm = or_default (mailbox_rx_sm slave_info);
         assert (unat (sm_size rx_sm) \<le> length (data_buf socket));
         (w, buf) \<leftarrow> mb_frame_writer (data_buf socket);
         si \<leftarrow> get_socket_mut si handle (socket\<lparr>data_buf := buf\<rparr>);
         case w of
           Inl _ \<Rightarrow> ret (Inl (TaskSpecific BufferSmall), si)
         | Inr _ \<Rightarrow> do {
             t \<leftarrow> mb_start_to_write MailboxTask_new (slave_address slave_info) rx_sm wait_empty;
             ret (Inr t, si) } }))
     (\<lambda>(started, si). case started of
         Inl e \<Rightarrow> Some (ret (Inl e, si))
       | Inr t \<Rightarrow> and_then (block_on X dev (mailbox_ops X) handle si t)
         (\<lambda>(r, si, t). Some (case r of
             Inl e \<Rightarrow> ret (Inl e, si)
           | Inr _ \<Rightarrow> do { w \<leftarrow> mb_wait t; ret (w, si) })))"

section \<open>The contract\<close>

lemma mailbox_timed_out_eq:
  "mailbox_timed_out ms start time = Some (unat start + unat ms * 1000000 < unat time)"
proof -
  have ms: "unat (ucast ms :: u64) = unat ms" by (simp add: unsigned_ucast_eq take_bit_unat)
  have lt: "unat ms < 2 ^ 32" using unsigned_less [of ms] by simp
  then have u1: "umul (ucast ms) (1000 :: u64) = Some (ucast ms * 1000)"
    "unat (ucast ms * 1000 :: u64) = unat ms * 1000"
    by (simp_all add: umul_def unat_word_ariths ms)
  then have u2: "umul (ucast ms * 1000) (1000 :: u64) = Some (ucast ms * 1000 * 1000)"
    "unat (ucast ms * 1000 * 1000 :: u64) = unat ms * 1000000"
    using lt by (simp_all add: umul_def unat_word_ariths ms)
  have "ucast ms * 1000 * 1000 < time - start \<longleftrightarrow> unat start + unat ms * 1000000 < unat time" if "start < time"
    using that u2(2) by (simp add: word_less_nat_alt unat_sub word_le_nat_alt less_diff_conv add.commute)
  moreover have "\<not> unat start + unat ms * 1000000 < unat time" if "\<not> start < time"
    using that by (simp add: word_less_nat_alt)
  ultimately show ?thesis
    by (auto simp: mailbox_timed_out_def u1(1) u2(1) usub_def)
qed

definition mr_ok :: "MailboxReadTask \<Rightarrow> bool" where
  "mr_ok t \<longleftrightarrow> length (mr_activation_buf t) = 1 \<and> unat (mr_sm_ado_offset t) \<le> 2040 \<and> 0 < mr_sm_size t"

definition mr_expects :: "MailboxReadTask \<Rightarrow> nat" where
  "mr_expects t =
     (case mr_state t of MrCheckMailboxAlreadyExisted _ _ \<Rightarrow> 2 | MrRead \<Rightarrow> unat (mr_sm_size t)
      | MrRequestRepeat \<Rightarrow> 1 | MrWaitRepeatAck \<Rightarrow> 1 | _ \<Rightarrow> 0)"

definition mw_ok :: "MailboxWriteTask \<Rightarrow> bool" where
  "mw_ok t \<longleftrightarrow> length (mw_empty_check_buffer t) = 2 \<and> unat (mw_sm_ado_offset t) \<le> 2040 \<and> 0 < mw_sm_size t"

definition mw_expects :: "MailboxWriteTask \<Rightarrow> nat" where
  "mw_expects t =
     (case mw_state t of MwCheckMailboxEmpty _ _ \<Rightarrow> 2 | MwWrite \<Rightarrow> unat (mw_sm_size t) | _ \<Rightarrow> 0)"

definition mb_inv :: "MailboxTask \<Rightarrow> bool" where
  "mb_inv t \<longleftrightarrow> mb_state t \<noteq> MbIdle \<and> (case mb_inner t of Reader r \<Rightarrow> mr_ok r | Writer w \<Rightarrow> mw_ok w)"

definition mb_expects :: "MailboxTask \<Rightarrow> nat" where
  "mb_expects t = (case mb_inner t of Reader r \<Rightarrow> mr_expects r | Writer w \<Rightarrow> mw_expects w)"

definition mb_need :: "MailboxTask \<Rightarrow> nat" where
  "mb_need t = (if mb_is_busy t then 2 else 0)"

lemmas sm_regs = SyncManagerStatus_def SyncManagerActivation_def SyncManagerPdiControl_def

lemma uadd_offset:
  "unat (o' :: u16) \<le> 2040 \<Longrightarrow> uadd 0x805 o' = Some (0x805 + o')"
  "unat o' \<le> 2040 \<Longrightarrow> uadd 0x806 o' = Some (0x806 + o')"
  "unat o' \<le> 2040 \<Longrightarrow> uadd 0x807 o' = Some (0x807 + o')"
  by (simp_all add: uadd_def)

lemma umul_number: "umul (ucast (n :: u8)) (8 :: u16) = Some (ucast n * 8)"
  and unat_number: "unat (ucast (n :: u8) * 8 :: u16) = unat n * 8" "unat n * 8 \<le> 2040"
proof -
  have "unat (ucast n :: u16) = unat n" by (simp add: unsigned_ucast_eq take_bit_unat)
  moreover have "unat n < 2 ^ 8" using unsigned_less [of n] by simp
  ultimately show "umul (ucast n) (8 :: u16) = Some (ucast n * 8)"
    "unat (ucast n * 8 :: u16) = unat n * 8" "unat n * 8 \<le> 2040"
    by (simp_all add: umul_def unat_word_ariths)
qed

lemma mr_start_ok:
  "0 < sm_size sm \<Longrightarrow> \<exists>t. mr_start MailboxReadTask_new a sm w = Some t \<and> mr_ok t"
  by (simp add: mr_start_def MailboxReadTask_new_def mr_ok_def umul_number unat_number
    SyncManagerActivation_def)

lemma mw_start_ok:
  "0 < sm_size sm \<Longrightarrow> \<exists>t. mw_start MailboxWriteTask_new a sm w = Some t \<and> mw_ok t"
  by (simp add: mw_start_def MailboxWriteTask_new_def mw_ok_def umul_number unat_number
    SyncManagerActivation_def SyncManagerStatus_def)

context crates_laws
begin

lemma mr_next_ok:
  assumes "mr_ok t" and "2 \<le> length buf"
  shows "\<exists>r t' buf'. mr_next_pdu X t buf = Some (r, t', buf') \<and> mr_ok t' \<and> length buf' = length buf \<and>
    (\<forall>c n. r = Some (c, n) \<longrightarrow> 0 < n \<and> n \<le> length buf \<and> mr_expects t' = n)"
  using assms
  by (cases "mr_state t") (auto simp: mr_next_pdu_def mr_ok_def mr_expects_def sm_regs uadd_offset rust_simps
    reg_eqs Let_def word_gt_0 unat_gt_0)

lemma mr_recieve_ok:
  assumes "mr_ok t" and "length (pdu_data p) = mr_expects t"
  shows "\<exists>t'. mr_recieve_and_process X t p time = Some t' \<and> mr_ok t'"
proof -
  have "\<exists>t'. mr_process X s (pdu_data p) (pdu_wkc p) time = Some t' \<and> mr_ok t'"
    if "mr_ok s" "length (pdu_data p) = mr_expects s" for s
    using that by (cases "mr_state s") (auto simp: mr_process_def mr_ok_def mr_expects_def sm_regs rust_simps reg_eqs
      Let_def)
  moreover have "\<exists>t'. mr_process X (t\<lparr>mr_state := MrError e\<rparr>) (pdu_data p) (pdu_wkc p) time = Some t' \<and> mr_ok t'" for e
    using assms(1) by (simp add: mr_process_def mr_ok_def)
  ultimately obtain t' where "mr_process X
      (if \<not> (cmd_type (pdu_command p) = cmd_type (mr_command t) \<and> cmd_ado (pdu_command p) = cmd_ado (mr_command t))
       then t\<lparr>mr_state := MrError UnexpectedCommand\<rparr> else t) (pdu_data p) (pdu_wkc p) time = Some t'" "mr_ok t'"
    using assms by (cases "cmd_type (pdu_command p) = cmd_type (mr_command t) \<and>
      cmd_ado (pdu_command p) = cmd_ado (mr_command t)") (simp_all only: simp_thms if_True if_False, blast+)
  then show ?thesis
    by (simp add: mr_recieve_and_process_def mailbox_timed_out_eq mr_ok_def Let_def)
qed

lemma mw_next_ok:
  assumes "mw_ok t" and "2 \<le> length buf"
  shows "\<exists>r t' buf'. mw_next_pdu t buf = Some (r, t', buf') \<and> mw_ok t' \<and> length buf' = length buf \<and>
    (\<forall>c n. r = Some (c, n) \<longrightarrow> 0 < n \<and> n \<le> length buf \<and> mw_expects t' = n)"
  using assms
  by (cases "mw_state t") (auto simp: mw_next_pdu_def mw_ok_def mw_expects_def sm_regs uadd_offset rust_simps
    Let_def word_gt_0 unat_gt_0)

lemma mw_recieve_ok:
  assumes "mw_ok t" and "length (pdu_data p) = mw_expects t"
  shows "\<exists>t'. mw_recieve_and_process X t p time = Some t' \<and> mw_ok t'"
proof -
  have "\<exists>t'. mw_process X s (pdu_data p) (pdu_wkc p) time = Some t' \<and> mw_ok t'"
    if "mw_ok s" "length (pdu_data p) = mw_expects s" for s
    using that by (cases "mw_state s") (auto simp: mw_process_def mw_ok_def mw_expects_def sm_regs rust_simps reg_eqs
      Let_def)
  moreover have "\<exists>t'. mw_process X (t\<lparr>mw_state := MwError e\<rparr>) (pdu_data p) (pdu_wkc p) time = Some t' \<and> mw_ok t'" for e
    using assms(1) by (simp add: mw_process_def mw_ok_def)
  ultimately obtain t' where "mw_process X
      (if \<not> (cmd_type (pdu_command p) = cmd_type (mw_command t) \<and> cmd_ado (pdu_command p) = cmd_ado (mw_command t))
       then t\<lparr>mw_state := MwError UnexpectedCommand\<rparr> else t) (pdu_data p) (pdu_wkc p) time = Some t'" "mw_ok t'"
    using assms by (cases "cmd_type (pdu_command p) = cmd_type (mw_command t) \<and>
      cmd_ado (pdu_command p) = cmd_ado (mw_command t)") (simp_all only: simp_thms if_True if_False, blast+)
  then show ?thesis
    by (simp add: mw_recieve_and_process_def mailbox_timed_out_eq mw_ok_def Let_def)
qed

end

lemma mb_finish_simps [simp]:
  "mb_inner (mb_finish t w) = mb_inner t"
  "mb_state (mb_finish t w) = (case w of None \<Rightarrow> mb_state t | Some (Inr _) \<Rightarrow> MbComplete | Some (Inl e) \<Rightarrow> MbError e)"
  by (auto simp: mb_finish_def split: option.splits sum.splits)

sublocale crates_laws \<subseteq> mb: terminating_task "mailbox_ops X" mb_inv mb_need mb_expects "\<lambda>_ _. True"
proof (unfold_locales, goal_cases)
  case (1 t buf)
  show ?case
  proof (cases "mb_state t = MbProcessing")
    case True
    then have "2 \<le> length buf" using 1(2) by (simp add: mb_need_def mb_is_busy_def)
    with True 1(1) show ?thesis
      using mr_next_ok [OF _ \<open>2 \<le> length buf\<close>] mw_next_ok [OF _ \<open>2 \<le> length buf\<close>]
      by (cases "mb_inner t") (fastforce simp: mailbox_ops_def mb_next_pdu_def mb_inv_def mb_expects_def
        mb_need_def mb_is_busy_def)+
  next
    case False
    with 1(1) show ?thesis
      by (cases "mb_state t") (auto simp: mailbox_ops_def mb_next_pdu_def)
  qed
next
  case (2 t p time)
  show ?case
  proof (cases "mb_state t = MbProcessing")
    case True
    with 2 show ?thesis
      using mr_recieve_ok [of _ p time] mw_recieve_ok [of _ p time]
      by (cases "mb_inner t") (fastforce simp: mailbox_ops_def mb_recieve_and_process_def mb_inv_def mb_expects_def
        mb_need_def mb_is_busy_def split: option.splits sum.splits)+
  next
    case False
    with 2(1) show ?thesis
      by (cases "mb_state t") (auto simp: mailbox_ops_def mb_recieve_and_process_def)
  qed
next
  case (3 t buf)
  then show ?case
    by (cases "mb_state t") (auto simp: mailbox_ops_def mb_next_pdu_def mb_is_busy_def)
qed

context crates_laws
begin

lemmas mb_block_on = mb.block_on_free

end

section \<open>The protocols\<close>

definition status_request :: "SlaveAddress \<Rightarrow> SyncManager \<Rightarrow> Command \<times> bytes" where
  "status_request addr sm = (Command_new_read (Single addr) (0x805 + ucast (sm_number sm) * 8), [0, 0])"

definition message_request :: "SlaveAddress \<Rightarrow> SyncManager \<Rightarrow> bytes \<Rightarrow> Command \<times> bytes" where
  "message_request addr sm msg =
     (Command_new_write (Single addr) (sm_start_address sm), take (unat (sm_size sm)) msg)"

definition mailbox_full :: "bytes \<Rightarrow> bool" where
  "mailbox_full d = bit_at d 3"

text \<open>A writer in its two states, with the saved bytes.\<close>

definition mb_writer :: "SlaveAddress \<Rightarrow> SyncManager \<Rightarrow> mw_state \<Rightarrow> Command \<Rightarrow> bytes \<Rightarrow> u64 \<Rightarrow> MailboxTask" where
  "mb_writer addr sm st c saved start =
     \<lparr>mb_state = MbProcessing, mb_inner = Writer \<lparr>mw_timer_start = start, mw_command = c,
        mw_slave_address = addr, mw_empty_check_buffer = saved, mw_state = st,
        mw_sm_ado_offset = ucast (sm_number sm) * 8, mw_sm_size = sm_size sm,
        mw_sm_start_address = sm_start_address sm\<rparr>\<rparr>"

lemma mb_start_to_write_eq:
  "mb_start_to_write MailboxTask_new addr sm w =
     Some (mb_writer addr sm (MwCheckMailboxEmpty True w) Command_default [0, 0] 0)"
  by (simp add: mb_start_to_write_def mw_start_def MailboxWriteTask_new_def umul_number mb_writer_def
    MailboxTask_new_def SyncManagerStatus_def SyncManagerActivation_def numeral_2_eq_2)

context crates_laws
begin

lemma mb_writer_check:
  assumes "2 \<le> length buf" and "length saved = 2" and "length d = 2"
    and "c' = fst (status_request addr sm)" and "start' = (if is_first then time else start)"
    and "unat time \<le> unat start' + 100000000"
    and "dialogue (mailbox_ops X) (mb_writer addr sm (if mailbox_full d then MwCheckMailboxEmpty False w else MwWrite)
        c' (take 2 buf) start') (d @ drop 2 buf) as = Some (rs, t')"
    and "mailbox_full d \<longrightarrow> w"
  shows "dialogue (mailbox_ops X) (mb_writer addr sm (MwCheckMailboxEmpty is_first w) c saved start) buf
      ((d, 1, time) # as) = Some (status_request addr sm # rs, t')"
proof -
  have le: "unat (ucast (sm_number sm) * 8 :: u16) \<le> 2040" by (simp add: unat_number)
  have saved: "copy_zip saved buf = take 2 buf" using assms(1,2) by (simp add: copy_zip_def)
  have answer: "copy_zip (0 # 0 # drop (Suc (Suc 0)) buf) d = d @ drop 2 buf"
    using assms(1,3) by (simp add: copy_zip_def numeral_2_eq_2)
  show ?thesis
    using assms(1,3-)
    by (auto simp: dialogue.simps(2) saved answer mailbox_ops_def mb_next_pdu_def mw_next_pdu_def mb_writer_def sm_regs uadd_offset le rust_simps
      mb_recieve_and_process_def mw_recieve_and_process_def mw_process_def reg_eqs mailbox_full_def Let_def
      mailbox_timed_out_eq MAILBOX_REQUEST_RETRY_TIMEOUT_DEFAULT_MS_def mw_wait_def mb_finish_def status_request_def
      split: if_splits)
qed

lemma mb_writer_write:
  assumes "unat (sm_size sm) \<le> length buf" and "2 \<le> length buf" and "length saved = 2"
    and "unat time \<le> unat start + 100000000"
  shows "\<exists>t'. dialogue (mailbox_ops X) (mb_writer addr sm MwWrite c saved start) buf [(d, 1, time)] =
      Some ([message_request addr sm (saved @ drop 2 buf)], t') \<and> mb_wait t' = Some (Inr ())"
proof -
  have "copy_zip buf saved = saved @ drop 2 buf" using assms(2,3) by (simp add: copy_zip_def)
  then show ?thesis
    using assms
    by (auto simp: dialogue.simps(2) mailbox_ops_def mb_next_pdu_def mw_next_pdu_def mb_writer_def
      mb_recieve_and_process_def mw_recieve_and_process_def mw_process_def Let_def
      mailbox_timed_out_eq MAILBOX_REQUEST_RETRY_TIMEOUT_DEFAULT_MS_def mw_wait_def mb_finish_def
      message_request_def mb_wait_def)
qed

end

text \<open>
  C12: a message is written to an empty mailbox unchanged. With a buffer that holds the message
  and a slave that answers both requests in time, the task asks for the status of the sync
  manager, writes exactly the bytes of the buffer, as many as the mailbox has, to the address of
  the mailbox, and is done.
\<close>

theorem mailbox_write_dialogue:
  assumes X: "crates_laws X" and buf: "unat (sm_size sm) \<le> length buf" "2 \<le> length buf"
    and d: "length d1 = 2" "\<not> mailbox_full d1" and tm: "unat t2 \<le> unat t1 + 100000000"
  shows "\<exists>t t'. mb_start_to_write MailboxTask_new addr sm wait_empty = Some t \<and>
    dialogue (mailbox_ops X) t buf [(d1, 1, t1), (d2, 1, t2)] =
      Some ([status_request addr sm, message_request addr sm buf], t') \<and> mb_wait t' = Some (Inr ())"
proof -
  have l: "unat (sm_size sm) \<le> length (d1 @ drop 2 buf)" "2 \<le> length (d1 @ drop 2 buf)" "length (take 2 buf) = 2"
    using buf d(1) by simp_all
  obtain t' where t': "dialogue (mailbox_ops X) (mb_writer addr sm MwWrite (fst (status_request addr sm)) (take 2 buf) t1)
      (d1 @ drop 2 buf) [(d2, 1, t2)] = Some ([message_request addr sm buf], t')" "mb_wait t' = Some (Inr ())"
    using crates_laws.mb_writer_write [OF X l tm, of addr "fst (status_request addr sm)" d2] d(1) by auto
  have "dialogue (mailbox_ops X) (mb_writer addr sm (MwCheckMailboxEmpty True wait_empty) Command_default [0, 0] 0)
      buf [(d1, 1, t1), (d2, 1, t2)] = Some ([status_request addr sm, message_request addr sm buf], t')"
    by (rule crates_laws.mb_writer_check [OF X]) (use buf d t'(1) in simp_all)
  with t'(2) show ?thesis by (auto simp: mb_start_to_write_eq)
qed

definition example_sm :: SyncManager where
  "example_sm = \<lparr>sm_number = 0, sm_size = 4, sm_start_address = 0x1000\<rparr>"

theorem mailbox_write_dialogue_witness:
  "crates_laws ref_crates \<and>
   (\<exists>t t'. mb_start_to_write MailboxTask_new (StationAddress 1) example_sm False = Some t \<and>
    dialogue (mailbox_ops ref_crates) t [1, 2, 3, 4, 5] [([0, 1], 1, 7), ([1, 2, 3, 4], 1, 8)] =
      Some ([status_request (StationAddress 1) example_sm,
             message_request (StationAddress 1) example_sm [1, 2, 3, 4, 5]], t') \<and> mb_wait t' = Some (Inr ()))"
proof -
  have "\<exists>t t'. mb_start_to_write MailboxTask_new (StationAddress 1) example_sm False = Some t \<and>
    dialogue (mailbox_ops ref_crates) t [1, 2, 3, 4, 5] [([0, 1], 1, 7), ([1, 2, 3, 4], 1, 8)] =
      Some ([status_request (StationAddress 1) example_sm,
             message_request (StationAddress 1) example_sm [1, 2, 3, 4, 5]], t') \<and> mb_wait t' = Some (Inr ())"
    by (rule mailbox_write_dialogue [OF ref_crates_laws]) (simp_all add: example_sm_def mailbox_full_def bit_at_def)
  with ref_crates_laws show ?thesis by blast
qed

text \<open>
  C14: waiting for the mailbox to become empty destroys the message. When the first status shows a
  full mailbox, the second request saves the first two bytes of the buffer again, which by then
  hold the status of the sync manager: the message that is finally written starts with the status
  bytes instead of its own length field, and the task reports success.
\<close>

theorem mailbox_write_corrupts:
  assumes X: "crates_laws X" and buf: "unat (sm_size sm) \<le> length buf" "2 \<le> length buf"
    and d: "length d0 = 2" "mailbox_full d0" "length d1 = 2" "\<not> mailbox_full d1"
    and tm: "unat t1 \<le> unat t0 + 100000000" "unat t2 \<le> unat t0 + 100000000"
  shows "\<exists>t t'. mb_start_to_write MailboxTask_new addr sm True = Some t \<and>
    dialogue (mailbox_ops X) t buf [(d0, 1, t0), (d1, 1, t1), (d2, 1, t2)] =
      Some ([status_request addr sm, status_request addr sm,
             message_request addr sm (d0 @ drop 2 buf)], t') \<and> mb_wait t' = Some (Inr ())"
proof -
  let ?c = "fst (status_request addr sm)"
  have l: "unat (sm_size sm) \<le> length (d1 @ drop 2 buf)" "2 \<le> length (d1 @ drop 2 buf)"
    using buf d(3) by simp_all
  obtain t' where t': "dialogue (mailbox_ops X) (mb_writer addr sm MwWrite ?c d0 t0)
      (d1 @ drop 2 buf) [(d2, 1, t2)] = Some ([message_request addr sm (d0 @ drop 2 buf)], t')"
      "mb_wait t' = Some (Inr ())"
    using crates_laws.mb_writer_write [OF X l d(1) tm(2), of addr ?c d2] d(3) by auto
  have "dialogue (mailbox_ops X) (mb_writer addr sm (MwCheckMailboxEmpty False True) ?c (take 2 buf) t0)
      (d0 @ drop 2 buf) [(d1, 1, t1), (d2, 1, t2)] =
    Some ([status_request addr sm, message_request addr sm (d0 @ drop 2 buf)], t')"
    by (rule crates_laws.mb_writer_check [OF X]) (use buf d tm t'(1) in simp_all)
  then have "dialogue (mailbox_ops X) (mb_writer addr sm (MwCheckMailboxEmpty True True) Command_default [0, 0] 0)
      buf [(d0, 1, t0), (d1, 1, t1), (d2, 1, t2)] =
    Some ([status_request addr sm, status_request addr sm, message_request addr sm (d0 @ drop 2 buf)], t')"
    by (intro crates_laws.mb_writer_check [OF X]) (use buf d in simp_all)
  with t'(2) show ?thesis by (auto simp: mb_start_to_write_eq)
qed

theorem mailbox_write_corrupts_witness:
  "crates_laws ref_crates \<and>
   (\<exists>t t'. mb_start_to_write MailboxTask_new (StationAddress 1) example_sm True = Some t \<and>
    dialogue (mailbox_ops ref_crates) t [1, 2, 3, 4, 5] [([8, 1], 1, 7), ([0, 1], 1, 8), ([1, 2, 3, 4], 1, 9)] =
      Some ([status_request (StationAddress 1) example_sm, status_request (StationAddress 1) example_sm,
             message_request (StationAddress 1) example_sm [8, 1, 3, 4, 5]], t') \<and> mb_wait t' = Some (Inr ()))"
proof -
  have "\<exists>t t'. mb_start_to_write MailboxTask_new (StationAddress 1) example_sm True = Some t \<and>
    dialogue (mailbox_ops ref_crates) t [1, 2, 3, 4, 5] [([8, 1], 1, 7), ([0, 1], 1, 8), ([1, 2, 3, 4], 1, 9)] =
      Some ([status_request (StationAddress 1) example_sm, status_request (StationAddress 1) example_sm,
             message_request (StationAddress 1) example_sm ([8, 1] @ drop 2 [1, 2, 3, 4, 5])], t') \<and>
      mb_wait t' = Some (Inr ())"
    by (rule mailbox_write_corrupts [OF ref_crates_laws]) (simp_all add: example_sm_def mailbox_full_def bit_at_def)
  with ref_crates_laws show ?thesis by simp
qed

section \<open>The protocol of the reader\<close>

definition mb_reader ::
    "SlaveAddress \<Rightarrow> SyncManager \<Rightarrow> mr_state \<Rightarrow> Command \<Rightarrow> bytes \<Rightarrow> u64 \<Rightarrow> MailboxTask" where
  "mb_reader addr sm st c activation start =
     \<lparr>mb_state = MbProcessing, mb_inner = Reader \<lparr>mr_timer_start = start, mr_command = c,
        mr_slave_address = addr, mr_state = st, mr_activation_buf = activation,
        mr_sm_ado_offset = ucast (sm_number sm) * 8, mr_sm_size = sm_size sm,
        mr_sm_start_address = sm_start_address sm\<rparr>\<rparr>"

definition fetch_request :: "SlaveAddress \<Rightarrow> SyncManager \<Rightarrow> Command \<times> bytes" where
  "fetch_request addr sm =
     (Command_new_read (Single addr) (sm_start_address sm), replicate (unat (sm_size sm)) 0)"

definition repeat_request :: "SlaveAddress \<Rightarrow> SyncManager \<Rightarrow> u8 \<Rightarrow> Command \<times> bytes" where
  "repeat_request addr sm activation =
     (Command_new_write (Single addr) (0x806 + ucast (sm_number sm) * 8), [activation XOR 2])"

definition ack_request :: "SlaveAddress \<Rightarrow> SyncManager \<Rightarrow> Command \<times> bytes" where
  "ack_request addr sm = (Command_new_read (Single addr) (0x807 + ucast (sm_number sm) * 8), [0])"

lemma mb_start_to_read_eq:
  "mb_start_to_read MailboxTask_new addr sm w =
     Some (mb_reader addr sm (MrCheckMailboxAlreadyExisted True w) Command_default [0] 0)"
  by (simp add: mb_start_to_read_def mr_start_def MailboxReadTask_new_def umul_number mb_reader_def
    MailboxTask_new_def SyncManagerActivation_def)

lemma toggle_repeat: "set_field [b] 1 1 (of_bool (\<not> bit_at [b] 1)) = [b XOR 2]"
proof -
  have "set_field [b] 1 1 (of_bool (\<not> bit_at [b] 1)) ! 0 = b XOR 2"
    by (rule bit_word_eqI) (auto simp: set_field_def bit_byte_of bit_at_def bit_simps)
  then show ?thesis by (metis length_set_field length_0_conv length_Suc_conv list.size(3,4) nth_Cons_0 One_nat_def
    add_0 add_Suc_right)
qed

lemmas mb_reader_defs = mailbox_ops_def mb_next_pdu_def mr_next_pdu_def mb_reader_def
  mb_recieve_and_process_def mr_recieve_and_process_def mr_process_def Let_def mailbox_timed_out_eq
  MAILBOX_RESPONSE_RETRY_TIMEOUT_DEFAULT_MS_def mr_wait_def mb_finish_def sm_regs uadd_offset unat_number
  mailbox_full_def fetch_request_def repeat_request_def ack_request_def status_request_def

context crates_laws
begin

lemma mb_reader_check:
  assumes "2 \<le> k" and "length act = 1" and "length d = 2" and "mailbox_full d"
    and "start' = (if is_first then time else start)" and "unat time \<le> unat start' + 2000000000"
    and "says (mailbox_ops X) k (mb_reader addr sm MrRead (fst (status_request addr sm)) [d ! 1] start') as rs t'"
  shows "says (mailbox_ops X) k (mb_reader addr sm (MrCheckMailboxAlreadyExisted is_first w) c act start)
      ((d, 1, time) # as) (status_request addr sm # rs) t'"
proof -
  have d1: "drop (Suc 0) d = [d ! 1]"
    using assms(3) by (cases d; cases "tl d") auto
  let ?c = "fst (status_request addr sm)" and ?b = "snd (status_request addr sm)"
  let ?t1 = "mb_reader addr sm (MrCheckMailboxAlreadyExisted is_first w) ?c act start"
  have nx: "\<exists>buf'. ct_next_pdu (mailbox_ops X) (mb_reader addr sm (MrCheckMailboxAlreadyExisted is_first w) c act start) buf =
      Some (Some (?c, 2), ?t1, buf') \<and> length buf' = length buf \<and> take 2 buf' = ?b"
    if "k \<le> length buf" for buf
    using that assms(1,2) by (auto simp: mb_reader_defs rust_simps numeral_2_eq_2)
  have rec: "ct_recieve_and_process (mailbox_ops X) ?t1 \<lparr>pdu_command = ?c, pdu_data = d, pdu_wkc = 1\<rparr> time =
      Some (mb_reader addr sm MrRead ?c [d ! 1] start')"
    using assms(2-6) by (cases is_first) (simp_all add: mb_reader_defs rust_simps reg_eqs d1)
  from says_Cons [OF nx rec assms(7)] show ?thesis by simp
qed

lemma mb_reader_fetch:
  assumes "unat (sm_size sm) \<le> k" and "unat time \<le> unat start + 2000000000"
  shows "w \<noteq> 1 \<Longrightarrow> says (mailbox_ops X) k (mb_reader addr sm MrRequestRepeat (fst (fetch_request addr sm)) act start) as rs t' \<Longrightarrow>
      says (mailbox_ops X) k (mb_reader addr sm MrRead c act start) ((d, w, time) # as) (fetch_request addr sm # rs) t'"
    and "\<exists>t'. says (mailbox_ops X) k (mb_reader addr sm MrRead c act start) [(d, 1, time)] [fetch_request addr sm] t' \<and>
      mb_wait t' = Some (Inr ())"
proof -
  let ?c = "fst (fetch_request addr sm)" and ?b = "snd (fetch_request addr sm)"
  let ?t1 = "mb_reader addr sm MrRead ?c act start"
  have nx: "\<exists>buf'. ct_next_pdu (mailbox_ops X) (mb_reader addr sm MrRead c act start) buf =
      Some (Some (?c, unat (sm_size sm)), ?t1, buf') \<and> length buf' = length buf \<and> take (unat (sm_size sm)) buf' = ?b"
    if "k \<le> length buf" for buf
    using that assms(1) by (auto simp: mb_reader_defs rust_simps)
  show "says (mailbox_ops X) k (mb_reader addr sm MrRead c act start) ((d, w, time) # as) (fetch_request addr sm # rs) t'"
    if "w \<noteq> 1" "says (mailbox_ops X) k (mb_reader addr sm MrRequestRepeat ?c act start) as rs t'"
    using says_Cons [OF nx _ that(2), where data = d and wkc = w and time = time] that(1) assms(2)
    by (auto simp: mb_reader_defs)
  show "\<exists>t'. says (mailbox_ops X) k (mb_reader addr sm MrRead c act start) [(d, 1, time)] [fetch_request addr sm] t' \<and>
      mb_wait t' = Some (Inr ())"
    using says_Cons [OF nx _ says_Nil, where data = d and wkc = 1 and time = time] assms(2)
    by (auto simp: mb_reader_defs mb_wait_def intro!: exI)
qed

lemma mb_reader_repeat:
  assumes "1 \<le> k" and "unat time \<le> unat start + 2000000000"
    and "says (mailbox_ops X) k (mb_reader addr sm MrWaitRepeatAck (fst (repeat_request addr sm a)) [a XOR 2] start) as rs t'"
  shows "says (mailbox_ops X) k (mb_reader addr sm MrRequestRepeat c [a] start) ((d, w, time) # as)
      (repeat_request addr sm a # rs) t'"
proof -
  have tg: "set_field [a] (Suc 0) (Suc 0) (of_bool (\<not> bit_at [a] (Suc 0))) = [a XOR 2]"
    using toggle_repeat [of a] by simp
  have nx: "\<exists>buf'. ct_next_pdu (mailbox_ops X) (mb_reader addr sm MrRequestRepeat c [a] start) buf =
      Some (Some (fst (repeat_request addr sm a), 1),
        mb_reader addr sm MrRequestRepeat (fst (repeat_request addr sm a)) [a XOR 2] start, buf') \<and>
      length buf' = length buf \<and> take 1 buf' = snd (repeat_request addr sm a)" if "k \<le> length buf" for buf
    using that assms(1) by (auto simp: mb_reader_defs rust_simps reg_eqs tg)
  show ?thesis
    using says_Cons [OF nx _ assms(3), where data = d and wkc = w and time = time] assms(2)
    by (auto simp: mb_reader_defs)
qed

lemma mb_reader_ack:
  assumes "1 \<le> k" and "unat time \<le> unat start + 2000000000" and "length d = 1" and "bit_at d 1 = bit_at [a] 1"
    and "says (mailbox_ops X) k
      (mb_reader addr sm (MrCheckMailboxAlreadyExisted False True) (fst (ack_request addr sm)) [a] start) as rs t'"
  shows "says (mailbox_ops X) k (mb_reader addr sm MrWaitRepeatAck c [a] start) ((d, 1, time) # as)
      (ack_request addr sm # rs) t'"
proof -
  have nx: "\<exists>buf'. ct_next_pdu (mailbox_ops X) (mb_reader addr sm MrWaitRepeatAck c [a] start) buf =
      Some (Some (fst (ack_request addr sm), 1),
        mb_reader addr sm MrWaitRepeatAck (fst (ack_request addr sm)) [a] start, buf') \<and>
      length buf' = length buf \<and> take 1 buf' = snd (ack_request addr sm)" if "k \<le> length buf" for buf
    using that assms(1) by (auto simp: mb_reader_defs rust_simps)
  show ?thesis
    using says_Cons [OF nx _ assms(5), where data = d and wkc = 1 and time = time] assms(2-4)
    by (auto simp: mb_reader_defs rust_simps reg_eqs)
qed

end

text \<open>
  C13: a message that is lost on the way is asked for again. The reader sees a full mailbox, reads
  it without success (the working counter is not 1), toggles the repeat bit of the activation
  register it has read, waits until the slave acknowledges the toggled bit, looks at the status
  again and reads the mailbox once more; with an answer to that read it is done.
\<close>

theorem mailbox_read_repeats:
  assumes X: "crates_laws X" and buf: "unat (sm_size sm) \<le> length buf" "2 \<le> length buf"
    and d: "length s1 = 2" "mailbox_full s1" "w0 \<noteq> 1" "length k = 1" "bit_at k 1 \<noteq> bit (s1 ! 1) 1"
      "length s2 = 2" "mailbox_full s2"
    and tm: "list_all (\<lambda>t. unat t \<le> unat t1 + 2000000000) [t2, t3, t4, t5, t6]"
  shows "\<exists>t t'. mb_start_to_read MailboxTask_new addr sm wait_full = Some t \<and>
    dialogue (mailbox_ops X) t buf
      [(s1, 1, t1), (m0, w0, t2), (r, w, t3), (k, 1, t4), (s2, 1, t5), (m, 1, t6)] =
      Some ([status_request addr sm, fetch_request addr sm, repeat_request addr sm (s1 ! 1),
             ack_request addr sm, status_request addr sm, fetch_request addr sm], t') \<and>
    mb_wait t' = Some (Inr ())"
proof -
  let ?n = "length buf"
  have tm': "unat t2 \<le> unat t1 + 2000000000" "unat t3 \<le> unat t1 + 2000000000" "unat t4 \<le> unat t1 + 2000000000"
    "unat t5 \<le> unat t1 + 2000000000" "unat t6 \<le> unat t1 + 2000000000" using tm by simp_all
  have ak: "bit_at k 1 = bit_at [s1 ! 1 XOR 2] 1" using d(5) by (simp add: bit_at_def bit_simps)
  obtain t' where t': "mb_wait t' = Some (Inr ())"
    and 6: "says (mailbox_ops X) ?n (mb_reader addr sm MrRead (fst (status_request addr sm)) [s2 ! 1] t1)
      [(m, 1, t6)] [fetch_request addr sm] t'"
    using crates_laws.mb_reader_fetch(2) [OF X buf(1) tm'(5)] by metis
  have "says (mailbox_ops X) ?n (mb_reader addr sm (MrCheckMailboxAlreadyExisted True wait_full) Command_default [0] 0)
      [(s1, 1, t1), (m0, w0, t2), (r, w, t3), (k, 1, t4), (s2, 1, t5), (m, 1, t6)]
      [status_request addr sm, fetch_request addr sm, repeat_request addr sm (s1 ! 1),
       ack_request addr sm, status_request addr sm, fetch_request addr sm] t'"
    using d ak buf tm'
    by (intro crates_laws.mb_reader_check [OF X, where start' = t1] crates_laws.mb_reader_fetch(1) [OF X]
      crates_laws.mb_reader_repeat [OF X] crates_laws.mb_reader_ack [OF X] 6) simp_all
  with t' show ?thesis by (auto simp: mb_start_to_read_eq says_def)
qed

theorem mailbox_read_repeats_witness:
  "crates_laws ref_crates \<and>
   (\<exists>t t'. mb_start_to_read MailboxTask_new (StationAddress 1) example_sm True = Some t \<and>
    dialogue (mailbox_ops ref_crates) t (replicate 4 0)
      [([8, 1], 1, 7), ([0, 0, 0, 0], 0, 8), ([0], 1, 8), ([2], 1, 9), ([8, 3], 1, 9), ([1, 2, 3, 4], 1, 9)] =
      Some ([status_request (StationAddress 1) example_sm, fetch_request (StationAddress 1) example_sm,
             repeat_request (StationAddress 1) example_sm 1, ack_request (StationAddress 1) example_sm,
             status_request (StationAddress 1) example_sm, fetch_request (StationAddress 1) example_sm], t') \<and>
    mb_wait t' = Some (Inr ()))"
proof -
  have "\<exists>t t'. mb_start_to_read MailboxTask_new (StationAddress 1) example_sm True = Some t \<and>
    dialogue (mailbox_ops ref_crates) t (replicate 4 0)
      [([8, 1], 1, 7), ([0, 0, 0, 0], 0, 8), ([0], 1, 8), ([2], 1, 9), ([8, 3], 1, 9), ([1, 2, 3, 4], 1, 9)] =
      Some ([status_request (StationAddress 1) example_sm, fetch_request (StationAddress 1) example_sm,
             repeat_request (StationAddress 1) example_sm ([8, 1] ! 1), ack_request (StationAddress 1) example_sm,
             status_request (StationAddress 1) example_sm, fetch_request (StationAddress 1) example_sm], t') \<and>
    mb_wait t' = Some (Inr ())"
    by (rule mailbox_read_repeats [OF ref_crates_laws])
      (simp_all add: example_sm_def mailbox_full_def bit_at_def)
  with ref_crates_laws show ?thesis by simp
qed

end
