(* ===== verification/Task_Run.thy ===== *)
theory Task_Run
  imports Task_Support
begin

text \<open>
  What \<open>block_on\<close> does on a network that answers, without the machinery of frames and sockets: the
  task and its buffer pass through a sequence of exchanges. In each the task writes its next
  request into the buffer, the network answers it, and the task takes the answer. The tasks whose
  result is left in the buffer are proved correct over these exchanges.
\<close>

section \<open>Exchanges\<close>

definition network_answer ::
    "crates \<Rightarrow> ('d \<Rightarrow> bytes \<Rightarrow> bytes) \<Rightarrow> nat \<Rightarrow> Command \<Rightarrow> bytes \<Rightarrow> Pdu \<Rightarrow> bool" where
  "network_answer X slaves h c b p \<longleftrightarrow>
     (\<exists>d k. wf_chunk k \<and> p = chunk_pdu X (slaves d k) \<and>
        pdu_view k = rq_view \<lparr>rq_command = cmd_type c, rq_adp = cmd_adp c, rq_ado = cmd_ado c,
          rq_data = b, rq_index = of_nat h\<rparr>)"

inductive exchange ::
    "'t cyclic_task_ops \<Rightarrow> (Command \<Rightarrow> bytes \<Rightarrow> Pdu \<Rightarrow> bool) \<Rightarrow>
       't \<times> bytes \<times> u64 \<Rightarrow> 't \<times> bytes \<times> u64 \<Rightarrow> bool"
  for ops R where
  answered: "ct_next_pdu ops t buf = Some (Some (c, n), t1, buf1) \<Longrightarrow> R c (take n buf1) p \<Longrightarrow>
    length (pdu_data p) = n \<Longrightarrow> ct_recieve_and_process ops t1 p (time + 1) = Some t2 \<Longrightarrow>
    exchange ops R (t, buf, time) (t2, copy_zip buf1 (pdu_data p), time + 1)"

inductive_cases exchangeE: "exchange ops R (t, buf, time) s"

text \<open>A socket that holds no request and no answer.\<close>

definition freed :: "bytes \<Rightarrow> PduSocket \<Rightarrow> bool" where
  "freed buf s \<longleftrightarrow> \<not> recv_flag s \<and> sk_command s = None \<and> data_buf s = buf"

text \<open>What a caller does to the buffer of the free socket between two tasks.\<close>

lemma ready_refill:
  assumes rd: "ready si ss h" and s: "freed buf (ss ! h)" and len: "length msg = length buf"
  obtains si' ss' where "get_socket_mut si h ((ss ! h)\<lparr>data_buf := msg\<rparr>) = Some si'" "ready si' ss' h"
    "freed msg (ss' ! h)" "ethdev (iface si') = ethdev (iface si)"
proof -
  let ?s = "(ss ! h)\<lparr>data_buf := msg\<rparr>"
  have r: "idle (iface si)" "dense si ss" "roomy si ss" "\<forall>s \<in> set ss. socket_fits s" "h < length ss"
    using rd by (simp_all add: ready_def)
  obtain si' where si': "get_socket_mut si h ?s = Some si'" "dense si' (ss[h := ?s])" "iface si' = iface si"
    using dense_mut [OF r(2,5)] by blast
  have "roomy si' (ss[h := ?s])"
    using roomy_update [OF r(3,5) _ si'(3), of ?s] s len by (simp add: freed_def)
  moreover have "socket_fits ?s" using s by (simp add: socket_fits_def freed_def)
  then have "\<forall>s \<in> set (ss[h := ?s]). socket_fits s"
    using r(4) set_update_subset_insert [of ss h ?s] by auto
  ultimately have "ready si' (ss[h := ?s]) h" using r(1,5) si' by (simp add: ready_def)
  with si'(1,3) s r(5) show thesis by (intro that [of si' "ss[h := ?s]"]) (simp_all add: freed_def)
qed

locale exchanging_task = terminating_task +
  assumes busy_next: "inv t \<Longrightarrow> ct_is_busy ops t \<Longrightarrow> need t \<le> length buf \<Longrightarrow>
    \<exists>c n t' buf'. ct_next_pdu ops t buf = Some (Some (c, n), t', buf') \<and> ct_is_busy ops t'"
begin

lemma request:
  assumes "inv t" and "ct_is_busy ops t" and "need t \<le> length buf"
  obtains c n t' buf' where "ct_next_pdu ops t buf = Some (Some (c, n), t', buf')"
    "ct_is_busy ops t'" "inv t'" "need t' \<le> need t" "length buf' = length buf" "0 < n" "n \<le> length buf"
    "expects t' = n"
  using busy_next [OF assms] next_ok [OF assms(1,3)] by auto

text \<open>The request in the socket, and the answer the task takes from it.\<close>

definition requested :: "'a \<Rightarrow> bytes \<Rightarrow> 'a \<Rightarrow> PduSocket \<Rightarrow> bool" where
  "requested t buf t1 s \<longleftrightarrow> \<not> recv_flag s \<and> (\<exists>c. sk_command s = Some c \<and>
     ct_next_pdu ops t buf = Some (Some (c, sk_data_length s), t1, data_buf s))"

lemma exchange_step:
  assumes an: "answered X (slaves d) h s s1" and net: "answers dev (slaves d) d"
    and acc: "\<And>t d c. inv t \<Longrightarrow> wf_chunk c \<Longrightarrow> pv_wkc (pdu_view c) = 0 \<Longrightarrow>
      accepts t (chunk_pdu X (slaves d c))"
    and t: "inv t" "need t \<le> length buf" "ct_is_busy ops t" and rq: "requested t buf t1 s"
  obtains t2 buf2 t3 s3 where "exchange ops (network_answer X slaves h) (t, buf, time) (t2, buf2, time + 1)"
    "inv t2" "need t2 \<le> length buf2" "length buf2 = length buf"
    "process_one_step ops t1 s1 (time + 1) = Some (t3, s3)" "socket_fits s3"
    "length (data_buf s3) = length (data_buf s1)" "ct_is_busy ops t3 = ct_is_busy ops t2"
    "if ct_is_busy ops t2 then requested t2 buf2 t3 s3 else t3 = t2 \<and> freed buf2 s3"
proof -
  obtain c where c: "sk_command s = Some c" "\<not> recv_flag s"
    "ct_next_pdu ops t buf = Some (Some (c, sk_data_length s), t1, data_buf s)"
    using rq by (auto simp: requested_def)
  obtain t1: "inv t1" "need t1 \<le> need t" "length (data_buf s) = length buf" "0 < sk_data_length s"
    "sk_data_length s \<le> length buf" "expects t1 = sk_data_length s"
    using request [OF t(1,3,2)] c(3) by fastforce
  have p: "pending s" using c by (simp add: pending_def)
  have f: "socket_fits s" using t1 by (simp add: socket_fits_def)
  obtain k where k: "wf_chunk k" "pdu_view k = rq_view (socket_request (h, s))"
    "get_recieved_pdu s1 = Some (Some (chunk_pdu X (slaves d k)))"
    "length (pv_data (pdu_view (slaves d k))) = sk_data_length s"
    "data_buf s1 = pv_data (pdu_view (slaves d k)) @ drop (sk_data_length s) (data_buf s)"
    by (rule answered_pdu [OF an p f net])
  let ?p = "chunk_pdu X (slaves d k)"
  have data: "pdu_data ?p = pv_data (pdu_view (slaves d k))" by (simp add: chunk_pdu_def Let_def)
  have len: "length (pdu_data ?p) = expects t1" using k(4) t1 by (simp add: data)
  have acc': "accepts t1 ?p" using k(2) by (intro acc t1(1) k(1)) (simp add: rq_view_def)
  obtain t2 where t2: "ct_recieve_and_process ops t1 ?p (time + 1) = Some t2" "inv t2" "need t2 \<le> need t1"
    using recieve_ok [OF t1(1) acc' len] by blast
  have buf2: "copy_zip (data_buf s) (pdu_data ?p) = data_buf s1"
    using k(4,5) t1 by (simp add: data copy_zip_def)
  have answer: "network_answer X slaves h c (take (sk_data_length s) (data_buf s)) ?p"
    using k(1,2) c(1) by (auto simp: network_answer_def socket_request_def)
  have ex: "exchange ops (network_answer X slaves h) (t, buf, time) (t2, data_buf s1, time + 1)"
    using exchange.answered [OF c(3), of "network_answer X slaves h" ?p time t2] answer t2(1) len t1
    by (simp add: buf2)
  have l: "length (data_buf s1) = length buf" using buf2 t1 by (metis length_copy_zip)
  have need: "need t2 \<le> length (data_buf s1)" using t2(3) t1(2) t(2) l by simp
  show thesis
  proof (cases "ct_is_busy ops t2")
    case True
    obtain c' n' t3 buf3 where n: "ct_next_pdu ops t2 (data_buf s1) = Some (Some (c', n'), t3, buf3)"
      "ct_is_busy ops t3" "length buf3 = length (data_buf s1)" "0 < n'" "n' \<le> length (data_buf s1)"
      by (rule request [OF t2(2) True need])
    show thesis
      by (rule that [OF ex t2(2) need l, of t3 "s1\<lparr>recv_flag := False, sk_wkc := 0, data_buf := buf3,
          sk_command := Some c', sk_data_length := n'\<rparr>"])
        (use n k(3) t2(1) True in \<open>simp_all add: process_one_step_def set_pdu_def socket_fits_def requested_def\<close>)
  next
    case False
    show thesis
      by (rule that [OF ex t2(2) need l, of t2 "s1\<lparr>recv_flag := False, sk_wkc := 0, sk_command := None,
          sk_data_length := 0\<rparr>"])
        (use k(3) t2(1) False idle_next [OF t2(2) False need] in
          \<open>simp_all add: process_one_step_def set_pdu_def socket_fits_def freed_def\<close>)
  qed
qed

lemma loop_exchanges:
  fixes si :: "'d SocketInterface"
  assumes X: "crates_laws X" and net: "\<And>d. answers dev (slaves d) d"
    and acc: "\<And>t d c. inv t \<Longrightarrow> wf_chunk c \<Longrightarrow> pv_wkc (pdu_view c) = 0 \<Longrightarrow>
      accepts t (chunk_pdu X (slaves d c))"
    and "(exchange ops (network_answer X slaves h))\<^sup>*\<^sup>* start (t, buf, time)"
    and "inv t" and "need t \<le> length buf" and "ct_is_busy ops t"
    and "ready si ss h" and "requested t buf t1 (ss ! h)" and "time < 100000"
  shows "\<exists>r si' t'. block_on_loop X dev ops h si t1 (time + 1) =
      (Some (Some (r, si', t')) :: (('e TaskError + unit) \<times> 'd SocketInterface \<times> 'a) run) \<and>
    inv t' \<and> (r = Inl Timeout \<or> r = Inr () \<and> \<not> ct_is_busy ops t' \<and>
      (\<exists>ss' buf' time'. ready si' ss' h \<and> freed buf' (ss' ! h) \<and> length buf' = length buf \<and>
        (exchange ops (network_answer X slaves h))\<^sup>*\<^sup>* start (t', buf', time')))"
  using assms(4-)
proof (induction "100000 - unat time" arbitrary: si ss t t1 buf time rule: less_induct)
  case less
  obtain s1 where an: "answered X (slaves (ethdev (iface si))) h (ss ! h) s1"
    and it: "iterates (block_on_loop X dev ops h ::
      'd SocketInterface \<Rightarrow> 'a \<Rightarrow> u64 \<Rightarrow> (('e TaskError + unit) \<times> 'd SocketInterface \<times> 'a) run)
      ops h si t1 (time + 1) ss s1"
    by (rule block_on_iterate [OF X net less.prems(5)])
  obtain t2 buf2 t3 s3 where
    ex: "exchange ops (network_answer X slaves h) (t, buf, time) (t2, buf2, time + 1)"
    and t2: "inv t2" "need t2 \<le> length buf2" "length buf2 = length buf"
    and st: "process_one_step ops t1 s1 (time + 1) = Some (t3, s3)" "socket_fits s3"
      "length (data_buf s3) = length (data_buf s1)"
    and b: "ct_is_busy ops t3 = ct_is_busy ops t2"
      "if ct_is_busy ops t2 then requested t2 buf2 t3 s3 else t3 = t2 \<and> freed buf2 s3"
    by (rule exchange_step [where slaves = slaves and d = "ethdev (iface si)", OF an net acc less.prems(2,3,4,6)])
  have run: "(exchange ops (network_answer X slaves h))\<^sup>*\<^sup>* start (t2, buf2, time + 1)"
    using less.prems(1) ex by (rule rtranclp.rtrancl_into_rtrancl)
  have cnt: "unat (time + 1) = unat time + 1" "unat (time + 1 + 1) = unat time + 2" "unat time < 100000"
    using less.prems(7) by (auto simp: word_less_nat_alt unat_word_ariths)
  obtain si2 ss2 where s2: "ready si2 ss2 h" "ss2 ! h = s3"
    and loop: "block_on_loop X dev ops h si t1 (time + 1) =
      (if \<not> ct_is_busy ops t3 then Some (Some (Inr (), si2, t3))
       else if 100000 < time + 1 + 1 then Some (Some (Inl Timeout, si2, t3))
       else block_on_loop X dev ops h si2 t3 (time + 1 + 1) ::
       (('e TaskError + unit) \<times> 'd SocketInterface \<times> 'a) run)"
    by (rule iteratesD [OF it st])
  show ?case
  proof (cases "ct_is_busy ops t2")
    case False
    with b s2 t2 run show ?thesis unfolding loop by auto
  next
    case True
    then have rq: "requested t2 buf2 t3 (ss2 ! h)" using b(2) s2(2) by simp
    obtain c n t' b' where "ct_next_pdu ops t2 buf2 = Some (Some (c, n), t', b')" "inv t'"
      by (rule request [OF t2(1) True t2(2)])
    with rq have t3: "inv t3" by (auto simp: requested_def)
    show ?thesis
    proof (cases "unat time + 1 < 100000")
      case more: True
      have lt: "100000 - unat (time + 1) < 100000 - unat time" using cnt by linarith
      have "time + 1 < 100000" "\<not> 100000 < time + 1 + 1"
        using more cnt by (simp_all add: word_less_nat_alt)
      with less.hyps [OF lt run t2(1,2) True s2(1) rq] b(1) True t2(3) show ?thesis unfolding loop by simp
    next
      case False
      then have "100000 < time + 1 + 1" using cnt by (simp add: word_less_nat_alt)
      with b(1) True t3 show ?thesis unfolding loop by simp
    qed
  qed
qed

lemma block_on_exchanges:
  fixes si :: "'d SocketInterface"
  assumes X: "crates_laws X" and net: "\<And>d. answers dev (slaves d) d"
    and acc: "\<And>t d c. inv t \<Longrightarrow> wf_chunk c \<Longrightarrow> pv_wkc (pdu_view c) = 0 \<Longrightarrow>
      accepts t (chunk_pdu X (slaves d c))"
    and t: "inv t" and rd: "ready si ss h" and s: "freed buf (ss ! h)" and need: "need t \<le> length buf"
  obtains r si' t' where "block_on X dev ops h si t =
      (Some (Some (r, si', t')) :: (('e TaskError + unit) \<times> 'd SocketInterface \<times> 'a) run)"
    "inv t'" "r = Inl Timeout"
  | si' t' ss' buf' time' where "block_on X dev ops h si t =
      (Some (Some (Inr (), si', t')) :: (('e TaskError + unit) \<times> 'd SocketInterface \<times> 'a) run)"
    "inv t'" "\<not> ct_is_busy ops t'" "ready si' ss' h" "freed buf' (ss' ! h)" "length buf' = length buf"
    "(exchange ops (network_answer X slaves h))\<^sup>*\<^sup>* (t, buf, 0) (t', buf', time')"
proof -
  obtain s1 where an: "answered X (slaves (ethdev (iface si))) h (ss ! h) s1"
    and it: "iterates (block_on_loop X dev ops h ::
      'd SocketInterface \<Rightarrow> 'a \<Rightarrow> u64 \<Rightarrow> (('e TaskError + unit) \<times> 'd SocketInterface \<times> 'a) run)
      ops h si t 0 ss s1"
    by (rule block_on_iterate [OF X net rd])
  have s1: "s1 = ss ! h" "get_recieved_pdu s1 = Some None" "data_buf s1 = buf" "\<not> recv_flag s1"
    using answered_waiting [OF an] s by (auto simp: freed_def pending_def get_recieved_pdu_def)
  show thesis
  proof (cases "ct_is_busy ops t")
    case False
    have st: "process_one_step ops t s1 0 = Some (t, s1\<lparr>recv_flag := False, sk_wkc := 0, data_buf := buf,
        sk_command := None, sk_data_length := 0\<rparr>)" (is "_ = Some (t, ?s)")
      using s1 idle_next [OF t False need] by (simp add: process_one_step_def set_pdu_def)
    obtain si2 ss2 where "ready si2 ss2 h" "ss2 ! h = ?s" "block_on_loop X dev ops h si t 0 =
        (Some (Some (Inr (), si2, t)) :: (('e TaskError + unit) \<times> 'd SocketInterface \<times> 'a) run)"
      by (rule iterates_done [OF it st _ _ False]) (use s s1(1) in \<open>simp_all add: socket_fits_def freed_def\<close>)
    then show thesis
      by (intro that(2) [of si2 t ss2 buf 0]) (simp_all add: block_on_def t False freed_def)
  next
    case True
    obtain c n t1 buf1 where n: "ct_next_pdu ops t buf = Some (Some (c, n), t1, buf1)" "ct_is_busy ops t1"
      "length buf1 = length buf" "0 < n" "n \<le> length buf"
      by (rule request [OF t True need])
    have st: "process_one_step ops t s1 0 = Some (t1, s1\<lparr>recv_flag := False, sk_wkc := 0, data_buf := buf1,
        sk_command := Some c, sk_data_length := n\<rparr>)" (is "_ = Some (t1, ?s)")
      using s1 n by (simp add: process_one_step_def set_pdu_def)
    obtain si2 ss2 where s2: "ready si2 ss2 h" "ss2 ! h = ?s" "block_on_loop X dev ops h si t 0 =
        (block_on_loop X dev ops h si2 t1 (0 + 1) :: (('e TaskError + unit) \<times> 'd SocketInterface \<times> 'a) run)"
      by (rule iterates_busy [OF it st _ _ n(2)]) (use s s1(1) n in \<open>simp_all add: socket_fits_def freed_def\<close>)
    have "requested t buf t1 (ss2 ! h)" using n(1) by (simp add: requested_def s2(2))
    then have "\<exists>r si' t'. block_on_loop X dev ops h si2 t1 (0 + 1) =
        (Some (Some (r, si', t')) :: (('e TaskError + unit) \<times> 'd SocketInterface \<times> 'a) run) \<and>
      inv t' \<and> (r = Inl Timeout \<or> r = Inr () \<and> \<not> ct_is_busy ops t' \<and>
        (\<exists>ss' buf' time'. ready si' ss' h \<and> freed buf' (ss' ! h) \<and> length buf' = length buf \<and>
          (exchange ops (network_answer X slaves h))\<^sup>*\<^sup>* (t, buf, 0) (t', buf', time')))"
      by (intro loop_exchanges [OF X net acc rtranclp.rtrancl_refl t need True s2(1)]) simp_all
    then obtain r si' t' where run: "block_on_loop X dev ops h si2 t1 (0 + 1) =
        (Some (Some (r, si', t')) :: (('e TaskError + unit) \<times> 'd SocketInterface \<times> 'a) run)" "inv t'"
      and r: "r = Inl Timeout \<or> r = Inr () \<and> \<not> ct_is_busy ops t' \<and>
        (\<exists>ss' buf' time'. ready si' ss' h \<and> freed buf' (ss' ! h) \<and> length buf' = length buf \<and>
          (exchange ops (network_answer X slaves h))\<^sup>*\<^sup>* (t, buf, 0) (t', buf', time'))"
      by (elim exE conjE) (rule that)
    from r show thesis
    proof
      assume "r = Inl Timeout"
      then show thesis using that(1) run s2(3) by (simp add: block_on_def)
    next
      assume "r = Inr () \<and> \<not> ct_is_busy ops t' \<and>
        (\<exists>ss' buf' time'. ready si' ss' h \<and> freed buf' (ss' ! h) \<and> length buf' = length buf \<and>
          (exchange ops (network_answer X slaves h))\<^sup>*\<^sup>* (t, buf, 0) (t', buf', time'))"
      then show thesis using that(2) run s2(3) by (auto simp: block_on_def)
    qed
  qed
qed

end

end
