(* ===== verification/Mailbox_Access.thy ===== *)
theory Mailbox_Access
  imports Mailbox_Tasks Task_Run
begin

text \<open>
  \<open>read_mailbox\<close> and \<open>write_mailbox\<close> of \<open>src/src/task/mod.rs\<close> on a network that answers: they
  return, what was read came from the mailbox of the slave and what was written arrived there.
  The proofs follow the exchanges of the mailbox task, with the buffer of the socket.
\<close>

section \<open>The exchanges of the mailbox task\<close>

text \<open>
  While the outer task is processing, the inner one is busy. The buffer has to hold the mailbox,
  otherwise the inner task stops with an error that the outer one does not notice.
\<close>

definition mb_live :: "MailboxTask \<Rightarrow> bool" where
  "mb_live t \<longleftrightarrow> mb_inv t \<and> (mb_state t = MbProcessing \<longrightarrow>
     (case mb_inner t of Reader r \<Rightarrow> mr_is_busy r | Writer w \<Rightarrow> mw_is_busy w))"

definition mb_room :: "MailboxTask \<Rightarrow> nat" where
  "mb_room t = (if mb_is_busy t then max 2 (unat (case mb_inner t of
     Reader r \<Rightarrow> mr_sm_size r | Writer w \<Rightarrow> mw_sm_size w)) else 0)"

context crates_laws
begin

lemma mr_next_busy:
  assumes "mr_ok t" and "mr_is_busy t" and "2 \<le> length buf" and "unat (mr_sm_size t) \<le> length buf"
  shows "\<exists>c n t' buf'. mr_next_pdu X t buf = Some (Some (c, n), t', buf') \<and> mr_state t' = mr_state t \<and>
    mr_sm_size t' = mr_sm_size t"
  using assms
  by (cases "mr_state t") (auto simp: mr_next_pdu_def mr_ok_def mr_is_busy_def sm_regs uadd_offset rust_simps
    reg_eqs Let_def)

lemma mw_next_busy:
  assumes "mw_ok t" and "mw_is_busy t" and "2 \<le> length buf" and "unat (mw_sm_size t) \<le> length buf"
  shows "\<exists>c n t' buf'. mw_next_pdu t buf = Some (Some (c, n), t', buf') \<and> mw_state t' = mw_state t \<and>
    mw_sm_size t' = mw_sm_size t"
  using assms
  by (cases "mw_state t") (auto simp: mw_next_pdu_def mw_ok_def mw_is_busy_def sm_regs uadd_offset rust_simps
    Let_def)

end

lemma mr_recieve_keeps:
  assumes "mr_recieve_and_process X t p time = Some t'" and "mr_is_busy t"
  shows "mr_sm_size t' = mr_sm_size t \<and> (mr_wait t' = None \<longrightarrow> mr_is_busy t')"
  using assms
  by (auto simp: mr_recieve_and_process_def mr_process_def Let_def mr_is_busy_def mr_wait_def
    split: mr_state.splits Option.bind_splits if_splits)

lemma mw_recieve_keeps:
  assumes "mw_recieve_and_process X t p time = Some t'" and "mw_is_busy t"
  shows "mw_sm_size t' = mw_sm_size t \<and> (mw_wait t' = None \<longrightarrow> mw_is_busy t')"
  using assms
  by (auto simp: mw_recieve_and_process_def mw_process_def Let_def mw_is_busy_def mw_wait_def
    split: mw_state.splits Option.bind_splits if_splits)

context crates_laws
begin

lemma mb_live_next:
  assumes "mb_live t" and "mb_is_busy t" and "mb_room t \<le> length buf"
  shows "\<exists>c n t' buf'. mb_next_pdu X t buf = Some (Some (c, n), t', buf') \<and> mb_is_busy t' \<and> mb_live t' \<and>
    mb_room t' = mb_room t \<and> length buf' = length buf \<and> 0 < n \<and> n \<le> length buf \<and> mb_expects t' = n"
proof -
  have st: "mb_state t = MbProcessing" using assms(2) by (simp add: mb_is_busy_def split: mb_state.splits)
  have two: "2 \<le> length buf" using assms(2,3) by (simp add: mb_room_def)
  show ?thesis
  proof (cases "mb_inner t")
    case (Reader r)
    then have r: "mr_ok r" "mr_is_busy r" "unat (mr_sm_size r) \<le> length buf"
      using assms st by (simp_all add: mb_live_def mb_inv_def mb_room_def)
    with mr_next_ok [OF r(1) two] mr_next_busy [OF r(1,2) two r(3)] obtain c n r' buf' where
      "mr_next_pdu X r buf = Some (Some (c, n), r', buf')" "mr_state r' = mr_state r" "mr_sm_size r' = mr_sm_size r"
      "mr_ok r'" "length buf' = length buf" "0 < n" "n \<le> length buf" "mr_expects r' = n" by auto
    with Reader st r(2) show ?thesis
      by (auto simp: mb_next_pdu_def mb_is_busy_def mb_live_def mb_inv_def mb_room_def mb_expects_def mr_is_busy_def)
  next
    case (Writer w)
    then have w: "mw_ok w" "mw_is_busy w" "unat (mw_sm_size w) \<le> length buf"
      using assms st by (simp_all add: mb_live_def mb_inv_def mb_room_def)
    with mw_next_ok [OF w(1) two] mw_next_busy [OF w(1,2) two w(3)] obtain c n w' buf' where
      "mw_next_pdu w buf = Some (Some (c, n), w', buf')" "mw_state w' = mw_state w" "mw_sm_size w' = mw_sm_size w"
      "mw_ok w'" "length buf' = length buf" "0 < n" "n \<le> length buf" "mw_expects w' = n" by auto
    with Writer st w(2) show ?thesis
      by (auto simp: mb_next_pdu_def mb_is_busy_def mb_live_def mb_inv_def mb_room_def mb_expects_def mw_is_busy_def)
  qed
qed

lemma mb_live_recieve:
  assumes "mb_live t" and "length (pdu_data p) = mb_expects t"
  shows "\<exists>t'. mb_recieve_and_process X t p time = Some t' \<and> mb_live t' \<and> mb_room t' \<le> mb_room t"
proof (cases "mb_state t = MbProcessing")
  case st: True
  show ?thesis
  proof (cases "mb_inner t")
    case (Reader r)
    then have r: "mr_ok r" "mr_is_busy r" "length (pdu_data p) = mr_expects r"
      using assms st by (simp_all add: mb_live_def mb_inv_def mb_expects_def)
    obtain r' where "mr_recieve_and_process X r p time = Some r'" "mr_ok r'"
      "mr_sm_size r' = mr_sm_size r" "mr_wait r' = None \<Longrightarrow> mr_is_busy r'"
      using mr_recieve_ok [OF r(1,3)] mr_recieve_keeps [OF _ r(2)] by metis
    with Reader st show ?thesis
      by (auto simp: mb_recieve_and_process_def mb_live_def mb_inv_def mb_room_def mb_is_busy_def
        split: option.splits sum.splits)
  next
    case (Writer w)
    then have w: "mw_ok w" "mw_is_busy w" "length (pdu_data p) = mw_expects w"
      using assms st by (simp_all add: mb_live_def mb_inv_def mb_expects_def)
    obtain w' where "mw_recieve_and_process X w p time = Some w'" "mw_ok w'"
      "mw_sm_size w' = mw_sm_size w" "mw_wait w' = None \<Longrightarrow> mw_is_busy w'"
      using mw_recieve_ok [OF w(1,3)] mw_recieve_keeps [OF _ w(2)] by metis
    with Writer st show ?thesis
      by (auto simp: mb_recieve_and_process_def mb_live_def mb_inv_def mb_room_def mb_is_busy_def
        split: option.splits sum.splits)
  qed
next
  case False
  with assms(1) show ?thesis by (cases "mb_state t") (auto simp: mb_recieve_and_process_def)
qed

end

sublocale crates_laws \<subseteq> mx: exchanging_task "mailbox_ops X" mb_live mb_room mb_expects "\<lambda>_ _. True"
proof (unfold_locales, goal_cases)
  case (1 t buf)
  show ?case
  proof (cases "mb_is_busy t")
    case True
    from mb_live_next [OF 1(1) True 1(2)] show ?thesis by (auto simp: mailbox_ops_def)
  next
    case False
    with 1 show ?thesis
      by (cases "mb_state t") (auto simp: mailbox_ops_def mb_next_pdu_def mb_is_busy_def)
  qed
next
  case (2 t p time)
  then show ?case using mb_live_recieve by (simp add: mailbox_ops_def)
next
  case (3 t buf)
  then show ?case
    by (cases "mb_state t") (auto simp: mailbox_ops_def mb_next_pdu_def mb_is_busy_def)
next
  case (4 t buf)
  with mb_live_next [of t buf] show ?case by (auto simp: mailbox_ops_def)
qed

context crates_laws
begin

lemmas mb_exchanges = mx.block_on_exchanges

end

section \<open>Reading\<close>

text \<open>
  The reader while it works, after a failure, and when it is done: then the front of the buffer is
  what came back for its request to fetch the mailbox, and the slave has answered that request.
\<close>

definition reading ::
    "(Command \<Rightarrow> bytes \<Rightarrow> Pdu \<Rightarrow> bool) \<Rightarrow> SlaveAddress \<Rightarrow> SyncManager \<Rightarrow> MailboxTask \<Rightarrow> bytes \<Rightarrow> bool" where
  "reading R addr sm t buf \<longleftrightarrow>
     (\<exists>st c act start. t = mb_reader addr sm st c act start \<and> length act = 1 \<and>
        (case st of MrIdle \<Rightarrow> False | MrError _ \<Rightarrow> False | MrComplete \<Rightarrow> False | _ \<Rightarrow> True)) \<or>
     (\<exists>e. mb_state t = MbError e) \<or>
     (mb_state t = MbComplete \<and> (\<exists>p. R (fst (fetch_request addr sm)) (snd (fetch_request addr sm)) p \<and>
        pdu_wkc p = 1 \<and> pdu_data p = take (unat (sm_size sm)) buf))"

context crates_laws
begin

lemma reader_next:
  assumes "ct_next_pdu (mailbox_ops X) (mb_reader addr sm st c act start) buf = Some (Some (c', n), t1, buf1)"
    and "length act = 1" and "2 \<le> length buf" and "unat (sm_size sm) \<le> length buf"
  shows "\<exists>act'. t1 = mb_reader addr sm st c' act' start \<and> length act' = 1 \<and> length buf1 = length buf \<and>
    (st = MrRead \<longrightarrow> (c', take n buf1) = fetch_request addr sm \<and> n = unat (sm_size sm))"
  using assms
  by (cases st) (auto simp: mb_reader_defs rust_simps reg_eqs)

lemma reader_recieve:
  assumes "ct_recieve_and_process (mailbox_ops X) (mb_reader addr sm st c act start) p time = Some t2"
    and "length act = 1"
    and "case st of MrIdle \<Rightarrow> False | MrError _ \<Rightarrow> False | MrComplete \<Rightarrow> False | _ \<Rightarrow> True"
  shows "reading R addr sm t2 buf \<or> mb_state t2 = MbComplete \<and> st = MrRead \<and> pdu_wkc p = 1"
  using assms
  by (cases st) (auto simp: mb_reader_defs rust_simps reg_eqs reading_def split: if_splits Option.bind_splits)

lemma reading_exchange:
  assumes ex: "exchange (mailbox_ops X) R (t, buf, time) (t2, buf2, time2)" and rd: "reading R addr sm t buf"
    and len: "2 \<le> length buf" "unat (sm_size sm) \<le> length buf"
  shows "reading R addr sm t2 buf2 \<and> length buf2 = length buf"
  using ex
proof (cases rule: exchange.cases)
  case (answered c n t1 buf1 p)
  then have "mb_state t = MbProcessing"
    by (cases "mb_state t") (simp_all add: mailbox_ops_def mb_next_pdu_def)
  with rd obtain st c0 act start where t: "t = mb_reader addr sm st c0 act start" "length act = 1"
    "case st of MrIdle \<Rightarrow> False | MrError _ \<Rightarrow> False | MrComplete \<Rightarrow> False | _ \<Rightarrow> True"
    by (auto simp: reading_def)
  obtain act' where t1: "t1 = mb_reader addr sm st c act' start" "length act' = 1" "length buf1 = length buf"
    "st = MrRead \<Longrightarrow> (c, take n buf1) = fetch_request addr sm \<and> n = unat (sm_size sm)"
    using reader_next [OF answered(3) [unfolded t(1)] t(2) len] by blast
  have l: "length buf2 = length buf" using answered(1) t1(3) by simp
  from reader_recieve [OF answered(6) [unfolded t1(1)] t1(2) t(3), of R buf2]
  show ?thesis
  proof (elim disjE conjE)
    assume d: "mb_state t2 = MbComplete" "st = MrRead" "pdu_wkc p = 1"
    from t1(4) [OF d(2)] have f: "c = fst (fetch_request addr sm)" "take n buf1 = snd (fetch_request addr sm)"
      "n = unat (sm_size sm)" by (metis fst_conv, metis snd_conv, simp)
    have "pdu_data p = take n buf2" using answered(1,5) t1(3) len(2) f(3) by (simp add: copy_zip_def)
    with d answered(4) f l show ?thesis by (auto simp: reading_def)
  qed (use l in simp)
qed

lemma reading_run:
  assumes "(exchange (mailbox_ops X) R)\<^sup>*\<^sup>* (t, buf, time) (t', buf', time')" and "reading R addr sm t buf"
    and "2 \<le> length buf" and "unat (sm_size sm) \<le> length buf"
  shows "reading R addr sm t' buf' \<and> length buf' = length buf"
  using assms
proof (induction "(t', buf', time')" arbitrary: t' buf' time' rule: rtranclp_induct)
  case (step s)
  then show ?case using reading_exchange by (cases s) (metis (no_types, lifting))
qed simp

end

section \<open>Writing\<close>

text \<open>
  A datagram that writes comes back with the data that was sent: the slaves of a segment change
  only what is read from them. Without this a repeated write would send what the last one returned.
\<close>

definition keeps_writes :: "('d \<Rightarrow> bytes \<Rightarrow> bytes) \<Rightarrow> bool" where
  "keeps_writes slaves \<longleftrightarrow> (\<forall>d k. wf_chunk k \<and> (pv_command (pdu_view k) = CommandType_repr CommandType.APWR \<or>
      pv_command (pdu_view k) = CommandType_repr CommandType.FPWR) \<longrightarrow>
     pv_data (pdu_view (slaves d k)) = pv_data (pdu_view k))"

definition writing ::
    "(Command \<Rightarrow> bytes \<Rightarrow> Pdu \<Rightarrow> bool) \<Rightarrow> SlaveAddress \<Rightarrow> SyncManager \<Rightarrow> bytes \<Rightarrow> MailboxTask \<Rightarrow> bytes \<Rightarrow> bool" where
  "writing R addr sm msg t buf \<longleftrightarrow>
     (\<exists>f c saved start. t = mb_writer addr sm (MwCheckMailboxEmpty f False) c saved start \<and>
        length saved = 2 \<and> buf = msg) \<or>
     (\<exists>c start. t = mb_writer addr sm MwWrite c (take 2 msg) start \<and> length buf = length msg \<and>
        drop 2 buf = drop 2 msg) \<or>
     (\<exists>e. mb_state t = MbError e) \<or>
     (mb_state t = MbComplete \<and> (\<exists>p. R (fst (message_request addr sm msg)) (snd (message_request addr sm msg)) p \<and>
        pdu_wkc p = 1))"

lemmas mb_writer_defs = mailbox_ops_def mb_next_pdu_def mw_next_pdu_def mb_writer_def
  mb_recieve_and_process_def mw_recieve_and_process_def mw_process_def Let_def mailbox_timed_out_eq
  mw_wait_def mb_finish_def sm_regs uadd_offset unat_number message_request_def

context crates_laws
begin

lemma writing_check:
  assumes "ct_next_pdu (mailbox_ops X) (mb_writer addr sm (MwCheckMailboxEmpty f False) c saved start) msg =
      Some (Some (c', n), t1, buf1)"
    and "ct_recieve_and_process (mailbox_ops X) t1 p time = Some t2"
    and "length (pdu_data p) = n" and "length saved = 2" and "2 \<le> length msg"
  shows "writing R addr sm msg t2 (copy_zip buf1 (pdu_data p))"
proof -
  have saved: "copy_zip saved msg = take 2 msg" using assms(4,5) by (simp add: copy_zip_def)
  have t1: "t1 = mb_writer addr sm (MwCheckMailboxEmpty f False) c' (take 2 msg) start" "n = 2"
    "buf1 = 0 # 0 # drop 2 msg"
    using assms(1,5) by (auto simp: mb_writer_defs rust_simps saved numeral_2_eq_2)
  have buf2: "length (copy_zip buf1 (pdu_data p)) = length msg" "drop 2 (copy_zip buf1 (pdu_data p)) = drop 2 msg"
    using assms(3,5) t1 by (simp_all add: copy_zip_def)
  show ?thesis
    using assms(2,3) buf2
    by (auto simp: t1(1,2) mb_writer_defs reg_eqs writing_def split: if_splits)
qed

lemma writing_write:
  assumes "ct_next_pdu (mailbox_ops X) (mb_writer addr sm MwWrite c (take 2 msg) start) buf =
      Some (Some (c', n), t1, buf1)"
    and "R c' (take n buf1) p" and "ct_recieve_and_process (mailbox_ops X) t1 p time = Some t2"
    and "pdu_data p = take n buf1" and "length buf = length msg" and "drop 2 buf = drop 2 msg"
    and "2 \<le> length msg"
  shows "writing R addr sm msg t2 (copy_zip buf1 (pdu_data p))"
proof -
  have "copy_zip buf (take 2 msg) = take 2 msg @ drop 2 buf" using assms(5,7) by (simp add: copy_zip_def)
  also have "\<dots> = msg" by (simp add: assms(6))
  finally have t1: "t1 = mb_writer addr sm MwWrite c' (take 2 msg) start" "buf1 = msg"
    "(c', take n buf1) = message_request addr sm msg" "n = unat (sm_size sm)" "n \<le> length msg"
    using assms(1,5) by (auto simp: mb_writer_defs split: if_splits)
  then have "copy_zip buf1 (pdu_data p) = msg" using assms(4) by (simp add: copy_zip_def)
  with assms(2,3) t1(2-) show ?thesis
    by (auto simp: t1(1) mb_writer_defs writing_def split: if_splits)
qed

lemma writing_exchange:
  assumes ex: "exchange (mailbox_ops X) R (t, buf, time) (t2, buf2, time2)" and wr: "writing R addr sm msg t buf"
    and keep: "\<And>c b p. R c b p \<Longrightarrow> cmd_type c \<in> {CommandType.APWR, CommandType.FPWR} \<Longrightarrow> pdu_data p = b"
    and len: "2 \<le> length msg"
  shows "writing R addr sm msg t2 buf2"
  using ex
proof (cases rule: exchange.cases)
  case (answered c n t1 buf1 p)
  then have "mb_state t = MbProcessing"
    by (cases "mb_state t") (simp_all add: mailbox_ops_def mb_next_pdu_def)
  with wr consider
      (check) f c0 saved start where "t = mb_writer addr sm (MwCheckMailboxEmpty f False) c0 saved start"
        "length saved = 2" "buf = msg"
    | (send) c0 start where "t = mb_writer addr sm MwWrite c0 (take 2 msg) start" "length buf = length msg"
        "drop 2 buf = drop 2 msg"
    by (auto simp: writing_def)
  then show ?thesis
  proof cases
    case check
    show ?thesis
      using writing_check [OF answered(3) [unfolded check(1,3)] answered(6,5) check(2) len] answered(1) by simp
  next
    case send
    have "c = fst (message_request addr sm msg)"
      using answered(3) by (auto simp: send(1) mb_writer_defs split: if_splits)
    then have "cmd_type c \<in> {CommandType.APWR, CommandType.FPWR}"
      by (simp add: message_request_def Command_new_write_def Command_new_def split: SlaveAddress.splits)
    from writing_write [where R = R, OF answered(3) [unfolded send(1)] answered(4,6) keep [OF answered(4) this] send(2,3) len]
    show ?thesis using answered(1) by simp
  qed
qed

lemma writing_run:
  assumes "(exchange (mailbox_ops X) R)\<^sup>*\<^sup>* (t, buf, time) (t', buf', time')" and "writing R addr sm msg t buf"
    and keep: "\<And>c b p. R c b p \<Longrightarrow> cmd_type c \<in> {CommandType.APWR, CommandType.FPWR} \<Longrightarrow> pdu_data p = b"
    and "2 \<le> length msg"
  shows "writing R addr sm msg t' buf'"
  using assms(1,2,4)
proof (induction "(t', buf', time')" arbitrary: t' buf' time' rule: rtranclp_induct)
  case (step s)
  obtain t1 buf1 time1 where s: "s = (t1, buf1, time1)" by (cases s)
  show ?case
    by (rule writing_exchange [OF step(2) [unfolded s] step(3) [OF s step(4,5)] keep step(5)])
qed simp

end

lemma network_keeps:
  assumes "keeps_writes slaves" and "network_answer X slaves h c b p"
    and "cmd_type c \<in> {CommandType.APWR, CommandType.FPWR}"
  shows "pdu_data p = b"
  using assms by (auto simp: network_answer_def keeps_writes_def rq_view_def chunk_pdu_def Let_def)

section \<open>Access to a mailbox\<close>

lemma mb_live_reader: "0 < sm_size sm \<Longrightarrow> mb_live (mb_reader addr sm (MrCheckMailboxAlreadyExisted f w) c [0] start)"
  and mb_room_reader: "mb_room (mb_reader addr sm st c act start) = max 2 (unat (sm_size sm))"
  and mb_live_writer: "0 < sm_size sm \<Longrightarrow> length saved = 2 \<Longrightarrow>
    mb_live (mb_writer addr sm (MwCheckMailboxEmpty f w) c saved start)"
  and mb_room_writer: "mb_room (mb_writer addr sm wst c saved start) = max 2 (unat (sm_size sm))"
  by (simp_all add: mb_live_def mb_inv_def mb_reader_def mb_writer_def mr_ok_def mw_ok_def mr_is_busy_def mw_is_busy_def
    unat_number mb_room_def mb_is_busy_def)

lemma read_mailbox_run:
  fixes si :: "'d SocketInterface" and info :: SlaveInfo
  defines "sm \<equiv> or_default (mailbox_tx_sm info)"
  assumes X: "crates_laws X" and net: "\<And>d. answers dev (slaves d) d" and rd: "ready si ss h"
    and s: "freed buf (ss ! h)" and len: "2 \<le> length buf" "unat (sm_size sm) \<le> length buf" "0 < sm_size sm"
  obtains e si' where "read_mailbox X dev si h info w = Some (Some (Inl e, si'))"
  | frame p si' where "read_mailbox X dev si h info w = Some (Some (Inr frame, si'))" "length frame = length buf"
      "network_answer X slaves h (fst (fetch_request (slave_address info) sm)) (snd (fetch_request (slave_address info) sm)) p"
      "pdu_wkc p = 1" "pdu_data p = take (unat (sm_size sm)) frame"
proof -
  let ?t = "mb_reader (slave_address info) sm (MrCheckMailboxAlreadyExisted True w) Command_default [0] 0"
  have run: "read_mailbox X dev si h info w = and_then (block_on X dev (mailbox_ops X) h si ?t)
     (\<lambda>(r, si, t). Some (case r of
         Inl e \<Rightarrow> ret (Inl e, si)
       | Inr _ \<Rightarrow> do {
           w \<leftarrow> mb_wait t;
           case w of
             Inl e \<Rightarrow> ret (Inl e, si)
           | Inr _ \<Rightarrow> do {
               socket \<leftarrow> get_socket si h;
               ret (Inr (data_buf socket), si) } }))"
    using ready_socket [OF rd] s len(2)
    by (simp add: read_mailbox_def sm_def [symmetric] and_then_def assert_def freed_def mb_start_to_read_eq)
  have room: "mb_room ?t \<le> length buf" using len by (simp add: mb_room_reader)
  have start: "reading (network_answer X slaves h) (slave_address info) sm ?t buf"
    unfolding reading_def
    by (intro disjI1 exI [of _ "MrCheckMailboxAlreadyExisted True w"] exI [of _ Command_default] exI [of _ "[0]"]
      exI [of _ 0]) simp
  show thesis
  proof (rule crates_laws.mb_exchanges [OF X X net TrueI mb_live_reader [OF len(3)] rd s room, where 'e = MailboxTaskError])
    fix r :: "MailboxTaskError TaskError + unit" and si' t'
    assume "block_on X dev (mailbox_ops X) h si ?t = Some (Some (r, si', t'))" "r = Inl Timeout"
    then show thesis using that(1) run by (simp add: and_then_def)
  next
    fix si' t' ss' buf' time'
    assume b: "block_on X dev (mailbox_ops X) h si ?t = Some (Some (Inr () :: MailboxTaskError TaskError + unit, si', t'))"
      and t': "mb_live t'" "\<not> ct_is_busy (mailbox_ops X) t'" and rd': "ready si' ss' h" "freed buf' (ss' ! h)"
      and ex: "(exchange (mailbox_ops X) (network_answer X slaves h))\<^sup>*\<^sup>* (?t, buf, 0) (t', buf', time')"
    have r: "reading (network_answer X slaves h) (slave_address info) sm t' buf'" "length buf' = length buf"
      using crates_laws.reading_run [OF X ex start len(1,2)] by simp_all
    have g: "get_socket si' h = Some (ss' ! h)" "data_buf (ss' ! h) = buf'"
      using ready_socket [OF rd'(1)] rd'(2) by (simp_all add: freed_def)
    show thesis
    proof (cases "mb_state t'")
      case (MbError e)
      then show thesis using that(1) run b by (simp add: and_then_def mb_wait_def)
    next
      case MbComplete
      with r(1) obtain p where "network_answer X slaves h (fst (fetch_request (slave_address info) sm))
          (snd (fetch_request (slave_address info) sm)) p" "pdu_wkc p = 1" "pdu_data p = take (unat (sm_size sm)) buf'"
        by (auto simp: reading_def mb_reader_def)
      with MbComplete show thesis
        using run b g r(2) by (intro that(2) [of buf' si' p]) (simp_all add: and_then_def mb_wait_def)
    qed (use t' in \<open>simp_all add: mb_live_def mb_inv_def mailbox_ops_def mb_is_busy_def\<close>)
  qed
qed

lemma write_mailbox_run:
  fixes si :: "'d SocketInterface" and info :: SlaveInfo
  defines "sm \<equiv> or_default (mailbox_rx_sm info)"
  assumes X: "crates_laws X" and net: "\<And>d. answers dev (slaves d) d" and keep: "keeps_writes slaves"
    and rd: "ready si ss h" and s: "freed buf (ss ! h)"
    and len: "2 \<le> length buf" "unat (sm_size sm) \<le> length buf" "0 < sm_size sm"
    and msg: "writer buf = Some (Inr (), msg)" "length msg = length buf"
  obtains e si' where "write_mailbox X dev si h info writer False = Some (Some (Inl e, si'))"
  | p si' ss' buf' where "write_mailbox X dev si h info writer False = Some (Some (Inr (), si'))"
      "ready si' ss' h" "freed buf' (ss' ! h)" "length buf' = length buf"
      "network_answer X slaves h (fst (message_request (slave_address info) sm msg))
        (snd (message_request (slave_address info) sm msg)) p" "pdu_wkc p = 1"
proof -
  obtain si1 ss1 where si1: "get_socket_mut si h ((ss ! h)\<lparr>data_buf := msg\<rparr>) = Some si1" "ready si1 ss1 h"
    "freed msg (ss1 ! h)"
    by (rule ready_refill [OF rd s msg(2)])
  let ?t = "mb_writer (slave_address info) sm (MwCheckMailboxEmpty True False) Command_default [0, 0] 0"
  have run: "write_mailbox X dev si h info writer False = and_then (block_on X dev (mailbox_ops X) h si1 ?t)
     (\<lambda>(r, si, t). Some (case r of Inl e \<Rightarrow> ret (Inl e, si) | Inr _ \<Rightarrow> do { w \<leftarrow> mb_wait t; ret (w, si) }))"
    using ready_socket [OF rd] s len(2) msg(1) si1(1)
    by (simp add: write_mailbox_def sm_def [symmetric] and_then_def assert_def freed_def mb_start_to_write_eq)
  have room: "mb_room ?t \<le> length msg" using len msg(2) by (simp add: mb_room_writer)
  have live: "mb_live ?t" using len(3) by (simp add: mb_live_writer)
  have start: "writing (network_answer X slaves h) (slave_address info) sm msg ?t msg"
    unfolding writing_def
    by (intro disjI1 exI [of _ True] exI [of _ Command_default] exI [of _ "[0, 0]"] exI [of _ 0]) simp
  have two: "2 \<le> length msg" using len(1) msg(2) by simp
  show thesis
  proof (rule crates_laws.mb_exchanges [OF X X net TrueI live si1(2,3) room, where 'e = MailboxTaskError])
    fix r :: "MailboxTaskError TaskError + unit" and si' t'
    assume "block_on X dev (mailbox_ops X) h si1 ?t = Some (Some (r, si', t'))" "r = Inl Timeout"
    then show thesis using that(1) run by (simp add: and_then_def)
  next
    fix si' t' ss' buf' time'
    assume b: "block_on X dev (mailbox_ops X) h si1 ?t = Some (Some (Inr () :: MailboxTaskError TaskError + unit, si', t'))"
      and t': "mb_live t'" "\<not> ct_is_busy (mailbox_ops X) t'" and rd': "ready si' ss' h" "freed buf' (ss' ! h)"
      and l: "length buf' = length msg"
      and ex: "(exchange (mailbox_ops X) (network_answer X slaves h))\<^sup>*\<^sup>* (?t, msg, 0) (t', buf', time')"
    have w: "writing (network_answer X slaves h) (slave_address info) sm msg t' buf'"
      using crates_laws.writing_run [OF X ex start network_keeps [OF keep] two] by simp
    show thesis
    proof (cases "mb_state t'")
      case (MbError e)
      then show thesis using that(1) run b by (simp add: and_then_def mb_wait_def)
    next
      case MbComplete
      with w obtain p where "network_answer X slaves h (fst (message_request (slave_address info) sm msg))
          (snd (message_request (slave_address info) sm msg)) p" "pdu_wkc p = 1"
        by (auto simp: writing_def mb_writer_def)
      with MbComplete show thesis
        using run b rd' l msg(2) by (intro that(2) [of si' ss' buf' p]) (simp_all add: and_then_def mb_wait_def)
    qed (use t' in \<open>simp_all add: mb_live_def mb_inv_def mailbox_ops_def mb_is_busy_def\<close>)
  qed
qed

end
