(* ===== verification/Sdo.thy ===== *)
theory Sdo
  imports Mailbox_Access
begin

text \<open>
  \<open>write_sdo\<close> and \<open>read_sdo\<close> of \<open>src/src/task/mod.rs\<close>: service data objects over the mailbox. A
  request is written to the mailbox of the slave under the next counter, the answer is fetched,
  parsed and compared with the counter.
\<close>

section \<open>The operations\<close>

datatype SdoType = Req | UploadRes | DownLoadRes | OtherRes | UnsupportedType

datatype SdoErrorKind =
    Mailbox MailboxTaskError
  | AbortCode AbortCode
  | ErrorMailbox MailboxErrorDetail
  | Emmergency EmmergencyErrorCode
  | UnexpectedSdoType SdoType
  | CountUnmatch
  | UnsupportedMailboxProtocol

text \<open>The conversions into \<open>TaskError<SdoErrorKind>\<close>; the first one is \<open>unreachable!\<close> on a specific error.\<close>

definition SdoError_from :: "unit TaskError \<Rightarrow> SdoErrorKind TaskError rust" where
  "SdoError_from err =
     (case err of
        Interface e \<Rightarrow> ret (Interface e)
      | UnexpectedCommand \<Rightarrow> ret UnexpectedCommand
      | UnexpectedWkc e \<Rightarrow> ret (UnexpectedWkc e)
      | TaskSpecific _ \<Rightarrow> panic
      | Timeout \<Rightarrow> ret Timeout)"

definition sdo_error :: "SdoErrorKind \<Rightarrow> SdoErrorKind TaskError" where
  "sdo_error err = TaskSpecific err"

text \<open>
  The first part, common to both: write the request without waiting for an empty mailbox, then
  wait for an answer. Both results are unwrapped.
\<close>

definition sdo_request ::
    "crates \<Rightarrow> 'd device \<Rightarrow> 'd SocketInterface \<Rightarrow> nat \<Rightarrow> SlaveInfo \<Rightarrow> u8 \<Rightarrow> Mailbox \<Rightarrow>
       (bytes \<times> 'd SocketInterface) run" where
  "sdo_request X dev si handle slave_info count message =
     and_then (write_mailbox X dev si handle slave_info
       (\<lambda>mb_frame. do {
          mb_frame \<leftarrow> MailboxFrame_set_count X mb_frame count;
          set_mailbox X mb_frame message }) False)
     (\<lambda>(w, si). case w of
         Inl _ \<Rightarrow> Some panic
       | Inr _ \<Rightarrow> and_then (read_mailbox X dev si handle slave_info True)
           (\<lambda>(r, si). Some (case r of Inl _ \<Rightarrow> panic | Inr mb_data \<Rightarrow> ret (mb_data, si))))"

definition write_sdo_result ::
    "crates \<Rightarrow> bytes \<Rightarrow> u8 \<Rightarrow> Mailbox \<Rightarrow> (SdoErrorKind TaskError + unit) rust" where
  "write_sdo_result X mb_data count mb =
     (case mb of
        Mailbox.Error err \<Rightarrow> ret (Inl (sdo_error (ErrorMailbox err)))
      | Mailbox.UnsupportedProtocol _ \<Rightarrow> ret (Inl (sdo_error UnsupportedMailboxProtocol))
      | Mailbox.CoE _ coe \<Rightarrow>
          (case coe of
             CoE.Emmergency emm_f \<Rightarrow> do {
               code \<leftarrow> emmergency_error_code X emm_f;
               ret (Inl (sdo_error (SdoErrorKind.Emmergency code))) }
           | CoE.SdoReq sdo_req \<Rightarrow>
               (case sdo_req of
                  SdoReq.Abort abort_code \<Rightarrow> ret (Inl (sdo_error (SdoErrorKind.AbortCode abort_code)))
                | _ \<Rightarrow> ret (Inl (sdo_error (UnexpectedSdoType Req))))
           | CoE.SdoRes sdo_res \<Rightarrow>
               (case sdo_res of
                  SdoRes.DownLoad \<Rightarrow> do {
                    c \<leftarrow> MailboxFrame_count X mb_data;
                    ret (if c \<noteq> count then Inl (sdo_error CountUnmatch) else Inr ()) }
                | SdoRes.Upload _ \<Rightarrow> ret (Inl (sdo_error (UnexpectedSdoType UploadRes)))
                | SdoRes.Other _ \<Rightarrow> ret (Inl (sdo_error (UnexpectedSdoType OtherRes))))
           | CoE.UnsupportedType _ \<Rightarrow> ret (Inl (sdo_error (UnexpectedSdoType SdoType.UnsupportedType)))))"

definition write_sdo ::
    "crates \<Rightarrow> 'd device \<Rightarrow> 'd SocketInterface \<Rightarrow> nat \<Rightarrow> Slave \<Rightarrow> u16 \<Rightarrow> u8 \<Rightarrow> bytes \<Rightarrow>
       ((SdoErrorKind TaskError + unit) \<times> 'd SocketInterface \<times> Slave) run" where
  "write_sdo X dev si handle slave idx sub_index data =
     and_then (Some (increment_mb_count slave)) (\<lambda>(count, slave).
     and_then (sdo_request X dev si handle (sl_info slave) count (new_sdo_download_request idx sub_index data))
     (\<lambda>(mb_data, si). Some (do {
        mb \<leftarrow> MailboxFrame_mailbox X mb_data;
        r \<leftarrow> (case mb of
               Inl _ \<Rightarrow> ret (Inl (sdo_error (SdoErrorKind.Mailbox BufferSmall)))
             | Inr mb \<Rightarrow> write_sdo_result X mb_data count mb);
        ret (r, si, slave) })))"

definition read_sdo_result ::
    "crates \<Rightarrow> bytes \<Rightarrow> u8 \<Rightarrow> Mailbox \<Rightarrow> (SdoErrorKind TaskError + bytes) rust" where
  "read_sdo_result X mb_data count mb =
     (case mb of
        Mailbox.Error err \<Rightarrow> ret (Inl (sdo_error (ErrorMailbox err)))
      | Mailbox.UnsupportedProtocol _ \<Rightarrow> ret (Inl (sdo_error UnsupportedMailboxProtocol))
      | Mailbox.CoE _ coe \<Rightarrow>
          (case coe of
             CoE.Emmergency emm_f \<Rightarrow> do {
               code \<leftarrow> emmergency_error_code X emm_f;
               ret (Inl (sdo_error (SdoErrorKind.Emmergency code))) }
           | CoE.SdoReq sdo_req \<Rightarrow>
               (case sdo_req of
                  SdoReq.Abort abort_code \<Rightarrow> ret (Inl (sdo_error (SdoErrorKind.AbortCode abort_code)))
                | _ \<Rightarrow> ret (Inl (sdo_error (UnexpectedSdoType Req))))
           | CoE.SdoRes sdo_res \<Rightarrow>
               (case sdo_res of
                  SdoRes.DownLoad \<Rightarrow> ret (Inl (sdo_error (UnexpectedSdoType DownLoadRes)))
                | SdoRes.Upload res \<Rightarrow> do {
                    c \<leftarrow> MailboxFrame_count X mb_data;
                    ret (if c \<noteq> count then Inl (sdo_error CountUnmatch) else Inr res) }
                | SdoRes.Other _ \<Rightarrow> ret (Inl (sdo_error (UnexpectedSdoType OtherRes))))
           | CoE.UnsupportedType _ \<Rightarrow> ret (Inl (sdo_error (UnexpectedSdoType SdoType.UnsupportedType)))))"

definition read_sdo ::
    "crates \<Rightarrow> 'd device \<Rightarrow> 'd SocketInterface \<Rightarrow> nat \<Rightarrow> Slave \<Rightarrow> u16 \<Rightarrow> u8 \<Rightarrow>
       ((SdoErrorKind TaskError + bytes) \<times> 'd SocketInterface \<times> Slave) run" where
  "read_sdo X dev si handle slave idx sub_index =
     and_then (Some (increment_mb_count slave)) (\<lambda>(count, slave).
     and_then (sdo_request X dev si handle (sl_info slave) count (new_sdo_upload_request idx sub_index))
     (\<lambda>(mb_data, si). Some (do {
        mb \<leftarrow> MailboxFrame_mailbox X mb_data;
        r \<leftarrow> (case mb of
               Inl _ \<Rightarrow> ret (Inl (sdo_error (SdoErrorKind.Mailbox BufferSmall)))
             | Inr mb \<Rightarrow> read_sdo_result X mb_data count mb);
        ret (r, si, slave) })))"

section \<open>A request and its answer\<close>

text \<open>
  The request and the answer on the wire. Under the counter, the message arrived in the receive
  mailbox of the slave (as many bytes as that holds), and the transmit mailbox of the slave was
  read as the front of the frame.
\<close>

definition sdo_exchanged ::
    "crates \<Rightarrow> ('d \<Rightarrow> bytes \<Rightarrow> bytes) \<Rightarrow> nat \<Rightarrow> SlaveInfo \<Rightarrow> u8 \<Rightarrow> Mailbox \<Rightarrow> bytes \<Rightarrow> bool" where
  "sdo_exchanged X slaves h info count message frame \<longleftrightarrow>
     (let rx = or_default (mailbox_rx_sm info); tx = or_default (mailbox_tx_sm info);
          fetch = fetch_request (slave_address info) tx in
      (\<exists>msg p. MailboxFrame_mailbox X msg = Some (Inr message) \<and> MailboxFrame_count X msg = Some count \<and>
         network_answer X slaves h (fst (message_request (slave_address info) rx msg))
           (snd (message_request (slave_address info) rx msg)) p \<and> pdu_wkc p = 1) \<and>
      (\<exists>p. network_answer X slaves h (fst fetch) (snd fetch) p \<and> pdu_wkc p = 1 \<and>
         pdu_data p = take (unat (sm_size tx)) frame))"

text \<open>The buffer of the socket holds the mailboxes of the slave, which are not empty.\<close>

definition mailbox_room :: "SlaveInfo \<Rightarrow> nat \<Rightarrow> bool" where
  "mailbox_room info n \<longleftrightarrow>
     (\<forall>sm \<in> {or_default (mailbox_rx_sm info), or_default (mailbox_tx_sm info)}.
        0 < sm_size sm \<and> unat (sm_size sm) \<le> n)"

lemma increment_mb_count_range:
  obtains count where "increment_mb_count slave = Some (count, slave\<lparr>sl_mailbox_count := count\<rparr>)" "count \<le> 7"
proof -
  let ?c = "if sl_mailbox_count slave < 7 then sl_mailbox_count slave + 1 else 1"
  have "unat (sl_mailbox_count slave) < 255 \<Longrightarrow> uadd (sl_mailbox_count slave) 1 = Some (sl_mailbox_count slave + 1)"
    by (simp add: uadd_def)
  then have "increment_mb_count slave = Some (?c, slave\<lparr>sl_mailbox_count := ?c\<rparr>)"
    by (auto simp: increment_mb_count_def Let_def word_less_nat_alt)
  moreover have "?c \<le> 7"
    by (auto simp: word_less_nat_alt word_le_nat_alt unat_word_ariths)
  ultimately show thesis by (rule that)
qed

context crates_laws
begin

lemma counted:
  assumes "6 \<le> length d" and "count \<le> (7 :: u8)"
  shows "MailboxFrame_set_count X d count = Some (set_field d 46 44 (unat count))"
    and "MailboxFrame_count X (set_field d 46 44 (unat count)) = Some count"
proof -
  have lt: "unat count < 8" using assms(2) by (simp add: word_le_nat_alt)
  then show "MailboxFrame_set_count X d count = Some (set_field d 46 44 (unat count))"
    using assms(1) by (simp add: MailboxFrame_set_count_def put_field_eq)
  show "MailboxFrame_count X (set_field d 46 44 (unat count)) = Some count"
    using assms(1) lt
    by (simp add: MailboxFrame_count_def get_field_eq field_set_field_same take_bit_nat_eq_self)
qed

end

lemma sdo_request_run:
  fixes si :: "'d SocketInterface"
  assumes X: "crates_laws X" and net: "\<And>d. answers dev (slaves d) d" and keep: "keeps_writes slaves"
    and rd: "ready si ss h" and s: "freed buf (ss ! h)" and room: "mailbox_room info (length buf)"
    and len: "6 \<le> length buf" and count: "count \<le> 7"
    and message: "\<And>d. length d = length buf \<Longrightarrow> \<exists>d'. set_mailbox X d message = Some (Inr (), d') \<and>
      length d' = length d \<and> MailboxFrame_mailbox X d' = Some (Inr message) \<and>
      MailboxFrame_count X d' = MailboxFrame_count X d"
  obtains "sdo_request X dev si h info count message = Some None"
  | frame si' where "sdo_request X dev si h info count message = Some (Some (frame, si'))"
      "length frame = length buf" "sdo_exchanged X slaves h info count message frame"
proof -
  note cnt = crates_laws.counted [OF X len count]
  let ?writer = "\<lambda>f. do { f \<leftarrow> MailboxFrame_set_count X f count; set_mailbox X f message }"
  obtain msg where msg: "?writer buf = Some (Inr (), msg)" "length msg = length buf"
    "MailboxFrame_mailbox X msg = Some (Inr message)" "MailboxFrame_count X msg = Some count"
    using message [of "set_field buf 46 44 (unat count)"] cnt by auto
  let ?rx = "or_default (mailbox_rx_sm info)" and ?tx = "or_default (mailbox_tx_sm info)"
  have rx: "2 \<le> length buf" "unat (sm_size ?rx) \<le> length buf" "0 < sm_size ?rx"
    and tx: "unat (sm_size ?tx) \<le> length buf" "0 < sm_size ?tx"
    using room len by (simp_all add: mailbox_room_def)
  show thesis
  proof (rule write_mailbox_run [where writer = ?writer, OF X net keep rd s rx msg(1,2)])
    fix e si1
    assume "write_mailbox X dev si h info ?writer False = Some (Some (Inl e, si1))"
    then show thesis using that(1) by (simp add: sdo_request_def and_then_def)
  next
    fix p si1 ss1 buf1
    assume w: "write_mailbox X dev si h info ?writer False = Some (Some (Inr (), si1))"
      and r1: "ready si1 ss1 h" "freed buf1 (ss1 ! h)" "length buf1 = length buf"
      and p: "network_answer X slaves h (fst (message_request (slave_address info) ?rx msg))
        (snd (message_request (slave_address info) ?rx msg)) p" "pdu_wkc p = 1"
    show thesis
    proof (rule read_mailbox_run [OF X net r1(1,2), of info True])
      fix e si2
      assume "read_mailbox X dev si1 h info True = Some (Some (Inl e, si2))"
      then show thesis using that(1) w by (simp add: sdo_request_def and_then_def)
    next
      fix frame q si2
      assume r: "read_mailbox X dev si1 h info True = Some (Some (Inr frame, si2))" "length frame = length buf1"
        and q: "network_answer X slaves h (fst (fetch_request (slave_address info) ?tx))
          (snd (fetch_request (slave_address info) ?tx)) q" "pdu_wkc q = 1"
          "pdu_data q = take (unat (sm_size ?tx)) frame"
      have "sdo_exchanged X slaves h info count message frame"
        unfolding sdo_exchanged_def Let_def using msg(3,4) p q by blast
      then show thesis using that(2) w r r1(3) by (simp add: sdo_request_def and_then_def)
    qed (use rx(1) tx r1(3) in simp_all)
  qed
qed

text \<open>
  C8: what \<open>read_sdo\<close> returns has been uploaded by the slave. On a network that answers and leaves
  the data of writes alone, with a free socket that holds the mailboxes of the slave and at least
  12 bytes, \<open>read_sdo\<close> ends (it may panic: see below). When it returns \<open>Ok(data)\<close>, the request for
  the index and sub index was delivered to the mailbox of the slave under the next counter, and
  the frame that was then read from the mailbox parses as an upload response with that data and
  that counter.
\<close>

theorem read_sdo_confirmed:
  fixes si :: "'d SocketInterface"
  assumes X: "crates_laws X" and net: "\<And>d. answers dev (slaves d) d" and keep: "keeps_writes slaves"
    and rd: "ready si ss h" and s: "freed buf (ss ! h)" and len: "12 \<le> length buf"
    and room: "mailbox_room (sl_info slave) (length buf)"
  shows "\<exists>q. read_sdo X dev si h slave idx sub = Some q \<and>
    (\<forall>data si' slave'. q = Some (Inr data, si', slave') \<longrightarrow>
      (\<exists>count frame m. increment_mb_count slave = Some (count, slave') \<and>
        sdo_exchanged X slaves h (sl_info slave) count (new_sdo_upload_request idx sub) frame \<and>
        MailboxFrame_mailbox X frame = Some (Inr m) \<and> sdo_upload_response m = Some data \<and>
        MailboxFrame_count X frame = Some count))"
proof -
  obtain count where c: "increment_mb_count slave = Some (count, slave\<lparr>sl_mailbox_count := count\<rparr>)" "count \<le> 7"
    by (rule increment_mb_count_range)
  have message: "\<exists>d'. set_mailbox X d (new_sdo_upload_request idx sub) = Some (Inr (), d') \<and> length d' = length d \<and>
      MailboxFrame_mailbox X d' = Some (Inr (new_sdo_upload_request idx sub)) \<and>
      MailboxFrame_count X d' = MailboxFrame_count X d" if "length d = length buf" for d
    using crates_laws.upload_frame [OF X, of d idx sub] that len by auto
  have six: "6 \<le> length buf" using len by simp
  show ?thesis
  proof (rule sdo_request_run [OF X net keep rd s room six c(2) message])
    assume "sdo_request X dev si h (sl_info slave) count (new_sdo_upload_request idx sub) = Some None"
    then show ?thesis by (simp add: read_sdo_def and_then_def c(1))
  next
    fix frame si'
    assume r: "sdo_request X dev si h (sl_info slave) count (new_sdo_upload_request idx sub) = Some (Some (frame, si'))"
      "sdo_exchanged X slaves h (sl_info slave) count (new_sdo_upload_request idx sub) frame"
    then show ?thesis
      by (auto simp: read_sdo_def and_then_def c(1) read_sdo_result_def sdo_upload_response_def
        split: Option.bind_splits sum.splits Mailbox.splits CoE.splits SdoReq.splits SdoRes.splits if_splits)
  qed simp
qed

text \<open>A slave with two mailboxes of 32 bytes, which holds the answer to an upload.\<close>

definition sdo_info :: SlaveInfo where
  "sdo_info = SlaveInfo_default\<lparr>si_configured_address := 1,
     si_sm := [Some (MailboxRx \<lparr>sm_number = 0, sm_size = 32, sm_start_address = 0x1000\<rparr>),
               Some (MailboxTx \<lparr>sm_number = 1, sm_size = 32, sm_start_address = 0x1080\<rparr>), None, None]\<rparr>"

definition sdo_slave :: "nat \<Rightarrow> pdu_content \<Rightarrow> bytes \<times> u16" where
  "sdo_slave k v =
     (if pv_command v \<noteq> CommandType_repr CommandType.FPRD then (pv_data v, 1)
      else if k = 2 then ([8, 0], 1)
      else if k = 3 then (example_response, 1)
      else (replicate (length (pv_data v)) 0, 1))"

lemma sdo_slave_keeps: "keeps_writes (scripted sdo_slave)"
  using reply_chunk_wf(3) by (auto simp: keeps_writes_def scripted_def sdo_slave_def copy_zip_exact)

lemma sdo_info_room: "mailbox_room sdo_info 32"
  by (simp add: mailbox_room_def sdo_info_def mailbox_rx_sm_def mailbox_tx_sm_def or_default_def)

lemma free_socket_freed: "freed (replicate n 0) ([PduSocket_new (replicate n 0)] ! 0)"
  by (simp add: freed_def PduSocket_new_def)

theorem read_sdo_confirmed_witness:
  "crates_laws ref_crates \<and> keeps_writes (scripted sdo_slave) \<and>
   ready (free_socket 32) [PduSocket_new (replicate 32 0)] 0 \<and>
   (\<exists>q. read_sdo ref_crates (scripted_device sdo_slave) (free_socket 32) 0
       (Slave_default\<lparr>sl_info := sdo_info\<rparr>) 0x1018 1 = Some q \<and>
     (\<forall>data si' slave'. q = Some (Inr data, si', slave') \<longrightarrow>
       (\<exists>frame m. MailboxFrame_mailbox ref_crates frame = Some (Inr m) \<and> sdo_upload_response m = Some data)))"
proof -
  have rd: "ready (free_socket 32) [PduSocket_new (replicate 32 0)] 0" by (rule free_socket_ready) simp
  have len: "12 \<le> length (replicate 32 (0 :: u8))"
    and room: "mailbox_room (sl_info (Slave_default\<lparr>sl_info := sdo_info\<rparr>)) (length (replicate 32 (0 :: u8)))"
    by (simp_all add: sdo_info_room)
  from read_sdo_confirmed [OF ref_crates_laws scripted_answers sdo_slave_keeps rd free_socket_freed len room,
      of "0x1018" 1]
  show ?thesis using rd ref_crates_laws sdo_slave_keeps by blast
qed



section \<open>A slave that does not react\<close>

text \<open>
  \<open>read_sdo\<close> panics when the slave does not react. The signature promises a \<open>TaskError\<close>, but the
  results of \<open>write_mailbox\<close> and \<open>read_mailbox\<close> are unwrapped: when no datagram comes back with the
  working counter 1 (the slave is switched off, or two share its address), the call panics.
\<close>

lemma read_sdo_panics:
  fixes si :: "'d SocketInterface"
  assumes X: "crates_laws X" and net: "\<And>d. answers dev (slaves d) d" and keep: "keeps_writes slaves"
    and rd: "ready si ss h" and s: "freed buf (ss ! h)" and len: "12 \<le> length buf"
    and room: "mailbox_room (sl_info slave) (length buf)"
    and silent: "\<And>d k. wf_chunk k \<Longrightarrow> pv_wkc (pdu_view (slaves d k)) \<noteq> 1"
  shows "read_sdo X dev si h slave idx sub = Some None"
proof -
  obtain count where c: "increment_mb_count slave = Some (count, slave\<lparr>sl_mailbox_count := count\<rparr>)" "count \<le> 7"
    by (rule increment_mb_count_range)
  have message: "\<exists>d'. set_mailbox X d (new_sdo_upload_request idx sub) = Some (Inr (), d') \<and> length d' = length d \<and>
      MailboxFrame_mailbox X d' = Some (Inr (new_sdo_upload_request idx sub)) \<and>
      MailboxFrame_count X d' = MailboxFrame_count X d" if "length d = length buf" for d
    using crates_laws.upload_frame [OF X, of d idx sub] that len by auto
  have six: "6 \<le> length buf" using len by simp
  have no: "\<not> sdo_exchanged X slaves h (sl_info slave) count (new_sdo_upload_request idx sub) frame" for frame
    using silent by (auto simp: sdo_exchanged_def network_answer_def chunk_pdu_def Let_def)
  show ?thesis
    by (rule sdo_request_run [OF X net keep rd s room six c(2) message])
      (use no in \<open>auto simp: read_sdo_def and_then_def c(1)\<close>)
qed

end
