(* ===== verification/Loop_Tasks.thy ===== *)
theory Loop_Tasks
  imports Task_Run
begin

text \<open>
  The tasks of \<open>src/src/task/loop_task/\<close>, which run in every cycle and never end: reading the AL
  state (\<open>al_state_read.rs\<close>), reading the error counters (\<open>rx_error_check.rs\<close>), exchanging the
  process image (\<open>process.rs\<close>) and distributing the DC time (\<open>dc_drift_comp.rs\<close>); and
  \<open>read_al_state\<close> of \<open>src/src/task/mod.rs\<close>.
\<close>

section \<open>Reading the AL state\<close>

record AlStateReadTask =
  asr_target :: TargetSlave
  asr_command :: Command
  asr_last_al_state :: "AlState option"
  asr_last_al_status_code :: "AlStatusCode option"
  asr_invalid_wkc_count :: nat
  asr_last_wkc :: u16

definition asr_buffer_size :: nat where
  "asr_buffer_size = const_max 0 (reg_size AlStatus)"

definition AlStateReadTask_new :: AlStateReadTask where
  "AlStateReadTask_new =
     \<lparr>asr_target = TargetSlave_default, asr_command = Command_default, asr_last_al_state = None,
      asr_last_al_status_code = None, asr_invalid_wkc_count = 0, asr_last_wkc = 0\<rparr>"

definition asr_set_target :: "AlStateReadTask \<Rightarrow> TargetSlave \<Rightarrow> AlStateReadTask" where
  "asr_set_target t target_slave = t\<lparr>asr_target := target_slave\<rparr>"

definition asr_last_state :: "AlStateReadTask \<Rightarrow> AlState option \<times> AlStatusCode option" where
  "asr_last_state t = (asr_last_al_state t, asr_last_al_status_code t)"

definition asr_expected_wkc :: "AlStateReadTask \<Rightarrow> u16" where
  "asr_expected_wkc t = (case asr_target t of All num \<Rightarrow> num | Single _ \<Rightarrow> 1)"

definition asr_next_pdu ::
    "AlStateReadTask \<Rightarrow> bytes \<Rightarrow> ((Command \<times> nat) option \<times> AlStateReadTask \<times> bytes) rust" where
  "asr_next_pdu t buf = do {
     let t = t\<lparr>asr_command := Command_new_read (asr_target t) (reg_address AlStatus)\<rparr>;
     buf \<leftarrow> fill_to (reg_size AlStatus) 0 buf;
     ret (Some (asr_command t, reg_size AlStatus), t, buf) }"

definition asr_recieve_and_process ::
    "crates \<Rightarrow> AlStateReadTask \<Rightarrow> Pdu \<Rightarrow> u64 \<Rightarrow> AlStateReadTask rust" where
  "asr_recieve_and_process X t recv_data sys_time = do {
     let t = (if pdu_wkc recv_data \<noteq> num_targets (asr_target t)
              then t\<lparr>asr_invalid_wkc_count := saturating_add (asr_invalid_wkc_count t) 1\<rparr> else t);
     let data = pdu_data recv_data;
     state \<leftarrow> reg_get X AlStatus ''state'' data;
     let t = t\<lparr>asr_last_al_state := Some (AlState_from state)\<rparr>;
     change_err \<leftarrow> reg_bit X AlStatus ''change_err'' data;
     if change_err then do {
       code \<leftarrow> get_al_status_code X data;
       ret (t\<lparr>asr_last_al_status_code := Some code\<rparr>) }
     else ret (t\<lparr>asr_last_al_status_code := None\<rparr>) }"

definition al_state_read_ops :: "crates \<Rightarrow> AlStateReadTask cyclic_task_ops" where
  "al_state_read_ops X =
     \<lparr>ct_next_pdu = asr_next_pdu, ct_recieve_and_process = asr_recieve_and_process X,
      ct_is_busy = (\<lambda>_. False)\<rparr>"

definition read_al_state ::
    "crates \<Rightarrow> 'd device \<Rightarrow> 'd SocketInterface \<Rightarrow> nat \<Rightarrow> TargetSlave \<Rightarrow>
       ((unit TaskError + AlState \<times> AlStatusCode option) \<times> 'd SocketInterface) run" where
  "read_al_state X dev si handle target_slave =
     and_then (Some (do {
         socket \<leftarrow> get_socket si handle;
         assert (asr_buffer_size \<le> length (data_buf socket));
         ret (asr_set_target AlStateReadTask_new target_slave) }))
     (\<lambda>t. and_then (block_on X dev (al_state_read_ops X) handle si t)
     (\<lambda>(r, si, t). Some (case r of
         Inl e \<Rightarrow> ret (Inl e, si)
       | Inr _ \<Rightarrow>
           if asr_invalid_wkc_count t \<noteq> 0
           then ret (Inl (unexpected_wkc (asr_expected_wkc t) (asr_last_wkc t)), si)
           else do {
             let (al_state, al_status_code) = asr_last_state t;
             al_state \<leftarrow> al_state;
             ret (Inr (al_state, al_status_code), si) })))"

section \<open>Reading the error counters\<close>

record RxErrorReadTask =
  rxe_command :: Command
  rxe_target :: TargetSlave
  rxe_rx_error_count :: bytes
  rxe_invalid_wkc_count :: nat
  rxe_last_wkc :: u16

definition rxe_required_buffer_size :: nat where
  "rxe_required_buffer_size = reg_size RxErrorCounter"

definition RxErrorReadTask_new :: RxErrorReadTask where
  "RxErrorReadTask_new =
     \<lparr>rxe_command = Command_default, rxe_target = TargetSlave_default,
      rxe_rx_error_count = reg_new RxErrorCounter, rxe_invalid_wkc_count = 0, rxe_last_wkc = 0\<rparr>"

definition rxe_set_target :: "RxErrorReadTask \<Rightarrow> TargetSlave \<Rightarrow> RxErrorReadTask" where
  "rxe_set_target t target_slave = t\<lparr>rxe_target := target_slave\<rparr>"

definition rxe_expected_wkc :: "RxErrorReadTask \<Rightarrow> u16" where
  "rxe_expected_wkc t = (case rxe_target t of All num \<Rightarrow> num | Single _ \<Rightarrow> 1)"

definition rxe_next_pdu ::
    "RxErrorReadTask \<Rightarrow> bytes \<Rightarrow> ((Command \<times> nat) option \<times> RxErrorReadTask \<times> bytes) rust" where
  "rxe_next_pdu t buf = do {
     buf \<leftarrow> fill_to (reg_size RxErrorCounter) 0 buf;
     let t = t\<lparr>rxe_command := Command_new_read (rxe_target t) (reg_address RxErrorCounter)\<rparr>;
     ret (Some (rxe_command t, reg_size RxErrorCounter), t, buf) }"

definition rxe_recieve_and_process :: "RxErrorReadTask \<Rightarrow> Pdu \<Rightarrow> u64 \<Rightarrow> RxErrorReadTask rust" where
  "rxe_recieve_and_process t recv_data sys_time = do {
     let t = (if pdu_wkc recv_data \<noteq> num_targets (rxe_target t)
              then t\<lparr>rxe_invalid_wkc_count := saturating_add (rxe_invalid_wkc_count t) 1\<rparr> else t);
     data \<leftarrow> slice_to (reg_size RxErrorCounter) (pdu_data recv_data);
     ret (t\<lparr>rxe_rx_error_count := copy_zip (rxe_rx_error_count t) data\<rparr>) }"

definition rx_error_read_ops :: "RxErrorReadTask cyclic_task_ops" where
  "rx_error_read_ops =
     \<lparr>ct_next_pdu = rxe_next_pdu, ct_recieve_and_process = rxe_recieve_and_process,
      ct_is_busy = (\<lambda>_. False)\<rparr>"

section \<open>Process data\<close>

record ProcessTask =
  pt_command :: Command
  pt_start_logical_address :: u32
  pt_expected_wkc :: u16
  pt_image_size :: nat
  pt_invalid_wkc_count :: nat
  pt_last_wkc :: u16

definition ProcessTask_new :: "u32 \<Rightarrow> u16 \<Rightarrow> nat \<Rightarrow> ProcessTask" where
  "ProcessTask_new start_logical_address expected_wkc image_size =
     \<lparr>pt_command = Command_new_logical_read_write start_logical_address,
      pt_start_logical_address = start_logical_address, pt_expected_wkc = expected_wkc,
      pt_image_size = image_size, pt_invalid_wkc_count = 0, pt_last_wkc = 0\<rparr>"

definition pt_set_expected_wkc :: "ProcessTask \<Rightarrow> u16 \<Rightarrow> ProcessTask" where
  "pt_set_expected_wkc t expected_wkc = t\<lparr>pt_expected_wkc := expected_wkc\<rparr>"

definition pt_set_start_logical_address :: "ProcessTask \<Rightarrow> u32 \<Rightarrow> ProcessTask" where
  "pt_set_start_logical_address t start_logical_address =
     t\<lparr>pt_start_logical_address := start_logical_address\<rparr>"

definition pt_set_image_size :: "ProcessTask \<Rightarrow> nat \<Rightarrow> ProcessTask" where
  "pt_set_image_size t image_size = t\<lparr>pt_image_size := image_size\<rparr>"

definition pt_next_pdu ::
    "ProcessTask \<Rightarrow> bytes \<Rightarrow> ((Command \<times> nat) option \<times> ProcessTask \<times> bytes) rust" where
  "pt_next_pdu t buf =
     ret (if pt_expected_wkc t = 0 then None else Some (pt_command t, pt_image_size t), t, buf)"

definition pt_recieve_and_process :: "ProcessTask \<Rightarrow> Pdu \<Rightarrow> u64 \<Rightarrow> ProcessTask rust" where
  "pt_recieve_and_process t recv_data sys_time =
     ret (if pdu_wkc recv_data \<noteq> pt_expected_wkc t
          then t\<lparr>pt_invalid_wkc_count := saturating_add (pt_invalid_wkc_count t) 1\<rparr> else t)"

definition process_ops :: "ProcessTask cyclic_task_ops" where
  "process_ops =
     \<lparr>ct_next_pdu = pt_next_pdu, ct_recieve_and_process = pt_recieve_and_process,
      ct_is_busy = (\<lambda>_. False)\<rparr>"

section \<open>Distributed clocks\<close>

text \<open>An \<open>i64\<close> is a word read as a signed number.\<close>

type_synonym i64 = "64 word"

definition i64_max :: u64 where "i64_max = 2 ^ 63 - 1"

record DcSyncTask =
  dcs_sys_time_offset :: i64
  dcs_last_dc_time :: u64
  dcs_first_dc_slave :: u16
  dcs_dc_slave_count :: u16
  dcs_invalid_wkc_count :: nat
  dcs_last_wkc :: u16

definition dcs_required_buffer_size :: nat where
  "dcs_required_buffer_size = reg_size DcSystemTime"

definition DcSyncTask_new :: "u16 \<Rightarrow> u16 \<Rightarrow> DcSyncTask" where
  "DcSyncTask_new first_dc_slave_pos num_dc_slaves =
     \<lparr>dcs_sys_time_offset = 0, dcs_last_dc_time = 0, dcs_first_dc_slave = first_dc_slave_pos,
      dcs_dc_slave_count = num_dc_slaves, dcs_invalid_wkc_count = 0, dcs_last_wkc = 0\<rparr>"

definition dcs_next_pdu ::
    "DcSyncTask \<Rightarrow> bytes \<Rightarrow> ((Command \<times> nat) option \<times> DcSyncTask \<times> bytes) rust" where
  "dcs_next_pdu t buf = do {
     let command = Command_new CommandType.ARMW (get_adp (SlavePosition (dcs_first_dc_slave t)))
                     (reg_address DcSystemTime);
     buf \<leftarrow> fill_to (reg_size DcSystemTime) 0 buf;
     ret (Some (command, reg_size DcSystemTime), t, buf) }"

definition dcs_recieve_and_process :: "crates \<Rightarrow> DcSyncTask \<Rightarrow> Pdu \<Rightarrow> u64 \<Rightarrow> DcSyncTask rust" where
  "dcs_recieve_and_process X t recv_data systime = do {
     let t = (if pdu_wkc recv_data \<noteq> dcs_dc_slave_count t
              then t\<lparr>dcs_invalid_wkc_count := saturating_add (dcs_invalid_wkc_count t) 1\<rparr> else t);
     slave_systime \<leftarrow> reg_get X DcSystemTime ''local_system_time'' (pdu_data recv_data);
     let t = t\<lparr>dcs_last_dc_time := slave_systime\<rparr>;
     if systime < slave_systime then do {
       offset \<leftarrow> usub slave_systime systime;
       ret (t\<lparr>dcs_sys_time_offset := min offset i64_max\<rparr>) }
     else do {
       offset \<leftarrow> usub systime slave_systime;
       ret (t\<lparr>dcs_sys_time_offset := min offset i64_max\<rparr>) } }"

definition dc_sync_ops :: "crates \<Rightarrow> DcSyncTask cyclic_task_ops" where
  "dc_sync_ops X =
     \<lparr>ct_next_pdu = dcs_next_pdu, ct_recieve_and_process = dcs_recieve_and_process X,
      ct_is_busy = (\<lambda>_. False)\<rparr>"

section \<open>What the loop tasks have in common\<close>

text \<open>
  A loop task is stepped once per cycle with its socket. Each of them counts the answers whose
  working counter is not the expected one.
\<close>

fun run_cycles :: "'t cyclic_task_ops \<Rightarrow> 't \<Rightarrow> (PduSocket \<times> u64) list \<Rightarrow> 't rust" where
  "run_cycles ops t [] = ret t"
| "run_cycles ops t ((socket, time) # cycles) = do {
     (t, socket) \<leftarrow> process_one_step ops t socket time;
     run_cycles ops t cycles }"

definition invalid_answer :: "u16 \<Rightarrow> PduSocket \<Rightarrow> bool" where
  "invalid_answer wkc s \<longleftrightarrow> (case get_recieved_pdu s of Some (Some p) \<Rightarrow> pdu_wkc p \<noteq> wkc | _ \<Rightarrow> False)"

locale counting_task =
  fixes ops :: "'t cyclic_task_ops" and count :: "'t \<Rightarrow> nat" and expected :: "'t \<Rightarrow> u16"
  assumes next_counts: "ct_next_pdu ops t buf = Some (r, t', buf') \<Longrightarrow>
      count t' = count t \<and> expected t' = expected t"
    and recieve_counts: "ct_recieve_and_process ops t p time = Some t' \<Longrightarrow>
      count t' = (if pdu_wkc p \<noteq> expected t then saturating_add (count t) 1 else count t) \<and>
      expected t' = expected t"
begin

lemma step_counts:
  assumes "process_one_step ops t s time = Some (t', s')"
  shows "count t' = (if invalid_answer (expected t) s then saturating_add (count t) 1 else count t)"
    and "expected t' = expected t"
proof -
  obtain r t1 q buf where r: "get_recieved_pdu s = Some r"
    "(case r of Some p \<Rightarrow> ct_recieve_and_process ops t p time | None \<Rightarrow> Some t) = Some t1"
    "ct_next_pdu ops t1 (data_buf s) = Some (q, t', buf)"
    using assms by (auto simp: process_one_step_def split: Option.bind_splits)
  from next_counts [OF r(3)] r(1,2) recieve_counts [of t _ time t1]
  show "count t' = (if invalid_answer (expected t) s then saturating_add (count t) 1 else count t)"
    and "expected t' = expected t"
    by (auto simp: invalid_answer_def split: option.splits)
qed

lemma cycles_count:
  assumes "run_cycles ops t cycles = Some t'" and "count t \<le> usize_max"
  shows "count t' = min (count t + length (filter (invalid_answer (expected t) \<circ> fst) cycles)) usize_max \<and>
    expected t' = expected t"
  using assms
proof (induction cycles arbitrary: t)
  case (Cons c cycles)
  obtain s time where c: "c = (s, time)" by (cases c)
  from Cons.prems(1) obtain t1 s1 where st: "process_one_step ops t s time = Some (t1, s1)"
    "run_cycles ops t1 cycles = Some t'"
    by (auto simp: c split: Option.bind_splits)
  have "count t1 \<le> usize_max" using step_counts(1) [OF st(1)] Cons.prems(2) by (simp add: saturating_add_def)
  from Cons.IH [OF st(2) this] step_counts [OF st(1)] Cons.prems(2) show ?case
    by (auto simp: c saturating_add_def)
qed simp

end

interpretation asr: counting_task "al_state_read_ops X" asr_invalid_wkc_count "num_targets \<circ> asr_target" for X
  by unfold_locales (auto simp: al_state_read_ops_def asr_next_pdu_def asr_recieve_and_process_def Let_def
    split: Option.bind_splits if_splits)

interpretation rxe: counting_task rx_error_read_ops rxe_invalid_wkc_count "num_targets \<circ> rxe_target"
  by unfold_locales (auto simp: rx_error_read_ops_def rxe_next_pdu_def rxe_recieve_and_process_def Let_def
    split: Option.bind_splits if_splits)

interpretation pt: counting_task process_ops pt_invalid_wkc_count pt_expected_wkc
  by unfold_locales (auto simp: process_ops_def pt_next_pdu_def pt_recieve_and_process_def)

interpretation dcs: counting_task "dc_sync_ops X" dcs_invalid_wkc_count dcs_dc_slave_count for X
  by unfold_locales (auto simp: dc_sync_ops_def dcs_next_pdu_def dcs_recieve_and_process_def Let_def
    split: Option.bind_splits if_splits)

text \<open>
  The process data task counts the lost and incomplete cycles. After any sequence of cycles
  its counter has grown by the number of answers with another working counter than the expected
  one, up to the largest \<open>usize\<close>, and the expected counter is unchanged.
\<close>

lemma process_counts_invalid:
  assumes "run_cycles process_ops t cycles = Some t'" and "pt_invalid_wkc_count t \<le> usize_max"
  shows "pt_invalid_wkc_count t' = min (pt_invalid_wkc_count t +
      length (filter (invalid_answer (pt_expected_wkc t) \<circ> fst) cycles)) usize_max \<and>
    pt_expected_wkc t' = pt_expected_wkc t"
  using assms by (rule pt.cycles_count)

definition answered_socket :: "u16 \<Rightarrow> PduSocket" where
  "answered_socket wkc = (PduSocket_new [1, 2])\<lparr>sk_command := Some (Command_new_logical_read_write 0),
     sk_data_length := 2, recv_flag := True, sk_wkc := wkc\<rparr>"

text \<open>
  The address of the process image cannot be changed. The command of the process data task is
  made once, in \<open>new\<close>: \<open>set_start_logical_address\<close> stores the new address and the getter returns
  it, but every request still carries the logical address given to \<open>new\<close>.
\<close>

lemma process_address_fixed:
  "pt_start_logical_address (pt_set_start_logical_address t a) = a \<and>
   (\<exists>t' buf'. pt_next_pdu (pt_set_start_logical_address (ProcessTask_new a0 w n) a) buf =
     Some (if w = 0 then None else Some (Command_new_logical_read_write a0, n), t', buf'))"
  by (simp add: pt_set_start_logical_address_def pt_next_pdu_def ProcessTask_new_def)

section \<open>The AL state is never read\<close>

text \<open>
  C40: \<open>read_al_state\<close> panics instead of reading. The task is never busy, so \<open>block_on\<close> returns after
  the first step, when the request has only been prepared; no state has been received and the
  result is unwrapped. This holds for every answering network, every target and every free socket
  that is large enough.
\<close>

theorem read_al_state_panics:
  fixes si :: "'d SocketInterface"
  assumes X: "crates_laws X" and net: "\<And>d. answers dev (slaves d) d" and rd: "ready si ss h"
    and s: "freed buf (ss ! h)" and len: "6 \<le> length buf"
  shows "read_al_state X dev si h target = Some None"
proof -
  let ?t = "asr_set_target AlStateReadTask_new target" and ?ops = "al_state_read_ops X"
  obtain s1 where an: "answered X (slaves (ethdev (iface si))) h (ss ! h) s1"
    and it: "iterates (block_on_loop X dev ?ops h ::
      'd SocketInterface \<Rightarrow> AlStateReadTask \<Rightarrow> u64 \<Rightarrow> ((unit TaskError + unit) \<times> 'd SocketInterface \<times> AlStateReadTask) run)
      ?ops h si ?t 0 ss s1"
    by (rule block_on_iterate [OF X net rd])
  have s1: "get_recieved_pdu s1 = Some None" "data_buf s1 = buf"
    using answered_waiting [OF an] s by (auto simp: freed_def pending_def get_recieved_pdu_def)
  obtain t2 s2 where st: "process_one_step ?ops ?t s1 0 = Some (t2, s2)" "socket_fits s2"
    "length (data_buf s2) = length (data_buf s1)" and t2: "asr_last_al_state t2 = None" "asr_invalid_wkc_count t2 = 0"
    using s1 len
    by (auto simp: process_one_step_def al_state_read_ops_def asr_next_pdu_def AlStatus_def rust_simps set_pdu_def
      socket_fits_def asr_set_target_def AlStateReadTask_new_def)
  have idle: "\<not> ct_is_busy ?ops t2" by (simp add: al_state_read_ops_def)
  obtain si2 ss2 where "block_on_loop X dev ?ops h si ?t 0 =
      (Some (Some (Inr (), si2, t2)) :: ((unit TaskError + unit) \<times> 'd SocketInterface \<times> AlStateReadTask) run)"
    by (rule iterates_done [OF it st idle])
  moreover have "get_socket si h = Some (ss ! h)" "data_buf (ss ! h) = buf" "asr_buffer_size = 6"
    using ready_socket [OF rd] s by (simp_all add: freed_def asr_buffer_size_def const_max_def AlStatus_def)
  ultimately show ?thesis
    using len t2 by (simp add: read_al_state_def and_then_def assert_def block_on_def asr_last_state_def)
qed

theorem read_al_state_panics_witness:
  "crates_laws ref_crates \<and> ready (free_socket 6) [PduSocket_new (replicate 6 0)] 0 \<and>
   read_al_state ref_crates (scripted_device (\<lambda>k v. ([8], 1))) (free_socket 6) 0 (Single (StationAddress 1)) =
     Some None"
proof -
  have rd: "ready (free_socket 6) [PduSocket_new (replicate 6 0)] 0" by (rule free_socket_ready) simp
  have s: "freed (replicate 6 0) ([PduSocket_new (replicate 6 0)] ! 0)"
    by (simp add: freed_def PduSocket_new_def)
  from read_al_state_panics [OF ref_crates_laws scripted_answers rd s] rd ref_crates_laws
  show ?thesis by simp
qed

section \<open>The offset of the clocks\<close>

lemma sint_distance:
  fixes a b :: u64
  assumes "a \<le> b"
  shows "sint (min (b - a) i64_max) = min (uint b - uint a) (2 ^ 63 - 1)"
proof -
  have s: "sint w = uint w" if "uint w < 2 ^ 63" for w :: u64
  proof -
    have "- (2 ^ 63) \<le> uint w" by (rule order_trans [OF _ uint_ge_0]) simp
    then have "signed_take_bit 63 (uint w) = uint w" using that by (rule signed_take_bit_int_eq_self)
    then show ?thesis by (simp add: sint_uint)
  qed
  have d: "uint (b - a) = uint b - uint a" using assms by (simp add: uint_minus_simple_alt)
  have m: "uint i64_max = 2 ^ 63 - 1" by (simp add: i64_max_def)
  have "uint (min (b - a) i64_max) = min (uint b - uint a) (2 ^ 63 - 1)"
    using d m by (simp add: min_def word_le_def)
  moreover have "min (uint b - uint a) (2 ^ 63 - 1) < (2 :: int) ^ 63" by simp
  ultimately show ?thesis by (metis s)
qed

text \<open>
  The offset between the clocks loses its sign. From an answer with the system time of the
  reference clock the task stores that time, and as the offset the distance of the two clocks, cut
  off at the largest \<open>i64\<close>: it is never negative, also when the local clock is ahead, although it
  is documented as DC time minus local time.
\<close>

lemma dc_offset_distance:
  assumes "crates_laws X" and "length (pdu_data p) = 8"
  shows "\<exists>t'. dcs_recieve_and_process X t p local = Some t' \<and>
    dcs_last_dc_time t' = of_nat (field (pdu_data p) 63 0) \<and>
    sint (dcs_sys_time_offset t') =
      min \<bar>uint (dcs_last_dc_time t') - uint local\<bar> (2 ^ 63 - 1)"
proof -
  let ?s = "of_nat (field (pdu_data p) 63 0) :: u64"
  have "reg_get X DcSystemTime ''local_system_time'' (pdu_data p) = Some ?s"
    using assms(2) by (simp add: reg_get_def DcSystemTime_def bitfield_crate.get_field_eq
      [OF crates_laws.axioms(1) [OF assms(1)]])
  moreover have "local < ?s \<Longrightarrow> local \<le> ?s" "\<not> local < ?s \<Longrightarrow> ?s \<le> local" by auto
  ultimately show ?thesis
    using sint_distance [of local ?s] sint_distance [of ?s local]
    by (cases "local < ?s")
      (auto simp: dcs_recieve_and_process_def usub_def Let_def word_less_def word_le_def abs_if)
qed

end
