(* ===== verification/Slave_Init.thy ===== *)
theory Slave_Init
  imports Al_State_Transfer Sii_Read
begin

text \<open>
  \<open>src/src/task/slave_initialize.rs\<close>: bringing one slave, addressed by its position, from any state
  to a configured \<open>Init\<close> state. The task runs the AL state transfer and the SII reader as its inner
  tasks, fills a \<open>SlaveInfoBuilder\<close> from what it reads and lays out the sync managers.
\<close>

section \<open>The task\<close>

definition MAX_SM_SIZE :: u16 where "MAX_SM_SIZE = 256"

datatype SlaveInitTaskError =
    AlStateTransition AlStateTransferTaskError
  | SiiRead SiiTaskError
  | FailedToLoadEEPROM

definition SlaveInit_from_al :: "AlStateTransferTaskError TaskError \<Rightarrow> SlaveInitTaskError TaskError" where
  "SlaveInit_from_al err =
     (case err of
        TaskSpecific err \<Rightarrow> TaskSpecific (AlStateTransition err)
      | Interface e \<Rightarrow> Interface e
      | UnexpectedCommand \<Rightarrow> UnexpectedCommand
      | UnexpectedWkc wkc \<Rightarrow> UnexpectedWkc wkc
      | Timeout \<Rightarrow> Timeout)"

definition SlaveInit_from_sii :: "SiiTaskError TaskError \<Rightarrow> SlaveInitTaskError TaskError" where
  "SlaveInit_from_sii err =
     (case err of
        TaskSpecific err \<Rightarrow> TaskSpecific (SiiRead err)
      | Interface e \<Rightarrow> Interface e
      | UnexpectedCommand \<Rightarrow> UnexpectedCommand
      | UnexpectedWkc wkc \<Rightarrow> UnexpectedWkc wkc
      | Timeout \<Rightarrow> Timeout)"

datatype in_state =
    InIdle | InError "SlaveInitTaskError TaskError" | InSetLoopPort | InRequestInitState bool
  | InResetErrorCount | InSetWatchDogDivider | InDisableDlWatchDog | InDisableSmWatchDog
  | InCheckDlStatus | InCheckDlInfo | InClearFmmu u16 | InClearSm u16 | InGetVenderID bool
  | InGetProductCode bool | InGetRevision bool | InGetProtocol bool | InGetRxMailboxSize bool
  | InGetRxMailboxOffset bool | InGetTxMailboxSize bool | InGetTxMailboxOffset bool
  | InSetSmControl nat | InSetSmActivation nat | InSetStationAddress | InCheckPdiControl
  | InClearDcActivation | InClearCyclicOperationStartTime | InClearSync0CycleTime
  | InClearSync1CycleTime | InComplete

datatype inner_function = This | Sii SiiReader | AlTransfer AlStateTransferTask

definition into_sii :: "inner_function \<Rightarrow> inner_function" where
  "into_sii inner = (case inner of Sii _ \<Rightarrow> inner | _ \<Rightarrow> Sii SiiReader_new)"

definition into_al_state_transfer :: "inner_function \<Rightarrow> inner_function" where
  "into_al_state_transfer inner =
     (case inner of AlTransfer _ \<Rightarrow> inner | _ \<Rightarrow> AlTransfer AlStateTransferTask_new)"

definition inner_sii :: "inner_function \<Rightarrow> SiiReader option" where
  "inner_sii inner = (case inner of Sii sii \<Rightarrow> Some sii | _ \<Rightarrow> None)"

definition inner_al :: "inner_function \<Rightarrow> AlStateTransferTask option" where
  "inner_al inner = (case inner of AlTransfer al \<Rightarrow> Some al | _ \<Rightarrow> None)"

record SlaveInitTask =
  in_inner :: inner_function
  in_slave_address :: SlaveAddress
  in_state :: in_state
  in_command :: Command
  in_slave_info :: "SlaveInfoBuilder option"

definition in_buffer_size :: nat where
  "in_buffer_size = fold (\<lambda>n size. const_max size n)
     [reg_size DlControl, reg_size RxErrorCounter, reg_size WatchDogDivider, reg_size DlUserWatchDog,
      reg_size SyncManagerChannelWatchDog, reg_size DlStatus, reg_size DlInformation,
      reg_size FmmuRegister,
      reg_size SyncManagerControl + reg_size SyncManagerStatus + reg_size SyncManagerActivation,
      reg_size FixedStationAddress, reg_size PdiControl, reg_size DcActivation,
      reg_size CyclicOperationStartTime, reg_size Sync0CycleTime, reg_size Sync1CycleTime,
      reg_size LatchEdge, reg_size LatchEvent, reg_size Latch0PositiveEdgeValue,
      reg_size Latch0NegativeEdgeValue, reg_size Latch1PositiveEdgeValue,
      reg_size Latch1NegativeEdgeValue, reg_size Latch0NegativeEdgeValue,
      reg_size Latch0NegativeEdgeValue] 0"

definition SlaveInitTask_new :: SlaveInitTask where
  "SlaveInitTask_new =
     \<lparr>in_inner = This, in_slave_address = SlavePosition 0, in_state = InIdle,
      in_command = Command_default, in_slave_info = None\<rparr>"

definition in_start :: "SlaveInitTask \<Rightarrow> u16 \<Rightarrow> SlaveInitTask" where
  "in_start t slave_position =
     t\<lparr>in_slave_address := SlavePosition slave_position, in_state := InSetLoopPort,
       in_slave_info := Some SlaveInfoBuilder_default\<rparr>"

text \<open>\<open>wait\<close> takes the information out of the task: a second call returns \<open>Ok(None)\<close>.\<close>

definition in_wait ::
    "SlaveInitTask \<Rightarrow> (SlaveInitTaskError TaskError + SlaveInfo option) option \<times> SlaveInitTask" where
  "in_wait t =
     (case in_state t of
        InComplete \<Rightarrow>
          (case in_slave_info t of
             Some info \<Rightarrow> (Some (Inr (Some (SlaveInfoBuilder_build info))), t\<lparr>in_slave_info := None\<rparr>)
           | None \<Rightarrow> (Some (Inr None), t\<lparr>in_slave_info := None\<rparr>))
      | InError err \<Rightarrow> (Some (Inl err), t)
      | _ \<Rightarrow> (None, t))"

definition in_is_busy :: "SlaveInitTask \<Rightarrow> bool" where
  "in_is_busy t =
     (case in_state t of InIdle \<Rightarrow> False | InComplete \<Rightarrow> False | InError _ \<Rightarrow> False | _ \<Rightarrow> True)"

section \<open>The requests\<close>

type_synonym in_request = "((Command \<times> nat) option \<times> SlaveInitTask \<times> bytes) rust"

text \<open>Writing zeros to a register, and reading one.\<close>

definition in_clear :: "register \<Rightarrow> SlaveInitTask \<Rightarrow> bytes \<Rightarrow> in_request" where
  "in_clear r t buf = do {
     let command = Command_new_write (Single (in_slave_address t)) (reg_address r);
     buf \<leftarrow> fill_to (reg_size r) 0 buf;
     ret (Some (command, reg_size r), t, buf) }"

definition in_read :: "register \<Rightarrow> SlaveInitTask \<Rightarrow> bytes \<Rightarrow> in_request" where
  "in_read r t buf = do {
     let command = Command_new_read (Single (in_slave_address t)) (reg_address r);
     buf \<leftarrow> fill_to (reg_size r) 0 buf;
     ret (Some (command, reg_size r), t, buf) }"

definition in_sii_next :: "crates \<Rightarrow> sii_word \<Rightarrow> bool \<Rightarrow> SlaveInitTask \<Rightarrow> bytes \<Rightarrow> in_request" where
  "in_sii_next X word is_first t buf = do {
     sii \<leftarrow> inner_sii (in_inner t);
     let sii = (if is_first then sr_start sii (in_slave_address t) (sii_word_address word) else sii);
     (r, sii, buf) \<leftarrow> sr_next_pdu X sii buf;
     ret (r, t\<lparr>in_inner := Sii sii\<rparr>, buf) }"

definition in_sm_control :: "crates \<Rightarrow> nat \<Rightarrow> SlaveInitTask \<Rightarrow> bytes \<Rightarrow> in_request" where
  "in_sm_control X num t buf = do {
     offset \<leftarrow> umul 0x08 (of_nat num);
     ado \<leftarrow> uadd (reg_address SyncManagerControl) offset;
     let command = Command_new_write (Single (in_slave_address t)) ado;
     buf \<leftarrow> fill_to (reg_size SyncManagerControl) 0 buf;
     info \<leftarrow> in_slave_info t;
     sm \<leftarrow> index (sib_sm info) num;
     buf \<leftarrow> (case sm of
         Some (MailboxRxB sm_info) \<Rightarrow> do {
           buf \<leftarrow> reg_set X SyncManagerControl ''physical_start_address'' (smb_start_address sm_info) buf;
           buf \<leftarrow> reg_set X SyncManagerControl ''length'' (smb_size sm_info) buf;
           buf \<leftarrow> reg_set X SyncManagerControl ''buffer_type'' (2 :: u8) buf;
           buf \<leftarrow> reg_set X SyncManagerControl ''direction'' (1 :: u8) buf;
           reg_set_bit X SyncManagerControl ''dls_user_event_enable'' True buf }
       | Some (MailboxTxB sm_info) \<Rightarrow> do {
           buf \<leftarrow> reg_set X SyncManagerControl ''physical_start_address'' (smb_start_address sm_info) buf;
           buf \<leftarrow> reg_set X SyncManagerControl ''length'' (smb_size sm_info) buf;
           buf \<leftarrow> reg_set X SyncManagerControl ''buffer_type'' (2 :: u8) buf;
           buf \<leftarrow> reg_set X SyncManagerControl ''direction'' (0 :: u8) buf;
           reg_set_bit X SyncManagerControl ''dls_user_event_enable'' True buf }
       | _ \<Rightarrow> ret buf);
     ret (Some (command, reg_size SyncManagerControl), t, buf) }"

definition in_sm_activation :: "crates \<Rightarrow> nat \<Rightarrow> SlaveInitTask \<Rightarrow> bytes \<Rightarrow> in_request" where
  "in_sm_activation X num t buf = do {
     offset \<leftarrow> umul 0x08 (of_nat num);
     ado \<leftarrow> uadd (reg_address SyncManagerActivation) offset;
     let command = Command_new_write (Single (in_slave_address t)) ado;
     buf \<leftarrow> fill_to (reg_size SyncManagerActivation) 0 buf;
     info \<leftarrow> in_slave_info t;
     sm \<leftarrow> index (sib_sm info) num;
     buf \<leftarrow> (if (case sm of Some (MailboxRxB _) \<Rightarrow> True | Some (MailboxTxB _) \<Rightarrow> True | _ \<Rightarrow> False)
       then do {
         buf \<leftarrow> reg_set_bit X SyncManagerActivation ''channel_enable'' True buf;
         reg_set_bit X SyncManagerActivation ''repeat'' False buf }
       else ret buf);
     ret (Some (command, reg_size SyncManagerActivation), t, buf) }"

definition in_station_address :: "crates \<Rightarrow> SlaveInitTask \<Rightarrow> bytes \<Rightarrow> in_request" where
  "in_station_address X t buf = do {
     let command = Command_new_write (Single (in_slave_address t)) (reg_address FixedStationAddress);
     buf \<leftarrow> fill_to (reg_size FixedStationAddress) 0 buf;
     addr \<leftarrow> (case in_slave_address t of SlavePosition addr \<Rightarrow> uadd addr 1 | StationAddress addr \<Rightarrow> ret addr);
     info \<leftarrow> in_slave_info t;
     let t = t\<lparr>in_slave_info := Some (info\<lparr>sib_configured_address := addr\<rparr>)\<rparr>;
     buf \<leftarrow> reg_set X FixedStationAddress ''configured_station_address'' addr buf;
     ret (Some (command, reg_size FixedStationAddress), t, buf) }"

definition in_request_of :: "crates \<Rightarrow> SlaveInitTask \<Rightarrow> bytes \<Rightarrow> in_request" where
  "in_request_of X t buf =
     (case in_state t of
        InIdle \<Rightarrow> ret (None, t, buf)
      | InError _ \<Rightarrow> ret (None, t, buf)
      | InComplete \<Rightarrow> ret (None, t, buf)
      | InSetLoopPort \<Rightarrow> do {
          (r, t, buf) \<leftarrow> in_clear DlControl t buf;
          buf \<leftarrow> reg_set_bit X DlControl ''forwarding_rule'' True buf;
          buf \<leftarrow> reg_set X DlControl ''tx_buffer_size'' (7 :: u8) buf;
          buf \<leftarrow> reg_set_bit X DlControl ''enable_alias_address'' False buf;
          ret (r, t, buf) }
      | InRequestInitState is_first \<Rightarrow> do {
          al \<leftarrow> inner_al (into_al_state_transfer (in_inner t));
          let al = (if is_first then at_start al (Single (in_slave_address t)) AlState.Init else al);
          (r, al, buf) \<leftarrow> at_next_pdu X al buf;
          ret (r, t\<lparr>in_inner := AlTransfer al\<rparr>, buf) }
      | InResetErrorCount \<Rightarrow> in_clear RxErrorCounter t buf
      | InSetWatchDogDivider \<Rightarrow> do {
          (r, t, buf) \<leftarrow> in_clear WatchDogDivider t buf;
          buf \<leftarrow> reg_set X WatchDogDivider ''watch_dog_divider'' (2498 :: u16) buf;
          ret (r, t, buf) }
      | InDisableDlWatchDog \<Rightarrow> in_clear DlUserWatchDog t buf
      | InDisableSmWatchDog \<Rightarrow> in_clear SyncManagerChannelWatchDog t buf
      | InCheckDlStatus \<Rightarrow> in_read DlStatus t buf
      | InCheckDlInfo \<Rightarrow> in_read DlInformation t buf
      | InClearFmmu count \<Rightarrow> do {
          offset \<leftarrow> umul count 0x10;
          ado \<leftarrow> uadd (reg_address FmmuRegister) offset;
          let command = Command_new_write (Single (in_slave_address t)) ado;
          buf \<leftarrow> fill_to (reg_size FmmuRegister) 0 buf;
          ret (Some (command, reg_size FmmuRegister), t, buf) }
      | InClearSm count \<Rightarrow> do {
          offset \<leftarrow> umul count 0x08;
          ado \<leftarrow> uadd (reg_address SyncManagerControl) offset;
          let command = Command_new_write (Single (in_slave_address t)) ado;
          let length = reg_size SyncManagerControl + reg_size SyncManagerStatus + reg_size SyncManagerActivation;
          buf \<leftarrow> fill_to length 0 buf;
          ret (Some (command, length), t, buf) }
      | InGetVenderID is_first \<Rightarrow> in_sii_next X Sii_VenderId is_first (t\<lparr>in_inner := into_sii (in_inner t)\<rparr>) buf
      | InGetProductCode is_first \<Rightarrow> in_sii_next X Sii_ProductCode is_first t buf
      | InGetRevision is_first \<Rightarrow> in_sii_next X Sii_RevisionNumber is_first t buf
      | InGetProtocol is_first \<Rightarrow> in_sii_next X Sii_MailboxProtocol is_first t buf
      | InGetRxMailboxSize is_first \<Rightarrow> in_sii_next X Sii_StandardRxMailboxSize is_first t buf
      | InGetRxMailboxOffset is_first \<Rightarrow> in_sii_next X Sii_StandardRxMailboxOffset is_first t buf
      | InGetTxMailboxSize is_first \<Rightarrow> in_sii_next X Sii_StandardTxMailboxSize is_first t buf
      | InGetTxMailboxOffset is_first \<Rightarrow> in_sii_next X Sii_StandardTxMailboxOffset is_first t buf
      | InSetSmControl num \<Rightarrow> in_sm_control X num t buf
      | InSetSmActivation num \<Rightarrow> in_sm_activation X num t buf
      | InSetStationAddress \<Rightarrow> in_station_address X t buf
      | InCheckPdiControl \<Rightarrow> in_read PdiControl t buf
      | InClearDcActivation \<Rightarrow> in_clear DcActivation t buf
      | InClearCyclicOperationStartTime \<Rightarrow> in_clear CyclicOperationStartTime t buf
      | InClearSync0CycleTime \<Rightarrow> in_clear Sync0CycleTime t buf
      | InClearSync1CycleTime \<Rightarrow> in_clear Sync1CycleTime t buf)"

definition in_next_pdu :: "crates \<Rightarrow> SlaveInitTask \<Rightarrow> bytes \<Rightarrow> in_request" where
  "in_next_pdu X t buf = do {
     (r, t, buf) \<leftarrow> in_request_of X t buf;
     ret (r, (case r of Some (command, _) \<Rightarrow> t\<lparr>in_command := command\<rparr> | None \<Rightarrow> t), buf) }"

section \<open>The layout of the process data memory\<close>

definition set_process_data_sm_size_offset :: "SlaveInfoBuilder \<Rightarrow> SlaveInfoBuilder rust" where
  "set_process_data_sm_size_offset slave = do {
     s0 \<leftarrow> index (sib_sm slave) 0;
     s1 \<leftarrow> index (sib_sm slave) 1;
     case (s0, s1) of
       (Some (MailboxRxB sm0), Some (MailboxTxB sm1)) \<Rightarrow> do {
         let sm_start_address = min (smb_start_address sm0) (smb_start_address sm1);
         size1 \<leftarrow> (if sm_start_address > 0x1000 then usub sm_start_address 0x1000 else ret 0);
         e0 \<leftarrow> uadd (smb_start_address sm0) (smb_size sm0);
         e0 \<leftarrow> usub e0 1;
         e1 \<leftarrow> uadd (smb_start_address sm1) (smb_size sm1);
         e1 \<leftarrow> usub e1 1;
         let sm_end_address = max e0 e1;
         ram \<leftarrow> umul (ucast (sib_ram_size_kb slave)) 0x0400;
         ram \<leftarrow> usub ram 1;
         end_address \<leftarrow> uadd ram 0x1000;
         size2 \<leftarrow> (if end_address > sm_end_address then usub end_address sm_end_address else ret 0);
         if size1 > size2
         then ret (slave\<lparr>sib_pdo_start_address := Some 0x1000, sib_pdo_ram_size := size1\<rparr>)
         else do {
           a \<leftarrow> uadd sm_end_address 1;
           ret (slave\<lparr>sib_pdo_start_address := Some a, sib_pdo_ram_size := size2\<rparr>) } }
     | _ \<Rightarrow> ret (slave\<lparr>sib_pdo_start_address := None\<rparr>) }"

section \<open>The answers\<close>

text \<open>
  An answer for the inner SII reader: it goes on, or is done and \<open>found\<close> gets the eight bytes, or
  has failed. \<open>again\<close> is the state in which the task goes on.
\<close>

definition in_sii_recieve ::
    "crates \<Rightarrow> SlaveInitTask \<Rightarrow> Pdu \<Rightarrow> u64 \<Rightarrow> in_state \<Rightarrow>
       (SlaveInitTask \<Rightarrow> bytes \<Rightarrow> SlaveInitTask rust) \<Rightarrow> SlaveInitTask rust" where
  "in_sii_recieve X t recv_data sys_time again found = do {
     sii \<leftarrow> inner_sii (in_inner t);
     sii \<leftarrow> sr_recieve_and_process X sii recv_data sys_time;
     let t = t\<lparr>in_inner := Sii sii\<rparr>;
     case sr_wait sii of
       Some (Inr (data, _)) \<Rightarrow> found t data
     | None \<Rightarrow> ret (t\<lparr>in_state := again\<rparr>)
     | Some (Inl err) \<Rightarrow> ret (t\<lparr>in_state := InError (SlaveInit_from_sii err)\<rparr>) }"

text \<open>The eight bytes as a number, and an update of the information about the slave.\<close>

definition sii_number :: "crates \<Rightarrow> bytes \<Rightarrow> u64 rust" where
  "sii_number X data = reg_get X SiiData ''sii_data'' data"

definition in_update ::
    "(SlaveInfoBuilder \<Rightarrow> SlaveInfoBuilder rust) \<Rightarrow> in_state \<Rightarrow> SlaveInitTask \<Rightarrow> SlaveInitTask rust" where
  "in_update f st t = do {
     info \<leftarrow> in_slave_info t;
     info \<leftarrow> f info;
     ret (t\<lparr>in_slave_info := Some info, in_state := st\<rparr>) }"

definition in_dl_status :: "crates \<Rightarrow> bytes \<Rightarrow> SlaveInitTask \<Rightarrow> SlaveInitTask rust" where
  "in_dl_status X data t = do {
     operational \<leftarrow> reg_bit X DlStatus ''pdi_operational'' data;
     if \<not> operational then ret (t\<lparr>in_state := InError (TaskSpecific FailedToLoadEEPROM)\<rparr>)
     else in_update (\<lambda>info. do {
       p0 \<leftarrow> reg_bit X DlStatus ''signal_detection_port0'' data;
       p1 \<leftarrow> reg_bit X DlStatus ''signal_detection_port1'' data;
       p2 \<leftarrow> reg_bit X DlStatus ''signal_detection_port2'' data;
       p3 \<leftarrow> reg_bit X DlStatus ''signal_detection_port3'' data;
       ret (info\<lparr>sib_linked_ports := [p0, p1, p2, p3]\<rparr>) }) InCheckDlInfo t }"

definition in_dl_info :: "crates \<Rightarrow> bytes \<Rightarrow> SlaveInitTask \<Rightarrow> SlaveInitTask rust" where
  "in_dl_info X data = in_update (\<lambda>info. do {
     p0 \<leftarrow> port0_type X data;
     p1 \<leftarrow> port1_type X data;
     p2 \<leftarrow> port2_type X data;
     p3 \<leftarrow> port3_type X data;
     dc_supported \<leftarrow> reg_bit X DlInformation ''dc_supported'' data;
     dc_range \<leftarrow> reg_bit X DlInformation ''dc_range'' data;
     assert (dc_supported \<longrightarrow> dc_range);
     no_bit_operation \<leftarrow> reg_bit X DlInformation ''fmmu_bit_operation_not_supported'' data;
     not_lrw_supported \<leftarrow> reg_bit X DlInformation ''not_lrw_supported'' data;
     assert (\<not> not_lrw_supported);
     ram_size \<leftarrow> reg_get X DlInformation ''ram_size'' data;
     fmmu \<leftarrow> reg_get X DlInformation ''number_of_supported_fmmu_entities'' data;
     sm \<leftarrow> reg_get X DlInformation ''number_of_supported_sm_channels'' data;
     ret (info\<lparr>sib_ports := [p0, p1, p2, p3], sib_support_dc := dc_supported,
            sib_support_fmmu_bit_operation := \<not> no_bit_operation, sib_ram_size_kb := ram_size,
            sib_number_of_fmmu := fmmu, sib_number_of_sm := sm\<rparr>) }) (InClearFmmu 0)"

text \<open>The sync managers 0 and 2 (from master to slave) and 1 and 3 (from slave to master). Whether there
  is a mailbox is decided by all the bytes that were read, its size by the first two.\<close>

definition set_rx_sm :: "u64 \<Rightarrow> SlaveInfoBuilder \<Rightarrow> SlaveInfoBuilder rust" where
  "set_rx_sm v info =
     (if 4 \<le> sib_number_of_sm info \<and> v \<noteq> 0 then do {
        sm \<leftarrow> store (sib_sm info) 0 (Some (MailboxRxB
          \<lparr>smb_number = 0, smb_size = min (ucast v) MAX_SM_SIZE, smb_start_address = 0\<rparr>));
        sm \<leftarrow> store sm 2 (Some ProcessDataRxB);
        ret (info\<lparr>sib_sm := sm\<rparr>) }
      else if 2 \<le> sib_number_of_sm info then do {
        sm \<leftarrow> store (sib_sm info) 0 (Some ProcessDataRxB);
        ret (info\<lparr>sib_sm := sm\<rparr>) }
      else ret info)"

definition set_tx_sm :: "u64 \<Rightarrow> SlaveInfoBuilder \<Rightarrow> SlaveInfoBuilder rust" where
  "set_tx_sm v info =
     (if 4 \<le> sib_number_of_sm info \<and> v \<noteq> 0 then do {
        sm \<leftarrow> store (sib_sm info) 1 (Some (MailboxTxB
          \<lparr>smb_number = 1, smb_size = min (ucast v) MAX_SM_SIZE, smb_start_address = 0\<rparr>));
        sm \<leftarrow> store sm 3 (Some ProcessDataTxB);
        ret (info\<lparr>sib_sm := sm\<rparr>) }
      else if 2 \<le> sib_number_of_sm info then do {
        sm \<leftarrow> store (sib_sm info) 1 (Some ProcessDataTxB);
        ret (info\<lparr>sib_sm := sm\<rparr>) }
      else ret info)"

definition set_rx_address :: "u16 \<Rightarrow> SlaveInfoBuilder \<Rightarrow> SlaveInfoBuilder rust" where
  "set_rx_address address info = do {
     sm \<leftarrow> index (sib_sm info) 0;
     (case sm of
        Some (MailboxRxB b) \<Rightarrow> do {
          sms \<leftarrow> store (sib_sm info) 0 (Some (MailboxRxB (b\<lparr>smb_start_address := address\<rparr>)));
          ret (info\<lparr>sib_sm := sms\<rparr>) }
      | _ \<Rightarrow> ret info) }"

definition set_tx_address :: "u16 \<Rightarrow> SlaveInfoBuilder \<Rightarrow> SlaveInfoBuilder rust" where
  "set_tx_address address info = do {
     sm \<leftarrow> index (sib_sm info) 1;
     (case sm of
        Some (MailboxTxB b) \<Rightarrow> do {
          sms \<leftarrow> store (sib_sm info) 1 (Some (MailboxTxB (b\<lparr>smb_start_address := address\<rparr>)));
          ret (info\<lparr>sib_sm := sms\<rparr>) }
      | _ \<Rightarrow> ret info) }"

text \<open>The checks on command and working counter: the working counter has the last word.\<close>

definition in_check :: "SlaveInitTask \<Rightarrow> Pdu \<Rightarrow> SlaveInitTask" where
  "in_check t recv_data = (
     let command = pdu_command recv_data; wkc = pdu_wkc recv_data;
       t = (if \<not> (cmd_type command = cmd_type (in_command t) \<and> cmd_ado command = cmd_ado (in_command t))
            then t\<lparr>in_state := InError UnexpectedCommand\<rparr> else t)
     in if wkc \<noteq> 1 then t\<lparr>in_state := InError (unexpected_wkc 1 wkc)\<rparr> else t)"

definition in_recieve_and_process ::
    "crates \<Rightarrow> SlaveInitTask \<Rightarrow> Pdu \<Rightarrow> u64 \<Rightarrow> SlaveInitTask rust" where
  "in_recieve_and_process X t recv_data sys_time = (
     let data = pdu_data recv_data; t = in_check t recv_data;
         sii = in_sii_recieve X t recv_data sys_time in
     case in_state t of
       InError _ \<Rightarrow> ret t
     | InIdle \<Rightarrow> ret t
     | InComplete \<Rightarrow> ret t
     | InSetLoopPort \<Rightarrow> ret (t\<lparr>in_state := InRequestInitState True\<rparr>)
     | InRequestInitState _ \<Rightarrow> do {
         al \<leftarrow> inner_al (in_inner t);
         al \<leftarrow> at_recieve_and_process X al recv_data sys_time;
         let t = t\<lparr>in_inner := AlTransfer al\<rparr>;
         case at_wait al of
           Some (Inr s) \<Rightarrow> do { assert (s = AlState.Init); ret (t\<lparr>in_state := InResetErrorCount\<rparr>) }
         | None \<Rightarrow> ret (t\<lparr>in_state := InRequestInitState False\<rparr>)
         | Some (Inl err) \<Rightarrow> ret (t\<lparr>in_state := InError (SlaveInit_from_al err)\<rparr>) }
     | InResetErrorCount \<Rightarrow> ret (t\<lparr>in_state := InSetWatchDogDivider\<rparr>)
     | InSetWatchDogDivider \<Rightarrow> ret (t\<lparr>in_state := InDisableDlWatchDog\<rparr>)
     | InDisableDlWatchDog \<Rightarrow> ret (t\<lparr>in_state := InDisableSmWatchDog\<rparr>)
     | InDisableSmWatchDog \<Rightarrow> ret (t\<lparr>in_state := InCheckDlStatus\<rparr>)
     | InCheckDlStatus \<Rightarrow> in_dl_status X data t
     | InCheckDlInfo \<Rightarrow> in_dl_info X data t
     | InClearFmmu count \<Rightarrow>
         if count < 3 then do { n \<leftarrow> uadd count 1; ret (t\<lparr>in_state := InClearFmmu n\<rparr>) }
         else ret (t\<lparr>in_state := InClearSm 0\<rparr>)
     | InClearSm count \<Rightarrow>
         if count < 4 then do { n \<leftarrow> uadd count 1; ret (t\<lparr>in_state := InClearSm n\<rparr>) }
         else ret (t\<lparr>in_state := InGetVenderID True\<rparr>)
     | InGetVenderID _ \<Rightarrow> sii (InGetVenderID False) (\<lambda>t data. in_update (\<lambda>info. do {
         v \<leftarrow> sii_number X data;
         ret (info\<lparr>sib_id := (sib_id info)\<lparr>idb_vender_id := ucast v\<rparr>\<rparr>) }) (InGetProductCode True) t)
     | InGetProductCode _ \<Rightarrow> sii (InGetProductCode False) (\<lambda>t data. in_update (\<lambda>info. do {
         v \<leftarrow> sii_number X data;
         ret (info\<lparr>sib_id := (sib_id info)\<lparr>idb_product_code := ucast v\<rparr>\<rparr>) }) (InGetRevision True) t)
     | InGetRevision _ \<Rightarrow> sii (InGetRevision False) (\<lambda>t data. in_update (\<lambda>info. do {
         v \<leftarrow> sii_number X data;
         ret (info\<lparr>sib_id := (sib_id info)\<lparr>idb_revision_number := ucast v\<rparr>\<rparr>) }) (InGetProtocol True) t)
     | InGetProtocol _ \<Rightarrow> sii (InGetProtocol False) (\<lambda>t data. in_update (\<lambda>info. do {
         b \<leftarrow> index data 0;
         ret (info\<lparr>sib_support_coe := get_bit X b 2\<rparr>) }) (InGetRxMailboxSize True) t)
     | InGetRxMailboxSize _ \<Rightarrow> sii (InGetRxMailboxSize False) (\<lambda>t data. in_update (\<lambda>info. do {
         v \<leftarrow> sii_number X data;
         set_rx_sm v info }) (InGetRxMailboxOffset True) t)
     | InGetRxMailboxOffset _ \<Rightarrow> sii (InGetRxMailboxOffset False) (\<lambda>t data. in_update (\<lambda>info. do {
         v \<leftarrow> sii_number X data;
         set_rx_address (ucast v) info }) (InGetTxMailboxSize True) t)
     | InGetTxMailboxSize _ \<Rightarrow> sii (InGetTxMailboxSize False) (\<lambda>t data. in_update (\<lambda>info. do {
         v \<leftarrow> sii_number X data;
         set_tx_sm v info }) (InGetTxMailboxOffset True) t)
     | InGetTxMailboxOffset _ \<Rightarrow> sii (InGetTxMailboxOffset False) (\<lambda>t data. in_update (\<lambda>info. do {
         v \<leftarrow> sii_number X data;
         info \<leftarrow> set_tx_address (ucast v) info;
         set_process_data_sm_size_offset info }) (InSetSmControl 0) t)
     | InSetSmControl num \<Rightarrow> ret (t\<lparr>in_state := InSetSmActivation num\<rparr>)
     | InSetSmActivation num \<Rightarrow>
         ret (t\<lparr>in_state := (if 3 \<le> num then InSetStationAddress else InSetSmControl (num + 1))\<rparr>)
     | InSetStationAddress \<Rightarrow> ret (t\<lparr>in_state := InCheckPdiControl\<rparr>)
     | InCheckPdiControl \<Rightarrow> do {
         info \<leftarrow> in_slave_info t;
         strict \<leftarrow> reg_bit X PdiControl ''strict_al_control'' data;
         ret (t\<lparr>in_slave_info := Some (info\<lparr>sib_strict_al_control := strict\<rparr>),
                in_state := (if sib_support_dc info then InClearDcActivation else InComplete)\<rparr>) }
     | InClearDcActivation \<Rightarrow> ret (t\<lparr>in_state := InClearCyclicOperationStartTime\<rparr>)
     | InClearCyclicOperationStartTime \<Rightarrow> ret (t\<lparr>in_state := InClearSync0CycleTime\<rparr>)
     | InClearSync0CycleTime \<Rightarrow> ret (t\<lparr>in_state := InClearSync1CycleTime\<rparr>)
     | InClearSync1CycleTime \<Rightarrow> ret (t\<lparr>in_state := InComplete\<rparr>))"

definition slave_init_ops :: "crates \<Rightarrow> SlaveInitTask cyclic_task_ops" where
  "slave_init_ops X =
     \<lparr>ct_next_pdu = in_next_pdu X, ct_recieve_and_process = in_recieve_and_process X,
      ct_is_busy = in_is_busy\<rparr>"

section \<open>The area for process data\<close>

lemma uadd_u16:
  fixes a b :: u16
  assumes "unat a + unat b \<le> 0xFFFF"
  obtains w where "uadd a b = Some w" "unat w = unat a + unat b"
  using assms that [of "a + b"] by (simp add: uadd_def unat_word_ariths)

lemma usub_u16:
  fixes a b :: u16
  assumes "unat b \<le> unat a"
  obtains w where "usub a b = Some w" "unat w = unat a - unat b"
  using assms that [of "a - b"] by (simp add: usub_def word_le_nat_alt unat_sub)

lemma gap_u16:
  fixes a b :: u16
  obtains w where "(if b < a then usub a b else Some 0) = Some w" "unat w = unat a - unat b"
proof (cases "b < a")
  case True
  then have "unat b \<le> unat a" by (simp add: word_less_nat_alt)
  then obtain w where "usub a b = Some w" "unat w = unat a - unat b" by (rule usub_u16)
  with True that show thesis by simp
qed (use that [of 0] in \<open>simp add: word_less_nat_alt\<close>)

lemma ram_end:
  fixes ram :: u8
  shows "unat ram \<in> {1..60} \<Longrightarrow> \<exists>m n e. umul (ucast ram) (0x400 :: u16) = Some m \<and> usub m 1 = Some n \<and>
      uadd n 0x1000 = Some e \<and> unat e = 0xFFF + 0x400 * unat ram"
    and "unat ram \<notin> {1..60} \<Longrightarrow> umul (ucast ram) (0x400 :: u16) = Some m \<Longrightarrow> usub m 1 = Some n \<Longrightarrow>
      uadd n 0x1000 = None"
proof -
  have u: "unat (ucast ram :: u16) = unat ram" by (simp add: unsigned_ucast_eq take_bit_unat)
  have mul: "umul (ucast ram) (0x400 :: u16) = (if unat ram < 64 then Some (ucast ram * 0x400) else None)"
    by (simp add: umul_def u)
  have m: "unat (ucast ram * 0x400 :: u16) = 0x400 * unat ram" if "unat ram < 64"
    using that by (simp add: unat_word_ariths u)
  {
    assume r: "unat ram \<in> {1..60}"
    then have m': "unat (ucast ram * 0x400 :: u16) = 0x400 * unat ram" by (intro m) simp
    have "unat (1 :: u16) \<le> unat (ucast ram * 0x400 :: u16)" using r m' by simp
    then obtain n where n: "usub (ucast ram * 0x400 :: u16) 1 = Some n" "unat n = 0x400 * unat ram - 1"
      by (rule usub_u16) (use m' in simp)
    have "unat n + unat (0x1000 :: u16) \<le> 0xFFFF" using r n(2) by simp
    then obtain e where e: "uadd n 0x1000 = Some e" "unat e = unat n + 0x1000" by (rule uadd_u16) simp
    then have "unat e = 0xFFF + 0x400 * unat ram" using r n(2) by simp
    then show "\<exists>m n e. umul (ucast ram) (0x400 :: u16) = Some m \<and> usub m 1 = Some n \<and>
      uadd n 0x1000 = Some e \<and> unat e = 0xFFF + 0x400 * unat ram"
      using r mul n e by auto
  }
  assume r: "unat ram \<notin> {1..60}" "umul (ucast ram) (0x400 :: u16) = Some m" "usub m 1 = Some n"
  then have "unat ram < 64" and m': "m = ucast ram * 0x400" using mul by (auto split: if_splits)
  with m have um: "unat m = 0x400 * unat ram" by simp
  with r(3) have "1 \<le> unat m" "n = m - 1" by (auto simp: usub_def word_le_nat_alt split: if_splits)
  then have "unat n = 0x400 * unat ram - 1" using um by (simp add: unat_sub word_le_nat_alt)
  moreover have "61 \<le> unat ram" using r(1) \<open>1 \<le> unat m\<close> um by auto
  ultimately show "uadd n 0x1000 = None" by (simp add: uadd_def)
qed

lemma process_data_area_eq:
  assumes sm: "sib_sm info = Some (MailboxRxB m0) # Some (MailboxTxB m1) # sms"
    and m0: "0x1000 \<le> unat (smb_start_address m0)" "0 < unat (smb_size m0)"
    and m1: "0x1000 \<le> unat (smb_start_address m1)" "0 < unat (smb_size m1)"
    and e0: "e0 = unat (smb_start_address m0) + unat (smb_size m0)" "e0 \<le> 0xFFFF"
    and e1: "e1 = unat (smb_start_address m1) + unat (smb_size m1)" "e1 \<le> 0xFFFF"
    and ram: "ram = unat (sib_ram_size_kb info)"
  shows "set_process_data_sm_size_offset info =
    (if ram \<in> {1..60} then
       (let before = min (unat (smb_start_address m0)) (unat (smb_start_address m1)) - 0x1000;
            behind = 0x1000 + 0x400 * ram - max e0 e1 in
        Some (info\<lparr>sib_pdo_start_address := Some (of_nat (if behind < before then 0x1000 else max e0 e1)),
                   sib_pdo_ram_size := of_nat (max before behind)\<rparr>))
     else None)"
proof -
  let ?a0 = "smb_start_address m0" and ?a1 = "smb_start_address m1"
  have ix: "index (sib_sm info) 0 = Some (Some (MailboxRxB m0))" "index (sib_sm info) (Suc 0) = Some (Some (MailboxTxB m1))"
    by (simp_all add: sm index_def)
  have mn: "unat (min ?a0 ?a1) = min (unat ?a0) (unat ?a1)" by (simp add: min_def word_le_nat_alt)
  obtain size1 where size1: "(if 0x1000 < min ?a0 ?a1 then usub (min ?a0 ?a1) 0x1000 else Some 0) = Some size1"
    "unat size1 = min (unat ?a0) (unat ?a1) - 0x1000"
    by (rule gap_u16 [of "0x1000" "min ?a0 ?a1"]) (use mn in simp)
  obtain w0 where w0: "uadd ?a0 (smb_size m0) = Some w0" "unat w0 = e0"
    by (rule uadd_u16 [of ?a0 "smb_size m0"]) (use e0 in simp_all)
  obtain w1 where w1: "uadd ?a1 (smb_size m1) = Some w1" "unat w1 = e1"
    by (rule uadd_u16 [of ?a1 "smb_size m1"]) (use e1 in simp_all)
  obtain v0 where v0: "usub w0 1 = Some v0" "unat v0 = e0 - 1"
    by (rule usub_u16 [of 1 w0]) (use w0 e0 m0 in simp_all)
  obtain v1 where v1: "usub w1 1 = Some v1" "unat v1 = e1 - 1"
    by (rule usub_u16 [of 1 w1]) (use w1 e1 m1 in simp_all)
  have mx: "unat (max v0 v1) = max e0 e1 - 1" using v0(2) v1(2) by (auto simp: max_def word_le_nat_alt)
  show ?thesis
  proof (cases "ram \<in> {1..60}")
    case False
    then show ?thesis
      using ram_end(2) [of "sib_ram_size_kb info"] size1(1) w0(1) w1(1) v0(1) v1(1)
      by (simp add: set_process_data_sm_size_offset_def ix Let_def ram split: Option.bind_splits)
  next
    case True
    then obtain m n e where r: "umul (ucast (sib_ram_size_kb info)) (0x400 :: u16) = Some m" "usub m 1 = Some n"
      "uadd n 0x1000 = Some e" "unat e = 0xFFF + 0x400 * ram"
      using ram_end(1) [of "sib_ram_size_kb info"] ram by auto
    obtain size2 where size2: "(if max v0 v1 < e then usub e (max v0 v1) else Some 0) = Some size2"
      "unat size2 = 0x1000 + 0x400 * ram - max e0 e1"
      by (rule gap_u16 [of "max v0 v1" e]) (use r(4) mx e0 m0 in simp)
    obtain a where a: "uadd (max v0 v1) 1 = Some a" "unat a = max e0 e1"
      by (rule uadd_u16 [of "max v0 v1" 1]) (use mx e0 e1 m0 in simp_all)
    have "set_process_data_sm_size_offset info = Some (if size2 < size1
        then info\<lparr>sib_pdo_start_address := Some 0x1000, sib_pdo_ram_size := size1\<rparr>
        else info\<lparr>sib_pdo_start_address := Some a, sib_pdo_ram_size := size2\<rparr>)"
      using size1(1) size2(1) w0(1) w1(1) v0(1) v1(1) r(1-3) a(1)
      by (simp add: set_process_data_sm_size_offset_def ix Let_def)
    moreover have "a = of_nat (unat a)" "size1 = of_nat (unat size1)" "size2 = of_nat (unat size2)" by simp_all
    note this [unfolded a(2) size1(2) size2(2)]
    moreover have "size2 < size1 \<longleftrightarrow> 0x1000 + 0x400 * ram - max e0 e1 < min (unat ?a0) (unat ?a1) - 0x1000"
      by (simp add: word_less_nat_alt size1(2) size2(2))
    ultimately show ?thesis
      using True unfolding Let_def max_def [of "min (unat ?a0) (unat ?a1) - 0x1000"] by simp
  qed
qed

text \<open>
  C27: the process data area is the larger of the two gaps around the mailboxes. The memory of the
  slave starts at 0x1000. With mailboxes inside it and a size of 1 to 60 KB, the area the code
  chooses lies in the memory, touches neither mailbox and has the size of the larger of the gap
  before the first and the gap after the last mailbox; nothing else of the slave changes. With any
  other memory size (none, or 61 KB and more) the \<open>u16\<close> arithmetic panics.
\<close>

theorem process_data_area:
  assumes sm: "sib_sm info = Some (MailboxRxB m0) # Some (MailboxTxB m1) # sms"
    and adr: "a0 = unat (smb_start_address m0)" "a1 = unat (smb_start_address m1)" "0x1000 \<le> a0" "0x1000 \<le> a1"
    and e: "e0 = a0 + unat (smb_size m0)" "e1 = a1 + unat (smb_size m1)" "a0 < e0" "a1 < e1" "e0 \<le> 0xFFFF" "e1 \<le> 0xFFFF"
    and ram: "ram = unat (sib_ram_size_kb info)"
  shows "if ram \<in> {1..60} then
      \<exists>a n. set_process_data_sm_size_offset info =
          Some (info\<lparr>sib_pdo_start_address := Some a, sib_pdo_ram_size := n\<rparr>) \<and>
        unat n = max (min a0 a1 - 0x1000) (0x1000 + 0x400 * ram - max e0 e1) \<and>
        (e0 \<le> 0x1000 + 0x400 * ram \<and> e1 \<le> 0x1000 + 0x400 * ram \<longrightarrow>
           0x1000 \<le> unat a \<and> unat a + unat n \<le> 0x1000 + 0x400 * ram \<and>
           (unat a + unat n \<le> a0 \<or> e0 \<le> unat a) \<and> (unat a + unat n \<le> a1 \<or> e1 \<le> unat a))
    else set_process_data_sm_size_offset info = None"
proof -
  let ?before = "min a0 a1 - 0x1000" and ?behind = "0x1000 + 0x400 * ram - max e0 e1"
  have eq: "set_process_data_sm_size_offset info = (if ram \<in> {1..60} then
      Some (info\<lparr>sib_pdo_start_address := Some (of_nat (if ?behind < ?before then 0x1000 else max e0 e1)),
                 sib_pdo_ram_size := of_nat (max ?before ?behind)\<rparr>) else None)"
    unfolding adr(1,2) using process_data_area_eq [OF sm, of e0 e1 ram] adr e ram
    by (simp add: Let_def)
  show ?thesis
  proof (cases "ram \<in> {1..60}")
    case False
    show ?thesis unfolding eq if_not_P [OF False] ..
  next
    case True
    define a where "a = (of_nat (if ?behind < ?before then 0x1000 else max e0 e1) :: u16)"
    define n where "n = (of_nat (max ?before ?behind) :: u16)"
    have lt: "a0 < 0x10000" "max e0 e1 \<le> 0xFFFF" "?before < 0x10000" "?behind < 0x10000"
      using e True by auto
    then have u: "unat a = (if ?behind < ?before then 0x1000 else max e0 e1)" "unat n = max ?before ?behind"
      by (simp_all add: a_def n_def unat_of_nat del: of_nat_diff)
    have r: "set_process_data_sm_size_offset info = Some (info\<lparr>sib_pdo_start_address := Some a, sib_pdo_ram_size := n\<rparr>)"
      using eq True by (simp add: a_def n_def)
    have "0x1000 \<le> unat a \<and> unat a + unat n \<le> 0x1000 + 0x400 * ram \<and>
        (unat a + unat n \<le> a0 \<or> e0 \<le> unat a) \<and> (unat a + unat n \<le> a1 \<or> e1 \<le> unat a)"
      if "e0 \<le> 0x1000 + 0x400 * ram" "e1 \<le> 0x1000 + 0x400 * ram"
    proof (cases "?behind < ?before")
      case True
      then have "unat a = 0x1000" "unat n = ?before" using u by simp_all
      moreover have "0x1000 + ?before = min a0 a1" using adr(3,4) by simp
      ultimately have "unat a = 0x1000" "unat a + unat n = min a0 a1" by simp_all
      with that e(3,4) show ?thesis by (metis le_refl min.cobounded1 min.cobounded2 less_imp_le order_trans)
    next
      case False
      then have "unat a = max e0 e1" "unat n = ?behind" using u by simp_all
      moreover have "max e0 e1 + ?behind = 0x1000 + 0x400 * ram" using that by simp
      ultimately have "unat a = max e0 e1" "unat a + unat n = 0x1000 + 0x400 * ram" by simp_all
      moreover have "0x1000 \<le> max e0 e1" using adr(3) e(3) by simp
      ultimately show ?thesis by simp
    qed
    with r u(2) have "\<exists>a n. set_process_data_sm_size_offset info =
          Some (info\<lparr>sib_pdo_start_address := Some a, sib_pdo_ram_size := n\<rparr>) \<and> unat n = max ?before ?behind \<and>
        (e0 \<le> 0x1000 + 0x400 * ram \<and> e1 \<le> 0x1000 + 0x400 * ram \<longrightarrow>
           0x1000 \<le> unat a \<and> unat a + unat n \<le> 0x1000 + 0x400 * ram \<and>
           (unat a + unat n \<le> a0 \<or> e0 \<le> unat a) \<and> (unat a + unat n \<le> a1 \<or> e1 \<le> unat a))"
      by blast
    with True show ?thesis by simp
  qed
qed

definition mailbox_slave :: "u8 \<Rightarrow> SlaveInfoBuilder" where
  "mailbox_slave kb = SlaveInfoBuilder_default\<lparr>sib_ram_size_kb := kb,
     sib_sm := [Some (MailboxRxB \<lparr>smb_number = 0, smb_size = 128, smb_start_address = 0x1000\<rparr>),
                Some (MailboxTxB \<lparr>smb_number = 1, smb_size = 128, smb_start_address = 0x1080\<rparr>), None, None]\<rparr>"

theorem process_data_area_witness:
  "(\<exists>a n. set_process_data_sm_size_offset (mailbox_slave 8) =
      Some ((mailbox_slave 8)\<lparr>sib_pdo_start_address := Some a, sib_pdo_ram_size := n\<rparr>) \<and> unat n = 7936) \<and>
   set_process_data_sm_size_offset (mailbox_slave 64) = None"
  using process_data_area [of "mailbox_slave 8" _ _ _ "0x1000" "0x1080" "0x1080" "0x1100" 8]
    process_data_area [of "mailbox_slave 64" _ _ _ "0x1000" "0x1080" "0x1080" "0x1100" 64]
  by (auto simp: mailbox_slave_def)

section \<open>What an initialised slave looks like\<close>

text \<open>
  On any network: the sync managers the task fills in are a mailbox of at most 256 bytes or a
  process data channel, in their places, and once the station address has been requested the
  information holds it. After an answer the request for the station address is still to come.
\<close>

definition rx_sm_ok :: "SyncManagerTypeBuilder option \<Rightarrow> bool" where
  "rx_sm_ok m \<longleftrightarrow>
     (case m of None \<Rightarrow> True | Some ProcessDataRxB \<Rightarrow> True
      | Some (MailboxRxB b) \<Rightarrow> smb_number b = 0 \<and> smb_size b \<le> MAX_SM_SIZE | _ \<Rightarrow> False)"

definition tx_sm_ok :: "SyncManagerTypeBuilder option \<Rightarrow> bool" where
  "tx_sm_ok m \<longleftrightarrow>
     (case m of None \<Rightarrow> True | Some ProcessDataTxB \<Rightarrow> True
      | Some (MailboxTxB b) \<Rightarrow> smb_number b = 1 \<and> smb_size b \<le> MAX_SM_SIZE | _ \<Rightarrow> False)"

definition init_sms :: "SyncManagerTypeBuilder option list \<Rightarrow> bool" where
  "init_sms sms \<longleftrightarrow>
     (case sms of
        [a, b, c, d] \<Rightarrow> rx_sm_ok a \<and> tx_sm_ok b \<and> (c = None \<or> c = Some ProcessDataRxB) \<and>
          (d = None \<or> d = Some ProcessDataTxB)
      | _ \<Rightarrow> False)"

lemma init_smsE:
  assumes "init_sms sms"
  obtains a b c d where "sms = [a, b, c, d]" "rx_sm_ok a" "tx_sm_ok b" "c = None \<or> c = Some ProcessDataRxB"
    "d = None \<or> d = Some ProcessDataTxB"
  using assms by (auto simp: init_sms_def split: list.splits)

definition in_addressed :: "in_state \<Rightarrow> bool" where
  "in_addressed st \<longleftrightarrow> st \<in> {InCheckPdiControl, InClearDcActivation, InClearCyclicOperationStartTime,
     InClearSync0CycleTime, InClearSync1CycleTime, InComplete}"

definition in_taken :: "u16 \<Rightarrow> SlaveInitTask \<Rightarrow> bool" where
  "in_taken pos t \<longleftrightarrow> in_slave_address t = SlavePosition pos \<and>
     (\<forall>info. in_slave_info t = Some info \<longrightarrow> init_sms (sib_sm info)) \<and>
     (in_addressed (in_state t) \<longrightarrow> (\<exists>info. in_slave_info t = Some info \<and> sib_configured_address info = pos + 1))"

definition in_sent :: "u16 \<Rightarrow> SlaveInitTask \<Rightarrow> bool" where
  "in_sent pos t \<longleftrightarrow> in_taken pos t \<and>
     (in_state t = InSetStationAddress \<longrightarrow>
       (\<exists>info. in_slave_info t = Some info \<and> sib_configured_address info = pos + 1))"

lemma in_taken_start: "in_sent pos (in_start t pos)"
  by (simp add: in_sent_def in_taken_def in_start_def in_addressed_def SlaveInfoBuilder_default_def init_sms_def
    rx_sm_ok_def tx_sm_ok_def numeral_eq_Suc)

lemma in_sent_next:
  assumes "in_taken pos t" and "in_next_pdu X t buf = Some (r, t', buf')"
  shows "in_sent pos t'"
proof -
  obtain t1 where t1: "in_request_of X t buf = Some (r, t1, buf')"
    "t' = (case r of Some (command, _) \<Rightarrow> t1\<lparr>in_command := command\<rparr> | None \<Rightarrow> t1)"
    using assms(2) by (auto simp: in_next_pdu_def split: Option.bind_splits)
  have "in_sent pos t1"
    using assms(1) t1(1)
    by (cases "in_state t") (auto simp: in_request_of_def in_clear_def in_read_def in_sii_next_def
      in_sm_control_def in_sm_activation_def in_station_address_def in_sent_def in_taken_def in_addressed_def Let_def
      uadd_def split: Option.bind_splits if_splits)
  with t1(2) show ?thesis by (auto simp: in_sent_def in_taken_def split: option.splits)
qed

lemma init_sms_rx:
  assumes "init_sms (sib_sm info)" and "set_rx_sm v info = Some info'"
  shows "init_sms (sib_sm info')"
proof -
  have "min (ucast v) MAX_SM_SIZE \<le> MAX_SM_SIZE" by simp
  then show ?thesis
    using assms by (elim init_smsE) (auto simp: set_rx_sm_def init_sms_def store_def rx_sm_ok_def split: if_splits)
qed

lemma init_sms_tx:
  assumes "init_sms (sib_sm info)" and "set_tx_sm v info = Some info'"
  shows "init_sms (sib_sm info')"
proof -
  have "min (ucast v) MAX_SM_SIZE \<le> MAX_SM_SIZE" by simp
  then show ?thesis
    using assms by (elim init_smsE) (auto simp: set_tx_sm_def init_sms_def store_def tx_sm_ok_def split: if_splits)
qed

lemma init_sms_rx_address:
  assumes "init_sms (sib_sm info)" and "set_rx_address a info = Some info'"
  shows "init_sms (sib_sm info')"
  using assms by (elim init_smsE) (auto simp: set_rx_address_def init_sms_def index_def store_def rx_sm_ok_def
    split: option.splits SyncManagerTypeBuilder.splits)

lemma init_sms_tx_address:
  assumes "init_sms (sib_sm info)" and "set_tx_address a info = Some info'"
  shows "init_sms (sib_sm info')"
  using assms by (elim init_smsE) (auto simp: set_tx_address_def init_sms_def index_def store_def tx_sm_ok_def
    split: option.splits SyncManagerTypeBuilder.splits)

lemma bindE:
  assumes "Option.bind m f = Some y"
  obtains x where "m = Some x" "f x = Some y"
  using assms by (cases m) auto

lemma process_data_keeps:
  assumes "set_process_data_sm_size_offset info = Some info'"
  shows "sib_sm info' = sib_sm info \<and> sib_ram_size_kb info' = sib_ram_size_kb info"
proof -
  obtain s0 s1 where "index (sib_sm info) 0 = Some s0" "index (sib_sm info) 1 = Some s1"
    using assms unfolding set_process_data_sm_size_offset_def by (elim bindE) (rule that)
  note r = assms [unfolded set_process_data_sm_size_offset_def Let_def this Option.bind.simps]
  show ?thesis
  proof (cases "\<exists>sm0 sm1. s0 = Some (MailboxRxB sm0) \<and> s1 = Some (MailboxTxB sm1)")
    case True
    then obtain sm0 sm1 where "s0 = Some (MailboxRxB sm0)" "s1 = Some (MailboxTxB sm1)" by blast
    note r [unfolded this prod.case option.case SyncManagerTypeBuilder.case]
    then show ?thesis by (elim bindE) (auto split: if_split_asm elim: bindE)
  next
    case False
    with r show ?thesis by (auto split: option.splits SyncManagerTypeBuilder.splits)
  qed
qed

lemmas process_data_sm = process_data_keeps [THEN conjunct1]
lemmas process_data_ram = process_data_keeps [THEN conjunct2]

lemma in_update_taken:
  assumes "in_update f st t = Some t'" and "in_taken pos t" and "\<not> in_addressed st"
    and "\<And>info info'. f info = Some info' \<Longrightarrow> init_sms (sib_sm info) \<Longrightarrow> init_sms (sib_sm info')"
  shows "in_taken pos t'"
  using assms by (auto simp: in_update_def in_taken_def split: Option.bind_splits)

lemma in_sii_recieve_taken:
  assumes "in_sii_recieve X t p time again found = Some t'" and "in_taken pos t"
    and "\<not> in_addressed (in_state t)" and "\<not> in_addressed again"
    and "\<And>t data t'. found t data = Some t' \<Longrightarrow> in_taken pos t \<Longrightarrow> in_taken pos t'"
  shows "in_taken pos t'"
proof -
  obtain sii where sii: "(case sr_wait sii of
       Some (Inr (data, _)) \<Rightarrow> found (t\<lparr>in_inner := Sii sii\<rparr>) data
     | None \<Rightarrow> Some (t\<lparr>in_inner := Sii sii, in_state := again\<rparr>)
     | Some (Inl err) \<Rightarrow> Some (t\<lparr>in_inner := Sii sii, in_state := InError (SlaveInit_from_sii err)\<rparr>)) = Some t'"
    using assms(1) by (auto simp: in_sii_recieve_def Let_def split: Option.bind_splits)
  have i: "in_taken pos (t\<lparr>in_inner := i\<rparr>)" for i using assms(2) by (simp add: in_taken_def)
  show ?thesis
  proof (cases "sr_wait sii")
    case None
    with sii assms(2,4) show ?thesis by (auto simp: in_taken_def)
  next
    case (Some w)
    show ?thesis
    proof (cases w)
      case (Inl err)
      with Some sii have "t' = t\<lparr>in_inner := Sii sii, in_state := InError (SlaveInit_from_sii err)\<rparr>" by simp
      with assms(2) show ?thesis by (simp add: in_taken_def in_addressed_def)
    next
      case (Inr d)
      obtain data n where "d = (data, n)" by (cases d)
      with Inr Some sii have "found (t\<lparr>in_inner := Sii sii\<rparr>) data = Some t'" by simp
      then show ?thesis by (rule assms(5) [OF _ i])
    qed
  qed
qed

lemma in_check_sent: "in_sent pos t \<Longrightarrow> in_sent pos (in_check t p)"
  by (auto simp: in_sent_def in_taken_def in_check_def in_addressed_def Let_def)

text \<open>An answer of the SII that updates the information.\<close>

lemma in_sii_update_taken:
  assumes "in_sii_recieve X t p time again (\<lambda>t data. in_update (f data) st t) = Some t'" and "in_taken pos t"
    and "\<not> in_addressed (in_state t)" and "\<not> in_addressed again" and "\<not> in_addressed st"
    and "\<And>data info info'. f data info = Some info' \<Longrightarrow> init_sms (sib_sm info) \<Longrightarrow> init_sms (sib_sm info')"
  shows "in_taken pos t'"
proof (rule in_sii_recieve_taken [OF assms(1-4)])
  fix t data t'
  assume "in_update (f data) st t = Some t'" and "in_taken pos t"
  then show "in_taken pos t'" by (rule in_update_taken [OF _ _ assms(5)]) (rule assms(6))
qed

lemma in_taken_recieve:
  assumes "in_sent pos t" and "in_recieve_and_process X t p time = Some t'"
  shows "in_taken pos t'"
proof -
  let ?t = "in_check t p"
  have s: "in_sent pos ?t" using assms(1) by (rule in_check_sent)
  then have i: "in_taken pos ?t" by (simp add: in_sent_def)
  note r = assms(2) [unfolded in_recieve_and_process_def Let_def]
  show ?thesis
  proof (cases "in_state ?t")
    case InCheckDlStatus
    with r have r': "in_dl_status X (pdu_data p) ?t = Some t'" by simp
    have "in_taken pos (?t\<lparr>in_state := InError e\<rparr>)" for e using i by (simp add: in_taken_def in_addressed_def)
    with r' show ?thesis
      unfolding in_dl_status_def
      by (elim bindE) (auto split: if_splits elim!: bindE in_update_taken [OF _ i] simp: in_addressed_def)
  next
    case InCheckDlInfo
    with r have "in_dl_info X (pdu_data p) ?t = Some t'" by simp
    then show ?thesis
      unfolding in_dl_info_def by (rule in_update_taken [OF _ i]) (auto simp: in_addressed_def elim!: bindE)
  next
    case (InGetVenderID b)
    with r i show ?thesis
      by simp (erule in_sii_update_taken, auto simp: in_addressed_def elim!: bindE)
  next
    case (InGetProductCode b)
    with r i show ?thesis
      by simp (erule in_sii_update_taken, auto simp: in_addressed_def elim!: bindE)
  next
    case (InGetRevision b)
    with r i show ?thesis
      by simp (erule in_sii_update_taken, auto simp: in_addressed_def elim!: bindE)
  next
    case (InGetProtocol b)
    with r i show ?thesis
      by simp (erule in_sii_update_taken, auto simp: in_addressed_def elim!: bindE)
  next
    case (InGetRxMailboxSize b)
    with r i show ?thesis
      by simp (erule in_sii_update_taken, auto simp: in_addressed_def elim!: bindE intro: init_sms_rx)
  next
    case (InGetRxMailboxOffset b)
    with r i show ?thesis
      by simp (erule in_sii_update_taken, auto simp: in_addressed_def elim!: bindE intro: init_sms_rx_address)
  next
    case (InGetTxMailboxSize b)
    with r i show ?thesis
      by simp (erule in_sii_update_taken, auto simp: in_addressed_def elim!: bindE intro: init_sms_tx)
  next
    case (InGetTxMailboxOffset b)
    with r i show ?thesis
      by simp (erule in_sii_update_taken, auto simp: in_addressed_def process_data_sm elim!: bindE
        intro: init_sms_tx_address)
  next
    case (InRequestInitState b)
    with r i show ?thesis
      by (auto simp: in_taken_def in_addressed_def elim!: bindE split: option.splits sum.splits)
  next
    case (InClearFmmu n)
    with r i show ?thesis
      by (auto simp: in_taken_def in_addressed_def elim!: bindE split: if_splits)
  next
    case (InClearSm n)
    with r i show ?thesis
      by (auto simp: in_taken_def in_addressed_def elim!: bindE split: if_splits)
  next
    case InSetStationAddress
    with r s show ?thesis by (auto simp: in_taken_def in_sent_def in_addressed_def)
  next
    case InCheckPdiControl
    with r i show ?thesis by (auto simp: in_taken_def in_addressed_def elim!: bindE)
  qed (use r i in \<open>auto simp: in_taken_def in_addressed_def split: if_splits\<close>)
qed

end
