(* ===== verification/Network_Init.thy ===== *)
theory Network_Init
  imports Slave_Init
begin

text \<open>
  \<open>src/src/task/network_initilize.rs\<close> and \<open>init\<close> of \<open>src/src/task/mod.rs\<close>: counting the slaves on
  the network and bringing each of them up with the slave initialisation task. The task holds the
  network by a mutable reference; here it is a field of the task, and \<open>init\<close> returns it.
\<close>

section \<open>The task\<close>

datatype NetworkInitTaskError = InitError SlaveInitTaskError | TooManySlaves

definition NetworkInit_from_init :: "SlaveInitTaskError TaskError \<Rightarrow> NetworkInitTaskError TaskError" where
  "NetworkInit_from_init err =
     (case err of
        Interface e \<Rightarrow> Interface e
      | Timeout \<Rightarrow> Timeout
      | UnexpectedCommand \<Rightarrow> UnexpectedCommand
      | UnexpectedWkc wkc \<Rightarrow> UnexpectedWkc wkc
      | TaskSpecific init_err \<Rightarrow> TaskSpecific (InitError init_err))"

datatype ni_state =
    NiIdle | NiError "NetworkInitTaskError TaskError" | NiCountSlaves | NiStartInitSlaves u16
  | NiWaitInitSlaves u16 | NiComplete

record NetworkInitTask =
  ni_initilizer :: SlaveInitTask
  ni_network :: Network
  ni_state :: ni_state
  ni_command :: Command
  ni_buffer :: bytes
  ni_num_slaves :: u16
  ni_lost_count :: u8

definition ni_buffer_size :: nat where
  "ni_buffer_size = reg_size DlControl"

definition NetworkInitTask_new :: "Network \<Rightarrow> NetworkInitTask" where
  "NetworkInitTask_new network =
     \<lparr>ni_initilizer = SlaveInitTask_new, ni_network = network, ni_state = NiIdle,
      ni_command = Command_default, ni_buffer = replicate ni_buffer_size 0, ni_num_slaves = 0,
      ni_lost_count = 0\<rparr>"

definition ni_start :: "NetworkInitTask \<Rightarrow> NetworkInitTask" where
  "ni_start t =
     t\<lparr>ni_buffer := replicate (length (ni_buffer t)) 0, ni_command := Command_default,
       ni_state := NiCountSlaves, ni_lost_count := 0\<rparr>"

definition ni_wait :: "NetworkInitTask \<Rightarrow> (NetworkInitTaskError TaskError + unit) option" where
  "ni_wait t =
     (case ni_state t of
        NiComplete \<Rightarrow> Some (Inr ())
      | NiError err \<Rightarrow> Some (Inl err)
      | _ \<Rightarrow> None)"

definition ni_is_busy :: "NetworkInitTask \<Rightarrow> bool" where
  "ni_is_busy t =
     (case ni_state t of NiIdle \<Rightarrow> False | NiComplete \<Rightarrow> False | NiError _ \<Rightarrow> False | _ \<Rightarrow> True)"

definition ni_request_of ::
    "crates \<Rightarrow> NetworkInitTask \<Rightarrow> bytes \<Rightarrow> ((Command \<times> nat) option \<times> NetworkInitTask \<times> bytes) rust" where
  "ni_request_of X t buf =
     (case ni_state t of
        NiIdle \<Rightarrow> ret (None, t, buf)
      | NiError _ \<Rightarrow> ret (None, t, buf)
      | NiCountSlaves \<Rightarrow> do {
          let command = Command_new CommandType.BWR 0 (reg_address DlControl);
          buf \<leftarrow> fill_to (reg_size DlControl) 0 buf;
          buf \<leftarrow> reg_set_bit X DlControl ''forwarding_rule'' True buf;
          buf \<leftarrow> reg_set X DlControl ''tx_buffer_size'' (7 :: u8) buf;
          ret (Some (command, reg_size DlControl), t, buf) }
      | NiStartInitSlaves count \<Rightarrow> do {
          (r, initilizer, buf) \<leftarrow> in_next_pdu X (in_start (ni_initilizer t) count) buf;
          ret (r, t\<lparr>ni_initilizer := initilizer\<rparr>, buf) }
      | NiWaitInitSlaves _ \<Rightarrow> do {
          (r, initilizer, buf) \<leftarrow> in_next_pdu X (ni_initilizer t) buf;
          ret (r, t\<lparr>ni_initilizer := initilizer\<rparr>, buf) }
      | NiComplete \<Rightarrow> ret (None, t, buf))"

definition ni_next_pdu ::
    "crates \<Rightarrow> NetworkInitTask \<Rightarrow> bytes \<Rightarrow> ((Command \<times> nat) option \<times> NetworkInitTask \<times> bytes) rust" where
  "ni_next_pdu X t buf = do {
     (r, t, buf) \<leftarrow> ni_request_of X t buf;
     ret (r, (case r of Some (command, _) \<Rightarrow> t\<lparr>ni_command := command\<rparr> | None \<Rightarrow> t), buf) }"

text \<open>
  The slave that goes into the network: with the third FMMU reading the status of the sync manager
  of its mailbox, when the slave has one and at least two FMMUs.
\<close>

definition found_slave :: "SlaveInfo \<Rightarrow> Slave rust" where
  "found_slave slave_info = do {
     let (r, slave) = set_mailbox_count (Slave_default\<lparr>sl_info := slave_info\<rparr>) 0;
     assert (r = Inr ());
     case mailbox_tx_sm (sl_info slave) of
       Some sm \<Rightarrow>
         if 2 \<le> si_number_of_fmmu (sl_info slave) then do {
           offset \<leftarrow> umul 0x08 (ucast (sm_number sm));
           mb_tx_sm_status \<leftarrow> uadd (reg_address SyncManagerStatus) offset;
           let bit_length = reg_size SyncManagerStatus * 8;
           fmmu \<leftarrow> store (sl_fmmu slave) 2 (Some (FmmuConfig_new mb_tx_sm_status (of_nat bit_length) Input));
           ret (slave\<lparr>sl_fmmu := fmmu\<rparr>) }
         else ret slave
     | None \<Rightarrow> ret slave }"

definition ni_push :: "NetworkInitTask \<Rightarrow> u16 \<Rightarrow> SlaveInfo \<Rightarrow> NetworkInitTask rust" where
  "ni_push t count slave_info = do {
     slave \<leftarrow> found_slave slave_info;
     (r, network) \<leftarrow> push_slave (ni_network t) slave;
     let t = t\<lparr>ni_network := network\<rparr>;
     case r of
       Inl _ \<Rightarrow> ret (t\<lparr>ni_state := NiError (TaskSpecific TooManySlaves)\<rparr>)
     | Inr _ \<Rightarrow> do {
         n \<leftarrow> uadd count 1;
         ret (t\<lparr>ni_state := (if n < ni_num_slaves t then NiStartInitSlaves n else NiComplete)\<rparr>) } }"

definition ni_check :: "NetworkInitTask \<Rightarrow> Pdu \<Rightarrow> NetworkInitTask" where
  "ni_check t recv_data =
     (if \<not> (cmd_type (pdu_command recv_data) = cmd_type (ni_command t) \<and>
            cmd_ado (pdu_command recv_data) = cmd_ado (ni_command t))
      then t\<lparr>ni_state := NiError UnexpectedCommand\<rparr> else t)"

definition ni_recieve_and_process ::
    "crates \<Rightarrow> NetworkInitTask \<Rightarrow> Pdu \<Rightarrow> u64 \<Rightarrow> NetworkInitTask rust" where
  "ni_recieve_and_process X t recv_data sys_time = (
     let wkc = pdu_wkc recv_data; t = ni_check t recv_data in
     case ni_state t of
       NiIdle \<Rightarrow> ret t
     | NiError _ \<Rightarrow> ret t
     | NiCountSlaves \<Rightarrow>
         ret (t\<lparr>ni_num_slaves := wkc, ni_network := Network_clear (ni_network t),
                ni_state := (if wkc = 0 then NiComplete else NiStartInitSlaves 0)\<rparr>)
     | NiStartInitSlaves count \<Rightarrow> do {
         initilizer \<leftarrow> in_recieve_and_process X (ni_initilizer t) recv_data sys_time;
         ret (t\<lparr>ni_initilizer := initilizer, ni_state := NiWaitInitSlaves count\<rparr>) }
     | NiWaitInitSlaves count \<Rightarrow> do {
         initilizer \<leftarrow> in_recieve_and_process X (ni_initilizer t) recv_data sys_time;
         let (r, initilizer) = in_wait initilizer;
         let t = t\<lparr>ni_initilizer := initilizer\<rparr>;
         case r of
           Some (Inr (Some slave_info)) \<Rightarrow> ni_push t count slave_info
         | Some (Inr None) \<Rightarrow> panic
         | None \<Rightarrow> ret t
         | Some (Inl err) \<Rightarrow> ret (t\<lparr>ni_state := NiError (NetworkInit_from_init err)\<rparr>) }
     | NiComplete \<Rightarrow> ret t)"

definition network_init_ops :: "crates \<Rightarrow> NetworkInitTask cyclic_task_ops" where
  "network_init_ops X =
     \<lparr>ct_next_pdu = ni_next_pdu X, ct_recieve_and_process = ni_recieve_and_process X,
      ct_is_busy = ni_is_busy\<rparr>"

definition init ::
    "crates \<Rightarrow> 'd device \<Rightarrow> 'd SocketInterface \<Rightarrow> nat \<Rightarrow> Network \<Rightarrow>
       ((NetworkInitTaskError TaskError + unit) \<times> 'd SocketInterface \<times> Network) run" where
  "init X dev si handle network =
     and_then (Some (do {
         socket \<leftarrow> get_socket si handle;
         assert (ni_buffer_size \<le> length (data_buf socket));
         ret (ni_start (NetworkInitTask_new network)) }))
     (\<lambda>t. and_then (block_on X dev (network_init_ops X) handle si t)
     (\<lambda>(r, si, t). Some (case r of
         Inl e \<Rightarrow> ret (Inl e, si, ni_network t)
       | Inr _ \<Rightarrow> do { w \<leftarrow> ni_wait t; ret (w, si, ni_network t) })))"

section \<open>What is known of the slaves that were found\<close>

text \<open>The sync managers of an initialised slave, after the builder is done.\<close>

definition found_sms :: "SyncManagerType option list \<Rightarrow> bool" where
  "found_sms sms \<longleftrightarrow>
     (\<exists>a b c d. sms = [a, b, c, d] \<and>
        (a \<in> {None, Some ProcessDataRx} \<or> (\<exists>sm. a = Some (MailboxRx sm) \<and> sm_number sm = 0 \<and> sm_size sm \<le> MAX_SM_SIZE)) \<and>
        (b \<in> {None, Some ProcessDataTx} \<or> (\<exists>sm. b = Some (MailboxTx sm) \<and> sm_number sm = 1 \<and> sm_size sm \<le> MAX_SM_SIZE)) \<and>
        c \<in> {None, Some ProcessDataRx} \<and> d \<in> {None, Some ProcessDataTx})"

lemma init_sms_found: "init_sms sms \<Longrightarrow> found_sms (map (map_option SyncManagerTypeBuilder_build) (take 4 sms))"
  by (elim init_smsE) (auto simp: found_sms_def rx_sm_ok_def tx_sm_ok_def SyncManagerBuilder_build_def
    split: option.splits SyncManagerTypeBuilder.splits)

definition mailbox_status_fmmu :: FmmuConfig where
  "mailbox_status_fmmu = FmmuConfig_new (reg_address SyncManagerStatus + 8) (of_nat (reg_size SyncManagerStatus * 8)) Input"

definition well_found :: "nat \<Rightarrow> Slave \<Rightarrow> bool" where
  "well_found k s \<longleftrightarrow>
     unat (si_configured_address (sl_info s)) = k + 1 \<and> found_sms (si_sm (sl_info s)) \<and>
     sl_mailbox_count s = 0 \<and> sl_al_state s = InvalidOrMixed \<and> dc_context s = DcContext_default \<and>
     sl_fmmu s = [None, None, if 2 \<le> si_number_of_fmmu (sl_info s) \<and> mailbox_tx_sm (sl_info s) \<noteq> None
                              then Some mailbox_status_fmmu else None]"

lemma found_sms_tx:
  assumes "found_sms (si_sm info)" and "mailbox_tx_sm info = Some sm"
  shows "sm_number sm = 1"
  using assms by (auto simp: found_sms_def mailbox_tx_sm_def)

lemma found_slave_ok:
  assumes "found_slave info = Some s" and "found_sms (si_sm info)" and "unat (si_configured_address info) = k + 1"
  shows "well_found k s"
proof (cases "mailbox_tx_sm info")
  case None
  with assms show ?thesis
    by (auto simp: found_slave_def set_mailbox_count_def Slave_default_def well_found_def assert_def numeral_eq_Suc)
next
  case (Some sm)
  then have n: "sm_number sm = 1" using found_sms_tx assms(2) by blast
  have "umul 8 (ucast (1 :: u8)) = Some (8 :: u16)" by (simp add: umul_def)
  moreover have "uadd (reg_address SyncManagerStatus) 8 = Some (reg_address SyncManagerStatus + 8)"
    by (simp add: uadd_def SyncManagerStatus_def)
  moreover have "store (sl_fmmu Slave_default) 2 f = Some [None, None, f]" for f
    by (simp add: store_def Slave_default_def numeral_eq_Suc)
  ultimately have "found_slave info = Some (Slave_default\<lparr>sl_info := info, sl_fmmu :=
      if 2 \<le> si_number_of_fmmu info then [None, None, Some mailbox_status_fmmu] else sl_fmmu Slave_default\<rparr>)"
    by (simp add: found_slave_def Let_def Some n set_mailbox_count_def assert_def mailbox_status_fmmu_def Slave_default_def)
  with Some assms show ?thesis by (auto simp: well_found_def Slave_default_def numeral_eq_Suc)
qed

text \<open>
  The invariant of the task over a network with the configurations \<open>cs\<close>: while slave \<open>c\<close> is
  initialised, the slaves before it are in the network, each as \<open>well_found\<close> says.
\<close>

definition found_slaves :: "SlaveConfig list \<Rightarrow> Network \<Rightarrow> nat \<Rightarrow> bool" where
  "found_slaves cs network n \<longleftrightarrow>
     (\<exists>ss. network = net_of ss cs \<and> length ss = n \<and> n \<le> length cs \<and> n \<le> 65535 \<and>
       (\<forall>k < n. well_found k (ss ! k)))"

definition ni_known :: "SlaveConfig list \<Rightarrow> NetworkInitTask \<Rightarrow> bool" where
  "ni_known cs t \<longleftrightarrow>
     (case ni_state t of
        NiCountSlaves \<Rightarrow> map snd (nw_slaves (ni_network t)) = cs
      | NiStartInitSlaves c \<Rightarrow> c < ni_num_slaves t \<and> found_slaves cs (ni_network t) (unat c)
      | NiWaitInitSlaves c \<Rightarrow> c < ni_num_slaves t \<and> found_slaves cs (ni_network t) (unat c)
      | NiComplete \<Rightarrow> found_slaves cs (ni_network t) (unat (ni_num_slaves t))
      | _ \<Rightarrow> True)"

definition ni_taken :: "SlaveConfig list \<Rightarrow> NetworkInitTask \<Rightarrow> bool" where
  "ni_taken cs t \<longleftrightarrow> ni_known cs t \<and>
     (case ni_state t of NiWaitInitSlaves c \<Rightarrow> in_taken c (ni_initilizer t) | _ \<Rightarrow> True)"

definition ni_sent :: "SlaveConfig list \<Rightarrow> NetworkInitTask \<Rightarrow> bool" where
  "ni_sent cs t \<longleftrightarrow> ni_known cs t \<and>
     (case ni_state t of NiStartInitSlaves c \<Rightarrow> in_sent c (ni_initilizer t)
      | NiWaitInitSlaves c \<Rightarrow> in_sent c (ni_initilizer t) | _ \<Rightarrow> True)"

lemma u16_below:
  fixes c m :: u16
  assumes "c < m"
  shows "unat c < 65535"
proof -
  have "unat m < 65536" by (rule less_le_trans [OF unsigned_less]) simp
  with assms show ?thesis by (simp add: word_less_nat_alt)
qed

lemma clear_found: "map snd (nw_slaves n) = cs \<Longrightarrow> found_slaves cs (Network_clear n) 0"
  by (auto simp: found_slaves_def Network_clear_def net_of_def case_prod_unfold)

lemma push_found:
  fixes c m :: u16
  assumes "found_slaves cs n (unat c)" and "c < m" and "well_found (unat c) s" and "push_slave n s = Some (r, n')"
    and "r = Inr u"
  shows "found_slaves cs n' (Suc (unat c))"
proof -
  obtain ss where ss: "n = net_of ss cs" "length ss = unat c" "\<forall>k < unat c. well_found k (ss ! k)"
    using assms(1) by (auto simp: found_slaves_def)
  have c: "unat c < 65535" using assms(2) by (rule u16_below)
  with ss(2) assms(4,5) have p: "length ss < length cs" "n' = net_of (ss @ [s]) cs"
    using push_net_of [of ss cs s] by (auto simp: ss(1) split: if_splits)
  show ?thesis
    unfolding found_slaves_def
  proof (intro exI conjI allI impI)
    show "n' = net_of (ss @ [s]) cs" by (rule p(2))
    show "well_found k ((ss @ [s]) ! k)" if "k < Suc (unat c)" for k
      using that ss assms(3) by (cases "k = unat c") (auto simp: nth_append)
  qed (use p ss c in simp_all)
qed

lemma ni_push_known:
  assumes "ni_push t c info = Some t'" and "found_slaves cs (ni_network t) (unat c)" and "c < ni_num_slaves t"
    and "found_sms (si_sm info)" and "unat (si_configured_address info) = unat c + 1"
  shows "ni_taken cs t'"
proof -
  obtain s r n where s: "found_slave info = Some s" "push_slave (ni_network t) s = Some (r, n)"
    "(case r of
       Inl _ \<Rightarrow> Some (t\<lparr>ni_network := n, ni_state := NiError (TaskSpecific TooManySlaves)\<rparr>)
     | Inr _ \<Rightarrow> do {
         m \<leftarrow> uadd c 1;
         Some (t\<lparr>ni_network := n, ni_state := (if m < ni_num_slaves (t\<lparr>ni_network := n\<rparr>) then NiStartInitSlaves m else NiComplete)\<rparr>) }) = Some t'"
    using assms(1) by (auto simp: ni_push_def Let_def elim!: bindE)
  have w: "well_found (unat c) s" by (rule found_slave_ok [OF s(1) assms(4,5)])
  show ?thesis
  proof (cases r)
    case (Inl e)
    with s(3) show ?thesis by (auto simp: ni_taken_def ni_known_def)
  next
    case (Inr u)
    have f: "found_slaves cs n (Suc (unat c))" by (rule push_found [OF assms(2,3) w s(2) Inr])
    from Inr s(3) obtain m where m: "uadd c 1 = Some m"
      "t' = t\<lparr>ni_network := n, ni_state := (if m < ni_num_slaves t then NiStartInitSlaves m else NiComplete)\<rparr>"
      by (auto elim: bindE)
    have u: "unat m = Suc (unat c)" using uadd_Some [OF m(1)] by simp
    show ?thesis
    proof (cases "m < ni_num_slaves t")
      case True
      with m(2) f u show ?thesis by (simp add: ni_taken_def ni_known_def)
    next
      case False
      then have "unat (ni_num_slaves t) = Suc (unat c)" using assms(3) u by (simp add: word_less_nat_alt)
      with False m(2) f show ?thesis by (simp add: ni_taken_def ni_known_def)
    qed
  qed
qed

lemma ni_sent_next:
  assumes "ni_taken cs t" and "ni_next_pdu X t buf = Some (r, t', buf')"
  shows "ni_sent cs t'"
proof -
  obtain t1 where t1: "ni_request_of X t buf = Some (r, t1, buf')"
    "t' = (case r of Some (command, _) \<Rightarrow> t1\<lparr>ni_command := command\<rparr> | None \<Rightarrow> t1)"
    using assms(2) by (auto simp: ni_next_pdu_def elim!: bindE)
  have "ni_sent cs t1"
  proof (cases "ni_state t")
    case (NiStartInitSlaves c)
    with t1(1) obtain i where i: "in_next_pdu X (in_start (ni_initilizer t) c) buf = Some (r, i, buf')"
      "t1 = t\<lparr>ni_initilizer := i\<rparr>"
      by (auto simp: ni_request_of_def elim!: bindE)
    have "in_taken c (in_start (ni_initilizer t) c)" using in_taken_start by (simp add: in_sent_def)
    then have "in_sent c i" using i(1) by (rule in_sent_next)
    with assms(1) NiStartInitSlaves i(2) show ?thesis by (simp add: ni_sent_def ni_taken_def ni_known_def)
  next
    case (NiWaitInitSlaves c)
    with t1(1) obtain i where i: "in_next_pdu X (ni_initilizer t) buf = Some (r, i, buf')"
      "t1 = t\<lparr>ni_initilizer := i\<rparr>"
      by (auto simp: ni_request_of_def elim!: bindE)
    have "in_taken c (ni_initilizer t)" using assms(1) NiWaitInitSlaves by (simp add: ni_taken_def)
    then have "in_sent c i" using i(1) by (rule in_sent_next)
    with assms(1) NiWaitInitSlaves i(2) show ?thesis by (simp add: ni_sent_def ni_taken_def ni_known_def)
  qed (use t1(1) assms(1) in \<open>auto simp: ni_request_of_def ni_sent_def ni_taken_def ni_known_def elim!: bindE\<close>)
  with t1(2) show ?thesis by (cases "ni_state t1") (auto simp: ni_sent_def ni_known_def split: option.splits)
qed

text \<open>The information an initialisation that is done hands over.\<close>

lemma in_wait_found:
  assumes "in_taken c t" and "in_wait t = (Some (Inr (Some info)), t')" and "c < m"
  shows "found_sms (si_sm info) \<and> unat (si_configured_address info) = unat c + 1"
proof -
  have st: "in_state t = InComplete" using assms(2) by (auto simp: in_wait_def split: in_state.splits)
  then obtain b where b: "in_slave_info t = Some b" "sib_configured_address b = c + 1" "init_sms (sib_sm b)"
    using assms(1) by (auto simp: in_taken_def in_addressed_def)
  with assms(2) st have "info = SlaveInfoBuilder_build b" by (simp add: in_wait_def)
  moreover have "unat c < 65535" using assms(3) by (rule u16_below)
  ultimately show ?thesis using b init_sms_found [of "sib_sm b"] by (simp add: SlaveInfoBuilder_build_def unat_word_ariths)
qed

lemma ni_check_sent: "ni_sent cs t \<Longrightarrow> ni_sent cs (ni_check t p)"
  by (auto simp: ni_sent_def ni_known_def ni_check_def)

lemma ni_taken_recieve:
  assumes "ni_sent cs t" and "ni_recieve_and_process X t p time = Some t'"
  shows "ni_taken cs t'"
proof -
  let ?t = "ni_check t p"
  have s: "ni_sent cs ?t" using assms(1) by (rule ni_check_sent)
  note r = assms(2) [unfolded ni_recieve_and_process_def Let_def]
  show ?thesis
  proof (cases "ni_state ?t")
    case NiCountSlaves
    with s have "found_slaves cs (Network_clear (ni_network ?t)) 0" by (intro clear_found) (simp add: ni_sent_def ni_known_def)
    moreover have "pdu_wkc p \<noteq> 0 \<Longrightarrow> 0 < pdu_wkc p" by (simp add: word_gt_0)
    ultimately show ?thesis using r NiCountSlaves by (auto simp: ni_taken_def ni_known_def)
  next
    case (NiStartInitSlaves c)
    with r obtain i where i: "in_recieve_and_process X (ni_initilizer ?t) p time = Some i"
      "t' = ?t\<lparr>ni_initilizer := i, ni_state := NiWaitInitSlaves c\<rparr>"
      by (auto elim!: bindE)
    have "in_taken c i" using s NiStartInitSlaves in_taken_recieve [OF _ i(1)] by (simp add: ni_sent_def)
    with i(2) s NiStartInitSlaves show ?thesis by (simp add: ni_taken_def ni_sent_def ni_known_def)
  next
    case (NiWaitInitSlaves c)
    obtain i where i0: "in_recieve_and_process X (ni_initilizer ?t) p time = Some i"
      using r NiWaitInitSlaves by (auto elim!: bindE)
    obtain w j where wj: "in_wait i = (w, j)" by (cases "in_wait i")
    from r NiWaitInitSlaves i0 wj have i: "in_recieve_and_process X (ni_initilizer ?t) p time = Some i"
      "in_wait i = (w, j)"
      "(case w of
         Some (Inr (Some slave_info)) \<Rightarrow> ni_push (?t\<lparr>ni_initilizer := j\<rparr>) c slave_info
       | Some (Inr None) \<Rightarrow> None
       | None \<Rightarrow> Some (?t\<lparr>ni_initilizer := j\<rparr>)
       | Some (Inl err) \<Rightarrow> Some (?t\<lparr>ni_initilizer := j, ni_state := NiError (NetworkInit_from_init err)\<rparr>)) = Some t'"
      by simp_all
    have it: "in_taken c i" using s NiWaitInitSlaves in_taken_recieve [OF _ i(1)] by (simp add: ni_sent_def)
    have k: "c < ni_num_slaves ?t" "found_slaves cs (ni_network ?t) (unat c)"
      using s NiWaitInitSlaves by (simp_all add: ni_sent_def ni_known_def)
    show ?thesis
    proof (cases w)
      case None
      with i(2) have "j = i" by (auto simp: in_wait_def split: in_state.splits option.splits)
      with None i(3) NiWaitInitSlaves it k show ?thesis by (auto simp: ni_taken_def ni_known_def)
    next
      case (Some q)
      show ?thesis
      proof (cases q)
        case (Inl e)
        with Some i(3) show ?thesis by (auto simp: ni_taken_def ni_known_def)
      next
        case (Inr x)
        with Some i(3) obtain info where x: "x = Some info" by (cases x) auto
        with Some Inr i(3) have push: "ni_push (?t\<lparr>ni_initilizer := j\<rparr>) c info = Some t'" by simp
        have "found_sms (si_sm info) \<and> unat (si_configured_address info) = unat c + 1"
          using it i(2) Some Inr x k(1) by (intro in_wait_found) auto
        with ni_push_known [OF push, of cs] k show ?thesis by simp
      qed
    qed
  qed (use r s in \<open>auto simp: ni_taken_def ni_sent_def ni_known_def\<close>)
qed

interpretation ni: task_invariant "network_init_ops X" "ni_sent cs" "ni_taken cs" for X cs
proof unfold_locales
  show "ni_sent cs t \<Longrightarrow> ni_taken cs t" for t
    by (auto simp: ni_sent_def ni_taken_def in_sent_def split: ni_state.splits)
qed (auto simp: network_init_ops_def intro: ni_sent_next ni_taken_recieve)

lemma init_found:
  assumes run: "init X dev si h network = Some (Some (Inr (), si', network'))"
  shows "\<exists>ss. network' = net_of ss (map snd (nw_slaves network)) \<and> length ss = unat (num_slaves network') \<and>
    length ss \<le> length (nw_slaves network) \<and> list_all (\<lambda>(k, s). well_found k s) (enumerate 0 ss)"
proof -
  let ?cs = "map snd (nw_slaves network)"
  let ?t = "ni_start (NetworkInitTask_new network)"
  from run obtain si1 t1 where
    b: "block_on X dev (network_init_ops X) h si ?t =
      Some (Some (Inr () :: NetworkInitTaskError TaskError + unit, si1, t1))" and w: "ni_wait t1 = Some (Inr ())"
    and n: "network' = ni_network t1"
    by (auto simp: init_def and_then_def split: option.splits sum.splits Option.bind_splits)
  have "ni_sent ?cs ?t"
    by (simp add: ni_sent_def ni_known_def ni_start_def NetworkInitTask_new_def)
  with ni.block_on_keeps [of X dev X h si ?t 0 _ si1 t1 ?cs] b have "ni_sent ?cs t1"
    by (auto simp: block_on_def)
  moreover have "ni_state t1 = NiComplete" using w by (auto simp: ni_wait_def split: ni_state.splits)
  ultimately have "found_slaves ?cs network' (unat (ni_num_slaves t1))" by (simp add: ni_sent_def ni_known_def n)
  then obtain ss where "network' = net_of ss ?cs" "length ss \<le> length ?cs" "length ss \<le> 65535"
    "\<forall>k < length ss. well_found k (ss ! k)"
    by (auto simp: found_slaves_def)
  then show ?thesis by (intro exI [of _ ss])
    (simp add: num_slaves_def net_of_def unat_of_nat list_all_length nth_enumerate_eq)
qed


end
