(* ===== verification/Init_Returns.thy ===== *)
theory Init_Returns
  imports Network_Init
begin

text \<open>
  The initialisation of the network returns: on a network that answers, \<open>init\<close> never runs for ever, and
  it does not panic when the answers of the slaves are within the bounds the code silently assumes. The
  tasks of \<open>Slave_Init\<close> and \<open>Network_Init\<close> interpret the contract \<open>answered_task\<close>, once for answers of
  any kind and once for answers within the bounds (\<open>safe\<close>).
\<close>

section \<open>Answers within the bounds\<close>

text \<open>
  What the code takes for granted: clocks of 64 bits, support of the logical read-write command and a
  memory of 1 to 60 KB; a word of the SII, which may become the address or the size of a mailbox,
  below 0xFF00, and not zero in the low half alone; only known AL status codes.
\<close>

definition dl_info_fine :: "bytes \<Rightarrow> bool" where
  "dl_info_fine d \<longleftrightarrow> (bit_at d 66 \<longrightarrow> bit_at d 67) \<and> \<not> bit_at d 73 \<and> field d 55 48 \<in> {1..60}"

definition sii_fine :: "bytes \<Rightarrow> bool" where
  "sii_fine d \<longleftrightarrow> field d 15 0 \<le> 0xFEFF \<and> (field d 15 0 = 0 \<longrightarrow> field d 63 0 = 0)"

definition init_answer :: "crates \<Rightarrow> Pdu \<Rightarrow> bool" where
  "init_answer X p \<longleftrightarrow>
     (let ado = cmd_ado (pdu_command p); d = pdu_data p in
      (ado = reg_address AlStatus \<and> length d = reg_size AlStatus \<and> status_error d \<longrightarrow>
         AlStatusCode_try_from X (status_code d) \<noteq> None) \<and>
      (ado = reg_address DlInformation \<and> length d = reg_size DlInformation \<longrightarrow> dl_info_fine d) \<and>
      (ado = reg_address SiiData \<and> length d = reg_size SiiData \<longrightarrow> sii_fine d))"

section \<open>The inner tasks\<close>

context crates_laws
begin

lemma at_request:
  assumes "6 \<le> length buf"
  obtains r t' buf' where "at_next_pdu X t buf = Some (r, t', buf')" "length buf' = length buf"
    "at_state t' = at_state t" "at_target_al t' = at_target_al t"
    "at_current_al_state t' = at_current_al_state t" "r = None \<or> (\<exists>c. r = Some (c, at_expects t'))"
    "at_state t' = AtPoll \<Longrightarrow> cmd_ado (at_command t') = reg_address AlStatus"
proof -
  have "at_need t \<le> length buf" using assms by (simp add: at_need_def)
  from at_next_eq [OF this] obtain r t' buf' where n: "at_next_pdu X t buf = Some (r, t', buf')"
    "at_state t' = at_state t" "at_target_al t' = at_target_al t" "at_current_al_state t' = at_current_al_state t"
    "length buf' = length buf" "if at_is_busy t then \<exists>c. r = Some (c, at_expects t) else r = None" by blast
  moreover have "at_expects t' = at_expects t" using n(2) by (simp add: at_expects_def at_is_busy_def)
  moreover have "cmd_ado (at_command t') = reg_address AlStatus" if "at_state t' = AtPoll"
    using n(1,2) that by (auto simp: at_next_pdu_def Let_def Command_new_read_def Command_new_def elim!: bindE
      split: TargetSlave.splits SlaveAddress.splits)
  ultimately show thesis using that by (auto split: if_splits)
qed

lemma at_answered:
  assumes "length (pdu_data p) = at_expects t"
    and "at_state t = AtPoll \<Longrightarrow> cmd_ado (at_command t) = reg_address AlStatus" and "init_answer X p"
  shows "at_recieve_and_process X t p time \<noteq> None"
proof (cases "\<exists>e. at_state (at_check t p) = AtError e")
  case True
  then show ?thesis using at_recieve_error by fastforce
next
  case False
  then have st: "at_state (at_check t p) = at_state t" and ado: "cmd_ado (pdu_command p) = cmd_ado (at_command t)"
    by (auto simp: at_check_eq split: if_splits)
  show ?thesis
  proof (cases "at_state t")
    case AtPoll
    then have l: "length (pdu_data p) = 6" using assms(1) by (simp add: at_expects_def)
    have "status_error (pdu_data p) \<Longrightarrow> AlStatusCode_try_from X (status_code (pdu_data p)) \<noteq> None"
      using assms(2,3) AtPoll ado l by (simp add: init_answer_def Let_def AlStatus_def)
    with at_recieve_poll [OF _ l] st AtPoll show ?thesis by simp
  next
    case AtRead
    then have l: "length (pdu_data p) = 6" using assms(1) by (simp add: at_expects_def)
    with at_recieve_read [OF _ l] st AtRead show ?thesis by simp
  qed (use at_recieve_other [OF False] in auto)
qed

lemma sr_request:
  assumes "8 \<le> length buf"
  obtains r t' buf' where "sr_next_pdu X t buf = Some (r, t', buf')" "length buf' = length buf"
    "sr_state t' = sr_state t" "sr_sii_data t' = sr_sii_data t"
    "r = None \<or> r = Some (sr_command t', sr_expects t') \<and> 0 < sr_expects t' \<and> sr_expects t' \<le> 8"
    "sr_state t' = SrRead \<Longrightarrow> cmd_ado (sr_command t') = reg_address SiiData"
proof -
  have "sr_need t \<le> length buf" using assms by (simp add: sr_need_def)
  from sr_next_eq [OF this] obtain r c buf' where n: "sr_next_pdu X t buf = Some (r, t\<lparr>sr_command := c\<rparr>, buf')"
    "length buf' = length buf" "r = (if sr_is_busy t then Some (c, sr_expects t) else None)" by blast
  have "0 < sr_expects t \<and> sr_expects t \<le> 8" if "sr_is_busy t"
    using that by (cases "sr_state t") (simp_all add: sr_expects_def sr_is_busy_def)
  moreover have "cmd_ado c = reg_address SiiData" if "sr_state t = SrRead"
  proof -
    have "\<exists>a t' buf'. sr_next_pdu X t buf = Some (Some (Command_new_read a (reg_address SiiData), 8), t', buf')"
      using that assms by (simp add: sr_next_pdu_def fill_to_def Let_def SiiData_def) blast
    with n(1) obtain a k where "r = Some (Command_new_read a (reg_address SiiData), k)" by auto
    with n(3) have "c = Command_new_read a (reg_address SiiData)" by (simp split: if_splits)
    then show ?thesis
      by (simp add: Command_new_read_def Command_new_def split: TargetSlave.split SlaveAddress.split)
  qed
  ultimately show thesis
    using n by (intro that [of r "t\<lparr>sr_command := c\<rparr>" buf']) (auto simp: sr_expects_def sr_is_busy_def split: if_splits)
qed

lemma sr_answered:
  assumes "sr_state t \<noteq> SrComplete" and "length (sr_sii_data t) = 8" and "length (pdu_data p) = sr_expects t"
  shows "\<exists>t'. sr_recieve_and_process X t p time = Some t' \<and> length (sr_sii_data t') = 8 \<and>
    (sr_state t' = SrComplete \<longrightarrow> sr_state t = SrRead \<and> sr_sii_data t' = pdu_data p \<and>
       cmd_ado (pdu_command p) = cmd_ado (sr_command t))"
proof (cases "unexpected 1 (sr_command t) p :: SiiTaskError TaskError option")
  case (Some e)
  with assms(2) show ?thesis
    by (simp add: sr_recieve_and_process_def sr_check_eq)
next
  case None
  then have t: "sr_check t p = t" and ado: "cmd_ado (pdu_command p) = cmd_ado (sr_command t)"
    by (auto simp: sr_check_eq unexpected_def split: if_splits)
  show ?thesis
    using assms ado
    by (cases "sr_state t") (auto simp: sr_recieve_and_process_def t sr_init_eq sr_expects_def
      sr_is_busy_def reg_eqs SiiAccess_def SiiControl_def umul_TIMEOUT_MS usub_def Let_def copy_zip_exact)
qed

end

section \<open>The initialisation of a slave\<close>

text \<open>The bytes each state expects back, where the request does not come from an inner task.\<close>

definition in_expects :: "SlaveInitTask \<Rightarrow> nat" where
  "in_expects t =
     (case in_state t of
        InIdle \<Rightarrow> 0 | InError _ \<Rightarrow> 0 | InComplete \<Rightarrow> 0
      | InSetLoopPort \<Rightarrow> reg_size DlControl
      | InResetErrorCount \<Rightarrow> reg_size RxErrorCounter
      | InSetWatchDogDivider \<Rightarrow> reg_size WatchDogDivider
      | InDisableDlWatchDog \<Rightarrow> reg_size DlUserWatchDog
      | InDisableSmWatchDog \<Rightarrow> reg_size SyncManagerChannelWatchDog
      | InCheckDlStatus \<Rightarrow> reg_size DlStatus
      | InCheckDlInfo \<Rightarrow> reg_size DlInformation
      | InClearFmmu _ \<Rightarrow> reg_size FmmuRegister
      | InClearSm _ \<Rightarrow> reg_size SyncManagerControl + reg_size SyncManagerStatus + reg_size SyncManagerActivation
      | InSetSmControl _ \<Rightarrow> reg_size SyncManagerControl
      | InSetSmActivation _ \<Rightarrow> reg_size SyncManagerActivation
      | InSetStationAddress \<Rightarrow> reg_size FixedStationAddress
      | InCheckPdiControl \<Rightarrow> reg_size PdiControl
      | InClearDcActivation \<Rightarrow> reg_size DcActivation
      | InClearCyclicOperationStartTime \<Rightarrow> reg_size CyclicOperationStartTime
      | InClearSync0CycleTime \<Rightarrow> reg_size Sync0CycleTime
      | InClearSync1CycleTime \<Rightarrow> reg_size Sync1CycleTime
      | _ \<Rightarrow> (case in_inner t of Sii sii \<Rightarrow> sr_expects sii | AlTransfer al \<Rightarrow> at_expects al | This \<Rightarrow> 0))"

lemma in_expects_cong:
  assumes "in_state t' = in_state t" and "in_inner t' = in_inner t"
  shows "in_expects t' = in_expects t"
  unfolding in_expects_def assms ..

text \<open>Whether a state reads the SII, and then, whether it starts to.\<close>

fun sii_state :: "in_state \<Rightarrow> bool option" where
  "sii_state (InGetVenderID b) = Some b"
| "sii_state (InGetProductCode b) = Some b"
| "sii_state (InGetRevision b) = Some b"
| "sii_state (InGetProtocol b) = Some b"
| "sii_state (InGetRxMailboxSize b) = Some b"
| "sii_state (InGetRxMailboxOffset b) = Some b"
| "sii_state (InGetTxMailboxSize b) = Some b"
| "sii_state (InGetTxMailboxOffset b) = Some b"
| "sii_state _ = None"

text \<open>The inner task fits the state: \<open>inner_taken\<close> after an answer, \<open>inner_sent\<close> after a request.\<close>

definition inner_taken :: "SlaveInitTask \<Rightarrow> bool" where
  "inner_taken t \<longleftrightarrow>
     (\<forall>sii. in_inner t = Sii sii \<longrightarrow> length (sr_sii_data sii) = 8) \<and>
     (in_state t = InRequestInitState False \<longrightarrow> (\<exists>al. in_inner t = AlTransfer al \<and> at_true AlState.Init al)) \<and>
     (\<forall>b. sii_state (in_state t) = Some b \<longrightarrow> in_state t = InGetVenderID True \<or>
        (\<exists>sii. in_inner t = Sii sii \<and> (\<not> b \<longrightarrow> sr_state sii \<noteq> SrComplete)))"

definition inner_sent :: "SlaveInitTask \<Rightarrow> bool" where
  "inner_sent t \<longleftrightarrow>
     (\<forall>sii. in_inner t = Sii sii \<longrightarrow> length (sr_sii_data sii) = 8) \<and>
     (\<forall>b. in_state t = InRequestInitState b \<longrightarrow> (\<exists>al. in_inner t = AlTransfer al \<and> at_true AlState.Init al \<and>
        (at_state al = AtPoll \<longrightarrow> cmd_ado (at_command al) = reg_address AlStatus))) \<and>
     (sii_state (in_state t) \<noteq> None \<longrightarrow> (\<exists>sii. in_inner t = Sii sii \<and> sr_state sii \<noteq> SrComplete \<and>
        (sr_state sii = SrRead \<longrightarrow> cmd_ado (sr_command sii) = reg_address SiiData)))"

text \<open>The counters of the states stay within the registers.\<close>

definition counter_ok :: "in_state \<Rightarrow> bool" where
  "counter_ok st \<longleftrightarrow>
     (case st of InClearFmmu c \<Rightarrow> c \<le> 3 | InClearSm c \<Rightarrow> c \<le> 4 | InSetSmControl n \<Rightarrow> n \<le> 3
      | InSetSmActivation n \<Rightarrow> n \<le> 3 | _ \<Rightarrow> True)"

text \<open>What is known of the slave: where the answers are within the bounds, mailboxes fit into the address space.\<close>

definition mailbox_fine :: "SyncManagerTypeBuilder option \<Rightarrow> bool" where
  "mailbox_fine m \<longleftrightarrow>
     (let fine = (\<lambda>b. 0 < smb_size b \<and> smb_size b \<le> 256 \<and> smb_start_address b \<le> 0xFEFF) in
      case m of Some (MailboxRxB b) \<Rightarrow> fine b | Some (MailboxTxB b) \<Rightarrow> fine b | _ \<Rightarrow> True)"

definition before_info :: "in_state \<Rightarrow> bool" where
  "before_info st \<longleftrightarrow> (case st of
     InSetLoopPort \<Rightarrow> True | InRequestInitState _ \<Rightarrow> True | InResetErrorCount \<Rightarrow> True | InSetWatchDogDivider \<Rightarrow> True
   | InDisableDlWatchDog \<Rightarrow> True | InDisableSmWatchDog \<Rightarrow> True | InCheckDlStatus \<Rightarrow> True | InCheckDlInfo \<Rightarrow> True
   | _ \<Rightarrow> False)"

definition info_fine :: "bool \<Rightarrow> in_state \<Rightarrow> SlaveInfoBuilder \<Rightarrow> bool" where
  "info_fine safe st info \<longleftrightarrow> init_sms (sib_sm info) \<and>
     (safe \<longrightarrow> list_all mailbox_fine (sib_sm info) \<and> (\<not> before_info st \<longrightarrow> unat (sib_ram_size_kb info) \<in> {1..60}))"

definition in_known :: "bool \<Rightarrow> u16 \<Rightarrow> SlaveInitTask \<Rightarrow> bool" where
  "in_known safe pos t \<longleftrightarrow> in_slave_address t = SlavePosition pos \<and> unat pos < 65535 \<and> counter_ok (in_state t) \<and>
     (in_is_busy t \<longrightarrow> (\<exists>info. in_slave_info t = Some info \<and> info_fine safe (in_state t) info))"

definition in_I :: "bool \<Rightarrow> u16 \<Rightarrow> SlaveInitTask \<Rightarrow> bool" where
  "in_I safe pos t \<longleftrightarrow> in_taken pos t \<and> in_known safe pos t \<and> inner_taken t"

definition in_J :: "bool \<Rightarrow> u16 \<Rightarrow> SlaveInitTask \<Rightarrow> bool" where
  "in_J safe pos t \<longleftrightarrow> in_sent pos t \<and> in_known safe pos t \<and> inner_sent t \<and>
     (in_state t = InCheckDlInfo \<longrightarrow> cmd_ado (in_command t) = reg_address DlInformation)"

lemma in_start_I:
  assumes "unat pos < 65535" and "\<And>sii. in_inner t = Sii sii \<Longrightarrow> length (sr_sii_data sii) = 8"
  shows "in_I safe pos (in_start t pos)"
proof -
  have sm: "sib_sm SlaveInfoBuilder_default = [None, None, None, None]"
    by (simp add: SlaveInfoBuilder_default_def numeral_eq_Suc)
  have "in_taken pos (in_start t pos)" using in_taken_start by (simp add: in_sent_def)
  moreover have "in_known safe pos (in_start t pos)"
    using assms(1) by (simp add: in_known_def in_start_def counter_ok_def info_fine_def sm init_sms_def
      rx_sm_ok_def tx_sm_ok_def mailbox_fine_def before_info_def)
  moreover have "inner_taken (in_start t pos)" using assms(2) by (simp add: inner_taken_def in_start_def)
  ultimately show ?thesis by (simp add: in_I_def)
qed

text \<open>A request of the task: what it leaves of the task, and the bytes it expects back.\<close>

definition in_asks :: "SlaveInitTask \<Rightarrow> bytes \<Rightarrow> in_request \<Rightarrow> bool" where
  "in_asks t buf q \<longleftrightarrow> (\<exists>r inner info buf'. q = Some (r, t\<lparr>in_inner := inner, in_slave_info := info\<rparr>, buf') \<and>
     length buf' = length buf \<and> inner_sent (t\<lparr>in_inner := inner\<rparr>) \<and>
     (info = in_slave_info t \<or> (\<exists>a b. in_slave_info t = Some b \<and> info = Some (b\<lparr>sib_configured_address := a\<rparr>))) \<and>
     (\<forall>c n. r = Some (c, n) \<longrightarrow> 0 < n \<and> n \<le> 16 \<and> in_expects (t\<lparr>in_inner := inner\<rparr>) = n) \<and>
     (in_state t = InCheckDlInfo \<longrightarrow> (\<exists>c n. r = Some (c, n) \<and> cmd_ado c = reg_address DlInformation)))"

lemma in_asks_plain:
  assumes "length buf' = length buf" and "inner_taken t" and "sii_state (in_state t) = None"
    and "\<nexists>b. in_state t = InRequestInitState b" and "r = None \<or> (\<exists>c. r = Some (c, in_expects t)) \<and> 0 < in_expects t \<and> in_expects t \<le> 16"
    and "in_state t = InCheckDlInfo \<Longrightarrow> \<exists>c n. r = Some (c, n) \<and> cmd_ado c = reg_address DlInformation"
  shows "in_asks t buf (Some (r, t, buf'))"
  unfolding in_asks_def using assms
  by (intro exI [of _ r] exI [of _ "in_inner t"] exI [of _ "in_slave_info t"] exI [of _ buf'])
    (auto simp: inner_sent_def inner_taken_def)

lemma cmd_ado_new [simp]: "cmd_ado (Command_new_write a n) = n" "cmd_ado (Command_new_read a n) = n"
  by (simp_all add: Command_new_write_def Command_new_read_def Command_new_def split: TargetSlave.split SlaveAddress.split)

lemmas init_registers = DlControl_def RxErrorCounter_def WatchDogDivider_def DlUserWatchDog_def
  SyncManagerChannelWatchDog_def DlStatus_def DlInformation_def FmmuRegister_def SyncManagerControl_def
  SyncManagerStatus_def SyncManagerActivation_def FixedStationAddress_def PdiControl_def DcActivation_def
  CyclicOperationStartTime_def Sync0CycleTime_def Sync1CycleTime_def

context crates_laws
begin

lemma in_sii_asks:
  assumes "in_inner t = Sii sii" "length (sr_sii_data sii) = 8" "first \<or> sr_state sii \<noteq> SrComplete"
    and "sii_state (in_state t) \<noteq> None" and "16 \<le> length buf"
  shows "in_asks t buf (in_sii_next X word first t buf)"
proof -
  let ?s = "if first then sr_start sii (in_slave_address t) (sii_word_address word) else sii"
  obtain r s' buf' where n: "sr_next_pdu X ?s buf = Some (r, s', buf')" "length buf' = length buf"
    "sr_state s' = sr_state ?s" "sr_sii_data s' = sr_sii_data ?s"
    "r = None \<or> r = Some (sr_command s', sr_expects s') \<and> 0 < sr_expects s' \<and> sr_expects s' \<le> 8"
    "sr_state s' = SrRead \<Longrightarrow> cmd_ado (sr_command s') = reg_address SiiData"
    by (rule sr_request [of buf ?s]) (use assms(5) in simp_all)
  have "in_sii_next X word first t buf = Some (r, t\<lparr>in_inner := Sii s'\<rparr>, buf')"
    using n(1) by (simp add: in_sii_next_def inner_sii_def assms(1) Let_def)
  moreover have "sr_state s' \<noteq> SrComplete" "length (sr_sii_data s') = 8"
    using n(3,4) assms(2,3) by (auto simp: sr_start_def)
  moreover have "in_expects (t\<lparr>in_inner := Sii s'\<rparr>) = sr_expects s'"
    using assms(4) by (cases "in_state t") (simp_all add: in_expects_def)
  moreover have "\<nexists>b. in_state t = InRequestInitState b" "in_state t \<noteq> InCheckDlInfo" using assms(4) by auto
  ultimately show ?thesis
    unfolding in_asks_def using n(2,5,6)
    by (intro exI [of _ r] exI [of _ "Sii s'"] exI [of _ "in_slave_info t"] exI [of _ buf'])
      (auto simp: inner_sent_def)
qed

lemma in_al_asks:
  assumes st: "in_state t = InRequestInitState first" and inner: "inner_taken t" and len: "16 \<le> length buf"
  shows "in_asks t buf (in_request_of X t buf)"
proof -
  obtain al where al: "inner_al (into_al_state_transfer (in_inner t)) = Some al"
    by (cases "in_inner t") (auto simp: inner_al_def into_al_state_transfer_def)
  let ?al = "if first then at_start al (Single (in_slave_address t)) AlState.Init else al"
  have true: "at_true AlState.Init ?al"
    using inner st al
    by (cases first) (auto simp: inner_taken_def at_true_def at_start_def into_al_state_transfer_def inner_al_def)
  obtain r al' buf' where n: "at_next_pdu X ?al buf = Some (r, al', buf')" "length buf' = length buf"
    "at_state al' = at_state ?al" "at_target_al al' = at_target_al ?al"
    "at_current_al_state al' = at_current_al_state ?al" "r = None \<or> (\<exists>c. r = Some (c, at_expects al'))"
    "at_state al' = AtPoll \<Longrightarrow> cmd_ado (at_command al') = reg_address AlStatus"
    by (rule at_request [of buf ?al]) (use len in simp_all)
  have "in_request_of X t buf = Some (r, t\<lparr>in_inner := AlTransfer al'\<rparr>, buf')"
    using n(1) by (simp add: in_request_of_def st al Let_def)
  moreover have "at_true AlState.Init al'" using true n(3-5) by (simp add: at_true_def)
  moreover have "in_expects (t\<lparr>in_inner := AlTransfer al'\<rparr>) = at_expects al'" by (simp add: in_expects_def st)
  moreover have "r = None \<or> 0 < at_expects al' \<and> at_expects al' \<le> 16"
  proof (cases "at_is_busy ?al")
    case True
    then show ?thesis using n(3) by (auto simp: at_expects_def at_is_busy_def)
  next
    case False
    then have "r = None" using n(1) by (cases "at_state ?al") (auto simp: at_next_pdu_def at_is_busy_def Let_def)
    then show ?thesis by simp
  qed
  ultimately show ?thesis
    unfolding in_asks_def using n(2,6,7) st
    by (intro exI [of _ r] exI [of _ "AlTransfer al'"] exI [of _ "in_slave_info t"] exI [of _ buf'])
      (auto simp: inner_sent_def)
qed

lemma in_clear_some:
  assumes "reg_size r \<le> length buf"
  shows "in_clear r t buf = Some (Some (Command_new_write (Single (in_slave_address t)) (reg_address r), reg_size r), t,
    replicate (reg_size r) 0 @ drop (reg_size r) buf)"
  using assms by (simp add: in_clear_def fill_to_def Let_def)

lemma in_read_some:
  assumes "reg_size r \<le> length buf"
  shows "in_read r t buf = Some (Some (Command_new_read (Single (in_slave_address t)) (reg_address r), reg_size r), t,
    replicate (reg_size r) 0 @ drop (reg_size r) buf)"
  using assms by (simp add: in_read_def fill_to_def Let_def)

lemma offset_some:
  fixes a b base :: u16
  assumes "unat a * unat b + unat base < 65536"
  obtains m ado where "umul a b = Some m" "uadd base m = Some ado"
proof -
  have "unat (a * b) = unat a * unat b" using assms by (simp add: unat_word_ariths)
  then have "umul a b = Some (a * b)" "uadd base (a * b) = Some (base + a * b)"
    using assms by (simp_all add: umul_def uadd_def)
  then show thesis by (rule that)
qed

lemma sm_offset:
  assumes "n \<le> 3" and "base \<le> (0x0900 :: u16)"
  obtains m ado where "umul 0x08 (of_nat n) = Some (m :: u16)" "uadd base m = Some ado"
proof -
  have "unat (of_nat n :: u16) = n" using assms(1) by (simp add: unat_of_nat)
  moreover have "unat base \<le> 0x0900" using assms(2) by (simp add: word_le_nat_alt)
  ultimately have "unat (8 :: u16) * unat (of_nat n :: u16) + unat base < 65536" using assms(1) by simp
  then show thesis by (rule offset_some) (rule that)
qed

lemma in_sm_control_asks:
  assumes st: "in_state t = InSetSmControl n" "n \<le> 3" and inner: "inner_taken t" and len: "16 \<le> length buf"
    and info: "in_slave_info t = Some info" "init_sms (sib_sm info)"
  shows "in_asks t buf (in_sm_control X n t buf)"
proof -
  obtain offset ado where a: "umul 0x08 (of_nat n) = Some (offset :: u16)" "uadd (reg_address SyncManagerControl) offset = Some ado"
    by (rule sm_offset [OF st(2), of "reg_address SyncManagerControl"]) (simp_all add: SyncManagerControl_def)
  obtain sm where sm: "index (sib_sm info) n = Some sm"
    using info(2) st(2) by (auto simp: index_def elim!: init_smsE)
  have "\<exists>buf'. in_sm_control X n t buf = Some (Some (Command_new_write (Single (in_slave_address t)) ado, 5), t, buf') \<and>
      length buf' = length buf"
    using len a by (auto simp: in_sm_control_def Let_def info sm fill_to_def reg_eqs SyncManagerControl_def
      split: option.split SyncManagerTypeBuilder.split)
  then obtain buf' where "in_sm_control X n t buf = Some (Some (Command_new_write (Single (in_slave_address t)) ado, 5), t, buf')"
    "length buf' = length buf" by blast
  then show ?thesis using st inner by (auto intro!: in_asks_plain simp: in_expects_def SyncManagerControl_def)
qed

lemma in_sm_activation_asks:
  assumes st: "in_state t = InSetSmActivation n" "n \<le> 3" and inner: "inner_taken t" and len: "16 \<le> length buf"
    and info: "in_slave_info t = Some info" "init_sms (sib_sm info)"
  shows "in_asks t buf (in_sm_activation X n t buf)"
proof -
  obtain offset ado where a: "umul 0x08 (of_nat n) = Some (offset :: u16)" "uadd (reg_address SyncManagerActivation) offset = Some ado"
    by (rule sm_offset [OF st(2), of "reg_address SyncManagerActivation"]) (simp_all add: SyncManagerActivation_def)
  obtain sm where sm: "index (sib_sm info) n = Some sm"
    using info(2) st(2) by (auto simp: index_def elim!: init_smsE)
  have "\<exists>buf'. in_sm_activation X n t buf = Some (Some (Command_new_write (Single (in_slave_address t)) ado,
      reg_size SyncManagerActivation), t, buf') \<and> length buf' = length buf"
    using len a by (auto simp: in_sm_activation_def Let_def info sm fill_to_def reg_eqs SyncManagerActivation_def
      split: option.split SyncManagerTypeBuilder.split)
  then obtain buf' where "in_sm_activation X n t buf = Some (Some (Command_new_write (Single (in_slave_address t)) ado,
      reg_size SyncManagerActivation), t, buf')" "length buf' = length buf" by blast
  then show ?thesis using st inner by (auto intro!: in_asks_plain simp: in_expects_def SyncManagerActivation_def)
qed

lemma in_station_asks:
  assumes st: "in_state t = InSetStationAddress" and inner: "inner_taken t" and len: "16 \<le> length buf"
    and info: "in_slave_info t = Some info" and addr: "in_slave_address t = SlavePosition pos" "unat pos < 65535"
  shows "in_asks t buf (in_station_address X t buf)"
proof -
  have a: "uadd pos 1 = Some (pos + 1)" using addr(2) by (simp add: uadd_def)
  obtain buf' where "in_station_address X t buf = Some (Some (Command_new_write (Single (SlavePosition pos))
      (reg_address FixedStationAddress), 4), t\<lparr>in_slave_info := Some (info\<lparr>sib_configured_address := pos + 1\<rparr>)\<rparr>, buf')"
    "length buf' = length buf"
    using len by (auto simp: in_station_address_def Let_def info addr a fill_to_def reg_eqs FixedStationAddress_def)
  then show ?thesis
    unfolding in_asks_def using st inner info
    by (intro exI [of _ "Some (Command_new_write (Single (SlavePosition pos)) (reg_address FixedStationAddress), 4)"]
      exI [of _ "in_inner t"] exI [of _ "Some (info\<lparr>sib_configured_address := pos + 1\<rparr>)"] exI [of _ buf'])
      (auto simp: inner_sent_def inner_taken_def in_expects_def FixedStationAddress_def)
qed

lemma in_clear_asks:
  assumes "in_state t = InClearFmmu c \<and> c \<le> 3 \<or> in_state t = InClearSm c \<and> c \<le> 4" and "inner_taken t" and "16 \<le> length buf"
  shows "in_asks t buf (in_request_of X t buf)"
  using assms(1)
proof
  assume st: "in_state t = InClearFmmu c \<and> c \<le> 3"
  then have "unat c \<le> 3" by (simp add: word_le_nat_alt)
  then have "unat c * unat (0x10 :: u16) + unat (reg_address FmmuRegister) < 65536" by (simp add: FmmuRegister_def)
  then obtain m ado where "umul c 0x10 = Some m" "uadd (reg_address FmmuRegister) m = Some ado" by (rule offset_some)
  with st assms(2,3) show ?thesis
    by (simp add: in_request_of_def Let_def fill_to_def FmmuRegister_def)
      (rule in_asks_plain, auto simp: in_expects_def FmmuRegister_def)
next
  assume st: "in_state t = InClearSm c \<and> c \<le> 4"
  then have "unat c \<le> 4" by (simp add: word_le_nat_alt)
  then have "unat c * unat (0x08 :: u16) + unat (reg_address SyncManagerControl) < 65536" by (simp add: SyncManagerControl_def)
  then obtain m ado where "umul c 0x08 = Some m" "uadd (reg_address SyncManagerControl) m = Some ado" by (rule offset_some)
  with st assms(2,3) show ?thesis
    by (simp add: in_request_of_def Let_def fill_to_def SyncManagerControl_def SyncManagerStatus_def SyncManagerActivation_def)
      (rule in_asks_plain, auto simp: in_expects_def SyncManagerControl_def SyncManagerStatus_def SyncManagerActivation_def)
qed

lemma in_plain_asks:
  assumes "sii_state (in_state t) = None" and "\<nexists>b. in_state t = InRequestInitState b"
    and "\<nexists>c. in_state t = InClearFmmu c \<or> in_state t = InClearSm c"
    and "\<nexists>n. in_state t = InSetSmControl n \<or> in_state t = InSetSmActivation n" and "in_state t \<noteq> InSetStationAddress"
    and "inner_taken t" and "16 \<le> length buf"
  shows "in_asks t buf (in_request_of X t buf)"
proof -
  have "\<exists>r buf'. in_request_of X t buf = Some (r, t, buf') \<and> length buf' = length buf \<and>
      (r = None \<or> (\<exists>c. r = Some (c, in_expects t)) \<and> 0 < in_expects t \<and> in_expects t \<le> 16) \<and>
      (in_state t = InCheckDlInfo \<longrightarrow> (\<exists>c n. r = Some (c, n) \<and> cmd_ado c = reg_address DlInformation))"
    using assms(1-5,7) by (cases "in_state t")
      (auto simp: in_request_of_def in_clear_some in_read_some in_expects_def reg_eqs init_registers Let_def)
  then show ?thesis using assms(1,2,6) by (auto intro!: in_asks_plain)
qed

lemma in_request_asks:
  assumes I: "in_I safe pos t" and len: "16 \<le> length buf"
  shows "in_asks t buf (in_request_of X t buf)"
proof -
  have inner: "inner_taken t" and k: "in_known safe pos t" using I by (simp_all add: in_I_def)
  have cnt: "counter_ok (in_state t)" using k by (simp add: in_known_def)
  show ?thesis
  proof (cases "sii_state (in_state t)")
    case (Some first)
    have sii: "\<exists>sii. in_inner t' = Sii sii \<and> length (sr_sii_data sii) = 8 \<and> (first \<or> sr_state sii \<noteq> SrComplete)"
      if "t' = (if in_state t = InGetVenderID first then t\<lparr>in_inner := into_sii (in_inner t)\<rparr> else t)" for t'
      using inner Some that by (cases "in_inner t"; cases first)
        (auto simp: inner_taken_def into_sii_def SiiReader_new_def reg_new_def SiiData_def)
    show ?thesis
    proof (cases "in_state t = InGetVenderID first")
      case True
      let ?t = "t\<lparr>in_inner := into_sii (in_inner t)\<rparr>"
      obtain sii where "in_inner ?t = Sii sii" "length (sr_sii_data sii) = 8" "first \<or> sr_state sii \<noteq> SrComplete"
        using sii [of ?t] True by auto
      then have "in_asks ?t buf (in_sii_next X Sii_VenderId first ?t buf)"
        using True len by (intro in_sii_asks) auto
      then show ?thesis using True by (simp add: in_request_of_def in_asks_def)
    next
      case False
      then obtain sii where "in_inner t = Sii sii" "length (sr_sii_data sii) = 8" "first \<or> sr_state sii \<noteq> SrComplete"
        using sii [of t] by auto
      then have "in_asks t buf (in_sii_next X word first t buf)" for word
        using Some len by (intro in_sii_asks) auto
      with Some False show ?thesis by (cases "in_state t") (simp_all add: in_request_of_def)
    qed
  next
    case None
    note other = in_plain_asks [OF None _ _ _ _ inner len]
    show ?thesis
    proof (cases "in_state t")
      case (InSetSmControl n)
      then obtain info where "in_slave_info t = Some info" "init_sms (sib_sm info)"
        using k by (auto simp: in_known_def in_is_busy_def info_fine_def)
      with InSetSmControl cnt inner len show ?thesis
        by (simp add: in_request_of_def counter_ok_def in_sm_control_asks)
    next
      case (InSetSmActivation n)
      then obtain info where "in_slave_info t = Some info" "init_sms (sib_sm info)"
        using k by (auto simp: in_known_def in_is_busy_def info_fine_def)
      with InSetSmActivation cnt inner len show ?thesis
        by (simp add: in_request_of_def counter_ok_def in_sm_activation_asks)
    next
      case InSetStationAddress
      then obtain info where "in_slave_info t = Some info" using k by (auto simp: in_known_def in_is_busy_def)
      with InSetStationAddress k inner len show ?thesis
        by (simp add: in_request_of_def in_known_def in_station_asks)
    qed (use other in_clear_asks [OF _ inner len] in_al_asks [OF _ inner len] None cnt in \<open>simp_all add: counter_ok_def\<close>)
  qed
qed

lemma in_next_J:
  assumes I: "in_I safe pos t" and len: "16 \<le> length buf"
  obtains r t' buf' where "in_next_pdu X t buf = Some (r, t', buf')" "in_J safe pos t'" "length buf' = length buf"
    "\<And>c n. r = Some (c, n) \<Longrightarrow> 0 < n \<and> n \<le> 16 \<and> in_expects t' = n"
proof -
  obtain r inner info buf' where n: "in_request_of X t buf = Some (r, t\<lparr>in_inner := inner, in_slave_info := info\<rparr>, buf')"
    "length buf' = length buf" "inner_sent (t\<lparr>in_inner := inner\<rparr>)"
    "info = in_slave_info t \<or> (\<exists>a b. in_slave_info t = Some b \<and> info = Some (b\<lparr>sib_configured_address := a\<rparr>))"
    "\<forall>c n. r = Some (c, n) \<longrightarrow> 0 < n \<and> n \<le> 16 \<and> in_expects (t\<lparr>in_inner := inner\<rparr>) = n"
    "in_state t = InCheckDlInfo \<longrightarrow> (\<exists>c n. r = Some (c, n) \<and> cmd_ado c = reg_address DlInformation)"
    using in_request_asks [OF assms] unfolding in_asks_def by blast
  let ?t = "t\<lparr>in_inner := inner, in_slave_info := info\<rparr>"
  let ?t' = "case r of Some (command, _) \<Rightarrow> ?t\<lparr>in_command := command\<rparr> | None \<Rightarrow> ?t"
  have e: "in_next_pdu X t buf = Some (r, ?t', buf')" by (simp add: in_next_pdu_def n(1))
  have sent: "in_sent pos ?t'" using I e by (auto simp: in_I_def intro: in_sent_next)
  have "in_known safe pos ?t"
    using I n(4) by (auto simp: in_I_def in_known_def in_is_busy_def info_fine_def)
  then have "in_known safe pos ?t'"
    by (auto simp: in_known_def in_is_busy_def split: option.split)
  moreover have "inner_sent ?t'" using n(3) by (auto simp: inner_sent_def split: option.split)
  moreover have "in_state ?t' = InCheckDlInfo \<longrightarrow> cmd_ado (in_command ?t') = reg_address DlInformation"
    using n(6) by (auto split: option.split)
  ultimately have "in_J safe pos ?t'" using sent by (simp add: in_J_def)
  moreover have "0 < m \<and> m \<le> 16 \<and> in_expects ?t' = m" if "r = Some (c, m)" for c m
  proof -
    have "in_expects ?t' = in_expects (t\<lparr>in_inner := inner\<rparr>)" by (rule in_expects_cong) (simp_all add: that)
    with n(5) that show ?thesis by simp
  qed
  ultimately show thesis using e n(2) by (intro that)
qed

end

section \<open>What the answers make of the information\<close>

lemma mailbox_end:
  assumes "0 < n" and "n \<le> 256" and "start \<le> (0xFEFF :: u16)"
  obtains e f where "uadd start n = Some e" "usub e 1 = Some f" "unat f < 0xFFFF"
proof -
  have b: "unat n \<le> 256" "unat start \<le> 0xFEFF" "0 < unat n"
    using assms by (simp_all add: word_le_nat_alt word_less_nat_alt)
  obtain e where e: "uadd start n = Some e" "unat e = unat start + unat n"
    by (rule uadd_u16 [of start n]) (use b in simp_all)
  obtain f where f: "usub e 1 = Some f" "unat f = unat e - 1"
    by (rule usub_u16 [of 1 e]) (use b e(2) in simp_all)
  have "unat f < 0xFFFF" using b e(2) f(2) by linarith
  with e(1) f(1) show thesis by (rule that)
qed

lemma process_data_some:
  assumes sms: "init_sms (sib_sm info)" and fine: "list_all mailbox_fine (sib_sm info)"
    and ram: "unat (sib_ram_size_kb info) \<in> {1..60}"
  shows "set_process_data_sm_size_offset info \<noteq> None"
proof -
  obtain a b c d where l: "sib_sm info = [a, b, c, d]" using sms by (rule init_smsE)
  show ?thesis
  proof (cases "\<exists>m0 m1. a = Some (MailboxRxB m0) \<and> b = Some (MailboxTxB m1)")
    case False
    then show ?thesis
      by (auto simp: set_process_data_sm_size_offset_def l index_def split: option.split SyncManagerTypeBuilder.split)
  next
    case True
    then obtain m0 m1 where m: "a = Some (MailboxRxB m0)" "b = Some (MailboxTxB m1)" by blast
    have f: "0 < smb_size m0" "smb_size m0 \<le> 256" "smb_start_address m0 \<le> 0xFEFF"
      "0 < smb_size m1" "smb_size m1 \<le> 256" "smb_start_address m1 \<le> 0xFEFF"
      using fine by (simp_all add: l m mailbox_fine_def)
    obtain e0 f0 where e0: "uadd (smb_start_address m0) (smb_size m0) = Some e0" "usub e0 1 = Some f0" "unat f0 < 0xFFFF"
      by (rule mailbox_end [OF f(1-3)])
    obtain e1 f1 where e1: "uadd (smb_start_address m1) (smb_size m1) = Some e1" "usub e1 1 = Some f1" "unat f1 < 0xFFFF"
      by (rule mailbox_end [OF f(4-6)])
    obtain r n e where r: "umul (ucast (sib_ram_size_kb info)) (0x400 :: u16) = Some r" "usub r 1 = Some n" "uadd n 0x1000 = Some e"
      using ram_end(1) [OF ram] by blast
    obtain size1 where size1: "(if 0x1000 < min (smb_start_address m0) (smb_start_address m1)
        then usub (min (smb_start_address m0) (smb_start_address m1)) 0x1000 else Some 0) = Some size1"
      by (rule gap_u16 [of "0x1000" "min (smb_start_address m0) (smb_start_address m1)"])
    obtain size2 where size2: "(if max f0 f1 < e then usub e (max f0 f1) else Some 0) = Some size2"
      by (rule gap_u16 [of "max f0 f1" e])
    have "unat (max f0 f1) < 0xFFFF" using e0(3) e1(3) by (simp add: max_def)
    then have "unat (max f0 f1) + unat (1 :: u16) \<le> 0xFFFF" by simp
    then obtain a' where a': "uadd (max f0 f1) 1 = Some a'" by (rule uadd_u16)
    show ?thesis
      using e0 e1 r a' size1 size2 by (simp add: set_process_data_sm_size_offset_def l m index_def Let_def)
  qed
qed

text \<open>What an update of the information with eight bytes of the SII does.\<close>

abbreviation after_info :: in_state where "after_info \<equiv> InGetVenderID True"

definition good_update :: "bool \<Rightarrow> (bytes \<Rightarrow> SlaveInfoBuilder \<Rightarrow> SlaveInfoBuilder rust) \<Rightarrow> bool" where
  "good_update safe f \<longleftrightarrow> (\<forall>d info. length d = 8 \<longrightarrow> info_fine safe after_info info \<longrightarrow> (safe \<longrightarrow> sii_fine d) \<longrightarrow>
     (case f d info of None \<Rightarrow> \<not> safe | Some info' \<Rightarrow> info_fine safe after_info info'))"

text \<open>The mailboxes, with the words of the SII as sizes and addresses.\<close>

definition fine_word :: "u64 \<Rightarrow> bool" where
  "fine_word v \<longleftrightarrow> (ucast v :: u16) \<le> 0xFEFF \<and> (v \<noteq> 0 \<longrightarrow> (ucast v :: u16) \<noteq> 0)"

lemma fine_mailbox_size:
  assumes "fine_word v" and "v \<noteq> 0"
  shows "0 < min (ucast v) MAX_SM_SIZE \<and> min (ucast v) MAX_SM_SIZE \<le> (256 :: u16)"
proof -
  have "0 < (ucast v :: u16)"
    using assms word_neq_0_conv [of "ucast v :: u16"] unfolding fine_word_def by blast
  moreover have "(0 :: u16) < 256" by simp
  ultimately show ?thesis unfolding MAX_SM_SIZE_def by (simp only: min_less_iff_conj min.cobounded2 simp_thms)
qed

lemma set_rx_sm_fine:
  assumes info: "info_fine safe st info" and v: "safe \<longrightarrow> fine_word v"
  shows "\<exists>info'. set_rx_sm v info = Some info' \<and> info_fine safe st info'"
proof -
  obtain a b c d where l: "sib_sm info = [a, b, c, d]"
    using info by (auto simp: info_fine_def elim: init_smsE)
  then have "\<exists>info'. set_rx_sm v info = Some info'" by (simp add: set_rx_sm_def store_def)
  then obtain info' where i: "set_rx_sm v info = Some info'" ..
  have "init_sms (sib_sm info')" using init_sms_rx [OF _ i] info by (simp add: info_fine_def)
  moreover have "sib_ram_size_kb info' = sib_ram_size_kb info"
    using i by (auto simp: set_rx_sm_def elim!: bindE split: if_splits)
  moreover have "list_all mailbox_fine (sib_sm info')" if safe
    using i info l fine_mailbox_size [OF mp [OF v that]] that
    by (auto simp: set_rx_sm_def store_def info_fine_def mailbox_fine_def split: if_splits)
  ultimately show ?thesis using i info by (auto simp: info_fine_def)
qed

lemma set_tx_sm_fine:
  assumes info: "info_fine safe st info" and v: "safe \<longrightarrow> fine_word v"
  shows "\<exists>info'. set_tx_sm v info = Some info' \<and> info_fine safe st info'"
proof -
  obtain a b c d where l: "sib_sm info = [a, b, c, d]"
    using info by (auto simp: info_fine_def elim: init_smsE)
  then have "\<exists>info'. set_tx_sm v info = Some info'" by (simp add: set_tx_sm_def store_def)
  then obtain info' where i: "set_tx_sm v info = Some info'" ..
  have "init_sms (sib_sm info')" using init_sms_tx [OF _ i] info by (simp add: info_fine_def)
  moreover have "sib_ram_size_kb info' = sib_ram_size_kb info"
    using i by (auto simp: set_tx_sm_def elim!: bindE split: if_splits)
  moreover have "list_all mailbox_fine (sib_sm info')" if safe
    using i info l fine_mailbox_size [OF mp [OF v that]] that
    by (auto simp: set_tx_sm_def store_def info_fine_def mailbox_fine_def split: if_splits)
  ultimately show ?thesis using i info by (auto simp: info_fine_def)
qed

lemma set_rx_address_fine:
  assumes info: "info_fine safe st info" and v: "safe \<longrightarrow> fine_word v"
  shows "\<exists>info'. set_rx_address (ucast v) info = Some info' \<and> info_fine safe st info'"
proof -
  obtain a b c d where l: "sib_sm info = [a, b, c, d]"
    using info by (auto simp: info_fine_def elim: init_smsE)
  then have "\<exists>info'. set_rx_address (ucast v) info = Some info'"
    by (auto simp: set_rx_address_def store_def index_def split: option.split SyncManagerTypeBuilder.split)
  then obtain info' where i: "set_rx_address (ucast v) info = Some info'" ..
  have "init_sms (sib_sm info')" using init_sms_rx_address [OF _ i] info by (simp add: info_fine_def)
  moreover have "sib_ram_size_kb info' = sib_ram_size_kb info"
    using i by (auto simp: set_rx_address_def elim!: bindE split: option.splits SyncManagerTypeBuilder.splits)
  moreover have "list_all mailbox_fine (sib_sm info')" if safe
    using i info l v that
    by (auto simp: set_rx_address_def store_def index_def info_fine_def mailbox_fine_def fine_word_def
      split: option.splits SyncManagerTypeBuilder.splits)
  ultimately show ?thesis using i info by (auto simp: info_fine_def)
qed

lemma set_tx_address_fine:
  assumes info: "info_fine safe st info" and v: "safe \<longrightarrow> fine_word v"
  shows "\<exists>info'. set_tx_address (ucast v) info = Some info' \<and> info_fine safe st info'"
proof -
  obtain a b c d where l: "sib_sm info = [a, b, c, d]"
    using info by (auto simp: info_fine_def elim: init_smsE)
  then have "\<exists>info'. set_tx_address (ucast v) info = Some info'"
    by (auto simp: set_tx_address_def store_def index_def split: option.split SyncManagerTypeBuilder.split)
  then obtain info' where i: "set_tx_address (ucast v) info = Some info'" ..
  have "init_sms (sib_sm info')" using init_sms_tx_address [OF _ i] info by (simp add: info_fine_def)
  moreover have "sib_ram_size_kb info' = sib_ram_size_kb info"
    using i by (auto simp: set_tx_address_def elim!: bindE split: option.splits SyncManagerTypeBuilder.splits)
  moreover have "list_all mailbox_fine (sib_sm info')" if safe
    using i info l v that
    by (auto simp: set_tx_address_def store_def index_def info_fine_def mailbox_fine_def fine_word_def
      split: option.splits SyncManagerTypeBuilder.splits)
  ultimately show ?thesis using i info by (auto simp: info_fine_def)
qed

context crates_laws
begin

lemma sii_number_fine:
  assumes "length d = 8"
  obtains v where "sii_number X d = Some v" "sii_fine d \<Longrightarrow> fine_word v"
proof -
  let ?v = "of_nat (field d 63 0) :: u64"
  have "sii_number X d = Some ?v"
    using assms by (simp add: sii_number_def reg_eqs SiiData_def)
  moreover have "fine_word ?v" if fine: "sii_fine d"
  proof -
    have v: "unat ?v = field d 63 0" using field_less [of d 63 0] by (simp add: unat_of_nat)
    have "field d 15 0 = take_bit 16 (field d 63 0)"
      by (rule bit_eqI) (auto simp: bit_field bit_take_bit_iff)
    then have w: "unat (ucast ?v :: u16) = field d 15 0" by (simp add: unsigned_ucast_eq take_bit_unat v)
    have "(ucast ?v :: u16) \<le> 0xFEFF" using fine w by (simp add: sii_fine_def word_le_nat_alt)
    moreover have "(ucast ?v :: u16) \<noteq> 0" if "?v \<noteq> 0"
    proof
      assume "(ucast ?v :: u16) = 0"
      then have "field d 15 0 = 0" using w by simp
      then have "unat ?v = 0" using fine v by (simp add: sii_fine_def)
      with that show False by (simp only: unat_eq_zero)
    qed
    ultimately show ?thesis by (simp add: fine_word_def)
  qed
  ultimately show thesis by (rule that)
qed

lemma number_update:
  assumes "\<And>v info. info_fine safe after_info info \<Longrightarrow> safe \<longrightarrow> fine_word v \<Longrightarrow>
    case g v info of None \<Rightarrow> \<not> safe | Some info' \<Rightarrow> info_fine safe after_info info'"
  shows "good_update safe (\<lambda>data info. do { v \<leftarrow> sii_number X data; g v info })"
  unfolding good_update_def
proof (intro allI impI)
  fix d info
  assume d: "length (d :: bytes) = 8" "info_fine safe after_info info" "safe \<longrightarrow> sii_fine d"
  obtain v where v: "sii_number X d = Some v" "sii_fine d \<Longrightarrow> fine_word v" by (rule sii_number_fine [OF d(1)]) (rule that)
  then show "case do { v \<leftarrow> sii_number X d; g v info } of None \<Rightarrow> \<not> safe | Some info' \<Rightarrow> info_fine safe after_info info'"
    using assms [OF d(2), of v] d(3) by simp
qed

lemma total_update:
  assumes "\<And>v info. info_fine safe after_info info \<Longrightarrow> safe \<longrightarrow> fine_word v \<Longrightarrow>
    \<exists>info'. g v info = Some info' \<and> info_fine safe after_info info'"
  shows "good_update safe (\<lambda>data info. do { v \<leftarrow> sii_number X data; g v info })"
proof (rule number_update)
  fix v info
  assume "info_fine safe after_info info" "safe \<longrightarrow> fine_word v"
  from assms [OF this] show "case g v info of None \<Rightarrow> \<not> safe | Some info' \<Rightarrow> info_fine safe after_info info'" by auto
qed

lemma good_updates:
  shows "good_update safe (\<lambda>data info. do { v \<leftarrow> sii_number X data; ret (info\<lparr>sib_id := f v (sib_id info)\<rparr>) })"
    and "good_update safe (\<lambda>data info. do { b \<leftarrow> index data 0; ret (info\<lparr>sib_support_coe := get_bit X b 2\<rparr>) })"
    and "good_update safe (\<lambda>data info. do { v \<leftarrow> sii_number X data; set_rx_sm v info })"
    and "good_update safe (\<lambda>data info. do { v \<leftarrow> sii_number X data; set_tx_sm v info })"
    and "good_update safe (\<lambda>data info. do { v \<leftarrow> sii_number X data; set_rx_address (ucast v) info })"
    and "good_update safe (\<lambda>data info. do { v \<leftarrow> sii_number X data; info \<leftarrow> set_tx_address (ucast v) info;
      set_process_data_sm_size_offset info })" (is ?address)
proof -
  have "case do { info \<leftarrow> set_tx_address (ucast v) info; set_process_data_sm_size_offset info } of
      None \<Rightarrow> \<not> safe | Some info' \<Rightarrow> info_fine safe after_info info'"
    if info: "info_fine safe after_info info" and v: "safe \<longrightarrow> fine_word v" for v info
  proof -
    obtain i where i: "set_tx_address (ucast v) info = Some i" "info_fine safe after_info i"
      using set_tx_address_fine [OF info v] by blast
    have "safe \<Longrightarrow> set_process_data_sm_size_offset i \<noteq> None"
      using i(2) by (intro process_data_some) (simp_all add: info_fine_def before_info_def)
    moreover have "info_fine safe after_info j" if "set_process_data_sm_size_offset i = Some j" for j
      using i(2) process_data_keeps [OF that] by (simp add: info_fine_def)
    ultimately show ?thesis using i(1) by (auto split: option.split)
  qed
  then show ?address by (rule number_update)
  show "good_update safe (\<lambda>data info. do { b \<leftarrow> index data 0; ret (info\<lparr>sib_support_coe := get_bit X b 2\<rparr>) })"
    by (auto simp: good_update_def index_def info_fine_def)
  show "good_update safe (\<lambda>data info. do { v \<leftarrow> sii_number X data; ret (info\<lparr>sib_id := f v (sib_id info)\<rparr>) })"
    by (rule number_update) (simp add: info_fine_def)
qed (rule total_update, erule (1) set_rx_sm_fine set_tx_sm_fine set_rx_address_fine)+

end

section \<open>The answers to the task\<close>

text \<open>The outcome of an answer: the invariant, or a panic where the task is not safe.\<close>

definition in_goes :: "bool \<Rightarrow> u16 \<Rightarrow> SlaveInitTask rust \<Rightarrow> bool" where
  "in_goes safe pos q \<longleftrightarrow> (case q of None \<Rightarrow> \<not> safe | Some t' \<Rightarrow> in_known safe pos t' \<and> inner_taken t')"

lemma in_goes_error:
  assumes "in_known safe pos t" and "inner_sent t"
  shows "in_goes safe pos (Some (t\<lparr>in_state := InError e\<rparr>))"
  using assms by (simp add: in_goes_def in_known_def inner_sent_def inner_taken_def in_is_busy_def counter_ok_def)

text \<open>A step to a state without an inner task.\<close>

lemma in_goes_step:
  assumes k: "in_known safe pos t" "in_is_busy t" and inner: "inner_sent t"
    and st: "counter_ok st" "sii_state st = None \<or> st = InGetVenderID True" "st \<noteq> InRequestInitState False"
      "before_info st \<longleftrightarrow> before_info (in_state t)"
  shows "in_goes safe pos (Some (t\<lparr>in_state := st\<rparr>))"
proof -
  have "in_known safe pos (t\<lparr>in_state := st\<rparr>)"
    using k st(1,4) by (auto simp: in_known_def info_fine_def)
  moreover have "inner_taken (t\<lparr>in_state := st\<rparr>)" using inner st(2,3) by (auto simp: inner_sent_def inner_taken_def)
  ultimately show ?thesis by (simp add: in_goes_def)
qed

text \<open>An update of the information.\<close>

lemma in_goes_update:
  assumes k: "in_known safe pos t" "in_is_busy t" and inner: "\<And>sii. in_inner t = Sii sii \<Longrightarrow> length (sr_sii_data sii) = 8"
    and f: "\<And>info. info_fine safe (in_state t) info \<Longrightarrow> case f info of None \<Rightarrow> \<not> safe | Some info' \<Rightarrow> info_fine safe st info'"
    and st: "counter_ok st" "sii_state st = None \<or> sii_state st = Some True \<and> (\<exists>sii. in_inner t = Sii sii)"
      "st \<noteq> InRequestInitState False"
  shows "in_goes safe pos (in_update f st t)"
proof -
  obtain info where i: "in_slave_info t = Some info" "info_fine safe (in_state t) info"
    using k by (auto simp: in_known_def)
  show ?thesis
  proof (cases "f info")
    case None
    with f [OF i(2)] i(1) show ?thesis by (simp add: in_update_def in_goes_def)
  next
    case (Some info')
    then have "info_fine safe st info'" using f [OF i(2)] by simp
    with Some i(1) k st inner show ?thesis
      by (auto simp: in_update_def in_goes_def in_known_def inner_taken_def)
  qed
qed

context crates_laws
begin

lemma in_sii_goes:
  assumes k: "in_known safe pos t" "in_is_busy t" "\<not> before_info (in_state t)"
    and inner: "inner_sent t" "sii_state (in_state t) \<noteq> None" and len: "length (pdu_data p) = in_expects t"
    and p: "safe \<Longrightarrow> init_answer X p" and f: "good_update safe f"
    and again: "sii_state again = Some False" "\<not> before_info again"
    and st: "counter_ok st" "sii_state st = None \<or> sii_state st = Some True" "st \<noteq> InRequestInitState False" "\<not> before_info st"
  shows "in_goes safe pos (in_sii_recieve X t p time again (\<lambda>t data. in_update (f data) st t))"
proof -
  obtain sii where sii: "in_inner t = Sii sii" "length (sr_sii_data sii) = 8" "sr_state sii \<noteq> SrComplete"
    "sr_state sii = SrRead \<Longrightarrow> cmd_ado (sr_command sii) = reg_address SiiData"
    using inner by (auto simp: inner_sent_def)
  have "in_expects t = sr_expects sii" using inner(2) sii(1) by (cases "in_state t") (simp_all add: in_expects_def)
  with len obtain sii' where r: "sr_recieve_and_process X sii p time = Some sii'" "length (sr_sii_data sii') = 8"
    "sr_state sii' = SrComplete \<Longrightarrow> sr_state sii = SrRead \<and> sr_sii_data sii' = pdu_data p \<and>
       cmd_ado (pdu_command p) = cmd_ado (sr_command sii)"
    using sr_answered [OF sii(3,2)] by metis
  let ?t = "t\<lparr>in_inner := Sii sii'\<rparr>"
  have kt: "in_known safe pos ?t" "in_is_busy ?t" using k by (simp_all add: in_known_def in_is_busy_def)
  note eq = in_sii_recieve_def [of X t p time again "\<lambda>t data. in_update (f data) st t"]
  show ?thesis
  proof (cases "sr_wait sii'")
    case None
    then have "in_sii_recieve X t p time again (\<lambda>t data. in_update (f data) st t) = Some (?t\<lparr>in_state := again\<rparr>)"
      by (simp add: eq sii(1) inner_sii_def r(1) Let_def)
    moreover have "sr_state sii' \<noteq> SrComplete" using None by (auto simp: sr_wait_def)
    moreover have "counter_ok again" "again \<noteq> InRequestInitState False" using again(1) by (cases again; simp add: counter_ok_def)+
    ultimately show ?thesis
      using k kt again r(2) by (auto simp: in_goes_def in_known_def inner_taken_def info_fine_def)
  next
    case (Some w)
    show ?thesis
    proof (cases w)
      case (Inl e)
      with Some have "in_sii_recieve X t p time again (\<lambda>t data. in_update (f data) st t) =
          Some (?t\<lparr>in_state := InError (SlaveInit_from_sii e)\<rparr>)"
        by (simp add: eq sii(1) inner_sii_def r(1) Let_def)
      then show ?thesis
        using kt(1) r(2) by (simp add: in_goes_def in_known_def inner_taken_def in_is_busy_def counter_ok_def)
    next
      case (Inr dn)
      then have c: "sr_state sii' = SrComplete" "fst dn = sr_sii_data sii'"
        using Some by (auto simp: sr_wait_def split: sr_state.splits)
      have e: "in_sii_recieve X t p time again (\<lambda>t data. in_update (f data) st t) = in_update (f (sr_sii_data sii')) st ?t"
        using Some Inr c(2) by (cases dn) (simp add: eq sii(1) inner_sii_def r(1) Let_def)
      have fine: "safe \<longrightarrow> sii_fine (sr_sii_data sii')"
        using r(2,3) c(1) sii(4) p by (auto simp: init_answer_def Let_def SiiData_def)
      have "in_goes safe pos (in_update (f (sr_sii_data sii')) st ?t)"
      proof (rule in_goes_update [OF kt _ _ st(1) _ st(3)])
        fix info
        assume "info_fine safe (in_state ?t) info"
        then have "info_fine safe after_info info" using k(3) by (simp add: info_fine_def)
        with f r(2) fine have "case f (sr_sii_data sii') info of None \<Rightarrow> \<not> safe | Some info' \<Rightarrow> info_fine safe after_info info'"
          by (simp add: good_update_def)
        then show "case f (sr_sii_data sii') info of None \<Rightarrow> \<not> safe | Some info' \<Rightarrow> info_fine safe st info'"
          using st(4) by (auto simp: info_fine_def before_info_def split: option.splits)
      qed (use st(2) r(2) in auto)
      then show ?thesis unfolding e .
    qed
  qed
qed

lemma in_dl_status_goes:
  assumes k: "in_known safe pos t" "in_is_busy t" and inner: "inner_sent t" and st: "before_info (in_state t)"
    and len: "length data = reg_size DlStatus"
  shows "in_goes safe pos (in_dl_status X data t)"
proof -
  have i: "in_inner t = Sii sii \<Longrightarrow> length (sr_sii_data sii) = 8" for sii using inner by (simp add: inner_sent_def)
  have "\<exists>v p0 p1 p2 p3. reg_bit X DlStatus ''pdi_operational'' data = Some v \<and>
      reg_bit X DlStatus ''signal_detection_port0'' data = Some p0 \<and>
      reg_bit X DlStatus ''signal_detection_port1'' data = Some p1 \<and>
      reg_bit X DlStatus ''signal_detection_port2'' data = Some p2 \<and>
      reg_bit X DlStatus ''signal_detection_port3'' data = Some p3"
    using len by (simp add: reg_eqs DlStatus_def)
  then obtain v p0 p1 p2 p3 where v: "reg_bit X DlStatus ''pdi_operational'' data = Some v"
    and ps: "reg_bit X DlStatus ''signal_detection_port0'' data = Some p0"
      "reg_bit X DlStatus ''signal_detection_port1'' data = Some p1"
      "reg_bit X DlStatus ''signal_detection_port2'' data = Some p2"
      "reg_bit X DlStatus ''signal_detection_port3'' data = Some p3" by blast
  show ?thesis
  proof (cases v)
    case False
    then show ?thesis using in_goes_error [OF k(1) inner] by (simp add: in_dl_status_def v)
  next
    case True
    then show ?thesis
      by (simp add: in_dl_status_def v, intro in_goes_update k i)
        (use st in \<open>auto simp: ps info_fine_def counter_ok_def before_info_def\<close>)
  qed
qed

lemma in_dl_info_goes:
  assumes k: "in_known safe pos t" "in_is_busy t" and inner: "inner_sent t"
    and len: "length data = reg_size DlInformation" and fine: "safe \<Longrightarrow> dl_info_fine data"
  shows "in_goes safe pos (in_dl_info X data t)"
proof -
  have i: "in_inner t = Sii sii \<Longrightarrow> length (sr_sii_data sii) = 8" for sii using inner by (simp add: inner_sent_def)
  have ram: "unat (of_nat (field data 55 48) :: u8) = field data 55 48" by (rule unat_of_nat_field) simp
  show ?thesis
    unfolding in_dl_info_def
  proof (intro in_goes_update k i)
    fix info
    assume info: "info_fine safe (in_state t) info"
    let ?d = "bit_at data 66 \<longrightarrow> bit_at data 67"
    show "case do {
        p0 \<leftarrow> port0_type X data;
        p1 \<leftarrow> port1_type X data;
        p2 \<leftarrow> port2_type X data;
        p3 \<leftarrow> port3_type X data;
        dc_supported \<leftarrow> reg_bit X DlInformation ''dc_supported'' data;
        dc_range \<leftarrow> reg_bit X DlInformation ''dc_range'' data;
        assert (dc_supported \<longrightarrow> dc_range);
        no_bit_operation \<leftarrow> reg_bit X DlInformation ''fmmu_bit_operation_not_supported'' data;
        not_lrw_supported \<leftarrow> reg_bit X DlInformation ''not_lrw_supported'' data;
        assert (\<not> not_lrw_supported);
        ram_size \<leftarrow> reg_get X DlInformation ''ram_size'' data;
        fmmu \<leftarrow> reg_get X DlInformation ''number_of_supported_fmmu_entities'' data;
        sm \<leftarrow> reg_get X DlInformation ''number_of_supported_sm_channels'' data;
        ret (info\<lparr>sib_ports := [p0, p1, p2, p3], sib_support_dc := dc_supported,
               sib_support_fmmu_bit_operation := \<not> no_bit_operation, sib_ram_size_kb := ram_size,
               sib_number_of_fmmu := fmmu, sib_number_of_sm := sm\<rparr>) } of
      None \<Rightarrow> \<not> safe | Some info' \<Rightarrow> info_fine safe (InClearFmmu 0) info'"
      using len fine info ram
      by (auto simp: port0_type_def port1_type_def port2_type_def port3_type_def index_def reg_eqs DlInformation_def
        assert_def dl_info_fine_def info_fine_def)
  qed (simp_all add: counter_ok_def)
qed

lemma in_al_goes:
  assumes k: "in_known safe pos t" and inner: "inner_sent t" and st: "in_state t = InRequestInitState b"
    and len: "length (pdu_data p) = in_expects t" and p: "safe \<Longrightarrow> init_answer X p" and check: "in_check t p = t"
  shows "in_goes safe pos (in_recieve_and_process X t p time)"
proof -
  obtain al where al: "in_inner t = AlTransfer al" "at_true AlState.Init al"
    "at_state al = AtPoll \<Longrightarrow> cmd_ado (at_command al) = reg_address AlStatus"
    using inner st by (auto simp: inner_sent_def)
  have busy: "in_is_busy t" by (simp add: in_is_busy_def st)
  have len': "length (pdu_data p) = at_expects al" using len by (simp add: in_expects_def st al(1))
  show ?thesis
  proof (cases "at_recieve_and_process X al p time")
    case None
    then have "\<not> safe" using at_answered [OF len' al(3)] p by blast
    with None show ?thesis by (simp add: in_goes_def in_recieve_and_process_def check st al(1) inner_al_def Let_def)
  next
    case (Some al')
    then have true: "at_true AlState.Init al'" using at_true_recieve al(2) by blast
    let ?t = "t\<lparr>in_inner := AlTransfer al'\<rparr>"
    have kt: "in_known safe pos (?t\<lparr>in_state := st'\<rparr>)" if "counter_ok st'" "before_info st' \<or> st' = InError e" for st' e
      using that k busy st by (auto simp: in_known_def in_is_busy_def info_fine_def before_info_def)
    show ?thesis
    proof (cases "at_wait al'")
      case None
      then show ?thesis
        using Some true kt [of "InRequestInitState False"]
        by (simp add: in_recieve_and_process_def check st al(1) inner_al_def Let_def in_goes_def inner_taken_def
          counter_ok_def before_info_def)
    next
      case (Some w)
      show ?thesis
      proof (cases w)
        case (Inl e)
        then show ?thesis
          using Some \<open>at_recieve_and_process X al p time = Some al'\<close> kt [of "InError (SlaveInit_from_al e)"]
          by (simp add: in_recieve_and_process_def check st al(1) inner_al_def Let_def in_goes_def inner_taken_def
            counter_ok_def before_info_def)
      next
        case (Inr s)
        then have "s = AlState.Init" using at_true_wait [OF true] Some by simp
        then show ?thesis
          using Inr Some \<open>at_recieve_and_process X al p time = Some al'\<close> kt [of InResetErrorCount]
          by (simp add: in_recieve_and_process_def check st al(1) inner_al_def Let_def in_goes_def inner_taken_def
            counter_ok_def before_info_def assert_def)
      qed
    qed
  qed
qed

lemma in_pdi_goes:
  assumes k: "in_known safe pos t" and inner: "inner_sent t" and st: "in_state t = InCheckPdiControl"
    and len: "length (pdu_data p) = in_expects t" and check: "in_check t p = t"
  shows "in_goes safe pos (in_recieve_and_process X t p time)"
proof -
  have busy: "in_is_busy t" by (simp add: in_is_busy_def st)
  then obtain info where i: "in_slave_info t = Some info" "info_fine safe InCheckPdiControl info"
    using k st by (auto simp: in_known_def)
  obtain v where v: "reg_bit X PdiControl ''strict_al_control'' (pdu_data p) = Some v"
    using len by (simp add: in_expects_def st reg_eqs PdiControl_def)
  show ?thesis
    using k inner i v by (simp add: in_recieve_and_process_def check st Let_def in_goes_def in_known_def counter_ok_def
      inner_sent_def inner_taken_def info_fine_def before_info_def)
qed

lemma in_sii_state_goes:
  assumes J: "in_J safe pos t" and len: "length (pdu_data p) = in_expects t" and p: "safe \<Longrightarrow> init_answer X p"
    and check: "in_check t p = t" and st: "sii_state (in_state t) \<noteq> None"
  shows "in_goes safe pos (in_recieve_and_process X t p time)"
proof -
  have k: "in_known safe pos t" and inner: "inner_sent t" using J by (simp_all add: in_J_def)
  have busy: "in_is_busy t" "\<not> before_info (in_state t)"
    using st by (cases "in_state t"; simp add: in_is_busy_def before_info_def)+
  note eq = in_recieve_and_process_def [of X t p time, unfolded Let_def check]
  note goes = in_sii_goes [OF k busy inner st len p]
  show ?thesis
  proof (cases "in_state t")
    case (InGetVenderID b)
    show ?thesis unfolding eq InGetVenderID in_state.case
      by (rule goes [OF _ good_updates(1) [where f = "\<lambda>v i. i\<lparr>idb_vender_id := ucast v\<rparr>"]])
        (simp_all add: counter_ok_def before_info_def)
  next
    case (InGetProductCode b)
    show ?thesis unfolding eq InGetProductCode in_state.case
      by (rule goes [OF _ good_updates(1) [where f = "\<lambda>v i. i\<lparr>idb_product_code := ucast v\<rparr>"]])
        (simp_all add: counter_ok_def before_info_def)
  next
    case (InGetRevision b)
    show ?thesis unfolding eq InGetRevision in_state.case
      by (rule goes [OF _ good_updates(1) [where f = "\<lambda>v i. i\<lparr>idb_revision_number := ucast v\<rparr>"]])
        (simp_all add: counter_ok_def before_info_def)
  next
    case (InGetProtocol b)
    show ?thesis unfolding eq InGetProtocol in_state.case
      by (rule goes [OF _ good_updates(2)]) (simp_all add: counter_ok_def before_info_def)
  next
    case (InGetRxMailboxSize b)
    show ?thesis unfolding eq InGetRxMailboxSize in_state.case
      by (rule goes [OF _ good_updates(3)]) (simp_all add: counter_ok_def before_info_def)
  next
    case (InGetTxMailboxSize b)
    show ?thesis unfolding eq InGetTxMailboxSize in_state.case
      by (rule goes [OF _ good_updates(4)]) (simp_all add: counter_ok_def before_info_def)
  next
    case (InGetRxMailboxOffset b)
    show ?thesis unfolding eq InGetRxMailboxOffset in_state.case
      by (rule goes [OF _ good_updates(5)]) (simp_all add: counter_ok_def before_info_def)
  next
    case (InGetTxMailboxOffset b)
    show ?thesis unfolding eq InGetTxMailboxOffset in_state.case
      by (rule goes [OF _ good_updates(6)]) (simp_all add: counter_ok_def before_info_def)
  qed (use st in simp_all)
qed

lemma in_check_eq:
  "in_check t p = (case unexpected 1 (in_command t) p of Some e \<Rightarrow> t\<lparr>in_state := InError e\<rparr> | None \<Rightarrow> t)"
  by (simp add: in_check_def unexpected_def Let_def)

lemma in_recieve_goes:
  assumes J: "in_J safe pos t" and len: "length (pdu_data p) = in_expects t" and p: "safe \<Longrightarrow> init_answer X p"
  shows "in_goes safe pos (in_recieve_and_process X t p time)"
proof (cases "unexpected 1 (in_command t) p :: SlaveInitTaskError TaskError option")
  case (Some e)
  then show ?thesis
    using in_goes_error [of safe pos t e] J by (simp add: in_recieve_and_process_def in_check_eq in_J_def)
next
  case None
  then have check: "in_check t p = t" and ado: "cmd_ado (pdu_command p) = cmd_ado (in_command t)"
    by (auto simp: in_check_eq unexpected_def split: if_splits)
  have k: "in_known safe pos t" and inner: "inner_sent t" using J by (simp_all add: in_J_def)
  have cnt: "counter_ok (in_state t)" using k by (simp add: in_known_def)
  note eq = in_recieve_and_process_def [of X t p time, unfolded Let_def check]
  note step = in_goes_step [OF k _ inner]
  show ?thesis
  proof (cases "sii_state (in_state t)")
    case (Some b)
    then show ?thesis using in_sii_state_goes [OF J len p check] by simp
  next
    case sii: None
    show ?thesis
    proof (cases "in_state t")
      case InCheckDlStatus
      with len in_dl_status_goes [OF k _ inner] show ?thesis
        by (simp add: eq in_expects_def in_is_busy_def before_info_def)
    next
      case InCheckDlInfo
      then have "safe \<Longrightarrow> dl_info_fine (pdu_data p)"
        using J ado p len by (simp add: in_J_def init_answer_def Let_def in_expects_def)
      with len in_dl_info_goes [OF k _ inner] InCheckDlInfo show ?thesis
        by (simp add: eq in_expects_def in_is_busy_def)
    next
      case (InRequestInitState b)
      show ?thesis by (rule in_al_goes [OF k inner InRequestInitState len p check])
    next
      case InCheckPdiControl
      show ?thesis by (rule in_pdi_goes [OF k inner InCheckPdiControl len check])
    next
      case (InClearFmmu c)
      have "uadd c 1 = Some (c + 1)" "c + 1 \<le> 3" if "c < 3"
        using that by (auto simp: uadd_def word_less_nat_alt word_le_nat_alt unat_word_ariths)
      with InClearFmmu step show ?thesis
        by (simp add: eq in_is_busy_def counter_ok_def before_info_def)
    next
      case (InClearSm c)
      have "uadd c 1 = Some (c + 1)" "c + 1 \<le> 4" if "c < 4"
        using that by (auto simp: uadd_def word_less_nat_alt word_le_nat_alt unat_word_ariths)
      with InClearSm step show ?thesis
        by (simp add: eq in_is_busy_def counter_ok_def before_info_def)
    next
      case InIdle
      then show ?thesis using k inner by (simp add: eq in_goes_def inner_sent_def inner_taken_def)
    next
      case (InError e)
      then show ?thesis using k inner by (simp add: eq in_goes_def inner_sent_def inner_taken_def)
    next
      case InComplete
      then show ?thesis using k inner by (simp add: eq in_goes_def inner_sent_def inner_taken_def)
    qed (use sii cnt step in \<open>simp_all add: eq in_is_busy_def counter_ok_def before_info_def\<close>)
  qed
qed

end

section \<open>The initialisation of the network\<close>

definition ni_expects :: "NetworkInitTask \<Rightarrow> nat" where
  "ni_expects t =
     (case ni_state t of
        NiCountSlaves \<Rightarrow> reg_size DlControl
      | NiStartInitSlaves _ \<Rightarrow> in_expects (ni_initilizer t)
      | NiWaitInitSlaves _ \<Rightarrow> in_expects (ni_initilizer t)
      | _ \<Rightarrow> 0)"

definition sii_buffer_ok :: "SlaveInitTask \<Rightarrow> bool" where
  "sii_buffer_ok t \<longleftrightarrow> (\<forall>sii. in_inner t = Sii sii \<longrightarrow> length (sr_sii_data sii) = 8)"

definition ni_I :: "SlaveConfig list \<Rightarrow> bool \<Rightarrow> NetworkInitTask \<Rightarrow> bool" where
  "ni_I cs safe t \<longleftrightarrow> ni_taken cs t \<and> ni_state t \<noteq> NiIdle \<and> sii_buffer_ok (ni_initilizer t) \<and>
     (case ni_state t of NiWaitInitSlaves c \<Rightarrow> in_I safe c (ni_initilizer t) | _ \<Rightarrow> True)"

definition ni_J :: "SlaveConfig list \<Rightarrow> bool \<Rightarrow> NetworkInitTask \<Rightarrow> bool" where
  "ni_J cs safe t \<longleftrightarrow> ni_sent cs t \<and> ni_state t \<noteq> NiIdle \<and> sii_buffer_ok (ni_initilizer t) \<and>
     (case ni_state t of NiStartInitSlaves c \<Rightarrow> in_J safe c (ni_initilizer t)
      | NiWaitInitSlaves c \<Rightarrow> in_J safe c (ni_initilizer t) | _ \<Rightarrow> True)"

lemma in_J_I: "in_J safe pos t \<Longrightarrow> in_I safe pos t"
  by (auto simp: in_J_def in_I_def in_sent_def inner_sent_def inner_taken_def)

lemma in_J_buffer: "in_J safe pos t \<Longrightarrow> sii_buffer_ok t"
  by (simp add: in_J_def inner_sent_def sii_buffer_ok_def)

lemma in_I_buffer: "in_I safe pos t \<Longrightarrow> sii_buffer_ok t"
  by (simp add: in_I_def inner_taken_def sii_buffer_ok_def)

lemma ni_J_I: "ni_J cs safe t \<Longrightarrow> ni_I cs safe t"
  using in_J_I by (auto simp: ni_J_def ni_I_def ni_sent_def ni_taken_def in_sent_def split: ni_state.splits)

lemma ni_start_J: "map snd (nw_slaves network) = cs \<Longrightarrow> ni_J cs safe (ni_start (NetworkInitTask_new network))"
  by (simp add: ni_J_def ni_sent_def ni_known_def ni_start_def NetworkInitTask_new_def sii_buffer_ok_def
    SlaveInitTask_new_def)

lemma found_slave_some:
  assumes "found_sms (si_sm info)"
  shows "found_slave info \<noteq> None"
proof (cases "mailbox_tx_sm info")
  case None
  then show ?thesis by (simp add: found_slave_def set_mailbox_count_def Slave_default_def assert_def Let_def)
next
  case (Some sm)
  then have n: "sm_number sm = 1" using found_sms_tx assms by blast
  have "umul 8 (ucast (1 :: u8)) = Some (8 :: u16)" by (simp add: umul_def)
  moreover have "\<exists>a. uadd (reg_address SyncManagerStatus) 8 = Some a"
    by (simp add: uadd_def SyncManagerStatus_def)
  moreover have "store (replicate 3 None) 2 f = Some [None, None, f]" for f :: "FmmuConfig option"
    by (simp add: store_def numeral_eq_Suc)
  ultimately show ?thesis
    by (auto simp: found_slave_def Let_def Some n set_mailbox_count_def assert_def Slave_default_def)
qed

lemma ni_push_some:
  fixes c :: u16
  assumes "found_slaves cs (ni_network t) (unat c)" and "c < m" and "found_sms (si_sm info)"
  shows "ni_push t c info \<noteq> None"
proof -
  obtain s where s: "found_slave info = Some s" using found_slave_some [OF assms(3)] by blast
  obtain ss where ss: "ni_network t = net_of ss cs" "length ss = unat c"
    using assms(1) by (auto simp: found_slaves_def)
  have c: "unat c < 65535" using assms(2) by (rule u16_below)
  then have "uadd c 1 = Some (c + 1)" by (simp add: uadd_def)
  then show ?thesis
    using push_net_of [of ss cs s] c ss(2) by (simp add: ni_push_def s ss(1) Let_def)
qed

lemma ni_push_keeps:
  "ni_push t c info = Some t' \<Longrightarrow> ni_initilizer t' = ni_initilizer t \<and> ni_state t' \<noteq> NiIdle \<and> (\<nexists>c'. ni_state t' = NiWaitInitSlaves c')"
  by (auto simp: ni_push_def Let_def elim!: bindE split: sum.splits if_splits)

text \<open>An initialisation that is done hands over the information.\<close>

lemma in_wait_outcome:
  assumes "in_I safe c i" and "in_wait i = (w, i')"
  shows "sii_buffer_ok i' \<and> (w = None \<longrightarrow> i' = i) \<and> w \<noteq> Some (Inr None)"
  using assms in_I_buffer [OF assms(1)]
  by (auto simp: in_wait_def in_I_def in_taken_def in_addressed_def sii_buffer_ok_def split: in_state.splits option.splits)

lemma ni_check_eq:
  "ni_check t p = t \<or> ni_check t p = t\<lparr>ni_state := NiError UnexpectedCommand\<rparr>"
  by (simp add: ni_check_def)

lemma ni_error: "ni_I cs safe t \<or> ni_J cs safe t \<Longrightarrow> ni_I cs safe (t\<lparr>ni_state := NiError e\<rparr>)"
  by (auto simp: ni_I_def ni_J_def ni_taken_def ni_known_def)

context crates_laws
begin

lemma in_recieve_I:
  assumes J: "in_J safe pos t" and len: "length (pdu_data p) = in_expects t" and p: "safe \<Longrightarrow> init_answer X p"
    and r: "in_recieve_and_process X t p time = Some t'"
  shows "in_I safe pos t'"
proof -
  have "in_taken pos t'" by (rule in_taken_recieve [OF _ r]) (use J in \<open>simp add: in_J_def\<close>)
  with in_recieve_goes [OF J len p, of time] r show ?thesis by (simp add: in_goes_def in_I_def)
qed

lemma ni_request:
  assumes I: "ni_I cs safe t" and len: "16 \<le> length buf"
  obtains r t' buf' where "ni_next_pdu X t buf = Some (r, t', buf')" "ni_J cs safe t'" "length buf' = length buf"
    "\<And>c n. r = Some (c, n) \<Longrightarrow> 0 < n \<and> n \<le> 16 \<and> ni_expects t' = n"
proof -
  have "\<exists>r t1 buf'. ni_request_of X t buf = Some (r, t1, buf') \<and> length buf' = length buf \<and>
      sii_buffer_ok (ni_initilizer t1) \<and> ni_state t1 = ni_state t \<and>
      (case ni_state t of NiStartInitSlaves c \<Rightarrow> in_J safe c (ni_initilizer t1)
       | NiWaitInitSlaves c \<Rightarrow> in_J safe c (ni_initilizer t1) | _ \<Rightarrow> True) \<and>
      (\<forall>c n. r = Some (c, n) \<longrightarrow> 0 < n \<and> n \<le> 16 \<and> ni_expects t1 = n)"
  proof (cases "ni_state t")
    case NiCountSlaves
    with I len show ?thesis
      by (simp add: ni_request_of_def fill_to_def reg_eqs DlControl_def Let_def ni_I_def ni_expects_def)
  next
    case (NiStartInitSlaves c)
    with I have "c < ni_num_slaves t" by (simp add: ni_I_def ni_taken_def ni_known_def)
    then have "unat c < 65535" by (rule u16_below)
    with I have i: "in_I safe c (in_start (ni_initilizer t) c)"
      by (intro in_start_I) (auto simp: ni_I_def sii_buffer_ok_def)
    obtain r i' buf' where n: "in_next_pdu X (in_start (ni_initilizer t) c) buf = Some (r, i', buf')"
      "in_J safe c i'" "length buf' = length buf" "\<And>c n. r = Some (c, n) \<Longrightarrow> 0 < n \<and> n \<le> 16 \<and> in_expects i' = n"
      by (rule in_next_J [OF i len]) (rule that)
    then show ?thesis using NiStartInitSlaves in_J_buffer by (simp add: ni_request_of_def ni_expects_def)
  next
    case (NiWaitInitSlaves c)
    with I have i: "in_I safe c (ni_initilizer t)" by (simp add: ni_I_def)
    obtain r i' buf' where n: "in_next_pdu X (ni_initilizer t) buf = Some (r, i', buf')"
      "in_J safe c i'" "length buf' = length buf" "\<And>c n. r = Some (c, n) \<Longrightarrow> 0 < n \<and> n \<le> 16 \<and> in_expects i' = n"
      by (rule in_next_J [OF i len]) (rule that)
    then show ?thesis using NiWaitInitSlaves in_J_buffer by (simp add: ni_request_of_def ni_expects_def)
  qed (use I in \<open>auto simp: ni_request_of_def ni_I_def\<close>)
  then obtain r t1 buf' where t1: "ni_request_of X t buf = Some (r, t1, buf')" "length buf' = length buf"
    "sii_buffer_ok (ni_initilizer t1)" "ni_state t1 = ni_state t"
    "case ni_state t of NiStartInitSlaves c \<Rightarrow> in_J safe c (ni_initilizer t1)
       | NiWaitInitSlaves c \<Rightarrow> in_J safe c (ni_initilizer t1) | _ \<Rightarrow> True"
    "\<forall>c n. r = Some (c, n) \<longrightarrow> 0 < n \<and> n \<le> 16 \<and> ni_expects t1 = n" by blast
  let ?t = "case r of Some (command, _) \<Rightarrow> t1\<lparr>ni_command := command\<rparr> | None \<Rightarrow> t1"
  have e: "ni_next_pdu X t buf = Some (r, ?t, buf')" by (simp add: ni_next_pdu_def t1(1))
  have st: "ni_state ?t = ni_state t" "ni_initilizer ?t = ni_initilizer t1"
    using t1(4) by (auto split: option.split)
  have "ni_sent cs ?t" using I e by (auto simp: ni_I_def intro: ni_sent_next)
  then have "ni_J cs safe ?t" using t1(3,5) I unfolding ni_J_def ni_I_def st by blast
  moreover have "ni_expects ?t = ni_expects t1" by (simp only: ni_expects_def st t1(4))
  ultimately show thesis using e t1(2,6) by (intro that [of r ?t buf']) auto
qed

lemma ni_answer:
  assumes J: "ni_J cs safe t" and len: "length (pdu_data p) = ni_expects t" and p: "safe \<Longrightarrow> init_answer X p"
  shows "case ni_recieve_and_process X t p time of None \<Rightarrow> \<not> safe | Some t' \<Rightarrow> ni_I cs safe t'"
proof (cases "ni_check t p = t")
  case False
  then have "ni_check t p = t\<lparr>ni_state := NiError UnexpectedCommand\<rparr>" using ni_check_eq by blast
  with J ni_error show ?thesis by (simp add: ni_recieve_and_process_def)
next
  case True
  have known: "ni_recieve_and_process X t p time = Some t' \<Longrightarrow> ni_taken cs t'" for t'
    using J by (auto simp: ni_J_def intro: ni_taken_recieve)
  note eq = ni_recieve_and_process_def [of X t p time, unfolded Let_def True]
  show ?thesis
  proof (cases "ni_state t")
    case NiCountSlaves
    with J known show ?thesis by (simp add: eq ni_J_def ni_I_def sii_buffer_ok_def)
  next
    case (NiStartInitSlaves c)
    with J len have j: "in_J safe c (ni_initilizer t)" "length (pdu_data p) = in_expects (ni_initilizer t)"
      by (simp_all add: ni_J_def ni_expects_def)
    show ?thesis
    proof (cases "in_recieve_and_process X (ni_initilizer t) p time")
      case None
      with in_recieve_goes [OF j p, of time] NiStartInitSlaves show ?thesis by (simp add: eq in_goes_def)
    next
      case (Some i)
      then have "in_I safe c i" using in_recieve_I [OF j] p by blast
      with Some NiStartInitSlaves known in_I_buffer show ?thesis by (simp add: eq ni_I_def)
    qed
  next
    case (NiWaitInitSlaves c)
    with J len have j: "in_J safe c (ni_initilizer t)" "length (pdu_data p) = in_expects (ni_initilizer t)"
      by (simp_all add: ni_J_def ni_expects_def)
    show ?thesis
    proof (cases "in_recieve_and_process X (ni_initilizer t) p time")
      case None
      with in_recieve_goes [OF j p, of time] NiWaitInitSlaves show ?thesis by (simp add: eq in_goes_def)
    next
      case (Some i)
      then have i: "in_I safe c i" using in_recieve_I [OF j] p by blast
      obtain w i' where w: "in_wait i = (w, i')" by (cases "in_wait i")
      note out = in_wait_outcome [OF i w]
      show ?thesis
      proof (cases w)
        case None
        with out i in_I_buffer [OF i] known Some w NiWaitInitSlaves show ?thesis by (simp add: eq ni_I_def)
      next
        case w': (Some q)
        show ?thesis
        proof (cases q)
          case (Inl e)
          with w' out known Some w NiWaitInitSlaves show ?thesis by (simp add: eq ni_I_def)
        next
          case (Inr x)
          with w' out obtain info where x: "x = Some info" by (cases x) auto
          let ?t = "t\<lparr>ni_initilizer := i'\<rparr>"
          have e: "ni_recieve_and_process X t p time = ni_push ?t c info"
            using Inr w' w Some NiWaitInitSlaves x by (simp add: eq)
          have k: "c < ni_num_slaves t" "found_slaves cs (ni_network ?t) (unat c)"
            using J NiWaitInitSlaves by (simp_all add: ni_J_def ni_sent_def ni_known_def)
          have "in_taken c i" using i by (simp add: in_I_def)
          then have "found_sms (si_sm info)" using in_wait_found [of c i info i'] w w' Inr x k(1) by blast
          then obtain t' where t': "ni_push ?t c info = Some t'" using ni_push_some [OF k(2,1)] by blast
          then have "ni_I cs safe t'"
            using ni_push_keeps [OF t'] known [of t'] e out by (auto simp: ni_I_def split: ni_state.split)
          with e t' show ?thesis by simp
        qed
      qed
    qed
  qed (use J True known in \<open>auto simp: eq ni_J_def ni_I_def\<close>)
qed

end

sublocale crates_laws \<subseteq> ni_run: answered_task "network_init_ops X" "ni_J cs safe" "ni_I cs safe" "\<lambda>_. 16" ni_expects
    "\<lambda>_ p. safe \<longrightarrow> init_answer X p" safe for cs safe
proof (unfold_locales, goal_cases)
  case (1 t)
  then show ?case by (rule ni_J_I)
next
  case (2 t buf)
  from ni_request [OF this] obtain r t' buf' where n: "ni_next_pdu X t buf = Some (r, t', buf')" "ni_J cs safe t'"
    "length buf' = length buf" "\<And>c n. r = Some (c, n) \<Longrightarrow> 0 < n \<and> n \<le> 16 \<and> ni_expects t' = n" by blast
  have "0 < m \<and> m \<le> length buf \<and> ni_expects t' = m" if "r = Some (c, m)" for c m
    using n(4) [OF that] 2(2) by simp
  with n(1-3) show ?case by (simp add: network_init_ops_def)
next
  case (3 t p time)
  then have "case ni_recieve_and_process X t p time of None \<Rightarrow> \<not> safe | Some t' \<Rightarrow> ni_I cs safe t'"
    by (intro ni_answer) simp_all
  with 3(4) show ?case by (cases "ni_recieve_and_process X t p time") (simp_all add: network_init_ops_def)
next
  case (4 t p time t')
  then have "case ni_recieve_and_process X t p time of None \<Rightarrow> \<not> safe | Some t' \<Rightarrow> ni_I cs safe t'"
    by (intro ni_answer) simp_all
  with 4 show ?case by (simp add: network_init_ops_def)
qed

context crates_laws
begin

lemmas ni_block_on = ni_run.block_on_free_ends

end

section \<open>The call returns\<close>

text \<open>Slaves whose answers are within the bounds.\<close>

definition init_slaves :: "crates \<Rightarrow> (bytes \<Rightarrow> bytes) \<Rightarrow> bool" where
  "init_slaves X slaves \<longleftrightarrow> (\<forall>c. wf_chunk c \<and> pv_wkc (pdu_view c) = 0 \<longrightarrow> init_answer X (chunk_pdu X (slaves c)))"

lemma init_run:
  fixes si :: "'d SocketInterface"
  assumes X: "crates_laws X" and net: "\<And>d. answers dev (slaves d) d" and rd: "ready si ss h"
    and s: "sk_command (ss ! h) = None" "\<not> recv_flag (ss ! h)" "16 \<le> length (data_buf (ss ! h))"
    and safe: "\<And>d. safe \<longrightarrow> init_slaves X (slaves d)"
  shows "\<exists>q. init X dev si h network = Some q \<and> (q = None \<longrightarrow> \<not> safe) \<and>
    (\<forall>r si' network'. q = Some (r, si', network') \<longrightarrow>
       (\<exists>ss'. ready si' ss' h \<and> others_kept h ss ss' \<and> length (data_buf (ss' ! h)) = length (data_buf (ss ! h))))"
proof -
  let ?t = "ni_start (NetworkInitTask_new network)" and ?cs = "map snd (nw_slaves network)"
  have al: "safe \<longrightarrow> init_answer X (chunk_pdu X (slaves d c))"
    if "wf_chunk c" "pv_wkc (pdu_view c) = 0" for d c
    using that safe [of d] by (auto simp: init_slaves_def)
  have "\<exists>q. block_on X dev (network_init_ops X) h si ?t =
        (Some q :: ((NetworkInitTaskError TaskError + unit) \<times> 'd SocketInterface \<times> NetworkInitTask) run) \<and>
      (q = None \<longrightarrow> \<not> safe) \<and>
      (\<forall>r si' t'. q = Some (r, si', t') \<longrightarrow> ni_J ?cs safe t' \<and>
        (r = Inr () \<and> \<not> ct_is_busy (network_init_ops X) t' \<or> r = Inl Timeout) \<and>
        (\<exists>ss'. ready si' ss' h \<and> others_kept h ss ss' \<and> length (data_buf (ss' ! h)) = length (data_buf (ss ! h))))"
    by (rule crates_laws.ni_block_on [OF X X net _ _ rd s(1,2)]) (use al s(3) ni_start_J in auto)
  then obtain q where q: "block_on X dev (network_init_ops X) h si ?t =
        (Some q :: ((NetworkInitTaskError TaskError + unit) \<times> 'd SocketInterface \<times> NetworkInitTask) run)"
    "q = None \<longrightarrow> \<not> safe" "\<And>r si' t'. q = Some (r, si', t') \<Longrightarrow>
      ni_state t' \<noteq> NiIdle \<and> (r = Inr () \<and> \<not> ni_is_busy t' \<or> r = Inl Timeout) \<and>
      (\<exists>ss'. ready si' ss' h \<and> others_kept h ss ss' \<and> length (data_buf (ss' ! h)) = length (data_buf (ss ! h)))"
    by (auto simp: network_init_ops_def ni_J_def)
  have b: "ni_buffer_size \<le> length (data_buf (ss ! h))" using s(3) by (simp add: ni_buffer_size_def DlControl_def)
  show ?thesis
  proof (cases q)
    case None
    with q(1,2) b ready_socket [OF rd] show ?thesis by (simp add: init_def and_then_def assert_def)
  next
    case (Some x)
    obtain r si' t' where x: "x = (r, si', t')" by (cases x)
    have "init X dev si h network = Some (case r of Inl e \<Rightarrow> Some (Inl e, si', ni_network t')
        | Inr _ \<Rightarrow> do { w \<leftarrow> ni_wait t'; Some (w, si', ni_network t') })"
      using q(1) b ready_socket [OF rd] by (simp add: init_def and_then_def assert_def Some x)
    moreover have q': "ni_state t' \<noteq> NiIdle" "r = Inr () \<and> \<not> ni_is_busy t' \<or> r = Inl Timeout"
      "\<exists>ss'. ready si' ss' h \<and> others_kept h ss ss' \<and> length (data_buf (ss' ! h)) = length (data_buf (ss ! h))"
      using q(3) [of r si' t'] Some x by blast+
    moreover have "ni_wait t' \<noteq> None" if "r = Inr ()"
      using q'(1,2) that by (cases "ni_state t'") (auto simp: ni_is_busy_def ni_wait_def)
    ultimately show ?thesis by (cases r) auto
  qed
qed

text \<open>
  C21: the initialisation of the network returns. On a network that answers, with a free socket of at
  least 16 bytes, \<open>init\<close> never runs for ever, whatever the slaves answer. When their answers are within
  the bounds of \<open>init_answer\<close> (clocks of 64 bits, a memory of 1 to 60 KB, support of the logical
  read-write command, SII words below 0xFF00 that are not zero in the low half alone, known AL status
  codes), it does not panic either: it returns \<open>Ok\<close> or an error.
\<close>

theorem init_returns:
  fixes si :: "'d SocketInterface"
  assumes X: "crates_laws X" and net: "\<And>d. answers dev (slaves d) d" and rd: "ready si ss h"
    and s: "sk_command (ss ! h) = None" "\<not> recv_flag (ss ! h)" "16 \<le> length (data_buf (ss ! h))"
  shows "init X dev si h network \<noteq> None \<and>
    ((\<forall>d. init_slaves X (slaves d)) \<longrightarrow> (\<exists>r si' network'. init X dev si h network = Some (Some (r, si', network'))))"
proof -
  have "\<exists>q. init X dev si h network = Some q \<and> (q = None \<longrightarrow> \<not> safe)" if "\<And>d. safe \<longrightarrow> init_slaves X (slaves d)" for safe
    using init_run [OF X net rd s that, of network] by blast
  from this [of False] this [of True] show ?thesis by fastforce
qed

text \<open>
  A slave with a memory of 8 KB, four sync managers, a clock of 64 bits and a mailbox of 128 bytes at
  0x1080, in the state \<open>Init\<close>.
\<close>

definition plain_slave :: "nat \<Rightarrow> pdu_content \<Rightarrow> bytes \<times> u16" where
  "plain_slave k v =
     (if pv_ado v = 0x0000 then [1, 0, 0, 0, 3, 4, 8, 0x0F, 0x0C, 0]
      else if pv_ado v = 0x0130 then [1, 0, 0, 0, 0, 0]
      else if pv_ado v = 0x0508 then [0x80, 0x10, 0, 0, 0, 0, 0, 0]
      else [1, 0], 1)"

lemma plain_answers:
  "dl_info_fine [1, 0, 0, 0, 3, 4, 8, 0x0F, 0x0C, 0]" (is "dl_info_fine ?i")
  "sii_fine [0x80, 0x10, 0, 0, 0, 0, 0, 0]" (is "sii_fine ?s")
  "\<not> status_error [1, 0, 0, 0, 0, 0]"
proof -
  have "field ?i 55 48 = 8" using field_byte [of 6 ?i] by simp
  then show "dl_info_fine ?i" by (simp add: dl_info_fine_def bit_at_def)
  have "field ?s 15 0 = from_le_bytes [0x80, 0x10]"
    using field_append [of 15 "[0x80, 0x10]" "[0, 0, 0, 0, 0, 0]" 0] from_le_bytes_field [of "[0x80, 0x10]"] by simp
  then show "sii_fine ?s" by (simp add: sii_fine_def)
  show "\<not> status_error [1, 0, 0, 0, 0, 0]" by (simp add: status_error_def bit_at_def)
qed

lemma plain_slave_ok: "init_slaves ref_crates (scripted plain_slave d)"
proof -
  have "init_answer ref_crates (chunk_pdu ref_crates (scripted plain_slave d c))" if c: "wf_chunk c" for c
  proof -
    let ?src = "fst (plain_slave (fst d) (pdu_view c))"
    have v: "pdu_view (scripted plain_slave d c) =
        (pdu_view c)\<lparr>pv_data := copy_zip (pv_data (pdu_view c)) ?src, pv_wkc := 1\<rparr>"
      using reply_chunk_wf(3) [OF c] by (simp add: scripted_def plain_slave_def)
    show ?thesis
      using plain_answers by (auto simp: init_answer_def chunk_pdu_def Let_def v plain_slave_def
        Command_new_def copy_zip_exact AlStatus_def DlInformation_def SiiData_def)
  qed
  then show ?thesis by (simp add: init_slaves_def)
qed

theorem init_returns_witness:
  "crates_laws ref_crates \<and> ready (free_socket 16) [PduSocket_new (replicate 16 0)] 0 \<and>
   (\<exists>r si' network'. init ref_crates (scripted_device plain_slave) (free_socket 16) 0
      (Network_new [(None, SlaveConfig_default)]) = Some (Some (r, si', network')))"
proof -
  have rd: "ready (free_socket 16) [PduSocket_new (replicate 16 0)] 0"
    by (rule free_socket_ready) simp
  from init_returns [OF ref_crates_laws scripted_answers rd, of plain_slave "Network_new [(None, SlaveConfig_default)]"]
  show ?thesis using rd ref_crates_laws plain_slave_ok by (auto simp: PduSocket_new_def)
qed

end
