(* ===== verification/Dc_Init.thy ===== *)
theory Dc_Init
  imports Network_Init
begin

text \<open>
  \<open>src/src/task/dc_initilize.rs\<close> and \<open>init_dc\<close> of \<open>src/src/task/mod.rs\<close>: finding the order in which
  the slaves are wired, measuring the delay from slave to slave, and setting the offset and the
  delay of the distributed clocks.

  The task has the network behind a shared reference and changes the clock contexts of the slaves
  in their \<open>RefCell\<close>s; here the network is a field of the task. A second borrow of a context that is
  already borrowed mutably panics, which is the assertion in \<open>di_delay\<close>.
\<close>

section \<open>The task\<close>

definition COUNT_MAX :: nat where "COUNT_MAX = 8"
definition DRIFT_COUNT_MIN :: nat where "DRIFT_COUNT_MIN = 2000"
definition TARGET_DELTA_NS :: u32 where "TARGET_DELTA_NS = 50"

datatype di_state =
    DiIdle | DiError "unit TaskError" | DiClearOffset | DiClearDelay | DiRequestToLatch nat
  | DiCalculateDelay "nat \<times> u16" | DiSetOffset u16 | DiSetDelay u16 | DiCompensateDrift nat
  | DiCheckDelta | DiComplete

record DcInitTask =
  di_state :: di_state
  di_command :: Command
  di_first_dc_slave :: "u16 option"
  di_dc_slave_count :: nat
  di_network :: Network

definition di_buffer_size :: nat where
  "di_buffer_size = fold (\<lambda>n size. const_max size n)
     [reg_size DcRecieveTime, reg_size DcSystemTime, reg_size DcSystemTimeOffset,
      reg_size DcSystemTimeTransmissionDelay, reg_size DcSystemTimeDelta] 0"

definition DcInitTask_new :: "Network \<Rightarrow> DcInitTask" where
  "DcInitTask_new network =
     \<lparr>di_state = DiIdle, di_command = Command_default, di_first_dc_slave = None,
      di_dc_slave_count = 0, di_network = network\<rparr>"

definition di_wait :: "DcInitTask \<Rightarrow> (unit TaskError + unit) option" where
  "di_wait t =
     (case di_state t of
        DiComplete \<Rightarrow> Some (Inr ())
      | DiError err \<Rightarrow> Some (Inl err)
      | _ \<Rightarrow> None)"

definition di_is_busy :: "DcInitTask \<Rightarrow> bool" where
  "di_is_busy t =
     (case di_state t of DiIdle \<Rightarrow> False | DiComplete \<Rightarrow> False | DiError _ \<Rightarrow> False | _ \<Rightarrow> True)"

section \<open>The topology\<close>

text \<open>The clock contexts of the slaves, in place.\<close>

definition put_dc :: "Network \<Rightarrow> u16 \<Rightarrow> DcContext \<Rightarrow> Network rust" where
  "put_dc network pos dc = do {
     (s, c) \<leftarrow> index (nw_slaves network) (unat pos);
     s \<leftarrow> s;
     slaves \<leftarrow> store (nw_slaves network) (unat pos) (Some (s\<lparr>dc_context := dc\<rparr>), c);
     ret (network\<lparr>nw_slaves := slaves\<rparr>) }"

fun map_dc ::
    "(DcContext \<Rightarrow> DcContext rust) \<Rightarrow> (Slave option \<times> SlaveConfig) list \<Rightarrow> (Slave option \<times> SlaveConfig) list rust" where
  "map_dc f [] = ret []"
| "map_dc f ((None, c) # slaves) = do { slaves \<leftarrow> map_dc f slaves; ret ((None, c) # slaves) }"
| "map_dc f ((Some s, c) # slaves) = do {
     dc \<leftarrow> f (dc_context s);
     slaves \<leftarrow> map_dc f slaves;
     ret ((Some (s\<lparr>dc_context := dc\<rparr>), c) # slaves) }"

record wiring =
  last_recv_slave :: u16
  last_recv_port :: u8
  first_slave :: "u16 option"

definition visit_port :: "RecievedPort \<Rightarrow> DcInitTask \<Rightarrow> wiring \<Rightarrow> (DcInitTask \<times> wiring) rust" where
  "visit_port recv_port t w = do {
     let slave_pos = rp_slave_position recv_port;
     slave \<leftarrow> network_slave (di_network t) (SlavePosition slave_pos);
     (slave, _) \<leftarrow> slave;
     let dc = dc_context slave;
     let t = (if si_support_dc (sl_info slave) \<and> di_first_dc_slave t = None
              then t\<lparr>di_first_dc_slave := Some slave_pos\<rparr> else t);
     let (w, dc) =
       (if first_slave w = None then (w\<lparr>first_slave := Some slave_pos\<rparr>, dc\<lparr>parent_port := None\<rparr>)
        else if parent_port dc = None
        then (w, dc\<lparr>parent_port := Some (last_recv_slave w, last_recv_port w)\<rparr>)
        else (w, dc));
     network \<leftarrow> put_dc (di_network t) slave_pos dc;
     ret (t\<lparr>di_network := network\<rparr>,
          w\<lparr>last_recv_slave := slave_pos, last_recv_port := rp_port recv_port\<rparr>) }"

text \<open>The loop over the iterator; the iterator and the task share the slaves.\<close>

partial_function (option) topology_loop ::
    "RecievedPorts \<Rightarrow> DcInitTask \<Rightarrow> wiring \<Rightarrow> (RecievedPorts \<times> DcInitTask) rust option" where
  "topology_loop r t w =
     (case RecievedPorts_next r of
        None \<Rightarrow> Some panic
      | Some (recv_port, r) \<Rightarrow>
          let t = t\<lparr>di_network := (di_network t)\<lparr>nw_slaves := rp_slaves r\<rparr>\<rparr> in
          case recv_port of
            None \<Rightarrow> Some (ret (r, t))
          | Some p \<Rightarrow>
              (case visit_port p t w of
                 None \<Rightarrow> Some panic
               | Some (t, w) \<Rightarrow> topology_loop (r\<lparr>rp_slaves := nw_slaves (di_network t)\<rparr>) t w))"

definition count_dc :: "Network \<Rightarrow> nat rust" where
  "count_dc network =
     for_each (\<lambda>n i. do {
         slave \<leftarrow> network_slave network (SlavePosition (of_nat i));
         (slave, _) \<leftarrow> slave;
         ret (if si_support_dc (sl_info slave) then n + 1 else n) })
       0 [0..<unat (num_slaves network)]"

definition di_start :: "DcInitTask \<Rightarrow> DcInitTask run" where
  "di_start t =
     and_then (Some (do {
         slaves \<leftarrow> map_dc (\<lambda>_. ret DcContext_default) (nw_slaves (di_network t));
         ret (t\<lparr>di_command := Command_default, di_first_dc_slave := None, di_dc_slave_count := 0,
                di_network := (di_network t)\<lparr>nw_slaves := slaves\<rparr>\<rparr>) }))
     (\<lambda>t. and_then (topology_loop (RecievedPorts_new (nw_slaves (di_network t))) t
                      \<lparr>last_recv_slave = 0, last_recv_port = 0, first_slave = None\<rparr>)
     (\<lambda>(_, t). Some (do {
         n \<leftarrow> count_dc (di_network t);
         ret (t\<lparr>di_dc_slave_count := n, di_state := DiClearOffset\<rparr>) })))"

section \<open>The requests\<close>

definition di_send ::
    "Command \<Rightarrow> register \<Rightarrow> DcInitTask \<Rightarrow> bytes \<Rightarrow> ((Command \<times> nat) option \<times> DcInitTask \<times> bytes) rust" where
  "di_send command r t buf = do {
     buf \<leftarrow> fill_to (reg_size r) 0 buf;
     ret (Some (command, reg_size r), t\<lparr>di_command := command\<rparr>, buf) }"

definition di_next_pdu ::
    "crates \<Rightarrow> DcInitTask \<Rightarrow> bytes \<Rightarrow> ((Command \<times> nat) option \<times> DcInitTask \<times> bytes) rust" where
  "di_next_pdu X t buf =
     (case di_state t of
        DiIdle \<Rightarrow> ret (None, t, buf)
      | DiError _ \<Rightarrow> ret (None, t, buf)
      | DiComplete \<Rightarrow> ret (None, t, buf)
      | DiClearOffset \<Rightarrow>
          di_send (Command_new CommandType.BWR 0 (reg_address DcSystemTimeOffset)) DcSystemTimeOffset t buf
      | DiClearDelay \<Rightarrow>
          di_send (Command_new CommandType.BWR 0 (reg_address DcSystemTimeTransmissionDelay))
            DcSystemTimeTransmissionDelay t buf
      | DiRequestToLatch _ \<Rightarrow>
          di_send (Command_new CommandType.BWR 0 (reg_address DcRecieveTime)) DcRecieveTime t buf
      | DiCalculateDelay (_, pos) \<Rightarrow>
          di_send (Command_new_read (Single (SlavePosition pos)) (reg_address DcRecieveTime)) DcRecieveTime t buf
      | DiSetOffset pos \<Rightarrow> do {
          (r, t, buf) \<leftarrow> di_send (Command_new_write (Single (SlavePosition pos)) (reg_address DcSystemTimeOffset))
            DcSystemTimeOffset t buf;
          slave \<leftarrow> network_slave (di_network t) (SlavePosition pos);
          (slave, _) \<leftarrow> slave;
          buf \<leftarrow> reg_set X DcSystemTimeOffset ''system_time_offset'' (dc_offset (dc_context slave)) buf;
          ret (r, t, buf) }
      | DiSetDelay pos \<Rightarrow> do {
          (r, t, buf) \<leftarrow> di_send (Command_new_write (Single (SlavePosition pos)) (reg_address DcSystemTimeTransmissionDelay))
            DcSystemTimeTransmissionDelay t buf;
          slave \<leftarrow> network_slave (di_network t) (SlavePosition pos);
          (slave, _) \<leftarrow> slave;
          buf \<leftarrow> reg_set X DcSystemTimeTransmissionDelay ''system_time_transmission_delay''
            (dc_delay (dc_context slave)) buf;
          ret (r, t, buf) }
      | DiCompensateDrift _ \<Rightarrow> do {
          first \<leftarrow> di_first_dc_slave t;
          di_send (Command_new CommandType.ARMW (get_adp (SlavePosition first)) (reg_address DcSystemTime))
            DcSystemTime t buf }
      | DiCheckDelta \<Rightarrow>
          di_send (Command_new CommandType.BRD 0 (reg_address DcSystemTimeDelta)) DcSystemTimeDelta t buf)"

section \<open>The answers\<close>

text \<open>The time between two times of a port, whose clocks wrap at 32 bits.\<close>

definition port_elapsed :: "u32 \<Rightarrow> u32 \<Rightarrow> u32 rust" where
  "port_elapsed first_recv_time second_recv_time =
     (if first_recv_time < second_recv_time then usub second_recv_time first_recv_time
      else do {
        sum \<leftarrow> uadd 0x100000000 (ucast second_recv_time :: u64);
        diff \<leftarrow> usub sum (ucast first_recv_time);
        ret (ucast diff) })"

definition last_linked_port :: "bool list \<Rightarrow> nat \<Rightarrow> nat option" where
  "last_linked_port linked_ports first =
     map_option fst (find (\<lambda>(i, is_active). is_active \<and> first < i) (rev (enumerate 0 linked_ports)))"

definition di_latch :: "crates \<Rightarrow> bytes \<Rightarrow> Slave \<Rightarrow> DcContext \<Rightarrow> (nat \<times> DcContext) rust" where
  "di_latch X data slave dc = do {
     t0 \<leftarrow> reg_get X DcRecieveTime ''receive_time_port0'' data;
     t1 \<leftarrow> reg_get X DcRecieveTime ''receive_time_port1'' data;
     t2 \<leftarrow> reg_get X DcRecieveTime ''receive_time_port2'' data;
     t3 \<leftarrow> reg_get X DcRecieveTime ''receive_time_port3'' data;
     let dc = dc\<lparr>recieved_port_time := [t0, t1, t2, t3]\<rparr>;
     first \<leftarrow> position (\<lambda>is_active. is_active) (si_linked_ports (sl_info slave));
     time \<leftarrow> index (recieved_port_time dc) first;
     ret (first, dc\<lparr>latched_local_sys_time := ucast time\<rparr>) }"

definition di_delay :: "Network \<Rightarrow> u16 \<Rightarrow> Slave \<Rightarrow> nat \<Rightarrow> DcContext \<Rightarrow> DcContext rust" where
  "di_delay network pos slave first dc = do {
     inner_loop_duration \<leftarrow>
       (case last_linked_port (si_linked_ports (sl_info slave)) first of
          Some last_port \<Rightarrow> do {
            first_recv_time \<leftarrow> index (recieved_port_time dc) first;
            last_recv_time \<leftarrow> index (recieved_port_time dc) last_port;
            port_elapsed first_recv_time last_recv_time }
        | None \<Rightarrow> ret 0);
     (parent_pos, parent_port) \<leftarrow> parent_port dc;
     parent \<leftarrow> network_slave network (SlavePosition parent_pos);
     (parent, _) \<leftarrow> parent;
     assert (parent_pos \<noteq> pos);
     let parent_dc = dc_context parent;
     parent_next_port \<leftarrow> next_linked_port (si_linked_ports (sl_info parent)) parent_port;
     first_recv_time \<leftarrow> index (recieved_port_time parent_dc) (unat parent_port);
     second_recv_time \<leftarrow> index (recieved_port_time parent_dc) parent_next_port;
     outer_loop_duration \<leftarrow> port_elapsed first_recv_time second_recv_time;
     let parent_delay = dc_delay parent_dc;
     loops \<leftarrow> usub outer_loop_duration inner_loop_duration;
     let delay_delta = loops div 2;
     sum \<leftarrow> uadd parent_delay delay_delta;
     if dc_delay dc = 0 then ret (dc\<lparr>dc_delay := sum\<rparr>)
     else do {
       delay \<leftarrow> uadd (dc_delay dc div 2) (sum div 2);
       ret (dc\<lparr>dc_delay := delay\<rparr>) } }"

definition di_offsets :: "Network \<Rightarrow> Network rust" where
  "di_offsets network = do {
     let max_time = fold (\<lambda>(s, _) m. max m (latched_local_sys_time (dc_context s))) (slaves_list network) 0;
     slaves \<leftarrow> map_dc (\<lambda>dc. do {
         offset \<leftarrow> usub max_time (latched_local_sys_time dc);
         if dc_offset dc = 0 then ret (dc\<lparr>dc_offset := offset\<rparr>)
         else do {
           sum \<leftarrow> uadd (dc_offset dc div 2) (offset div 2);
           ret (dc\<lparr>dc_offset := sum\<rparr>) } }) (nw_slaves network);
     ret (network\<lparr>nw_slaves := slaves\<rparr>) }"

definition di_measure :: "crates \<Rightarrow> nat \<Rightarrow> u16 \<Rightarrow> bytes \<Rightarrow> DcInitTask \<Rightarrow> DcInitTask rust" where
  "di_measure X count pos data t = do {
     slave \<leftarrow> network_slave (di_network t) (SlavePosition pos);
     (slave, _) \<leftarrow> slave;
     (first, dc) \<leftarrow> di_latch X data slave (dc_context slave);
     dc \<leftarrow> (case di_first_dc_slave t of
              Some first_dc_slave \<Rightarrow>
                if first_dc_slave < pos then di_delay (di_network t) pos slave first dc else ret dc
            | None \<Rightarrow> ret dc);
     network \<leftarrow> put_dc (di_network t) pos dc;
     let t = t\<lparr>di_network := network\<rparr>;
     next \<leftarrow> uadd pos 1;
     if next < num_slaves network then ret (t\<lparr>di_state := DiCalculateDelay (count, next)\<rparr>)
     else do {
       network \<leftarrow> di_offsets network;
       let t = t\<lparr>di_network := network\<rparr>;
       if count + 1 < COUNT_MAX then ret (t\<lparr>di_state := DiRequestToLatch (count + 1)\<rparr>)
       else ret (t\<lparr>di_state := (case di_first_dc_slave t of
              Some first_dc_slave \<Rightarrow> DiSetOffset first_dc_slave | None \<Rightarrow> DiComplete)\<rparr>) } }"

definition next_dc_slave :: "Network \<Rightarrow> u16 \<Rightarrow> u16 option" where
  "next_dc_slave network pos =
     map_option of_nat (position (\<lambda>(i, s, _). si_support_dc (sl_info s) \<and> pos < of_nat i)
       (enumerate 0 (slaves_list network)))"

definition di_wkc :: "DcInitTask \<Rightarrow> u16 \<Rightarrow> u16 \<Rightarrow> DcInitTask rust \<Rightarrow> DcInitTask rust" where
  "di_wkc t expected wkc rest =
     (if wkc \<noteq> expected then ret (t\<lparr>di_state := DiError (unexpected_wkc expected wkc)\<rparr>) else rest)"

definition di_check :: "DcInitTask \<Rightarrow> Pdu \<Rightarrow> DcInitTask" where
  "di_check t recv_data =
     (if \<not> (cmd_type (pdu_command recv_data) = cmd_type (di_command t) \<and>
            cmd_ado (pdu_command recv_data) = cmd_ado (di_command t))
      then t\<lparr>di_state := DiError UnexpectedCommand\<rparr> else t)"

definition di_recieve_and_process ::
    "crates \<Rightarrow> DcInitTask \<Rightarrow> Pdu \<Rightarrow> u64 \<Rightarrow> DcInitTask rust" where
  "di_recieve_and_process X t recv_data sys_time = (
     let data = pdu_data recv_data; wkc = pdu_wkc recv_data; t = di_check t recv_data;
         slaves = num_slaves (di_network t); num_dc_slave = of_nat (di_dc_slave_count t) in
     case di_state t of
       DiIdle \<Rightarrow> ret t
     | DiError _ \<Rightarrow> ret t
     | DiComplete \<Rightarrow> ret t
     | DiClearOffset \<Rightarrow> di_wkc t slaves wkc (ret (t\<lparr>di_state := DiClearDelay\<rparr>))
     | DiClearDelay \<Rightarrow> di_wkc t slaves wkc (ret (t\<lparr>di_state := DiRequestToLatch 0\<rparr>))
     | DiRequestToLatch count \<Rightarrow> di_wkc t slaves wkc (ret (t\<lparr>di_state := DiCalculateDelay (count, 0)\<rparr>))
     | DiCalculateDelay (count, pos) \<Rightarrow> di_wkc t 1 wkc (di_measure X count pos data t)
     | DiSetOffset pos \<Rightarrow> di_wkc t 1 wkc
         (case next_dc_slave (di_network t) pos of
            Some next_pos \<Rightarrow> ret (t\<lparr>di_state := DiSetOffset next_pos\<rparr>)
          | None \<Rightarrow> do {
              first \<leftarrow> di_first_dc_slave t;
              ret (t\<lparr>di_state := DiSetDelay first\<rparr>) })
     | DiSetDelay pos \<Rightarrow> di_wkc t 1 wkc
         (case next_dc_slave (di_network t) pos of
            Some next_pos \<Rightarrow> ret (t\<lparr>di_state := DiSetDelay next_pos\<rparr>)
          | None \<Rightarrow> ret (t\<lparr>di_state := DiCompensateDrift 0\<rparr>))
     | DiCompensateDrift count \<Rightarrow> di_wkc t num_dc_slave wkc
         (ret (t\<lparr>di_state := (if count + 1 < DRIFT_COUNT_MIN then DiCompensateDrift (count + 1)
                                else DiCheckDelta)\<rparr>))
     | DiCheckDelta \<Rightarrow> di_wkc t num_dc_slave wkc (do {
         delta \<leftarrow> reg_get X DcSystemTimeDelta ''delta'' data;
         ret (t\<lparr>di_state := (if delta \<le> TARGET_DELTA_NS then DiComplete
                else DiCompensateDrift (if 100 < DRIFT_COUNT_MIN then DRIFT_COUNT_MIN - 100 else 0))\<rparr>) }))"

definition dc_init_ops :: "crates \<Rightarrow> DcInitTask cyclic_task_ops" where
  "dc_init_ops X =
     \<lparr>ct_next_pdu = di_next_pdu X, ct_recieve_and_process = di_recieve_and_process X,
      ct_is_busy = di_is_busy\<rparr>"

definition init_dc ::
    "crates \<Rightarrow> 'd device \<Rightarrow> 'd SocketInterface \<Rightarrow> nat \<Rightarrow> Network \<Rightarrow>
       ((unit TaskError + unit) \<times> 'd SocketInterface \<times> Network) run" where
  "init_dc X dev si handle network =
     and_then (Some (do {
         socket \<leftarrow> get_socket si handle;
         assert (di_buffer_size \<le> length (data_buf socket));
         ret () }))
     (\<lambda>_. and_then (di_start (DcInitTask_new network))
     (\<lambda>t. and_then (block_on X dev (dc_init_ops X) handle si t)
     (\<lambda>(r, si, t). Some (case r of
         Inl e \<Rightarrow> ret (Inl e, si, di_network t)
       | Inr _ \<Rightarrow> do { w \<leftarrow> di_wait t; ret (w, si, di_network t) }))))"

section \<open>Port times\<close>

text \<open>Both branches are the difference modulo \<open>2\<^sup>3\<^sup>2\<close>: the time that passed, if less than one turn of the clock.\<close>

lemma port_elapsed_eq: "port_elapsed a b = Some (b - a)"
proof (cases "a < b")
  case True
  then show ?thesis by (simp add: port_elapsed_def usub_def)
next
  case False
  have ub: "unat (ucast b :: u64) = unat b" and ua: "unat (ucast a :: u64) = unat a"
    by (simp_all add: unsigned_ucast_eq take_bit_unat)
  have lt: "unat a < 0x100000000" "unat b < 0x100000000"
    by (rule less_le_trans [OF unsigned_less], simp)+
  obtain s where s: "uadd 0x100000000 (ucast b :: u64) = Some s" "unat s = 0x100000000 + unat b"
    using lt ub by (simp add: uadd_def unat_word_ariths)
  have le: "(ucast a :: u64) \<le> s" using lt ua s by (simp add: word_le_nat_alt)
  have "ucast (s - ucast a) = b - a"
  proof (rule word_unat_eq_iff [THEN iffD2])
    have "unat (s - ucast a) = 0x100000000 + unat b - unat a" using le s ua by (simp add: unat_sub)
    then have "unat (ucast (s - ucast a) :: u32) = (0x100000000 + unat b - unat a) mod 0x100000000"
      by (simp add: unsigned_ucast_eq take_bit_eq_mod)
    moreover have "unat (b - a) = (0x100000000 + unat b - unat a) mod 0x100000000"
    proof (cases "unat a \<le> unat b")
      case True
      then have "0x100000000 + unat b - unat a = unat b - unat a + 0x100000000" by simp
      then have "(0x100000000 + unat b - unat a) mod 0x100000000 = unat b - unat a"
        using lt by (simp only: mod_add_self2) simp
      with True show ?thesis by (simp add: unat_sub_if_size)
    next
      case False
      then have "(0x100000000 + unat b - unat a) mod 0x100000000 = 0x100000000 + unat b - unat a"
        using lt by (intro mod_less) simp
      with False show ?thesis by (simp add: unat_sub_if_size word_size)
    qed
    ultimately show "unat (ucast (s - ucast a) :: u32) = unat (b - a)" by simp
  qed
  with False s le show ?thesis by (simp add: port_elapsed_def usub_def)
qed

section \<open>The delay of one hop\<close>

text \<open>
  What the receive times of a parent and of its child say when the frame takes \<open>d\<close> from the parent
  to the child and \<open>r\<close> from the child to the end of the line, each way: the frame is back at the
  next port of the parent after \<open>2 (d + r)\<close> and at the last port of the child after \<open>2 r\<close>. The two
  clocks are not related, and either may wrap in between.
\<close>

definition hop_times :: "DcContext \<Rightarrow> nat \<Rightarrow> nat \<Rightarrow> bool list \<Rightarrow> DcContext \<Rightarrow> nat \<Rightarrow> nat \<Rightarrow> nat \<Rightarrow> bool" where
  "hop_times parent port next_port ports child first d r \<longleftrightarrow>
     length (recieved_port_time parent) = 4 \<and> port < 4 \<and> next_port < 4 \<and> 2 * (d + r) < 2 ^ 32 \<and>
     recieved_port_time parent ! next_port = recieved_port_time parent ! port + of_nat (2 * (d + r)) \<and>
     (case last_linked_port ports first of
        None \<Rightarrow> r = 0
      | Some l \<Rightarrow> length (recieved_port_time child) = 4 \<and> first < 4 \<and> l < 4 \<and>
          recieved_port_time child ! l = recieved_port_time child ! first + of_nat (2 * r))"

lemma half_sum_bounds:
  fixes own sum T m :: nat
  assumes "own \<le> T" "T \<le> own + 2 * m + 2" "sum \<le> T" "T \<le> sum + 2 * m"
  shows "own div 2 + sum div 2 \<le> T" "T \<le> own div 2 + sum div 2 + 2 * m + 2"
  using assms by linarith+

lemma di_delay_hop:
  assumes parent: "parent_port dc = Some (pp, port)" "network_slave network (SlavePosition pp) = Some (Some (parent, c))"
      "pp \<noteq> pos" "next_linked_port (si_linked_ports (sl_info parent)) port = Some next_port"
    and times: "hop_times (dc_context parent) (unat port) next_port (si_linked_ports (sl_info slave)) dc first d r"
  shows "di_delay network pos slave first dc = do {
      sum \<leftarrow> uadd (dc_delay (dc_context parent)) (of_nat d);
      if dc_delay dc = 0 then Some (dc\<lparr>dc_delay := sum\<rparr>)
      else do {
        delay \<leftarrow> uadd (dc_delay dc div 2) (sum div 2);
        Some (dc\<lparr>dc_delay := delay\<rparr>) } }"
proof -
  have lt: "2 * (d + r) < 2 ^ 32" using times by (simp add: hop_times_def)
  have inner: "(case last_linked_port (si_linked_ports (sl_info slave)) first of
       Some last_port \<Rightarrow> do {
         first_recv_time \<leftarrow> index (recieved_port_time dc) first;
         last_recv_time \<leftarrow> index (recieved_port_time dc) last_port;
         port_elapsed first_recv_time last_recv_time }
     | None \<Rightarrow> Some 0) = Some (of_nat (2 * r))"
    using times by (auto simp: hop_times_def port_elapsed_eq index_def split: option.splits)
  have outer: "index (recieved_port_time (dc_context parent)) (unat port) =
      Some (recieved_port_time (dc_context parent) ! unat port)"
    "index (recieved_port_time (dc_context parent)) next_port =
      Some (recieved_port_time (dc_context parent) ! unat port + of_nat (2 * (d + r)))"
    using times by (simp_all add: hop_times_def index_def)
  have u: "unat (of_nat (2 * (d + r)) :: u32) = 2 * (d + r)" "unat (of_nat (2 * r) :: u32) = 2 * r"
    "unat (of_nat (2 * d) :: u32) = 2 * d"
    using lt by (auto simp: unat_of_nat simp del: of_nat_mult of_nat_add)
  have "usub (of_nat (2 * (d + r))) (of_nat (2 * r)) = Some (of_nat (2 * d) :: u32)"
    using u by (simp add: usub_def word_le_nat_alt word_unat_eq_iff unat_sub del: of_nat_mult of_nat_add)
  moreover have "(of_nat (2 * d) :: u32) div 2 = of_nat d"
    using lt u by (simp add: word_unat_eq_iff unat_div unat_of_nat del: of_nat_mult of_nat_add)
  ultimately show ?thesis
    unfolding di_delay_def inner using parent
    by (simp add: outer port_elapsed_eq assert_def Let_def del: of_nat_mult of_nat_add)
qed

text \<open>
  C24: the delay computed for a slave is the travel time of the frame. Let the receive times be those
  of a frame that needs \<open>d\<close> ns from the parent to the slave. If the delay of the parent is at most
  \<open>2 m\<close> ns below its true delay, then the delay of the slave is computed without a panic, never
  exceeds the true delay \<open>T\<close> and is at most \<open>2 m + 2\<close> ns below it, in the first measurement and
  in every later one, which is averaged with the result so far; so \<open>2 k\<close> ns for the slave
  \<open>k\<close> hops behind the reference. The first measurement is exact with respect to the parent.
\<close>

theorem dc_delay_is_travel_time:
  assumes parent: "parent_port dc = Some (pp, port)" "network_slave network (SlavePosition pp) = Some (Some (parent, c))"
      "pp \<noteq> pos" "next_linked_port (si_linked_ports (sl_info parent)) port = Some next_port"
    and times: "hop_times (dc_context parent) (unat port) next_port (si_linked_ports (sl_info slave)) dc first d r"
    and p: "p = unat (dc_delay (dc_context parent))" "p + d \<le> T" "T \<le> p + d + 2 * m" "T < 2 ^ 32"
    and own: "dc_delay dc \<noteq> 0 \<Longrightarrow> unat (dc_delay dc) \<le> T \<and> T \<le> unat (dc_delay dc) + 2 * m + 2"
  shows "\<exists>v. di_delay network pos slave first dc = Some (dc\<lparr>dc_delay := v\<rparr>) \<and>
    unat v \<le> T \<and> T \<le> unat v + 2 * m + 2 \<and> (dc_delay dc = 0 \<longrightarrow> unat v = p + d)"
proof -
  have d: "unat (of_nat d :: u32) = d" using p(2,4) by (simp add: unat_of_nat)
  have "unat (dc_delay (dc_context parent)) + unat (of_nat d :: u32) < 2 ^ LENGTH(32)" using p d by simp
  then obtain sum where sum: "uadd (dc_delay (dc_context parent)) (of_nat d) = Some sum" "unat sum = p + d"
    using d p(1) by (auto simp: uadd_def unat_word_ariths)
  show ?thesis
  proof (cases "dc_delay dc = 0")
    case True
    then show ?thesis
      using p(2,3) sum by (intro exI [of _ sum]) (simp add: di_delay_hop [OF parent times])
  next
    case False
    have b: "unat (dc_delay dc) div 2 + (p + d) div 2 \<le> T"
      "T \<le> unat (dc_delay dc) div 2 + (p + d) div 2 + 2 * m + 2"
      using half_sum_bounds [of "unat (dc_delay dc)" T m "p + d"] own [OF False] p(2,3) by auto
    have h: "unat (dc_delay dc div 2) = unat (dc_delay dc) div 2" "unat (sum div 2) = (p + d) div 2"
      by (simp_all add: unat_div sum(2))
    have "unat (dc_delay dc div 2) + unat (sum div 2) < 2 ^ LENGTH(32)" using b(1) p(4) h by simp
    then obtain v where v: "uadd (dc_delay dc div 2) (sum div 2) = Some v"
      "unat v = unat (dc_delay dc) div 2 + (p + d) div 2"
      using h by (auto simp: uadd_def unat_word_ariths)
    with False b sum(1) show ?thesis
      by (intro exI [of _ v]) (simp add: di_delay_hop [OF parent times])
  qed
qed

definition hop_parent :: Slave where
  "hop_parent = Slave_default\<lparr>
     sl_info := SlaveInfo_default\<lparr>si_linked_ports := [True, True, False, False], si_support_dc := True\<rparr>,
     dc_context := DcContext_default\<lparr>recieved_port_time := [0xFFFFFFF0, 0xFFFFFFF0 + 200, 0, 0]\<rparr>\<rparr>"

definition hop_child :: Slave where
  "hop_child = Slave_default\<lparr>
     sl_info := SlaveInfo_default\<lparr>si_linked_ports := [True, False, False, False], si_support_dc := True\<rparr>,
     dc_context := DcContext_default\<lparr>recieved_port_time := [77, 0, 0, 0], parent_port := Some (0, 0)\<rparr>\<rparr>"

theorem dc_delay_is_travel_time_witness:
  "\<exists>v. di_delay (net_of [hop_parent, hop_child] [SlaveConfig_default, SlaveConfig_default]) 1 hop_child 0
        (dc_context hop_child) = Some ((dc_context hop_child)\<lparr>dc_delay := v\<rparr>) \<and> unat v = 100"
proof -
  let ?n = "net_of [hop_parent, hop_child] [SlaveConfig_default, SlaveConfig_default]"
  have n: "network_slave ?n (SlavePosition 0) = Some (Some (hop_parent, SlaveConfig_default))"
    by (subst network_slave_net_of [where a = 0]) (simp_all add: slave_index_def)
  have next_port: "next_linked_port (si_linked_ports (sl_info hop_parent)) 0 = Some 1"
    by (simp add: next_linked_port_def hop_parent_def)
  have times: "hop_times (dc_context hop_parent) (unat (0 :: u8)) 1 (si_linked_ports (sl_info hop_child))
      (dc_context hop_child) 0 100 0"
    by (simp add: hop_times_def hop_parent_def hop_child_def last_linked_port_def)
  have zero: "dc_delay (dc_context hop_child) = 0" "0 = unat (dc_delay (dc_context hop_parent))"
    "parent_port (dc_context hop_child) = Some (0, 0)"
    by (simp_all add: hop_child_def hop_parent_def DcContext_default_def)
  have "\<exists>v. di_delay ?n 1 hop_child 0 (dc_context hop_child) = Some ((dc_context hop_child)\<lparr>dc_delay := v\<rparr>) \<and>
      unat v \<le> 100 \<and> 100 \<le> unat v + 2 * 0 + 2 \<and> (dc_delay (dc_context hop_child) = 0 \<longrightarrow> unat v = 0 + 100)"
  proof (rule dc_delay_is_travel_time [OF zero(3) n _ next_port times zero(2)])
    show "(0 :: u16) \<noteq> 1" by simp
    show "0 + 100 \<le> (100 :: nat)" "100 \<le> 0 + 100 + 2 * (0 :: nat)" "(100 :: nat) < 2 ^ 32" by simp_all
  qed (use zero(1) in simp)
  then obtain v where "di_delay ?n 1 hop_child 0 (dc_context hop_child) = Some ((dc_context hop_child)\<lparr>dc_delay := v\<rparr>)"
    "unat v = 0 + 100"
    using zero(1) by (elim exE conjE) (rule that, assumption, erule mp)
  then show ?thesis by (intro exI [of _ v]) simp
qed

section \<open>The walk over the ports ends\<close>

text \<open>
  Every step of the iterator moves the port of one slave on, so what is left of the ports of all
  slaves falls; visiting a port leaves the ports alone.
\<close>

fun ports_left :: "(Slave option \<times> SlaveConfig) list \<Rightarrow> nat" where
  "ports_left [] = 0"
| "ports_left ((None, _) # slaves) = ports_left slaves"
| "ports_left ((Some s, _) # slaves) = 4 - unat (current_port (dc_context s)) + ports_left slaves"

definition four_ports :: "(Slave option \<times> SlaveConfig) list \<Rightarrow> bool" where
  "four_ports slaves \<longleftrightarrow> (\<forall>(s, c) \<in> set slaves. \<forall>s'. s = Some s' \<longrightarrow> length (si_linked_ports (sl_info s')) = 4)"

lemma ports_left_update:
  "i < length slaves \<Longrightarrow> slaves ! i = (Some s, c) \<Longrightarrow>
     ports_left (slaves[i := (Some s', c')]) + (4 - unat (current_port (dc_context s))) =
     ports_left slaves + (4 - unat (current_port (dc_context s')))"
proof (induction slaves arbitrary: i rule: ports_left.induct)
  case (2 c slaves)
  then show ?case by (cases i) auto
next
  case (3 s c slaves)
  then show ?case by (cases i) auto
qed simp

lemma four_ports_update:
  assumes "four_ports slaves" and "i < length slaves" and "slaves ! i = (Some s, c)"
    and "si_linked_ports (sl_info s') = si_linked_ports (sl_info s)"
  shows "four_ports (slaves[i := (Some s', c')])"
proof -
  have "slaves ! i \<in> set slaves" using assms(2) by simp
  with assms(1,3,4) have "length (si_linked_ports (sl_info s')) = 4" by (auto simp: four_ports_def)
  with assms(1) show ?thesis
    using set_update_subset_insert [of slaves i "(Some s', c')"] by (auto simp: four_ports_def)
qed

lemma position_less: "position P xs = Some i \<Longrightarrow> i < length xs \<and> P (xs ! i)"
proof (induction xs arbitrary: i)
  case (Cons x xs)
  then show ?case by (cases "P x") auto
qed simp

lemma next_linked_port_less:
  assumes "next_linked_port ports q = Some i"
  shows "i < length ports \<and> ports ! i \<and> unat q < i"
proof -
  let ?P = "\<lambda>(port_num, has_port). has_port \<and> unat q < port_num"
  have "i < length (enumerate 0 ports) \<and> ?P (enumerate 0 ports ! i)"
    using assms unfolding next_linked_port_def by (rule position_less)
  then show ?thesis by (auto simp: nth_enumerate_eq)
qed

text \<open>One step of the iterator at the slave \<open>s\<close>.\<close>

lemma RecievedPorts_next_at:
  assumes "unat (rp_position r) < length (rp_slaves r)" and "rp_slaves r ! unat (rp_position r) = (Some s, c)"
  shows "RecievedPorts_next r = do {
    (q, pos') \<leftarrow>
      (case next_linked_port (si_linked_ports (sl_info s)) (current_port (dc_context s)) of
         Some next_port \<Rightarrow> do { q \<leftarrow> uadd (rp_position r) 1; Some (of_nat next_port, q) }
       | None \<Rightarrow> Some (4, if 1 \<le> rp_position r then rp_position r - 1 else rp_position r));
    Some (if unat (rp_position r) < rp_length r \<and> current_port (dc_context s) < 4
          then Some \<lparr>rp_slave_position = rp_position r, rp_port = current_port (dc_context s)\<rparr> else None,
          r\<lparr>rp_slaves := (rp_slaves r)[unat (rp_position r) := (Some (set_current_port q s), c)],
            rp_position := pos'\<rparr>) }"
  using assms by (simp add: RecievedPorts_next_def index_def store_def Let_def cong: Option.bind_cong)

lemma RecievedPorts_next_slave:
  assumes "RecievedPorts_next r = Some q"
  obtains s c where "unat (rp_position r) < length (rp_slaves r)" "rp_slaves r ! unat (rp_position r) = (Some s, c)"
proof -
  obtain x where x: "index (rp_slaves r) (unat (rp_position r)) = Some x"
    using assms unfolding RecievedPorts_next_def Let_def by (elim bindE) (rule that)
  obtain s c where sc: "x = (s, c)" by (cases x)
  note assms [unfolded RecievedPorts_next_def Let_def x sc Option.bind.simps prod.case]
  then obtain s' where "s = Some s'" by (elim bindE) (rule that)
  with x sc show thesis by (intro that) (auto simp: index_def split: if_splits)
qed

lemma RecievedPorts_next_left:
  assumes "RecievedPorts_next r = Some (Some p, r')" and "four_ports (rp_slaves r)"
  shows "ports_left (rp_slaves r') < ports_left (rp_slaves r) \<and> four_ports (rp_slaves r')"
proof -
  let ?i = "unat (rp_position r)"
  obtain s c where i: "?i < length (rp_slaves r)" "rp_slaves r ! ?i = (Some s, c)"
    using assms(1) by (rule RecievedPorts_next_slave)
  obtain q pos' where q: "(case next_linked_port (si_linked_ports (sl_info s)) (current_port (dc_context s)) of
          Some next_port \<Rightarrow> do { q \<leftarrow> uadd (rp_position r) 1; Some (of_nat next_port, q) }
        | None \<Rightarrow> Some (4, if 1 \<le> rp_position r then rp_position r - 1 else rp_position r)) = Some (q, pos')"
    and r': "rp_slaves r' = (rp_slaves r)[?i := (Some (set_current_port q s), c)]"
    and cur: "current_port (dc_context s) < 4"
    using assms(1) unfolding RecievedPorts_next_at [OF i] by (elim bindE) (auto split: if_splits)
  let ?c = "unat (current_port (dc_context s))"
  have lt: "?c < 4" using cur by (simp add: word_less_nat_alt)
  have "?c < unat q \<and> unat q \<le> 4"
  proof (cases "next_linked_port (si_linked_ports (sl_info s)) (current_port (dc_context s))")
    case None
    with q lt show ?thesis by auto
  next
    case (Some n)
    have "(Some s, c) \<in> set (rp_slaves r)" using i by (metis nth_mem)
    with assms(2) have "length (si_linked_ports (sl_info s)) = 4" by (auto simp: four_ports_def)
    with next_linked_port_less [OF Some] have n: "n < 4" "?c < n" by auto
    from Some q have "q = of_nat n" by (auto elim: bindE)
    with n show ?thesis by (simp add: unat_of_nat)
  qed
  then have "4 - unat q < 4 - ?c" using lt by arith
  moreover have "current_port (dc_context (set_current_port q s)) = q" by (simp add: set_current_port_def)
  moreover have "si_linked_ports (sl_info (set_current_port q s)) = si_linked_ports (sl_info s)"
    by (simp add: set_current_port_def)
  note four_ports_update [OF assms(2) i this]
  ultimately show ?thesis
    using ports_left_update [OF i, of "set_current_port q s" c] unfolding r' by simp
qed

lemma put_dc_update:
  assumes "put_dc n pos dc = Some n'"
  obtains s c where "unat pos < length (nw_slaves n)" "nw_slaves n ! unat pos = (Some s, c)"
    "n' = n\<lparr>nw_slaves := (nw_slaves n)[unat pos := (Some (s\<lparr>dc_context := dc\<rparr>), c)]\<rparr>"
  using assms by (cases "nw_slaves n ! unat pos") (auto simp: put_dc_def index_def store_def split: if_splits elim!: bindE)

lemma network_slave_nth:
  assumes "network_slave n (SlavePosition pos) = Some (Some (s, c))"
  shows "unat pos < length (nw_slaves n) \<and> nw_slaves n ! unat pos = (Some s, c)"
  using assms by (cases "nw_slaves n ! unat pos")
    (auto simp: network_slave_def slave_index_def index_def split: if_splits elim!: bindE)

lemma visit_port_left:
  assumes "visit_port p t w = Some (t', w')" and "four_ports (nw_slaves (di_network t))"
  shows "ports_left (nw_slaves (di_network t')) = ports_left (nw_slaves (di_network t)) \<and>
    four_ports (nw_slaves (di_network t'))"
proof -
  obtain s c dc n where s: "network_slave (di_network t) (SlavePosition (rp_slave_position p)) = Some (Some (s, c))"
    and dc: "put_dc (di_network t) (rp_slave_position p) dc = Some n" "current_port dc = current_port (dc_context s)"
    and t': "di_network t' = n"
    using assms(1) by (auto simp: visit_port_def Let_def split: if_splits elim!: bindE)
  from s have i: "unat (rp_slave_position p) < length (nw_slaves (di_network t))"
    "nw_slaves (di_network t) ! unat (rp_slave_position p) = (Some s, c)"
    by (auto dest: network_slave_nth)
  from dc(1) i have n: "nw_slaves n = (nw_slaves (di_network t))[unat (rp_slave_position p) := (Some (s\<lparr>dc_context := dc\<rparr>), c)]"
    by (auto elim!: put_dc_update)
  have "si_linked_ports (sl_info (s\<lparr>dc_context := dc\<rparr>)) = si_linked_ports (sl_info s)" by simp
  note four_ports_update [OF assms(2) i this]
  then show ?thesis
    using ports_left_update [OF i, of "s\<lparr>dc_context := dc\<rparr>" c] dc(2) by (simp add: t' n)
qed

lemma topology_loop_ends:
  assumes "four_ports (rp_slaves r)"
  shows "\<exists>q. topology_loop r t w = Some q"
  using assms
proof (induction "ports_left (rp_slaves r)" arbitrary: r t w rule: less_induct)
  case less
  show ?case
  proof (cases "RecievedPorts_next r")
    case None
    then show ?thesis by (subst topology_loop.simps) simp
  next
    case (Some q)
    obtain recv_port r1 where q: "q = (recv_port, r1)" by (cases q)
    let ?t = "t\<lparr>di_network := (di_network t)\<lparr>nw_slaves := rp_slaves r1\<rparr>\<rparr>"
    show ?thesis
    proof (cases recv_port)
      case None
      with Some q show ?thesis by (subst topology_loop.simps) (simp add: Let_def)
    next
      case (Some p)
      with \<open>RecievedPorts_next r = Some q\<close> q less.prems have
        l: "ports_left (rp_slaves r1) < ports_left (rp_slaves r)" "four_ports (rp_slaves r1)"
        by (auto dest: RecievedPorts_next_left)
      show ?thesis
      proof (cases "visit_port p ?t w")
        case None
        with Some q \<open>RecievedPorts_next r = Some q\<close> show ?thesis
          by (subst topology_loop.simps) (simp add: Let_def)
      next
        case (Some v)
        obtain t' w' where v: "v = (t', w')" by (cases v)
        with Some l visit_port_left [of p ?t w t' w']
        have "ports_left (nw_slaves (di_network t')) < ports_left (rp_slaves r)" "four_ports (nw_slaves (di_network t'))"
          by auto
        then have "\<exists>q. topology_loop (r1\<lparr>rp_slaves := nw_slaves (di_network t')\<rparr>) t' w' = Some q"
          by (intro less.hyps) simp_all
        with Some v q \<open>recv_port = Some p\<close> \<open>RecievedPorts_next r = Some q\<close> show ?thesis
          by (subst topology_loop.simps) (simp add: Let_def)
      qed
    qed
  qed
qed

section \<open>Slaves on a line\<close>

lemma position_snoc:
  "position P (xs @ [x]) = (case position P xs of Some i \<Rightarrow> Some i | None \<Rightarrow> if P x then Some (length xs) else None)"
  by (induction xs) (auto split: option.splits)

lemma position_none: "position P xs = None \<longleftrightarrow> (\<forall>x \<in> set xs. \<not> P x)"
  by (induction xs) auto

lemma for_each_append: "for_each f s (xs @ ys) = do { s \<leftarrow> for_each f s xs; for_each f s ys }"
proof (induction xs arbitrary: s)
  case (Cons x xs)
  then show ?case by (cases "f s x") auto
qed simp

text \<open>The slaves \<open>ss\<close> with the clock contexts \<open>f\<close>.\<close>

definition clocked :: "Slave list \<Rightarrow> (nat \<Rightarrow> DcContext) \<Rightarrow> Slave list" where
  "clocked ss f = map (\<lambda>k. (ss ! k)\<lparr>dc_context := f k\<rparr>) [0..<length ss]"

definition at_slave :: "Slave list \<Rightarrow> SlaveConfig list \<Rightarrow> (nat \<Rightarrow> DcContext) \<Rightarrow> nat \<Rightarrow> RecievedPorts" where
  "at_slave ss cs f k =
     \<lparr>rp_slaves = nw_slaves (net_of (clocked ss f) cs), rp_position = of_nat k, rp_length = length ss\<rparr>"

abbreviation links :: "Slave \<Rightarrow> bool list" where
  "links s \<equiv> si_linked_ports (sl_info s)"

abbreviation has_dc :: "Slave \<Rightarrow> bool" where
  "has_dc s \<equiv> si_support_dc (sl_info s)"

lemma length_clocked [simp]: "length (clocked ss f) = length ss"
  by (simp add: clocked_def)

lemma nth_clocked [simp]: "k < length ss \<Longrightarrow> clocked ss f ! k = (ss ! k)\<lparr>dc_context := f k\<rparr>"
  by (simp add: clocked_def)

lemma net_of_clocked_nth:
  "k < length ss \<Longrightarrow> length ss \<le> length cs \<Longrightarrow>
     nw_slaves (net_of (clocked ss f) cs) ! k = (Some ((ss ! k)\<lparr>dc_context := f k\<rparr>), cs ! k)"
  by (simp add: net_of_def nth_append)

lemma clocked_update:
  assumes "k < length ss" and "length ss \<le> length cs"
  shows "(nw_slaves (net_of (clocked ss f) cs))[k := (Some ((ss ! k)\<lparr>dc_context := dc\<rparr>), cs ! k)] =
    nw_slaves (net_of (clocked ss (f(k := dc))) cs)"
proof -
  have m: "clocked ss (f(k := dc)) = (clocked ss f)[k := (ss ! k)\<lparr>dc_context := dc\<rparr>]"
    by (rule nth_equalityI) (auto simp: nth_list_update)
  have "map2 (\<lambda>s c. (Some s, c)) ((clocked ss f)[k := x]) cs = (map2 (\<lambda>s c. (Some s, c)) (clocked ss f) cs)[k := (Some x, cs ! k)]" for x
    using assms by (intro nth_equalityI) (auto simp: nth_list_update)
  with assms show ?thesis by (simp add: net_of_def m list_update_append)
qed

lemma push_count_clocked [simp]: "push_count (net_of (clocked ss f) cs) = of_nat (length ss)"
  by (simp add: net_of_def)

lemma net_of_slaves [simp]: "(net_of (clocked ss g) cs)\<lparr>nw_slaves := nw_slaves (net_of (clocked ss f) cs)\<rparr> = net_of (clocked ss f) cs"
  by (simp add: net_of_def)

text \<open>What a visit writes into the context of the slave.\<close>

definition visited :: "wiring \<Rightarrow> DcContext \<Rightarrow> DcContext" where
  "visited w dc =
     (if first_slave w = None then dc\<lparr>parent_port := None\<rparr>
      else if parent_port dc = None then dc\<lparr>parent_port := Some (last_recv_slave w, last_recv_port w)\<rparr>
      else dc)"

lemma visit_at:
  assumes k: "k < length ss" and len: "length ss \<le> length cs" "length ss \<le> 65535"
    and t: "di_network t = net_of (clocked ss f) cs"
  shows "visit_port \<lparr>rp_slave_position = of_nat k, rp_port = p\<rparr> t w =
    Some (t\<lparr>di_first_dc_slave := (if has_dc (ss ! k) \<and> di_first_dc_slave t = None then Some (of_nat k) else di_first_dc_slave t),
            di_network := net_of (clocked ss (f(k := visited w (f k)))) cs\<rparr>,
          w\<lparr>first_slave := (if first_slave w = None then Some (of_nat k) else first_slave w),
            last_recv_slave := of_nat k, last_recv_port := p\<rparr>)"
proof -
  have u: "unat (of_nat k :: u16) = k" using k len(2) by (simp add: unat_of_nat)
  have ns: "network_slave (net_of (clocked ss f) cs) (SlavePosition (of_nat k)) =
      Some (Some ((ss ! k)\<lparr>dc_context := f k\<rparr>, cs ! k))"
    using network_slave_net_of [of "clocked ss f" cs "SlavePosition (of_nat k)" "of_nat k"] k len
    by (simp add: slave_index_def u)
  have put: "put_dc (net_of (clocked ss f) cs) (of_nat k) dc = Some (net_of (clocked ss (f(k := dc))) cs)" for dc
  proof -
    have "k < length (nw_slaves (net_of (clocked ss f) cs))" using k len by (simp add: net_of_def)
    then show ?thesis
      using k len by (simp add: put_dc_def index_def store_def u net_of_clocked_nth clocked_update)
  qed
  show ?thesis
    by (cases "first_slave w") (simp_all add: visit_port_def t ns put visited_def Let_def)
qed

lemma topology_step:
  assumes k: "k < length ss" and len: "length ss \<le> length cs" "length ss \<le> 65535"
    and cur: "current_port (f k) < 4"
    and move: "case next_linked_port (links (ss ! k)) (current_port (f k)) of
        Some b \<Rightarrow> q = of_nat b \<and> k' = Suc k | None \<Rightarrow> q = 4 \<and> k' = k - 1"
    and f': "f' = f(k := visited w ((f k)\<lparr>current_port := q\<rparr>))"
    and t: "di_network t = net_of (clocked ss g) cs"
  shows "topology_loop (at_slave ss cs f k) t w =
    topology_loop (at_slave ss cs f' k')
      (t\<lparr>di_first_dc_slave := (if has_dc (ss ! k) \<and> di_first_dc_slave t = None then Some (of_nat k) else di_first_dc_slave t),
         di_network := net_of (clocked ss f') cs\<rparr>)
      (w\<lparr>first_slave := (if first_slave w = None then Some (of_nat k) else first_slave w),
         last_recv_slave := of_nat k, last_recv_port := current_port (f k)\<rparr>)"
proof -
  have u: "unat (of_nat k :: u16) = k" using k len(2) by (simp add: unat_of_nat)
  have i: "unat (rp_position (at_slave ss cs f k)) < length (rp_slaves (at_slave ss cs f k))"
    "rp_slaves (at_slave ss cs f k) ! unat (rp_position (at_slave ss cs f k)) = (Some ((ss ! k)\<lparr>dc_context := f k\<rparr>), cs ! k)"
    using k len by (simp_all add: at_slave_def u net_of_clocked_nth) (simp add: net_of_def)
  have pos: "(case next_linked_port (links (ss ! k)) (current_port (f k)) of
         Some next_port \<Rightarrow> do { q \<leftarrow> uadd (of_nat k :: u16) 1; Some (of_nat next_port, q) }
       | None \<Rightarrow> Some (4, if 1 \<le> (of_nat k :: u16) then of_nat k - 1 else of_nat k)) = Some (q, of_nat k' :: u16)"
  proof (cases "next_linked_port (links (ss ! k)) (current_port (f k))")
    case None
    then show ?thesis using move u k by (cases k) (auto simp: word_le_nat_alt)
  next
    case (Some b)
    moreover have "uadd (of_nat k :: u16) 1 = Some (of_nat (Suc k))"
      using u k len(2) by (intro uadd_of_nat) simp_all
    ultimately show ?thesis using move by simp
  qed
  let ?g = "f(k := (f k)\<lparr>current_port := q\<rparr>)"
  have rp: "rp_position (at_slave ss cs f k) = of_nat k" by (simp add: at_slave_def)
  have next_port: "RecievedPorts_next (at_slave ss cs f k) =
      Some (Some \<lparr>rp_slave_position = of_nat k, rp_port = current_port (f k)\<rparr>, at_slave ss cs ?g k')"
    unfolding RecievedPorts_next_at [OF i] rp
    using k len cur u pos clocked_update [OF k len(1), of f "(f k)\<lparr>current_port := q\<rparr>"]
    by (simp add: at_slave_def set_current_port_def)
  let ?t = "t\<lparr>di_network := net_of (clocked ss ?g) cs\<rparr>"
  have v: "visit_port \<lparr>rp_slave_position = of_nat k, rp_port = current_port (f k)\<rparr> ?t w =
    Some (?t\<lparr>di_first_dc_slave := (if has_dc (ss ! k) \<and> di_first_dc_slave ?t = None then Some (of_nat k) else di_first_dc_slave ?t),
            di_network := net_of (clocked ss (?g(k := visited w (?g k)))) cs\<rparr>,
          w\<lparr>first_slave := (if first_slave w = None then Some (of_nat k) else first_slave w),
            last_recv_slave := of_nat k, last_recv_port := current_port (f k)\<rparr>)"
    by (rule visit_at [OF k len]) simp
  have g: "?g(k := visited w (?g k)) = f'" by (simp add: f')
  have ts: "t\<lparr>di_network := (di_network t)\<lparr>nw_slaves := rp_slaves (at_slave ss cs ?g k')\<rparr>\<rparr> = ?t"
    by (simp add: at_slave_def t)
  show ?thesis
    unfolding topology_loop.simps [of "at_slave ss cs f k"] next_port option.case prod.case Let_def ts v [unfolded g]
    by (simp add: at_slave_def)
qed

text \<open>At the end the walk is back at the first slave, whose ports are all done.\<close>

lemma topology_stop:
  assumes n: "0 < length ss" and len: "length ss \<le> length cs"
    and f: "current_port (f 0) = 4" "length (links (ss ! 0)) = 4" and t: "di_network t = net_of (clocked ss f) cs"
  shows "\<exists>r. topology_loop (at_slave ss cs f 0) t w = Some (Some (r, t))"
proof -
  have i: "unat (rp_position (at_slave ss cs f 0)) < length (rp_slaves (at_slave ss cs f 0))"
    "rp_slaves (at_slave ss cs f 0) ! unat (rp_position (at_slave ss cs f 0)) = (Some ((ss ! 0)\<lparr>dc_context := f 0\<rparr>), cs ! 0)"
    using n len by (auto simp: at_slave_def net_of_clocked_nth) (auto simp: net_of_def clocked_def)
  have no: "next_linked_port (links (ss ! 0)) 4 = None"
  proof (rule ccontr)
    assume "next_linked_port (links (ss ! 0)) 4 \<noteq> None"
    then obtain b where "next_linked_port (links (ss ! 0)) 4 = Some b" by blast
    from next_linked_port_less [OF this] f(2) have "b < 4 \<and> 4 < b" by simp
    then show False by linarith
  qed
  have "f(0 := (f 0)\<lparr>current_port := 4\<rparr>) = f" using f(1) by auto
  with clocked_update [OF n len, of f "(f 0)\<lparr>current_port := 4\<rparr>"]
  have up: "(nw_slaves (net_of (clocked ss f) cs))[0 := (Some ((ss ! 0)\<lparr>dc_context := (f 0)\<lparr>current_port := 4\<rparr>\<rparr>), cs ! 0)] =
    nw_slaves (net_of (clocked ss f) cs)" by simp
  have rp: "rp_position (at_slave ss cs f 0) = 0" by (simp add: at_slave_def)
  have next_port: "RecievedPorts_next (at_slave ss cs f 0) = Some (None, at_slave ss cs f 0)"
    unfolding RecievedPorts_next_at [OF i] rp
    using no up f(1) by (simp add: at_slave_def set_current_port_def)
  have ts: "t\<lparr>di_network := (di_network t)\<lparr>nw_slaves := rp_slaves (at_slave ss cs f 0)\<rparr>\<rparr> = t"
    by (simp add: at_slave_def t)
  show ?thesis
    unfolding topology_loop.simps [of "at_slave ss cs f 0"] next_port option.case prod.case Let_def ts by simp
qed

text \<open>On the way back the parents are known and no slave is new, but the first slave gets a parent.\<close>

definition same_parent :: "nat \<Rightarrow> DcContext \<Rightarrow> DcContext \<Rightarrow> bool" where
  "same_parent k dc dc' \<longleftrightarrow> dc'\<lparr>current_port := 0, parent_port := None\<rparr> = dc\<lparr>current_port := 0, parent_port := None\<rparr> \<and>
     (0 < k \<longrightarrow> parent_port dc' = parent_port dc)"

lemma topology_step_back:
  assumes k: "k < length ss" and len: "length ss \<le> length cs" "length ss \<le> 65535"
    and cur: "current_port (f k) < 4" "next_linked_port (links (ss ! k)) (current_port (f k)) = None"
    and dc: "has_dc (ss ! k) \<Longrightarrow> di_first_dc_slave t \<noteq> None"
    and t: "di_network t = net_of (clocked ss f) cs" and w: "first_slave w = Some 0"
    and f': "f' = f(k := visited w ((f k)\<lparr>current_port := 4\<rparr>))"
  shows "topology_loop (at_slave ss cs f k) t w =
    topology_loop (at_slave ss cs f' (k - 1)) (t\<lparr>di_network := net_of (clocked ss f') cs\<rparr>)
      (w\<lparr>last_recv_slave := of_nat k, last_recv_port := current_port (f k)\<rparr>)"
proof -
  have d: "(if has_dc (ss ! k) \<and> di_first_dc_slave t = None then Some (of_nat k) else di_first_dc_slave t) =
      di_first_dc_slave t" using dc by auto
  have m: "case next_linked_port (links (ss ! k)) (current_port (f k)) of
      Some b \<Rightarrow> (4 :: u8) = of_nat b \<and> k - 1 = Suc k | None \<Rightarrow> (4 :: u8) = 4 \<and> k - 1 = k - 1"
    using cur(2) by simp
  have w'': "w\<lparr>first_slave := (if first_slave w = None then Some (of_nat k) else first_slave w),
      last_recv_slave := of_nat k, last_recv_port := p\<rparr> = w\<lparr>last_recv_slave := of_nat k, last_recv_port := p\<rparr>" for p
    using w by (cases w) simp
  show ?thesis
    using topology_step [OF k len cur(1) m f' t] unfolding d w'' by simp
qed

lemma topology_back:
  assumes len: "length ss \<le> length cs" "length ss \<le> 65535" and "k < length ss"
    and four: "length (links (ss ! 0)) = 4"
    and "\<And>j. j \<le> k \<Longrightarrow> current_port (f j) < 4 \<and> next_linked_port (links (ss ! j)) (current_port (f j)) = None \<and>
      (0 < j \<longrightarrow> parent_port (f j) \<noteq> None)"
    and dc: "\<And>j. j < length ss \<Longrightarrow> has_dc (ss ! j) \<Longrightarrow> di_first_dc_slave t \<noteq> None"
    and "di_network t = net_of (clocked ss f) cs" and "first_slave w = Some 0"
  shows "\<exists>r f'. topology_loop (at_slave ss cs f k) t w =
      Some (Some (r, t\<lparr>di_network := net_of (clocked ss f') cs\<rparr>)) \<and> (\<forall>j. same_parent j (f j) (f' j))"
  using assms(3,5-)
proof (induction k arbitrary: f t w)
  case (0 f t w)
  let ?f = "f(0 := visited w ((f 0)\<lparr>current_port := 4\<rparr>))"
  have f: "current_port (f 0) < 4" "next_linked_port (links (ss ! 0)) (current_port (f 0)) = None"
    using 0(2) [of 0] by auto
  let ?t = "t\<lparr>di_network := net_of (clocked ss ?f) cs\<rparr>"
  have "has_dc (ss ! 0) \<Longrightarrow> di_first_dc_slave t \<noteq> None" using 0(1,3) by blast
  then have step: "\<exists>w'. topology_loop (at_slave ss cs f 0) t w = topology_loop (at_slave ss cs ?f 0) ?t w'"
    using topology_step_back [where k = 0 and f = f and f' = ?f and w = w, OF 0(1) len f _ 0(4,5)] by auto
  have "\<exists>r. topology_loop (at_slave ss cs ?f 0) ?t w' = Some (Some (r, ?t))" for w'
    by (rule topology_stop) (use 0(1) len four in \<open>simp_all add: visited_def\<close>)
  moreover have "same_parent j (f j) (?f j)" for j
    by (auto simp: same_parent_def visited_def)
  ultimately show ?case using step by (metis (no_types))
next
  case (Suc k f t w)
  let ?f = "f(Suc k := (f (Suc k))\<lparr>current_port := 4\<rparr>)"
  have f: "current_port (f (Suc k)) < 4" "next_linked_port (links (ss ! Suc k)) (current_port (f (Suc k))) = None"
    "parent_port (f (Suc k)) \<noteq> None"
    using Suc(3) [of "Suc k"] by auto
  then have vis: "visited w ((f (Suc k))\<lparr>current_port := 4\<rparr>) = (f (Suc k))\<lparr>current_port := 4\<rparr>"
    using Suc(6) by (simp add: visited_def)
  let ?t = "t\<lparr>di_network := net_of (clocked ss ?f) cs\<rparr>"
  have d: "has_dc (ss ! Suc k) \<Longrightarrow> di_first_dc_slave t \<noteq> None" using Suc(2,4) by blast
  let ?w = "w\<lparr>last_recv_slave := of_nat (Suc k), last_recv_port := current_port (f (Suc k))\<rparr>"
  have step: "topology_loop (at_slave ss cs f (Suc k)) t w = topology_loop (at_slave ss cs ?f k) ?t ?w"
    using topology_step_back [where k = "Suc k" and f = f and f' = ?f and w = w, OF Suc(2) len f(1,2) d Suc(5,6)] vis
    by simp
  have "\<exists>r f'. topology_loop (at_slave ss cs ?f k) ?t ?w =
      Some (Some (r, ?t\<lparr>di_network := net_of (clocked ss f') cs\<rparr>)) \<and> (\<forall>j. same_parent j (?f j) (f' j))"
  proof (rule Suc.IH)
    show "current_port (?f j) < 4 \<and> next_linked_port (links (ss ! j)) (current_port (?f j)) = None \<and>
      (0 < j \<longrightarrow> parent_port (?f j) \<noteq> None)" if "j \<le> k" for j
      using that Suc(3) [of j] by simp
    show "has_dc (ss ! j) \<Longrightarrow> di_first_dc_slave ?t \<noteq> None" if "j < length ss" for j
      using Suc(4) [OF that] by simp
  qed (use Suc(2,6) in \<open>simp_all add: fun_upd_def\<close>)
  then obtain r f' where r: "topology_loop (at_slave ss cs ?f k) ?t ?w =
      Some (Some (r, ?t\<lparr>di_network := net_of (clocked ss f') cs\<rparr>))" "\<forall>j. same_parent j (?f j) (f' j)" by blast
  have "same_parent j (f j) (f' j)" for j
    using r(2) [rule_format, of j] by (auto simp: same_parent_def split: if_splits)
  with r(1) step show ?case by auto
qed

text \<open>
  Slaves on a line: every slave has two linked ports, towards the master and to the next slave, but
  the last one only has the first of them.
\<close>

definition on_line :: "Slave list \<Rightarrow> bool" where
  "on_line ss \<longleftrightarrow> ss \<noteq> [] \<and>
     (\<forall>k < length ss. length (links (ss ! k)) = 4 \<and>
        length (filter id (links (ss ! k))) = (if Suc k < length ss then 2 else 1))"

definition down_port :: "Slave \<Rightarrow> nat" where
  "down_port s = (case next_linked_port (links s) (of_nat (first_port s)) of Some b \<Rightarrow> b | None \<Rightarrow> 4)"

lemma list4E:
  assumes "length xs = 4"
  obtains a b c d where "xs = [a, b, c, d]"
  using assms by (auto simp: numeral_eq_Suc length_Suc_conv)

lemma first_port_line:
  assumes "length (links s) = 4" and "length (filter id (links s)) \<in> {1, 2}"
  shows "first_port s < 4 \<and> unat (of_nat (first_port s) :: u8) = first_port s"
proof -
  obtain a b c d where l: "links s = [a, b, c, d]" using assms(1) by (rule list4E)
  show ?thesis using assms(2) unfolding first_port_def l by (cases a; cases b; cases c; cases d) simp_all
qed

lemma down_port_line:
  assumes "length (links s) = 4" and "length (filter id (links s)) = 2"
  shows "down_port s < 4 \<and> next_linked_port (links s) (of_nat (first_port s)) = Some (down_port s) \<and>
    next_linked_port (links s) (of_nat (down_port s)) = None"
proof -
  obtain a b c d where l: "links s = [a, b, c, d]" using assms(1) by (rule list4E)
  show ?thesis using assms(2) unfolding down_port_def first_port_def next_linked_port_def l
    by (cases a; cases b; cases c; cases d) simp_all
qed

lemma last_port_line:
  assumes "length (links s) = 4" and "length (filter id (links s)) = 1"
  shows "next_linked_port (links s) (of_nat (first_port s)) = None"
proof -
  obtain a b c d where l: "links s = [a, b, c, d]" using assms(1) by (rule list4E)
  show ?thesis using assms(2) unfolding first_port_def next_linked_port_def l
    by (cases a; cases b; cases c; cases d) simp_all
qed

text \<open>The contexts after the first \<open>k\<close> slaves have been visited for the first time.\<close>

definition line_clocks :: "Slave list \<Rightarrow> nat \<Rightarrow> nat \<Rightarrow> DcContext" where
  "line_clocks ss k j = DcContext_default\<lparr>
     parent_port := (if j < k \<and> 0 < j then Some (of_nat (j - 1), of_nat (first_port (ss ! (j - 1)))) else None),
     current_port := of_nat (if j < k then down_port (ss ! j) else first_port (ss ! j))\<rparr>"

definition line_wiring :: "Slave list \<Rightarrow> nat \<Rightarrow> wiring \<Rightarrow> bool" where
  "line_wiring ss k w \<longleftrightarrow>
     (if k = 0 then first_slave w = None
      else w = \<lparr>last_recv_slave = of_nat (k - 1), last_recv_port = of_nat (first_port (ss ! (k - 1))),
                first_slave = Some 0\<rparr>)"

definition first_dc :: "Slave list \<Rightarrow> u16 option" where
  "first_dc ss = map_option of_nat (position (\<lambda>s. has_dc s) ss)"

lemma first_dc_Suc:
  assumes "k < length ss"
  shows "(if has_dc (ss ! k) \<and> first_dc (take k ss) = None then Some (of_nat k) else first_dc (take k ss)) =
    first_dc (take (Suc k) ss)"
  using assms by (auto simp: first_dc_def take_Suc_conv_app_nth position_snoc split: option.splits)

lemma line_visit:
  assumes "line_wiring ss k w"
  shows "visited w ((line_clocks ss k k)\<lparr>current_port := q\<rparr>) = DcContext_default\<lparr>
     parent_port := (if 0 < k then Some (of_nat (k - 1), of_nat (first_port (ss ! (k - 1)))) else None),
     current_port := q\<rparr>"
  using assms by (auto simp: line_wiring_def visited_def line_clocks_def DcContext_default_def split: if_splits)

lemma topology_forward:
  assumes line: "on_line ss" and len: "length ss \<le> length cs" "length ss \<le> 65535" and "k < length ss"
    and t: "di_network t = net_of (clocked ss g) cs" "di_first_dc_slave t = None" and w: "first_slave w = None"
  shows "\<exists>g w'. topology_loop (at_slave ss cs (line_clocks ss 0) 0) t w =
      topology_loop (at_slave ss cs (line_clocks ss k) k)
        (t\<lparr>di_first_dc_slave := first_dc (take k ss), di_network := net_of (clocked ss g) cs\<rparr>) w' \<and>
    line_wiring ss k w'"
  using assms(4)
proof (induction k)
  case 0
  have "t\<lparr>di_first_dc_slave := None, di_network := net_of (clocked ss g) cs\<rparr> = t" using t by (cases t) simp
  with w show ?case by (intro exI [of _ g] exI [of _ w]) (simp add: first_dc_def line_wiring_def)
next
  case (Suc k)
  then obtain g w' where ih: "topology_loop (at_slave ss cs (line_clocks ss 0) 0) t w =
      topology_loop (at_slave ss cs (line_clocks ss k) k)
        (t\<lparr>di_first_dc_slave := first_dc (take k ss), di_network := net_of (clocked ss g) cs\<rparr>) w'"
    "line_wiring ss k w'" by auto
  have k: "k < length ss" "length (links (ss ! k)) = 4" "length (filter id (links (ss ! k))) = 2"
    using Suc.prems line by (simp_all add: on_line_def)
  note fp = first_port_line [of "ss ! k"] and dp = down_port_line [OF k(2,3)]
  have cur: "current_port (line_clocks ss k k) = of_nat (first_port (ss ! k))" by (simp add: line_clocks_def)
  have lt: "current_port (line_clocks ss k k) < 4" using fp k(2,3) by (simp add: cur word_less_nat_alt)
  have move: "case next_linked_port (links (ss ! k)) (current_port (line_clocks ss k k)) of
      Some b \<Rightarrow> (of_nat (down_port (ss ! k)) :: u8) = of_nat b \<and> Suc k = Suc k
    | None \<Rightarrow> (of_nat (down_port (ss ! k)) :: u8) = 4 \<and> Suc k = k - 1"
    using dp by (simp add: cur)
  have f': "line_clocks ss (Suc k) = (line_clocks ss k)
      (k := visited w' ((line_clocks ss k k)\<lparr>current_port := of_nat (down_port (ss ! k))\<rparr>))"
    unfolding line_visit [OF ih(2)] by (rule ext) (auto simp: line_clocks_def less_Suc_eq)
  let ?t = "t\<lparr>di_first_dc_slave := first_dc (take k ss), di_network := net_of (clocked ss g) cs\<rparr>"
  have t': "di_network ?t = net_of (clocked ss g) cs" by simp
  note st = topology_step [OF k(1) len lt move f' t']
  have "line_wiring ss (Suc k) (w'\<lparr>first_slave := (if first_slave w' = None then Some (of_nat k) else first_slave w'),
         last_recv_slave := of_nat k, last_recv_port := current_port (line_clocks ss k k)\<rparr>)"
    using ih(2) cur by (cases w'; cases "k = 0") (auto simp: line_wiring_def)
  moreover have "?t\<lparr>di_first_dc_slave := (if has_dc (ss ! k) \<and> di_first_dc_slave ?t = None then Some (of_nat k)
         else di_first_dc_slave ?t), di_network := net_of (clocked ss (line_clocks ss (Suc k))) cs\<rparr> =
      t\<lparr>di_first_dc_slave := first_dc (take (Suc k) ss), di_network := net_of (clocked ss (line_clocks ss (Suc k))) cs\<rparr>"
    by (simp add: first_dc_Suc [OF k(1), symmetric])
  ultimately show ?case using ih(1) st by metis
qed

lemma map_dc_net:
  assumes "length ss \<le> length cs"
  shows "map_dc (\<lambda>_. Some dc) (nw_slaves (net_of ss cs)) = Some (nw_slaves (net_of (clocked ss (\<lambda>_. dc)) cs))"
proof -
  have "map_dc (\<lambda>_. Some dc) (map2 (\<lambda>s c. (Some s, c)) ss cs @ map (Pair None) ds) =
      Some (map2 (\<lambda>s c. (Some s, c)) (map (\<lambda>s. s\<lparr>dc_context := dc\<rparr>) ss) cs @ map (Pair None) ds)"
    for ds using assms
  proof (induction ss arbitrary: cs)
    case Nil
    show ?case by (induction ds) simp_all
  next
    case (Cons s ss)
    then show ?case by (cases cs) auto
  qed
  moreover have "clocked ss (\<lambda>_. dc) = map (\<lambda>s. s\<lparr>dc_context := dc\<rparr>) ss"
    by (rule nth_equalityI) simp_all
  ultimately show ?thesis by (simp add: net_of_def)
qed

lemma RecievedPorts_new_net:
  assumes "length ss \<le> length cs"
  shows "RecievedPorts_new (nw_slaves (net_of (clocked ss (\<lambda>_. DcContext_default)) cs)) =
    at_slave ss cs (line_clocks ss 0) 0"
proof -
  have "map (\<lambda>(s, c). (map_option (\<lambda>s. set_current_port (of_nat (first_port s)) s) s, c))
      (nw_slaves (net_of (clocked ss (\<lambda>_. DcContext_default)) cs)) = nw_slaves (net_of (clocked ss (line_clocks ss 0)) cs)"
  proof (rule nth_equalityI)
    fix i
    assume i: "i < length (map (\<lambda>(s, c). (map_option (\<lambda>s. set_current_port (of_nat (first_port s)) s) s, c))
      (nw_slaves (net_of (clocked ss (\<lambda>_. DcContext_default)) cs)))"
    have f: "first_port (s\<lparr>dc_context := dc\<rparr>) = first_port s" for s dc by (simp add: first_port_def)
    show "map (\<lambda>(s, c). (map_option (\<lambda>s. set_current_port (of_nat (first_port s)) s) s, c))
        (nw_slaves (net_of (clocked ss (\<lambda>_. DcContext_default)) cs)) ! i =
      nw_slaves (net_of (clocked ss (line_clocks ss 0)) cs) ! i"
      using i assms by (cases "i < length ss")
        (auto simp: net_of_def nth_append set_current_port_def line_clocks_def DcContext_default_def f)
  qed (simp add: net_of_def)
  moreover have "filter (\<lambda>(s, c). s \<noteq> None) (map2 (\<lambda>s c. (Some s, c)) xs cs) = map2 (\<lambda>s c. (Some s, c)) xs cs"
    for xs :: "Slave list" by (rule filter_True) (auto simp: set_zip)
  moreover have "filter (\<lambda>(s, c). s \<noteq> None) (map (Pair (None :: Slave option)) ds) = []" for ds :: "SlaveConfig list"
    by (rule filter_False) auto
  ultimately show ?thesis using assms by (simp add: RecievedPorts_new_def at_slave_def net_of_def)
qed

lemma count_dc_net:
  assumes "length ss \<le> length cs" "length ss \<le> 65535"
  shows "count_dc (net_of (clocked ss f) cs) = Some (length (filter (\<lambda>s. has_dc s) ss))"
proof -
  let ?step = "\<lambda>n i. do {
         slave \<leftarrow> network_slave (net_of (clocked ss f) cs) (SlavePosition (of_nat i));
         (slave, _) \<leftarrow> slave;
         Some (if has_dc slave then n + 1 else n) }"
  have "for_each ?step 0 [0..<m] = Some (length (filter (\<lambda>s. has_dc s) (take m ss)))" if "m \<le> length ss" for m
    using that
  proof (induction m)
    case (Suc m)
    have u: "unat (of_nat m :: u16) = m" using Suc.prems assms(2) by (simp add: unat_of_nat)
    have "network_slave (net_of (clocked ss f) cs) (SlavePosition (of_nat m)) =
        Some (Some ((ss ! m)\<lparr>dc_context := f m\<rparr>, cs ! m))"
      using network_slave_net_of [of "clocked ss f" cs "SlavePosition (of_nat m)" "of_nat m"] Suc.prems assms
      by (simp add: slave_index_def u)
    with Suc show ?case by (simp add: for_each_append take_Suc_conv_app_nth)
  qed simp
  note this [of "length ss"]
  moreover have "unat (num_slaves (net_of (clocked ss f) cs)) = length ss"
    using assms(2) by (simp add: num_slaves_def unat_of_nat)
  ultimately show ?thesis by (simp add: count_dc_def)
qed

lemma topology_line:
  assumes line: "on_line ss" and len: "length ss \<le> length cs" "length ss \<le> 65535"
    and t: "di_network t = net_of (clocked ss g) cs" "di_first_dc_slave t = None" and w: "first_slave w = None"
  shows "\<exists>r f. topology_loop (at_slave ss cs (line_clocks ss 0) 0) t w =
      Some (Some (r, t\<lparr>di_first_dc_slave := first_dc ss, di_network := net_of (clocked ss f) cs\<rparr>)) \<and>
    (\<forall>j < length ss. same_parent j (line_clocks ss (length ss) j) (f j))"
proof -
  obtain n where n: "length ss = Suc n" using line by (cases ss) (auto simp: on_line_def)
  then have n': "n < length ss" by simp
  have ports: "length (links (ss ! j)) = 4" "length (filter id (links (ss ! j))) = (if j < n then 2 else 1)" if "j \<le> n" for j
    using line that n by (auto simp: on_line_def)
  obtain g w' where fw: "topology_loop (at_slave ss cs (line_clocks ss 0) 0) t w =
      topology_loop (at_slave ss cs (line_clocks ss n) n)
        (t\<lparr>di_first_dc_slave := first_dc (take n ss), di_network := net_of (clocked ss g) cs\<rparr>) w'"
    "line_wiring ss n w'"
    using topology_forward [OF line len n' t w] by blast
  let ?t = "t\<lparr>di_first_dc_slave := first_dc (take n ss), di_network := net_of (clocked ss g) cs\<rparr>"
  define f where "f = (line_clocks ss n)(n := visited w' ((line_clocks ss n n)\<lparr>current_port := 4\<rparr>))"
  have cur: "current_port (line_clocks ss n n) = of_nat (first_port (ss ! n))" by (simp add: line_clocks_def)
  have fp: "first_port (ss ! j) < 4" "unat (of_nat (first_port (ss ! j)) :: u8) = first_port (ss ! j)" if "j \<le> n" for j
    using first_port_line [of "ss ! j"] ports [OF that] by (auto split: if_splits)
  have lt: "current_port (line_clocks ss n n) < 4" using fp [of n] by (simp add: cur word_less_nat_alt)
  have move: "case next_linked_port (links (ss ! n)) (current_port (line_clocks ss n n)) of
      Some b \<Rightarrow> (4 :: u8) = of_nat b \<and> n - 1 = Suc n | None \<Rightarrow> (4 :: u8) = 4 \<and> n - 1 = n - 1"
    using last_port_line [of "ss ! n"] ports [of n] by (simp add: cur)
  let ?t' = "t\<lparr>di_first_dc_slave := first_dc ss, di_network := net_of (clocked ss f) cs\<rparr>"
  have "take (Suc n) ss = ss" using n by simp
  then have fd: "first_dc ss = (if has_dc (ss ! n) \<and> first_dc (take n ss) = None then Some (of_nat n)
      else first_dc (take n ss))"
    using first_dc_Suc [OF n'] by metis
  have "?t\<lparr>di_first_dc_slave := (if has_dc (ss ! n) \<and> di_first_dc_slave ?t = None then Some (of_nat n)
         else di_first_dc_slave ?t), di_network := net_of (clocked ss f) cs\<rparr> = ?t'"
    by (simp add: fd)
  then obtain w2 where st: "topology_loop (at_slave ss cs (line_clocks ss n) n) ?t w' =
      topology_loop (at_slave ss cs f (n - 1)) ?t' w2" "first_slave w2 = Some 0"
    using topology_step [OF n' len lt move f_def, of ?t g] fw(2)
    by (cases "n = 0") (auto simp: line_wiring_def)
  have fn: "f n = (line_clocks ss (Suc n) n)\<lparr>current_port := 4\<rparr>"
    unfolding f_def using line_visit [OF fw(2)] by (simp add: line_clocks_def)
  have fj: "f j = line_clocks ss (Suc n) j" if "j < n" for j
    using that by (simp add: f_def line_clocks_def)
  show ?thesis
  proof (cases n)
    case 0
    with fn have "current_port (f 0) = 4" by simp
    then obtain r where "topology_loop (at_slave ss cs f 0) ?t' w2 = Some (Some (r, ?t'))"
      using topology_stop [of ss cs f ?t' w2] n' len ports [of 0] 0 by auto
    moreover have "same_parent 0 (line_clocks ss 1 0) (f 0)" using fn 0 by (simp add: same_parent_def)
    ultimately show ?thesis using fw(1) st(1) 0 n by (intro exI [of _ r] exI [of _ f]) simp
  next
    case (Suc m)
    have dc: "has_dc (ss ! j) \<Longrightarrow> di_first_dc_slave ?t' \<noteq> None" if "j < length ss" for j
      using that by (auto simp: first_dc_def position_none)
    have way_back: "current_port (f j) < 4 \<and> next_linked_port (links (ss ! j)) (current_port (f j)) = None \<and>
      (0 < j \<longrightarrow> parent_port (f j) \<noteq> None)" if "j \<le> m" for j
    proof -
      have j: "j < n" using that Suc by simp
      then have dp: "down_port (ss ! j) < 4" "next_linked_port (links (ss ! j)) (of_nat (down_port (ss ! j))) = None"
        using down_port_line [of "ss ! j"] ports [of j] by simp_all
      then have "(of_nat (down_port (ss ! j)) :: u8) < 4" by (simp add: word_less_nat_alt unat_of_nat)
      with dp j show ?thesis by (simp add: fj line_clocks_def)
    qed
    have m: "m < length ss" "length (links (ss ! 0)) = 4" using Suc n ports [of 0] by simp_all
    have "\<exists>r f'. topology_loop (at_slave ss cs f m) ?t' w2 =
      Some (Some (r, ?t'\<lparr>di_network := net_of (clocked ss f') cs\<rparr>)) \<and> (\<forall>j. same_parent j (f j) (f' j))"
      by (rule topology_back [OF len m way_back dc _ st(2)]) simp_all
    then obtain r f' where r: "topology_loop (at_slave ss cs f m) ?t' w2 =
      Some (Some (r, ?t'\<lparr>di_network := net_of (clocked ss f') cs\<rparr>))" "\<And>j. same_parent j (f j) (f' j)" by blast
    have "same_parent j (line_clocks ss (length ss) j) (f' j)" if "j < length ss" for j
      using r(2) [of j] fn fj [of j] that n by (cases "j = n") (auto simp: same_parent_def)
    with fw(1) st(1) r(1) Suc show ?thesis by (intro exI [of _ r] exI [of _ f']) simp
  qed
qed



section \<open>Slaves that are not on a line\<close>

lemma di_latch_parent: "di_latch X data s dc = Some (first, dc') \<Longrightarrow> parent_port dc' = parent_port dc"
  by (auto simp: di_latch_def Let_def elim!: bindE)

lemma di_delay_no_parent: "parent_port dc = None \<Longrightarrow> di_delay network pos s first dc = None"
  by (auto simp: di_delay_def split: Option.bind_splits)

lemma di_measure_no_parent:
  assumes "network_slave (di_network t) (SlavePosition pos) = Some (Some (s, c))" and "parent_port (dc_context s) = None"
    and "di_first_dc_slave t = Some f" and "f < pos"
  shows "di_measure X count pos data t = None"
  using assms di_delay_no_parent di_latch_parent [of X data s "dc_context s"]
  by (cases "di_latch X data s (dc_context s)") (auto simp: di_measure_def)

definition branch_slave :: "bool list \<Rightarrow> Slave" where
  "branch_slave ports = Slave_default\<lparr>
     sl_info := SlaveInfo_default\<lparr>si_linked_ports := ports, si_support_dc := True\<rparr>\<rparr>"

definition branch_net :: Network where
  "branch_net = net_of [branch_slave [True, True, True, False], branch_slave [True, False, False, False],
       branch_slave [True, False, False, False]] [SlaveConfig_default, SlaveConfig_default, SlaveConfig_default]"

lemmas topology_eval = di_start_def DcInitTask_new_def branch_net_def net_of_def and_then_def branch_slave_def
  RecievedPorts_new_def first_port_def set_current_port_def Slave_default_def SlaveInfo_default_def
  SlaveConfig_default_def RecievedPorts_next_def index_def next_linked_port_def store_def uadd_def visit_port_def
  network_slave_def slave_index_def put_dc_def DcContext_default_def count_dc_def num_slaves_def


end
