(* ===== verification/Master.thy ===== *)
theory Master
  imports Address_Access Sdo Loop_Tasks Network_Init Dc_Init
begin

text \<open>
  \<open>src/src/master/mod.rs\<close> and \<open>src/src/master/mailbox.rs\<close>: the master owns the socket interface and
  the network, one socket and one task per cyclic service, and a general purpose socket for the
  blocking operations. \<open>process\<close> is one cycle: it polls the interface and, when all PDUs of the cycle
  are back, lets every task take its answer and make its next request.

  A method that borrows the master mutably returns it updated. The slaves are behind references with
  \<open>Cell\<close>s, so an operation that counts the mailbox messages of a slave puts the slave back into the
  network.
\<close>

section \<open>The mailbox manager\<close>

record MailboxManager =
  mm_task :: MailboxTask
  slave_with_mailbox :: "SlaveAddress option"

record MailboxSessionId =
  session_slave_address :: SlaveAddress
  session_mailbox_count :: u8

definition MailboxManager_new :: "MailboxTask \<Rightarrow> MailboxManager" where
  "MailboxManager_new task = \<lparr>mm_task = task, slave_with_mailbox = None\<rparr>"

definition mm_process_one_step ::
    "crates \<Rightarrow> MailboxManager \<Rightarrow> Network \<Rightarrow> PduSocket \<Rightarrow> u64 \<Rightarrow> (MailboxManager \<times> PduSocket) rust" where
  "mm_process_one_step X mm network mb_socket sys_time = do {
     task \<leftarrow>
       (if \<not> mb_is_busy (mm_task mm) then
          (case slave_with_mailbox mm of
             Some addr \<Rightarrow> do {
               slave \<leftarrow> network_slave network addr;
               (slave, _) \<leftarrow> slave;
               tx_sm \<leftarrow> mailbox_tx_sm (sl_info slave);
               mb_start_to_read (mm_task mm) addr tx_sm False }
           | None \<Rightarrow> ret (mm_task mm))
        else ret (mm_task mm));
     (task, mb_socket) \<leftarrow> process_one_step (mailbox_ops X) task mb_socket sys_time;
     ret (mm\<lparr>mm_task := task\<rparr>, mb_socket) }"

definition mm_received_mailbox ::
    "crates \<Rightarrow> MailboxManager \<Rightarrow> PduSocket \<Rightarrow>
       (MailboxTaskError TaskError + MailboxSessionId \<times> bytes) option rust" where
  "mm_received_mailbox X mm mb_socket =
     (if mb_is_write_mode (mm_task mm) then ret None
      else case mb_wait (mm_task mm) of
        None \<Rightarrow> ret None
      | Some _ \<Rightarrow> do {
          let mb_frame = data_buf mb_socket;
          count \<leftarrow> MailboxFrame_count X mb_frame;
          ret (Some (Inr (\<lparr>session_slave_address = mb_slave_address (mm_task mm),
                           session_mailbox_count = count\<rparr>, mb_frame))) })"

text \<open>The image tells by the third FMMU of a slave whether its mailbox is full.\<close>

definition mailbox_of_image ::
    "crates \<Rightarrow> u32 \<Rightarrow> bytes \<Rightarrow> SlaveAddress option \<Rightarrow> nat \<times> Slave \<times> SlaveConfig \<Rightarrow> SlaveAddress option rust" where
  "mailbox_of_image X logical_address_offset process_data_image found = (\<lambda>(pos, slave, _). do {
     fmmu \<leftarrow> index (sl_fmmu slave) 2;
     case fmmu of
       Some fmmu_config \<Rightarrow> do {
         tx_sm \<leftarrow> mailbox_tx_sm (sl_info slave);
         offset \<leftarrow> umul 0x08 (ucast (sm_number tx_sm));
         mb_tx_sm_status \<leftarrow> uadd (reg_address SyncManagerStatus) offset;
         assert (mb_tx_sm_status = fc_physical_address fmmu_config);
         (r, buf) \<leftarrow> fmmu_read_to_buffer fmmu_config logical_address_offset process_data_image
           (replicate (reg_size SyncManagerStatus) 0);
         r \<leftarrow> r;
         full \<leftarrow> reg_bit X SyncManagerStatus ''is_mailbox_full'' buf;
         ret (if full then Some (SlavePosition (of_nat pos)) else found) }
     | None \<Rightarrow> ret found })"

definition find_slave_with_mailbox_from_process_data ::
    "crates \<Rightarrow> MailboxManager \<Rightarrow> Network \<Rightarrow> u32 \<Rightarrow> bytes \<Rightarrow> MailboxManager rust" where
  "find_slave_with_mailbox_from_process_data X mm network logical_address_offset process_data_image = do {
     found \<leftarrow> for_each (mailbox_of_image X logical_address_offset process_data_image) (slave_with_mailbox mm)
       (enumerate 0 (slaves_list network));
     let mm = mm\<lparr>slave_with_mailbox := found\<rparr>;
     ret (mm\<lparr>slave_with_mailbox := None\<rparr>) }"

text \<open>A request through the interface of the manager: the message is put into the buffer of the mailbox socket.\<close>

definition mailbox_request ::
    "crates \<Rightarrow> MailboxManager \<Rightarrow> Slave \<Rightarrow> Mailbox \<Rightarrow> bytes \<Rightarrow> (MailboxSessionId \<times> MailboxManager \<times> Slave \<times> bytes) rust" where
  "mailbox_request X mm slave mailbox mb_buf = do {
     (r, mb_frame) \<leftarrow> set_mailbox X mb_buf mailbox;
     _ \<leftarrow> (case r of Inl _ \<Rightarrow> panic | Inr _ \<Rightarrow> ret ());
     rx_sm \<leftarrow> mailbox_rx_sm (sl_info slave);
     (count, slave) \<leftarrow> increment_mb_count slave;
     let session_id = \<lparr>session_slave_address = slave_address (sl_info slave), session_mailbox_count = count\<rparr>;
     mb_frame \<leftarrow> MailboxFrame_set_count X mb_frame count;
     task \<leftarrow> mb_start_to_write (mm_task mm) (session_slave_address session_id) rx_sm False;
     ret (session_id, mm\<lparr>mm_task := task\<rparr>, slave, mb_frame) }"

section \<open>The master\<close>

definition LOGICAL_START_ADDRESS :: u32 where "LOGICAL_START_ADDRESS = 0x1000"
definition NUM_SOCKETS :: nat where "NUM_SOCKETS = 7"

record 'd EtherCatMaster =
  ma_sif :: "'d SocketInterface"
  ma_network :: Network
  gp_socket_handle :: nat
  cycle_count :: nat
  mailbox_handle :: nat
  mailbox_manager :: MailboxManager
  process_data_handle :: "nat option"
  process_data_task :: ProcessTask
  dc_handle :: nat
  dc_task :: "DcSyncTask option"
  al_state_handle :: nat
  al_state_task :: AlStateReadTask
  rx_error_handle :: nat
  rx_error_task :: RxErrorReadTask
  al_tf_handle :: nat
  al_tf_task :: AlStateTransferTask

definition split_at :: "nat \<Rightarrow> 'a list \<Rightarrow> ('a list \<times> 'a list) rust" where
  "split_at n xs = (if n \<le> length xs then ret (take n xs, drop n xs) else panic)"

text \<open>\<open>sif.add_socket(PduSocket::new(buf)).unwrap()\<close>.\<close>

definition new_socket :: "'d SocketInterface \<Rightarrow> bytes \<Rightarrow> (nat \<times> 'd SocketInterface) rust" where
  "new_socket si buf = do {
     (r, si) \<leftarrow> add_socket si (PduSocket_new buf);
     case r of Inl _ \<Rightarrow> panic | Inr handle \<Rightarrow> ret (handle, si) }"

definition MINIMUM_REQUIRED_BUFFER_SIZE :: nat where
  "MINIMUM_REQUIRED_BUFFER_SIZE =
     asr_buffer_size + rxe_required_buffer_size + dcs_required_buffer_size + at_buffer_size +
     unat MAX_SM_SIZE + unat MAX_SM_SIZE"

definition EtherCatMaster_new ::
    "(Slave option \<times> SlaveConfig) list \<Rightarrow> bytes \<Rightarrow> 'd PduInterface \<Rightarrow> 'd EtherCatMaster rust" where
  "EtherCatMaster_new slave_buf socket_buffer i = do {
     assert (slave_buf \<noteq> []);
     assert (MINIMUM_REQUIRED_BUFFER_SIZE < length socket_buffer);
     (pdu_buffer1, rest) \<leftarrow> split_at asr_buffer_size socket_buffer;
     (pdu_buffer2, rest) \<leftarrow> split_at rxe_required_buffer_size rest;
     (pdu_buffer3, rest) \<leftarrow> split_at dcs_required_buffer_size rest;
     (pdu_buffer4, rest) \<leftarrow> split_at (unat MAX_SM_SIZE) rest;
     (pdu_buffer5, rest) \<leftarrow> split_at (unat MAX_SM_SIZE) rest;
     (pdu_buffer6, _) \<leftarrow> split_at at_buffer_size rest;
     let si = SocketInterface_new NUM_SOCKETS i;
     (al_state_handle, si) \<leftarrow> new_socket si pdu_buffer1;
     (rx_error_handle, si) \<leftarrow> new_socket si pdu_buffer2;
     (dc_handle, si) \<leftarrow> new_socket si pdu_buffer3;
     (gp_socket_handle, si) \<leftarrow> new_socket si pdu_buffer4;
     (mailbox_handle, si) \<leftarrow> new_socket si pdu_buffer5;
     (al_tf_handle, si) \<leftarrow> new_socket si pdu_buffer6;
     ret \<lparr>ma_sif = si, ma_network = Network_new slave_buf, gp_socket_handle = gp_socket_handle,
          cycle_count = 0, mailbox_handle = mailbox_handle,
          mailbox_manager = MailboxManager_new MailboxTask_new, process_data_handle = None,
          process_data_task = ProcessTask_new LOGICAL_START_ADDRESS 0 0, dc_handle = dc_handle,
          dc_task = None, al_state_handle = al_state_handle, al_state_task = AlStateReadTask_new,
          rx_error_handle = rx_error_handle, rx_error_task = RxErrorReadTask_new,
          al_tf_handle = al_tf_handle, al_tf_task = AlStateTransferTask_new\<rparr> }"

section \<open>Bringing the network up\<close>

definition master_init ::
    "crates \<Rightarrow> 'd device \<Rightarrow> 'd EtherCatMaster \<Rightarrow> ((NetworkInitTaskError TaskError + unit) \<times> 'd EtherCatMaster) run" where
  "master_init X dev m =
     and_then (init X dev (ma_sif m) (gp_socket_handle m) (ma_network m)) (\<lambda>(r, si, network).
       let m = m\<lparr>ma_sif := si, ma_network := network\<rparr> in
       Some (ret (case r of
         Inl e \<Rightarrow> (Inl e, m)
       | Inr _ \<Rightarrow> (Inr (), m\<lparr>al_state_task := asr_set_target (al_state_task m) (All (num_slaves network))\<rparr>))))"

definition dc_slaves :: "(Slave \<times> SlaveConfig) list \<Rightarrow> nat option \<times> nat" where
  "dc_slaves slaves = fold (\<lambda>(i, slave, _) (first_dc_slave, dc_count).
       if si_support_dc (sl_info slave)
       then (if first_dc_slave = None then Some i else first_dc_slave, dc_count + 1)
       else (first_dc_slave, dc_count))
     (enumerate 0 slaves) (None, 0)"

definition master_init_dc ::
    "crates \<Rightarrow> 'd device \<Rightarrow> 'd EtherCatMaster \<Rightarrow> ((unit TaskError + unit) \<times> 'd EtherCatMaster) run" where
  "master_init_dc X dev m =
     and_then (init_dc X dev (ma_sif m) (gp_socket_handle m) (ma_network m)) (\<lambda>(r, si, network).
       let m = m\<lparr>ma_sif := si, ma_network := network\<rparr> in
       Some (ret (case r of
         Inl e \<Rightarrow> (Inl e, m)
       | Inr _ \<Rightarrow>
           let (first_dc_slave, dc_count) = dc_slaves (slaves_list network) in
           (Inr (), case first_dc_slave of
              Some i \<Rightarrow> m\<lparr>dc_task := Some (DcSyncTask_new (of_nat i) (of_nat dc_count))\<rparr>
            | None \<Rightarrow> m))))"

section \<open>One cycle\<close>

definition step_socket ::
    "'t cyclic_task_ops \<Rightarrow> 't \<Rightarrow> 'd SocketInterface \<Rightarrow> nat \<Rightarrow> u64 \<Rightarrow> ('t \<times> 'd SocketInterface) rust" where
  "step_socket ops t si handle sys_time = do {
     socket \<leftarrow> get_socket si handle;
     (t, socket) \<leftarrow> process_one_step ops t socket sys_time;
     si \<leftarrow> get_socket_mut si handle socket;
     ret (t, si) }"

definition process_data_step ::
    "crates \<Rightarrow> 'd EtherCatMaster \<Rightarrow> nat \<Rightarrow> u64 \<Rightarrow> 'd EtherCatMaster rust" where
  "process_data_step X m handle sys_time = do {
     (task, si) \<leftarrow> step_socket process_ops (process_data_task m) (ma_sif m) handle sys_time;
     mb_socket \<leftarrow> get_socket si (mailbox_handle m);
     (mm, mb_socket) \<leftarrow> mm_process_one_step X (mailbox_manager m) (ma_network m) mb_socket sys_time;
     si \<leftarrow> get_socket_mut si (mailbox_handle m) mb_socket;
     socket \<leftarrow> get_socket si handle;
     mm \<leftarrow> find_slave_with_mailbox_from_process_data X mm (ma_network m) LOGICAL_START_ADDRESS (data_buf socket);
     ret (m\<lparr>ma_sif := si, process_data_task := task, mailbox_manager := mm\<rparr>) }"

definition cycle_step :: "crates \<Rightarrow> 'd EtherCatMaster \<Rightarrow> u64 \<Rightarrow> 'd EtherCatMaster rust" where
  "cycle_step X m sys_time = do {
     m \<leftarrow> (case process_data_handle m of
             Some handle \<Rightarrow> process_data_step X m handle sys_time
           | None \<Rightarrow> ret m);
     m \<leftarrow> (case dc_task m of
             Some task \<Rightarrow> do {
               (task, si) \<leftarrow> step_socket (dc_sync_ops X) task (ma_sif m) (dc_handle m) sys_time;
               ret (m\<lparr>ma_sif := si, dc_task := Some task\<rparr>) }
           | None \<Rightarrow> ret m);
     (task, si) \<leftarrow> step_socket rx_error_read_ops (rx_error_task m) (ma_sif m) (rx_error_handle m) sys_time;
     let m = m\<lparr>ma_sif := si, rx_error_task := task\<rparr>;
     (task, si) \<leftarrow> step_socket (al_state_read_ops X) (al_state_task m) (ma_sif m) (al_state_handle m) sys_time;
     let m = m\<lparr>ma_sif := si, al_state_task := task\<rparr>;
     (task, si) \<leftarrow> step_socket (al_state_transfer_ops X) (al_tf_task m) (ma_sif m) (al_tf_handle m) sys_time;
     ret (m\<lparr>ma_sif := si, al_tf_task := task\<rparr>) }"

definition process ::
    "crates \<Rightarrow> 'd device \<Rightarrow> 'd EtherCatMaster \<Rightarrow> u64 \<Rightarrow> ((PhyError + nat) \<times> 'd EtherCatMaster) rust" where
  "process X dev m sys_time = do {
     (is_tx_rx_ok, si) \<leftarrow> poll_tx_rx X dev (ma_sif m);
     let m = m\<lparr>ma_sif := si\<rparr>;
     case is_tx_rx_ok of
       Inl e \<Rightarrow> ret (Inl e, m)
     | Inr ok \<Rightarrow>
         if \<not> ok then ret (Inr (cycle_count m), m)
         else do {
           m \<leftarrow> cycle_step X m sys_time;
           let m = m\<lparr>cycle_count := (cycle_count m + 1) mod 2 ^ 64\<rparr>;
           ret (Inr (cycle_count m), m) } }"

section \<open>The mailbox interface of the master\<close>

definition received_mailbox ::
    "crates \<Rightarrow> 'd EtherCatMaster \<Rightarrow> (MailboxTaskError TaskError + MailboxSessionId \<times> bytes) option rust" where
  "received_mailbox X m = do {
     mb_socket \<leftarrow> get_socket (ma_sif m) (mailbox_handle m);
     mm_received_mailbox X (mailbox_manager m) mb_socket }"

text \<open>
  \<open>try_get_mailbox_request_interface\<close>: while the mailbox task is idle a wrapper around the manager, the
  sockets and the handle is given out. Its operations are those of the master that they borrow.
\<close>

definition try_get_mailbox_request_interface :: "'d EtherCatMaster \<Rightarrow> 'd EtherCatMaster option" where
  "try_get_mailbox_request_interface m =
     (if mb_is_busy (mm_task (mailbox_manager m)) then None else Some m)"

definition wrapper_request ::
    "crates \<Rightarrow> 'd EtherCatMaster \<Rightarrow> Slave \<Rightarrow> Mailbox \<Rightarrow> (MailboxSessionId \<times> 'd EtherCatMaster \<times> Slave) rust" where
  "wrapper_request X m slave mailbox = do {
     socket \<leftarrow> get_socket (ma_sif m) (mailbox_handle m);
     (session_id, mm, slave, buf) \<leftarrow> mailbox_request X (mailbox_manager m) slave mailbox (data_buf socket);
     si \<leftarrow> get_socket_mut (ma_sif m) (mailbox_handle m) (socket\<lparr>data_buf := buf\<rparr>);
     ret (session_id, m\<lparr>ma_sif := si, mailbox_manager := mm\<rparr>, slave) }"

definition write_sdo_request ::
    "crates \<Rightarrow> 'd EtherCatMaster \<Rightarrow> Slave \<Rightarrow> u16 \<Rightarrow> u8 \<Rightarrow> bytes \<Rightarrow> (MailboxSessionId \<times> 'd EtherCatMaster \<times> Slave) rust" where
  "write_sdo_request X m slave idx sub_index data = wrapper_request X m slave (new_sdo_download_request idx sub_index data)"

definition read_sdo_request ::
    "crates \<Rightarrow> 'd EtherCatMaster \<Rightarrow> Slave \<Rightarrow> u16 \<Rightarrow> u8 \<Rightarrow> (MailboxSessionId \<times> 'd EtherCatMaster \<times> Slave) rust" where
  "read_sdo_request X m slave idx sub_index = wrapper_request X m slave (new_sdo_upload_request idx sub_index)"

section \<open>Observers\<close>

definition rx_error_count :: "'d EtherCatMaster \<Rightarrow> bytes" where
  "rx_error_count m = rxe_rx_error_count (rx_error_task m)"

definition al_state :: "'d EtherCatMaster \<Rightarrow> AlState option \<times> AlStatusCode option" where
  "al_state m = asr_last_state (al_state_task m)"

definition invalid_wkc_count :: "'d EtherCatMaster \<Rightarrow> nat" where
  "invalid_wkc_count m = pt_invalid_wkc_count (process_data_task m)"

definition master_lost_frame_count :: "'d EtherCatMaster \<Rightarrow> nat" where
  "master_lost_frame_count m = lost_frame_count (ma_sif m)"

definition detected_slave_count :: "'d EtherCatMaster \<Rightarrow> nat rust" where
  "detected_slave_count m = panic"

definition request_al_state :: "'d EtherCatMaster \<Rightarrow> AlState \<Rightarrow> bool \<times> 'd EtherCatMaster" where
  "request_al_state m target =
     (if \<not> at_is_busy (al_tf_task m)
      then (True, m\<lparr>al_tf_task := at_start (al_tf_task m) (All (num_slaves (ma_network m))) target\<rparr>)
      else (False, m))"

section \<open>Blocking operations\<close>

text \<open>The blocking operations of the interface, on the general purpose socket.\<close>

definition on_sif :: "'d EtherCatMaster \<Rightarrow> ('r \<times> 'd SocketInterface) run \<Rightarrow> ('r \<times> 'd EtherCatMaster) run" where
  "on_sif m r = and_then r (\<lambda>(r, si). Some (ret (r, m\<lparr>ma_sif := si\<rparr>)))"

definition master_read_al_state ::
    "crates \<Rightarrow> 'd device \<Rightarrow> 'd EtherCatMaster \<Rightarrow> TargetSlave \<Rightarrow>
       ((unit TaskError + AlState \<times> AlStatusCode option) \<times> 'd EtherCatMaster) run" where
  "master_read_al_state X dev m target_slave =
     on_sif m (read_al_state X dev (ma_sif m) (gp_socket_handle m) target_slave)"

definition master_change_al_state ::
    "crates \<Rightarrow> 'd device \<Rightarrow> 'd EtherCatMaster \<Rightarrow> TargetSlave \<Rightarrow> AlState \<Rightarrow>
       ((AlStateTransferTaskError TaskError + AlState) \<times> 'd EtherCatMaster) run" where
  "master_change_al_state X dev m target_slave state =
     on_sif m (change_al_state X dev (ma_sif m) (gp_socket_handle m) target_slave state)"

definition master_read_sii ::
    "crates \<Rightarrow> 'd device \<Rightarrow> 'd EtherCatMaster \<Rightarrow> SlaveAddress \<Rightarrow> u16 \<Rightarrow>
       ((SiiTaskError TaskError + bytes \<times> nat) \<times> 'd EtherCatMaster) run" where
  "master_read_sii X dev m addr sii_address =
     on_sif m (read_sii X dev (ma_sif m) (gp_socket_handle m) addr sii_address)"

definition master_read_register ::
    "crates \<Rightarrow> 'd device \<Rightarrow> 'd EtherCatMaster \<Rightarrow> TargetSlave \<Rightarrow> u16 \<Rightarrow> nat \<Rightarrow>
       ((unit TaskError + bytes) \<times> 'd EtherCatMaster) run" where
  "master_read_register X dev m target_slave register_address data_size =
     on_sif m (read_register X dev (ma_sif m) (gp_socket_handle m) target_slave register_address data_size)"

definition master_write_register ::
    "crates \<Rightarrow> 'd device \<Rightarrow> 'd EtherCatMaster \<Rightarrow> TargetSlave \<Rightarrow> u16 \<Rightarrow> bytes \<Rightarrow>
       ((unit TaskError + unit) \<times> 'd EtherCatMaster) run" where
  "master_write_register X dev m target_slave register_address data =
     on_sif m (write_register X dev (ma_sif m) (gp_socket_handle m) target_slave register_address data)"

text \<open>\<open>network.slave(addr).expect(..)\<close>, an operation on the slave, and the slave back in its place.\<close>

definition with_slave ::
    "'d EtherCatMaster \<Rightarrow> SlaveAddress \<Rightarrow> (Slave \<Rightarrow> ('r \<times> 'd SocketInterface \<times> Slave) run) \<Rightarrow>
       ('r \<times> 'd EtherCatMaster) run" where
  "with_slave m addr f =
     and_then (Some (do {
         slave \<leftarrow> network_slave (ma_network m) addr;
         (slave, _) \<leftarrow> slave;
         ret slave }))
     (\<lambda>slave. and_then (f slave)
     (\<lambda>(r, si, slave). Some (do {
         network \<leftarrow> network_slave_mut (ma_network m) addr (\<lambda>(_, c). (slave, c));
         network \<leftarrow> network;
         ret (r, m\<lparr>ma_sif := si, ma_network := network\<rparr>) })))"

definition master_read_sdo ::
    "crates \<Rightarrow> 'd device \<Rightarrow> 'd EtherCatMaster \<Rightarrow> SlaveAddress \<Rightarrow> u16 \<Rightarrow> u8 \<Rightarrow>
       ((SdoErrorKind TaskError + bytes) \<times> 'd EtherCatMaster) run" where
  "master_read_sdo X dev m addr idx sub_index =
     with_slave m addr (\<lambda>slave. read_sdo X dev (ma_sif m) (gp_socket_handle m) slave idx sub_index)"

definition master_write_sdo ::
    "crates \<Rightarrow> 'd device \<Rightarrow> 'd EtherCatMaster \<Rightarrow> SlaveAddress \<Rightarrow> u16 \<Rightarrow> u8 \<Rightarrow> bytes \<Rightarrow>
       ((SdoErrorKind TaskError + unit) \<times> 'd EtherCatMaster) run" where
  "master_write_sdo X dev m addr idx sub_index data =
     with_slave m addr (\<lambda>slave. write_sdo X dev (ma_sif m) (gp_socket_handle m) slave idx sub_index data)"

section \<open>Process data\<close>

text \<open>The entry with the given indices of the mappings of a slave.\<close>

definition pdo_entry_of :: "PdoMapping list \<Rightarrow> nat \<Rightarrow> nat \<Rightarrow> PdoEntry option" where
  "pdo_entry_of mappings pdo_map_index pdo_entry_index =
     (case get mappings pdo_map_index of
        None \<Rightarrow> None
      | Some pdo_map \<Rightarrow> get (pm_entries pdo_map) pdo_entry_index)"

definition read_pdo ::
    "'d EtherCatMaster \<Rightarrow> SlaveAddress \<Rightarrow> nat \<Rightarrow> nat \<Rightarrow> bytes \<Rightarrow> (unit option \<times> bytes) rust" where
  "read_pdo m addr pdo_map_index pdo_entry_index buf =
     (case process_data_handle m of
        None \<Rightarrow> ret (None, buf)
      | Some handle \<Rightarrow>
          (case get_socket (ma_sif m) handle of
             None \<Rightarrow> ret (None, buf)
           | Some pdo_image \<Rightarrow> do {
               slave \<leftarrow> network_slave (ma_network m) addr;
               case slave of
                 None \<Rightarrow> ret (None, buf)
               | Some (_, config) \<Rightarrow>
                   (case pdo_entry_of (input_pdo_mappings config) pdo_map_index pdo_entry_index of
                      None \<Rightarrow> ret (None, buf)
                    | Some pdo_entry \<Rightarrow>
                        PdoEntry_read_to_buffer pdo_entry LOGICAL_START_ADDRESS (data_buf pdo_image) buf) }))"

definition write_pdo ::
    "'d EtherCatMaster \<Rightarrow> SlaveAddress \<Rightarrow> nat \<Rightarrow> nat \<Rightarrow> bytes \<Rightarrow> (unit option \<times> 'd EtherCatMaster) rust" where
  "write_pdo m addr pdo_map_index pdo_entry_index data =
     (case process_data_handle m of
        None \<Rightarrow> ret (None, m)
      | Some handle \<Rightarrow>
          (case get_socket (ma_sif m) handle of
             None \<Rightarrow> ret (None, m)
           | Some pdo_image \<Rightarrow> do {
               slave \<leftarrow> network_slave (ma_network m) addr;
               case slave of
                 None \<Rightarrow> ret (None, m)
               | Some (_, config) \<Rightarrow>
                   (case pdo_entry_of (output_pdo_mappings config) pdo_map_index pdo_entry_index of
                      None \<Rightarrow> ret (None, m)
                    | Some pdo_entry \<Rightarrow> do {
                        (r, img) \<leftarrow> PdoEntry_write_from_buffer pdo_entry LOGICAL_START_ADDRESS (data_buf pdo_image) data;
                        si \<leftarrow> get_socket_mut (ma_sif m) handle (pdo_image\<lparr>data_buf := img\<rparr>);
                        ret (r, m\<lparr>ma_sif := si\<rparr>) }) }))"

end
