(* ===== verification/Master_Cycle.thy ===== *)
theory Master_Cycle
  imports Master
begin

text \<open>
  The cycle of the master on a network that answers: every task takes the answer to its last
  request and makes its next one, in its own socket, and the cycle counter moves on. The tasks enter
  through the contract \<open>cyclic_task\<close>, which each of them interprets.
\<close>

section \<open>A task in its socket\<close>

text \<open>A socket that is free or holds a request that expects \<open>n\<close> bytes.\<close>

definition holds :: "nat \<Rightarrow> nat \<Rightarrow> PduSocket \<Rightarrow> bool" where
  "holds need n s \<longleftrightarrow> need \<le> length (data_buf s) \<and> \<not> recv_flag s \<and>
     (sk_command s \<noteq> None \<longrightarrow> 0 < sk_data_length s \<and> sk_data_length s \<le> length (data_buf s) \<and> sk_data_length s = n)"

text \<open>The sockets between two cycles.\<close>

definition sockets_ok :: "'d SocketInterface \<Rightarrow> PduSocket list \<Rightarrow> bool" where
  "sockets_ok si ss \<longleftrightarrow> idle (iface si) \<and> dense si ss \<and> roomy si ss \<and> (\<forall>s \<in> set ss. socket_fits s)"

lemma sockets_ok_update:
  assumes "sockets_ok si ss" and "h < length ss" and "socket_fits s" and "length (data_buf s) = length (data_buf (ss ! h))"
  obtains si' where "get_socket_mut si h s = Some si'" "sockets_ok si' (ss[h := s])" "iface si' = iface si"
proof -
  obtain si' where si': "get_socket_mut si h s = Some si'" "dense si' (ss[h := s])" "iface si' = iface si"
    using dense_mut [OF _ assms(2), of si s] assms(1) by (auto simp: sockets_ok_def)
  have "roomy si' (ss[h := s])" using assms si'(3) by (intro roomy_update) (auto simp: sockets_ok_def)
  moreover have "\<forall>x \<in> set (ss[h := s]). socket_fits x"
    using assms(1,3) set_update_subset_insert [of ss h s] by (auto simp: sockets_ok_def)
  ultimately have "sockets_ok si' (ss[h := s])" using assms(1) si'(2,3) by (simp add: sockets_ok_def)
  with si' show thesis by (intro that)
qed

lemma sockets_ok_get: "sockets_ok si ss \<Longrightarrow> h < length ss \<Longrightarrow> get_socket si h = Some (ss ! h)"
  by (simp add: sockets_ok_def dense_def)

context cyclic_task
begin

lemma serves_holds: "holds (need t) (expects t) s \<longleftrightarrow> serves t s \<and> \<not> recv_flag s"
  by (auto simp: holds_def serves_def)

lemma step_socket_ok:
  assumes si: "sockets_ok si ss" "h < length ss" and t: "inv t" "serves t (ss ! h)"
    and acc: "\<And>p. get_recieved_pdu (ss ! h) = Some (Some p) \<Longrightarrow> accepts t p"
  shows "\<exists>t' si' s'. step_socket ops t si h time = Some (t', si') \<and> sockets_ok si' (ss[h := s']) \<and>
    iface si' = iface si \<and> inv t' \<and> need t' \<le> need t \<and> holds (need t') (expects t') s' \<and>
    length (data_buf s') = length (data_buf (ss ! h))"
proof -
  obtain t' s' where s': "process_one_step ops t (ss ! h) time = Some (t', s')" "inv t'" "serves t' s'"
    "need t' \<le> need t" "\<not> recv_flag s'" "length (data_buf s') = length (data_buf (ss ! h))"
    using step_ok [OF t acc] by blast
  have "socket_fits s'" using s'(3) by (auto simp: serves_def socket_fits_def)
  then obtain si' where "get_socket_mut si h s' = Some si'" "sockets_ok si' (ss[h := s'])" "iface si' = iface si"
    using sockets_ok_update [OF si _ s'(6)] by blast
  with s' sockets_ok_get [OF si] show ?thesis
    by (intro exI [of _ t'] exI [of _ si'] exI [of _ s']) (simp add: step_socket_def serves_holds)
qed

end

section \<open>The loop tasks keep the contract\<close>

definition asr_accepts :: "crates \<Rightarrow> AlStateReadTask \<Rightarrow> Pdu \<Rightarrow> bool" where
  "asr_accepts X t p \<longleftrightarrow> (status_error (pdu_data p) \<longrightarrow> AlStatusCode_try_from X (status_code (pdu_data p)) \<noteq> None)"

sublocale crates_laws \<subseteq> asr_task: cyclic_task "al_state_read_ops X" "\<lambda>_. True" "\<lambda>_. 6" "\<lambda>_. 6" "asr_accepts X"
proof (unfold_locales, goal_cases)
  case (1 t buf)
  then show ?case by (simp add: al_state_read_ops_def asr_next_pdu_def fill_to_def AlStatus_def)
next
  case (2 t p time)
  then show ?case
    by (auto simp: al_state_read_ops_def asr_recieve_and_process_def reg_eqs AlStatus_def get_al_status_code_def asr_accepts_def
      status_error_def status_code_def Let_def)
qed

interpretation rxe_task: cyclic_task rx_error_read_ops "\<lambda>t. length (rxe_rx_error_count t) = 8"
    "\<lambda>_. 8" "\<lambda>_. 8" "\<lambda>_ _. True"
proof (unfold_locales, goal_cases)
  case (1 t buf)
  then show ?case by (simp add: rx_error_read_ops_def rxe_next_pdu_def fill_to_def RxErrorCounter_def Let_def)
next
  case (2 t p time)
  then show ?case
    by (simp add: rx_error_read_ops_def rxe_recieve_and_process_def slice_to_def RxErrorCounter_def Let_def)
qed

interpretation pt_task: cyclic_task process_ops "\<lambda>t. pt_expected_wkc t \<noteq> 0 \<longrightarrow> 0 < pt_image_size t" pt_image_size pt_image_size "\<lambda>_ _. True"
proof (unfold_locales, goal_cases)
  case (1 t buf)
  then show ?case by (simp add: process_ops_def pt_next_pdu_def)
next
  case (2 t p time)
  then show ?case by (simp add: process_ops_def pt_recieve_and_process_def)
qed

sublocale crates_laws \<subseteq> dcs_task: cyclic_task "dc_sync_ops X" "\<lambda>_. True" "\<lambda>_. 8" "\<lambda>_. 8" "\<lambda>_ _. True"
proof (unfold_locales, goal_cases)
  case (1 t buf)
  then show ?case by (simp add: dc_sync_ops_def dcs_next_pdu_def fill_to_def DcSystemTime_def Let_def)
next
  case (2 t p time)
  then show ?case
    by (auto simp: dc_sync_ops_def dcs_recieve_and_process_def reg_eqs DcSystemTime_def usub_def Let_def)
qed

section \<open>One step after a poll\<close>

text \<open>What a poll makes of a socket between two cycles.\<close>

lemma polled:
  assumes an: "answered X slaves h s s1" and s: "holds need n s" and net: "answers dev slaves d"
  shows "need \<le> length (data_buf s1)" and "length (data_buf s1) = length (data_buf s)"
    and "sk_command s1 \<noteq> None \<Longrightarrow> 0 < sk_data_length s1 \<and> sk_data_length s1 \<le> length (data_buf s1) \<and> sk_data_length s1 = n"
    and "get_recieved_pdu s1 = Some (Some p) \<Longrightarrow>
      \<exists>c. wf_chunk c \<and> pv_wkc (pdu_view c) = 0 \<and> pv_data (pdu_view (slaves c)) \<noteq> [] \<and> p = chunk_pdu X (slaves c)"
proof -
  have fit: "socket_fits s" using s by (auto simp: holds_def socket_fits_def)
  note f = answered_fits [OF an fit]
  show "need \<le> length (data_buf s1)" "length (data_buf s1) = length (data_buf s)"
    using f s by (simp_all add: holds_def)
  show "0 < sk_data_length s1 \<and> sk_data_length s1 \<le> length (data_buf s1) \<and> sk_data_length s1 = n"
    if "sk_command s1 \<noteq> None"
    using that f s by (cases "sk_command s = None") (auto simp: holds_def)
  show "\<exists>c. wf_chunk c \<and> pv_wkc (pdu_view c) = 0 \<and> pv_data (pdu_view (slaves c)) \<noteq> [] \<and> p = chunk_pdu X (slaves c)"
    if p: "get_recieved_pdu s1 = Some (Some p)"
  proof (cases "pending s")
    case True
    from answered_pdu [OF an True fit net] obtain c where "wf_chunk c"
      "pdu_view c = rq_view (socket_request (h, s))" "get_recieved_pdu s1 = Some (Some (chunk_pdu X (slaves c)))"
      "length (pv_data (pdu_view (slaves c))) = sk_data_length s"
      by metis
    moreover have "0 < sk_data_length s" using True s by (auto simp: holds_def pending_def)
    ultimately show ?thesis using p by (intro exI [of _ c]) (auto simp: rq_view_def)
  next
    case False
    with an have "s1 = s" by (rule answered_waiting)
    with p s show ?thesis by (simp add: get_recieved_pdu_def holds_def)
  qed
qed

context cyclic_task
begin

lemma polled_step:
  assumes si: "sockets_ok si ss" "h < length ss" and t: "inv t" "holds (need t) (expects t) s0"
    and an: "answered X slaves h s0 (ss ! h)" and net: "answers dev slaves d"
    and acc: "\<And>c. wf_chunk c \<Longrightarrow> pv_wkc (pdu_view c) = 0 \<Longrightarrow> pv_data (pdu_view (slaves c)) \<noteq> [] \<Longrightarrow>
      accepts t (chunk_pdu X (slaves c))"
  shows "\<exists>t' si' s'. step_socket ops t si h time = Some (t', si') \<and> sockets_ok si' (ss[h := s']) \<and>
    iface si' = iface si \<and> inv t' \<and> need t' \<le> need t \<and> holds (need t') (expects t') s' \<and>
    length (data_buf s') = length (data_buf (ss ! h))"
proof (rule step_socket_ok [OF si t(1)])
  show "serves t (ss ! h)" using polled(1) [OF an t(2) net] polled(3) [OF an t(2) net] unfolding serves_def by blast
  show "accepts t p" if "get_recieved_pdu (ss ! h) = Some (Some p)" for p
    using polled(4) [OF an t(2) net that] acc by blast
qed

end

text \<open>A task that asks for nothing, in a free socket.\<close>

lemma idle_step:
  assumes si: "sockets_ok si ss" "h < length ss" and s0: "sk_command s0 = None" "\<not> recv_flag s0"
    and an: "answered X slaves h s0 (ss ! h)"
    and none: "\<And>buf. ct_next_pdu ops t buf = Some (None, t, buf)"
  shows "\<exists>si' s'. step_socket ops t si h time = Some (t, si') \<and> sockets_ok si' (ss[h := s']) \<and>
    iface si' = iface si \<and> sk_command s' = None \<and> \<not> recv_flag s' \<and>
    length (data_buf s') = length (data_buf (ss ! h))"
proof -
  have s: "ss ! h = s0" using answered_waiting [OF an] s0(1) by (simp add: pending_def)
  let ?s = "s0\<lparr>recv_flag := False, sk_wkc := 0, sk_command := None, sk_data_length := 0\<rparr>"
  have "process_one_step ops t s0 time = Some (t, ?s)"
    using s0 none by (simp add: process_one_step_def get_recieved_pdu_def set_pdu_def)
  moreover obtain si' where "get_socket_mut si h ?s = Some si'" "sockets_ok si' (ss[h := ?s])" "iface si' = iface si"
    by (rule sockets_ok_update [OF si, of ?s]) (simp_all add: socket_fits_def s)
  ultimately show ?thesis
    using sockets_ok_get [OF si] by (intro exI [of _ si'] exI [of _ ?s]) (simp add: step_socket_def s)
qed

section \<open>The tasks that can be idle\<close>

definition al_tf_ok :: "AlStateTransferTask \<Rightarrow> PduSocket \<Rightarrow> bool" where
  "al_tf_ok t s \<longleftrightarrow> 6 \<le> length (data_buf s) \<and> \<not> recv_flag s \<and>
     (if at_state t = AtIdle then sk_command s = None
      else at_inv (\<lambda>_. True) (at_slave_address t) (at_target_al t) t \<and> holds (at_need t) (at_expects t) s)"

definition mailbox_ok :: "MailboxTask \<Rightarrow> PduSocket \<Rightarrow> bool" where
  "mailbox_ok t s \<longleftrightarrow> \<not> recv_flag s \<and>
     (if mb_state t = MbIdle then sk_command s = None else mb_inv t \<and> holds (mb_need t) (mb_expects t) s)"

text \<open>The AL status codes the network reports are all known to the master.\<close>

definition codes_known :: "crates \<Rightarrow> (bytes \<Rightarrow> bytes) \<Rightarrow> bool" where
  "codes_known X slaves \<longleftrightarrow> (\<forall>c. wf_chunk c \<and> pv_wkc (pdu_view c) = 0 \<and>
     pv_data (pdu_view (slaves c)) \<noteq> [] \<and> status_error (pv_data (pdu_view (slaves c))) \<longrightarrow>
     AlStatusCode_try_from X (status_code (pv_data (pdu_view (slaves c)))) \<noteq> None)"

context crates_laws
begin

lemmas at_polled_step = at.polled_step
lemmas mb_polled_step = mb.polled_step
lemmas asr_polled_step = asr_task.polled_step
lemmas dcs_polled_step = dcs_task.polled_step

end

lemma pdu_data_chunk [simp]: "pdu_data (chunk_pdu X c) = pv_data (pdu_view c)"
  by (simp add: chunk_pdu_def Let_def)

lemma al_tf_step:
  assumes X: "crates_laws X" and si: "sockets_ok si ss" "h < length ss" and t: "al_tf_ok t s0"
    and an: "answered X slaves h s0 (ss ! h)" and net: "answers dev slaves d" and code: "codes_known X slaves"
  shows "\<exists>t' si' s'. step_socket (al_state_transfer_ops X) t si h time = Some (t', si') \<and> sockets_ok si' (ss[h := s']) \<and>
    iface si' = iface si \<and> al_tf_ok t' s'"
proof (cases "at_state t = AtIdle")
  case True
  then have s0: "sk_command s0 = None" "\<not> recv_flag s0" "6 \<le> length (data_buf s0)" using t by (simp_all add: al_tf_ok_def)
  have none: "ct_next_pdu (al_state_transfer_ops X) t buf = Some (None, t, buf)" for buf
    using True by (simp add: al_state_transfer_ops_def at_next_pdu_def)
  have "ss ! h = s0" using answered_waiting [OF an] s0(1) by (simp add: pending_def)
  with idle_step [OF si s0(1,2) an none, of time] s0(3) True show ?thesis by (fastforce simp: al_tf_ok_def)
next
  case False
  let ?I = "at_inv (\<lambda>_. True) (at_slave_address t) (at_target_al t)"
  have s0: "?I t" "holds (at_need t) (at_expects t) s0" "6 \<le> length (data_buf s0)"
    using t False by (simp_all add: al_tf_ok_def)
  have acc: "at_accepts X (\<lambda>_. True) t (chunk_pdu X (slaves c))"
    if "wf_chunk c" "pv_wkc (pdu_view c) = 0" "pv_data (pdu_view (slaves c)) \<noteq> []" for c
    using code that by (auto simp: at_accepts_def codes_known_def)
  obtain t' si' s' where s': "step_socket (al_state_transfer_ops X) t si h time = Some (t', si')"
    "sockets_ok si' (ss[h := s'])" "iface si' = iface si" "?I t'" "holds (at_need t') (at_expects t') s'"
    "length (data_buf s') = length (data_buf (ss ! h))"
    using crates_laws.at_polled_step [OF X si s0(1,2) an net acc] by blast
  moreover have "6 \<le> length (data_buf s')" using s'(6) polled(2) [OF an s0(2) net] s0(3) by simp
  ultimately have "al_tf_ok t' s'" by (auto simp: al_tf_ok_def at_inv_def holds_def)
  with s' show ?thesis by blast
qed

lemma mailbox_step:
  assumes X: "crates_laws X" and si: "sockets_ok si ss" "h < length ss" and t: "mailbox_ok t s0"
    and an: "answered X slaves h s0 (ss ! h)" and net: "answers dev slaves d"
  shows "\<exists>t' si' s'. step_socket (mailbox_ops X) t si h time = Some (t', si') \<and> sockets_ok si' (ss[h := s']) \<and>
    iface si' = iface si \<and> mailbox_ok t' s'"
proof (cases "mb_state t = MbIdle")
  case True
  then have s0: "sk_command s0 = None" "\<not> recv_flag s0" using t by (simp_all add: mailbox_ok_def)
  have none: "ct_next_pdu (mailbox_ops X) t buf = Some (None, t, buf)" for buf
    using True by (simp add: mailbox_ops_def mb_next_pdu_def)
  from idle_step [OF si s0 an none, of time] True show ?thesis by (fastforce simp: mailbox_ok_def)
next
  case False
  then have s0: "mb_inv t" "holds (mb_need t) (mb_expects t) s0" using t by (simp_all add: mailbox_ok_def)
  obtain t' si' s' where s': "step_socket (mailbox_ops X) t si h time = Some (t', si')"
    "sockets_ok si' (ss[h := s'])" "iface si' = iface si" "mb_inv t'" "holds (mb_need t') (mb_expects t') s'"
    using crates_laws.mb_polled_step [OF X si s0 an net] by blast
  moreover have "mb_state t' \<noteq> MbIdle" "\<not> recv_flag s'" using s'(4,5) by (simp_all add: mb_inv_def holds_def)
  ultimately have "mailbox_ok t' s'" by (simp add: mailbox_ok_def)
  with s' show ?thesis by blast
qed

section \<open>The master between two cycles\<close>

text \<open>The image can be searched for the mailbox states of the slaves without a panic.\<close>

definition image_readable :: "crates \<Rightarrow> Network \<Rightarrow> nat \<Rightarrow> bool" where
  "image_readable X network n \<longleftrightarrow> (\<forall>img found x. length img = n \<longrightarrow> x \<in> set (enumerate 0 (slaves_list network)) \<longrightarrow>
     mailbox_of_image X LOGICAL_START_ADDRESS img found x \<noteq> None)"

definition pd_ok :: "crates \<Rightarrow> Network \<Rightarrow> ProcessTask \<Rightarrow> PduSocket \<Rightarrow> bool" where
  "pd_ok X network t s \<longleftrightarrow> (pt_expected_wkc t \<noteq> 0 \<longrightarrow> 0 < pt_image_size t) \<and> holds (pt_image_size t) (pt_image_size t) s \<and>
     image_readable X network (length (data_buf s))"

definition handles :: "'d EtherCatMaster \<Rightarrow> nat list" where
  "handles m = (case process_data_handle m of Some h \<Rightarrow> [h] | None \<Rightarrow> []) @
     [mailbox_handle m, dc_handle m, rx_error_handle m, al_state_handle m, al_tf_handle m]"

text \<open>
  Every service has its own socket, which is free or holds the request whose answer the task of the
  service expects. The mailbox is served only in cycles with process data.
\<close>

definition cycle_ok :: "crates \<Rightarrow> 'd EtherCatMaster \<Rightarrow> PduSocket list \<Rightarrow> bool" where
  "cycle_ok X m ss \<longleftrightarrow> sockets_ok (ma_sif m) ss \<and> distinct (handles m) \<and> (\<forall>h \<in> set (handles m). h < length ss) \<and>
     slave_with_mailbox (mailbox_manager m) = None \<and>
     (\<forall>h. process_data_handle m = Some h \<longrightarrow> pd_ok X (ma_network m) (process_data_task m) (ss ! h) \<and>
        mailbox_ok (mm_task (mailbox_manager m)) (ss ! mailbox_handle m)) \<and>
     (dc_task m \<noteq> None \<longrightarrow> holds 8 8 (ss ! dc_handle m)) \<and>
     length (rxe_rx_error_count (rx_error_task m)) = 8 \<and> holds 8 8 (ss ! rx_error_handle m) \<and>
     holds 6 6 (ss ! al_state_handle m) \<and> al_tf_ok (al_tf_task m) (ss ! al_tf_handle m)"

lemma for_each_total: "(\<And>s x. x \<in> set xs \<Longrightarrow> f s x \<noteq> None) \<Longrightarrow> \<exists>s'. for_each f s xs = Some s'"
proof (induction xs arbitrary: s)
  case (Cons x xs)
  obtain s1 where "f s x = Some s1" using Cons.prems [of x s] by auto
  with Cons.IH [of s1] Cons.prems show ?case by auto
qed simp

lemma find_slave_ok:
  assumes "image_readable X network (length img)"
  shows "find_slave_with_mailbox_from_process_data X mm network LOGICAL_START_ADDRESS img =
    Some (mm\<lparr>slave_with_mailbox := None\<rparr>)"
proof -
  obtain r where "for_each (mailbox_of_image X LOGICAL_START_ADDRESS img) (slave_with_mailbox mm)
      (enumerate 0 (slaves_list network)) = Some r"
    using assms for_each_total [of "enumerate 0 (slaves_list network)"] unfolding image_readable_def by metis
  then show ?thesis by (simp add: find_slave_with_mailbox_from_process_data_def)
qed

definition pt_request :: "ProcessTask \<Rightarrow> Command option" where
  "pt_request t = (if pt_expected_wkc t = 0 then None else Some (pt_command t))"

text \<open>The process data task leaves the image alone and always asks for the next exchange.\<close>

lemma process_image_kept:
  assumes "step_socket process_ops t si h time = Some (t', si')" and "get_socket si h = Some s" and "get_socket si' h = Some s'"
  shows "data_buf s' = data_buf s \<and> sk_command s' = pt_request t \<and> pt_image_size t' = pt_image_size t \<and>
    pt_command t' = pt_command t \<and> pt_expected_wkc t' = pt_expected_wkc t"
proof -
  obtain s1 where s1: "process_one_step process_ops t s time = Some (t', s1)" "get_socket_mut si h s1 = Some si'"
    using assms(1,2) by (auto simp: step_socket_def split: Option.bind_splits)
  have "s' = s1"
    using s1(2) assms(2,3) get_item_mut_Some [of "socket_set si" h s s1]
    by (auto simp: get_socket_mut_def get_socket_def)
  with s1(1) show ?thesis
    by (auto simp: process_one_step_def process_ops_def pt_next_pdu_def pt_recieve_and_process_def set_pdu_def pt_request_def
      split: Option.bind_splits option.splits if_splits)
qed

lemma process_data_phase:
  assumes X: "crates_laws X" and net: "answers dev slaves d"
    and si: "sockets_ok (ma_sif m) ss" "h < length ss" "mailbox_handle m < length ss" "h \<noteq> mailbox_handle m"
    and pd: "pd_ok X (ma_network m) (process_data_task m) s0" "answered X slaves h s0 (ss ! h)"
    and mb: "mailbox_ok (mm_task (mailbox_manager m)) s1" "answered X slaves (mailbox_handle m) s1 (ss ! mailbox_handle m)"
      "slave_with_mailbox (mailbox_manager m) = None"
  shows "\<exists>si' task mm s' s''. process_data_step X m h time =
      Some (m\<lparr>ma_sif := si', process_data_task := task, mailbox_manager := mm\<rparr>) \<and>
    sockets_ok si' (ss[h := s', mailbox_handle m := s'']) \<and> iface si' = iface (ma_sif m) \<and>
    pd_ok X (ma_network m) task s' \<and> mailbox_ok (mm_task mm) s'' \<and> slave_with_mailbox mm = None \<and>
    data_buf s' = data_buf (ss ! h) \<and> sk_command s' = pt_request (process_data_task m) \<and>
    pt_image_size task = pt_image_size (process_data_task m) \<and> pt_command task = pt_command (process_data_task m) \<and> pt_expected_wkc task = pt_expected_wkc (process_data_task m)"
proof -
  let ?mb = "mailbox_handle m" and ?mm = "mailbox_manager m"
  have s0: "pt_expected_wkc (process_data_task m) \<noteq> 0 \<longrightarrow> 0 < pt_image_size (process_data_task m)" "image_readable X (ma_network m) (length (data_buf s0))"
    "holds (pt_image_size (process_data_task m)) (pt_image_size (process_data_task m)) s0"
    using pd(1) by (simp_all add: pd_ok_def)
  obtain task si1 s' where pt: "step_socket process_ops (process_data_task m) (ma_sif m) h time = Some (task, si1)"
    "sockets_ok si1 (ss[h := s'])" "iface si1 = iface (ma_sif m)" "pt_expected_wkc task \<noteq> 0 \<longrightarrow> 0 < pt_image_size task"
    "holds (pt_image_size task) (pt_image_size task) s'" "length (data_buf s') = length (data_buf (ss ! h))"
    using pt_task.polled_step [OF si(1,2) s0(1,3) pd(2) net] by blast
  have img: "data_buf s' = data_buf (ss ! h) \<and> sk_command s' = pt_request (process_data_task m) \<and>
    pt_image_size task = pt_image_size (process_data_task m) \<and> pt_command task = pt_command (process_data_task m) \<and> pt_expected_wkc task = pt_expected_wkc (process_data_task m)"
    using process_image_kept [OF pt(1) sockets_ok_get [OF si(1,2)], of s'] sockets_ok_get [OF pt(2), of h] si(2) by simp
  have len: "length (data_buf s') = length (data_buf s0)" using pt(6) polled(2) [OF pd(2) s0(3) net] by simp
  have mb': "answered X slaves ?mb s1 (ss[h := s'] ! ?mb)" "?mb < length (ss[h := s'])" using mb(2) si by simp_all
  obtain t si2 s'' where ms: "step_socket (mailbox_ops X) (mm_task ?mm) si1 ?mb time = Some (t, si2)"
    "sockets_ok si2 (ss[h := s', ?mb := s''])" "iface si2 = iface si1" "mailbox_ok t s''"
    using mailbox_step [OF X pt(2) mb'(2) mb(1) mb'(1) net] by blast
  obtain socket s2 where step: "get_socket si1 ?mb = Some socket"
    "process_one_step (mailbox_ops X) (mm_task ?mm) socket time = Some (t, s2)" "get_socket_mut si1 ?mb s2 = Some si2"
    using ms(1) by (auto simp: step_socket_def split: Option.bind_splits)
  have "get_socket si2 h = Some s'" using sockets_ok_get [OF ms(2), of h] si by simp
  then have "process_data_step X m h time = Some (m\<lparr>ma_sif := si2, process_data_task := task,
      mailbox_manager := ?mm\<lparr>mm_task := t, slave_with_mailbox := None\<rparr>\<rparr>)"
    using pt(1) step mb(3) s0(2) len
    by (simp add: process_data_step_def mm_process_one_step_def find_slave_ok)
  moreover have "pd_ok X (ma_network m) task s'" using pt(4,5) s0(2) len by (simp add: pd_ok_def)
  ultimately show ?thesis using ms(2,3,4) pt(3) img
    by (intro exI [of _ si2] exI [of _ task] exI [of _ "?mm\<lparr>mm_task := t, slave_with_mailbox := None\<rparr>"]
      exI [of _ s'] exI [of _ s'']) simp
qed

lemma dc_phase:
  assumes X: "crates_laws X" and net: "answers dev slaves d"
    and si: "sockets_ok (ma_sif m) ss" "dc_handle m < length ss"
    and dc: "dc_task m \<noteq> None \<Longrightarrow> holds 8 8 s0" "answered X slaves (dc_handle m) s0 (ss ! dc_handle m)"
  obtains si' task s' where "(case dc_task m of
             Some task \<Rightarrow> do {
               (task, si) \<leftarrow> step_socket (dc_sync_ops X) task (ma_sif m) (dc_handle m) time;
               ret (m\<lparr>ma_sif := si, dc_task := Some task\<rparr>) }
           | None \<Rightarrow> ret m) = Some (m\<lparr>ma_sif := si', dc_task := task\<rparr>)"
    "sockets_ok si' (ss[dc_handle m := s'])" "iface si' = iface (ma_sif m)" "task \<noteq> None \<Longrightarrow> holds 8 8 s'"
proof (cases "dc_task m")
  case None
  then show ?thesis using si by (intro that [of None "ma_sif m" "ss ! dc_handle m"]) simp_all
next
  case (Some t)
  then obtain t' si' s' where "step_socket (dc_sync_ops X) t (ma_sif m) (dc_handle m) time = Some (t', si')"
    "sockets_ok si' (ss[dc_handle m := s'])" "iface si' = iface (ma_sif m)" "holds 8 8 s'"
    using crates_laws.dcs_polled_step [OF X si _ _ dc(2) net, of t time] dc(1) by auto
  with Some show ?thesis by (intro that [of "Some t'" si' s']) simp_all
qed

lemma rx_phase:
  assumes net: "answers dev slaves d" and si: "sockets_ok si ss" "h < length ss"
    and t: "length (rxe_rx_error_count t) = 8" "holds 8 8 s0" "answered X slaves h s0 (ss ! h)"
  obtains t' si' s' where "step_socket rx_error_read_ops t si h time = Some (t', si')"
    "sockets_ok si' (ss[h := s'])" "iface si' = iface si" "length (rxe_rx_error_count t') = 8" "holds 8 8 s'"
  using rxe_task.polled_step [OF si t(1,2,3) net TrueI, of time] by blast

lemma asr_phase:
  assumes X: "crates_laws X" and net: "answers dev slaves d" and code: "codes_known X slaves"
    and si: "sockets_ok si ss" "h < length ss" and t: "holds 6 6 s0" "answered X slaves h s0 (ss ! h)"
  obtains t' si' s' where "step_socket (al_state_read_ops X) t si h time = Some (t', si')"
    "sockets_ok si' (ss[h := s'])" "iface si' = iface si" "holds 6 6 s'"
proof -
  have "asr_accepts X t (chunk_pdu X (slaves c))" if "wf_chunk c" "pv_wkc (pdu_view c) = 0" "pv_data (pdu_view (slaves c)) \<noteq> []" for c
    using code that by (auto simp: asr_accepts_def codes_known_def)
  with crates_laws.asr_polled_step [OF X si TrueI t(1,2) net, of t time] that show thesis by blast
qed

text \<open>
  After a cycle the socket of the process data holds the image as it came back, with the next request
  for it.
\<close>

definition image_sent :: "'d EtherCatMaster \<Rightarrow> PduSocket list \<Rightarrow> 'd EtherCatMaster \<Rightarrow> PduSocket list \<Rightarrow> bool" where
  "image_sent m ss1 m' ss' \<longleftrightarrow> (\<forall>k. process_data_handle m = Some k \<longrightarrow>
     data_buf (ss' ! k) = data_buf (ss1 ! k) \<and> sk_command (ss' ! k) = pt_request (process_data_task m) \<and>
     pt_image_size (process_data_task m') = pt_image_size (process_data_task m) \<and>
     pt_command (process_data_task m') = pt_command (process_data_task m) \<and>
     pt_expected_wkc (process_data_task m') = pt_expected_wkc (process_data_task m))"

lemma cycle_step_ok:
  assumes X: "crates_laws X" and net: "answers dev slaves d" and code: "codes_known X slaves"
    and m: "cycle_ok X m ss" and si: "sockets_ok si1 ss1" "length ss1 = length ss"
    and an: "\<And>j. j < length ss \<Longrightarrow> answered X slaves j (ss ! j) (ss1 ! j)"
  shows "\<exists>m' ss'. cycle_step X (m\<lparr>ma_sif := si1\<rparr>) time = Some m' \<and> cycle_ok X m' ss' \<and>
    cycle_count m' = cycle_count m \<and> process_data_handle m' = process_data_handle m \<and> image_sent m ss1 m' ss'"
proof -
  let ?m = "m\<lparr>ma_sif := si1\<rparr>" and ?net = "ma_network m"
  let ?mb = "mailbox_handle m" and ?dc = "dc_handle m" and ?rx = "rx_error_handle m"
  let ?al = "al_state_handle m" and ?tf = "al_tf_handle m"
  have h: "?mb < length ss" "?dc < length ss" "?rx < length ss" "?al < length ss" "?tf < length ss"
    "distinct [?mb, ?dc, ?rx, ?al, ?tf]" using m by (auto simp: cycle_ok_def handles_def)
  have pdh: "k < length ss \<and> k \<noteq> ?mb \<and> ?mb \<noteq> k \<and> k \<noteq> ?dc \<and> k \<noteq> ?rx \<and> k \<noteq> ?al \<and> k \<noteq> ?tf"
    if "process_data_handle m = Some k" for k using m that by (auto simp: cycle_ok_def handles_def)
  have ok: "slave_with_mailbox (mailbox_manager m) = None"
    "\<And>k. process_data_handle m = Some k \<Longrightarrow> pd_ok X ?net (process_data_task m) (ss ! k)"
    "\<And>k. process_data_handle m = Some k \<Longrightarrow> mailbox_ok (mm_task (mailbox_manager m)) (ss ! ?mb)"
    "dc_task m \<noteq> None \<Longrightarrow> holds 8 8 (ss ! ?dc)" "length (rxe_rx_error_count (rx_error_task m)) = 8"
    "holds 8 8 (ss ! ?rx)" "holds 6 6 (ss ! ?al)" "al_tf_ok (al_tf_task m) (ss ! ?tf)"
    using m by (auto simp: cycle_ok_def)
  obtain si2 pt mm ss2 where p2: "(case process_data_handle m of Some handle \<Rightarrow> process_data_step X ?m handle time
      | None \<Rightarrow> ret ?m) = Some (m\<lparr>ma_sif := si2, process_data_task := pt, mailbox_manager := mm\<rparr>)"
    "sockets_ok si2 ss2" "length ss2 = length ss" "slave_with_mailbox mm = None"
    "\<And>k. process_data_handle m = Some k \<Longrightarrow> pd_ok X ?net pt (ss2 ! k) \<and> mailbox_ok (mm_task mm) (ss2 ! ?mb)"
    "\<And>k. process_data_handle m \<noteq> Some k \<Longrightarrow> k \<noteq> ?mb \<Longrightarrow> ss2 ! k = ss1 ! k"
    "\<And>k. process_data_handle m = Some k \<Longrightarrow> data_buf (ss2 ! k) = data_buf (ss1 ! k) \<and>
       sk_command (ss2 ! k) = pt_request (process_data_task m) \<and> pt_image_size pt = pt_image_size (process_data_task m) \<and>
       pt_command pt = pt_command (process_data_task m) \<and> pt_expected_wkc pt = pt_expected_wkc (process_data_task m)"
  proof (cases "process_data_handle m")
    case None
    then show ?thesis
      using si ok(1) by (intro that [of "mailbox_manager m" "process_data_task m" si1 ss1]) simp_all
  next
    case (Some k)
    have "\<exists>si' task mm s' s''. process_data_step X ?m k time =
        Some (?m\<lparr>ma_sif := si', process_data_task := task, mailbox_manager := mm\<rparr>) \<and>
      sockets_ok si' (ss1[k := s', mailbox_handle ?m := s'']) \<and> iface si' = iface (ma_sif ?m) \<and>
      pd_ok X (ma_network ?m) task s' \<and> mailbox_ok (mm_task mm) s'' \<and> slave_with_mailbox mm = None \<and>
      data_buf s' = data_buf (ss1 ! k) \<and> sk_command s' = pt_request (process_data_task ?m) \<and>
      pt_image_size task = pt_image_size (process_data_task ?m) \<and> pt_command task = pt_command (process_data_task ?m) \<and> pt_expected_wkc task = pt_expected_wkc (process_data_task ?m)"
      using Some pdh [OF Some] h si ok an
      by (intro process_data_phase [OF X net, where ?s0.0 = "ss ! k" and ?s1.0 = "ss ! ?mb"]) simp_all
    then obtain si' task mm' s' s'' where *: "process_data_step X ?m k time =
        Some (m\<lparr>ma_sif := si', process_data_task := task, mailbox_manager := mm'\<rparr>)"
      "sockets_ok si' (ss1[k := s', ?mb := s''])" "pd_ok X ?net task s'" "mailbox_ok (mm_task mm') s''"
      "slave_with_mailbox mm' = None" "data_buf s' = data_buf (ss1 ! k)"
      "sk_command s' = pt_request (process_data_task m)" "pt_image_size task = pt_image_size (process_data_task m)"
      "pt_command task = pt_command (process_data_task m) \<and> pt_expected_wkc task = pt_expected_wkc (process_data_task m)" by auto
    with Some pdh [OF Some] h si show ?thesis
      by (intro that [of mm' task si' "ss1[k := s', ?mb := s'']"]) simp_all
  qed
  let ?m2 = "m\<lparr>ma_sif := si2, process_data_task := pt, mailbox_manager := mm\<rparr>"
  have other: "k \<in> {?dc, ?rx, ?al, ?tf} \<Longrightarrow> answered X slaves k (ss ! k) (ss2 ! k)" for k
    using p2(6) [of k] an [of k] pdh h by fastforce
  obtain si3 dt s3 where p3: "(case dc_task ?m2 of
             Some task \<Rightarrow> do {
               (task, si) \<leftarrow> step_socket (dc_sync_ops X) task (ma_sif ?m2) (dc_handle ?m2) time;
               ret (?m2\<lparr>ma_sif := si, dc_task := Some task\<rparr>) }
           | None \<Rightarrow> ret ?m2) = Some (?m2\<lparr>ma_sif := si3, dc_task := dt\<rparr>)"
    "sockets_ok si3 (ss2[?dc := s3])" "dt \<noteq> None \<Longrightarrow> holds 8 8 s3"
    by (rule dc_phase [OF X net, of ?m2 ss2 "ss ! ?dc" time]) (use p2(2,3) h ok(4) other in simp_all)
  let ?ss3 = "ss2[?dc := s3]"
  obtain rt si4 s4 where p4: "step_socket rx_error_read_ops (rx_error_task m) si3 ?rx time = Some (rt, si4)"
    "sockets_ok si4 (?ss3[?rx := s4])" "length (rxe_rx_error_count rt) = 8" "holds 8 8 s4"
    by (rule rx_phase [OF net p3(2) _ ok(5,6), of ?rx X time]) (use p2(3) h other in simp_all)
  let ?ss4 = "?ss3[?rx := s4]"
  obtain at si5 s5 where p5: "step_socket (al_state_read_ops X) (al_state_task m) si4 ?al time = Some (at, si5)"
    "sockets_ok si5 (?ss4[?al := s5])" "holds 6 6 s5"
    by (rule asr_phase [OF X net code p4(2) _ ok(7), of ?al "al_state_task m" time]) (use p2(3) h other in simp_all)
  let ?ss5 = "?ss4[?al := s5]"
  have tf: "?tf < length ?ss5" "answered X slaves ?tf (ss ! ?tf) (?ss5 ! ?tf)" using p2(3) h other by simp_all
  obtain tt si6 s6 where p6: "step_socket (al_state_transfer_ops X) (al_tf_task m) si5 ?tf time = Some (tt, si6)"
    "sockets_ok si6 (?ss5[?tf := s6])" "al_tf_ok tt s6"
    using al_tf_step [OF X p5(2) tf(1) ok(8) tf(2) net code, of time] by blast
  let ?m' = "?m2\<lparr>ma_sif := si6, dc_task := dt, rx_error_task := rt, al_state_task := at, al_tf_task := tt\<rparr>"
  have "cycle_step X ?m time = Some ?m'"
    using p2(1) p3(1) p4(1) p5(1) p6(1) by (simp add: cycle_step_def)
  moreover have "cycle_ok X ?m' (?ss5[?tf := s6])"
    unfolding cycle_ok_def
    using m p2(3,4,5) p3(3) p4(3,4) p5(3) p6(2,3) h pdh
    by (auto simp: cycle_ok_def handles_def)
  moreover have "image_sent m ss1 ?m' (?ss5[?tf := s6])"
    using p2(7) pdh by (auto simp: image_sent_def)
  ultimately show ?thesis by (intro exI [of _ ?m'] exI [of _ "?ss5[?tf := s6]"]) simp
qed

section \<open>Runs of the master\<close>

lemma process_ok:
  assumes X: "crates_laws X" and net: "\<And>d. answers dev (slaves d) d" and code: "\<And>d. codes_known X (slaves d)"
    and m: "cycle_ok X m ss"
  shows "\<exists>m' ss1 ss'. process X dev m time = Some (Inr (cycle_count m'), m') \<and> cycle_ok X m' ss' \<and>
    cycle_count m' = (cycle_count m + 1) mod 2 ^ 64 \<and> process_data_handle m' = process_data_handle m \<and>
    image_sent m ss1 m' ss' \<and>
    (\<forall>j < length ss. answered X (slaves (ethdev (iface (ma_sif m)))) j (ss ! j) (ss1 ! j))"
proof -
  let ?S = "slaves (ethdev (iface (ma_sif m)))"
  have si: "sockets_ok (ma_sif m) ss" using m by (simp add: cycle_ok_def)
  obtain si1 ss1 where poll: "poll_tx_rx X dev (ma_sif m) = Some (Inr True, si1)" "sockets_ok si1 ss1"
    "length ss1 = length ss" "\<And>j. j < length ss \<Longrightarrow> answered X ?S j (ss ! j) (ss1 ! j)"
    using poll_answered [OF X _ net, of "ma_sif m" ss] si unfolding sockets_ok_def by blast
  obtain m' ss' where m': "cycle_step X (m\<lparr>ma_sif := si1\<rparr>) time = Some m'" "cycle_ok X m' ss'"
    "cycle_count m' = cycle_count m" "process_data_handle m' = process_data_handle m" "image_sent m ss1 m' ss'"
    using cycle_step_ok [OF X net code m poll(2,3,4), of time] by blast
  have "cycle_ok X (m'\<lparr>cycle_count := (cycle_count m + 1) mod 2 ^ 64\<rparr>) ss'"
    using m'(2) by (simp add: cycle_ok_def handles_def)
  with poll(1,4) m'(1,3,4,5) show ?thesis
    by (intro exI [of _ "m'\<lparr>cycle_count := (cycle_count m + 1) mod 2 ^ 64\<rparr>"] exI [of _ ss1] exI [of _ ss'])
      (simp add: process_def image_sent_def)
qed

lemma request_ok:
  assumes "cycle_ok X m ss"
  shows "cycle_ok X (snd (request_al_state m target)) ss"
proof -
  let ?t = "al_tf_task m" and ?s = "ss ! al_tf_handle m"
  have t: "al_tf_ok ?t ?s" using assms by (simp add: cycle_ok_def)
  have "al_tf_ok (at_start ?t addr target) ?s" if "\<not> at_is_busy ?t" for addr
  proof -
    have free: "sk_command ?s = None"
    proof (cases "at_state ?t = AtIdle")
      case False
      have "at_expects ?t = 0" using that by (auto simp: at_expects_def at_is_busy_def)
      with False t show ?thesis by (auto simp: al_tf_ok_def holds_def)
    qed (use t in \<open>simp add: al_tf_ok_def\<close>)
    then show ?thesis using t
      by (auto simp: al_tf_ok_def at_start_def at_inv_def holds_def at_need_def at_is_busy_def)
  qed
  with assms show ?thesis by (auto simp: request_al_state_def cycle_ok_def handles_def)
qed

text \<open>A client: it calls \<open>process\<close> and unwraps the result, and asks for AL states in between.\<close>

datatype client_call = Cycle u64 | RequestAlState AlState

fun client_run :: "crates \<Rightarrow> 'd device \<Rightarrow> 'd EtherCatMaster \<Rightarrow> client_call list \<Rightarrow> 'd EtherCatMaster rust" where
  "client_run X dev m [] = ret m"
| "client_run X dev m (RequestAlState target # calls) = client_run X dev (snd (request_al_state m target)) calls"
| "client_run X dev m (Cycle time # calls) = do {
     (r, m) \<leftarrow> process X dev m time;
     case r of Inl _ \<Rightarrow> panic | Inr _ \<Rightarrow> client_run X dev m calls }"

abbreviation num_cycles :: "client_call list \<Rightarrow> nat" where
  "num_cycles calls \<equiv> length (filter (\<lambda>c. case c of Cycle _ \<Rightarrow> True | RequestAlState _ \<Rightarrow> False) calls)"

lemma client_run_ok:
  assumes X: "crates_laws X" and net: "\<And>d. answers dev (slaves d) d" and code: "\<And>d. codes_known X (slaves d)"
    and "cycle_ok X m ss" and "cycle_count m < 2 ^ 64"
  shows "\<exists>m' ss'. client_run X dev m calls = Some m' \<and> cycle_ok X m' ss' \<and>
    cycle_count m' = (cycle_count m + num_cycles calls) mod 2 ^ 64"
  using assms(4,5)
proof (induction calls arbitrary: m ss)
  case Nil
  then show ?case by auto
next
  case (Cons c calls)
  show ?case
  proof (cases c)
    case (RequestAlState target)
    let ?m = "snd (request_al_state m target)"
    have "cycle_count ?m = cycle_count m" by (simp add: request_al_state_def)
    with Cons.IH [OF request_ok [OF Cons.prems(1)], of target] Cons.prems(2) RequestAlState show ?thesis
      by simp
  next
    case (Cycle time)
    obtain m1 ss1 where m1: "process X dev m time = Some (Inr (cycle_count m1), m1)" "cycle_ok X m1 ss1"
      "cycle_count m1 = (cycle_count m + 1) mod 2 ^ 64"
      using process_ok [OF X net code Cons.prems(1), of time] by blast
    have "((cycle_count m + 1) mod 2 ^ 64 + n) mod 2 ^ 64 = (cycle_count m + Suc n) mod 2 ^ 64" for n
      by (simp add: mod_simps)
    moreover obtain m' ss' where "client_run X dev m1 calls = Some m'" "cycle_ok X m' ss'"
      "cycle_count m' = (cycle_count m1 + num_cycles calls) mod 2 ^ 64"
      using Cons.IH [OF m1(2)] m1(3) by auto
    ultimately show ?thesis using Cycle m1(1,3) by (intro exI [of _ m'] exI [of _ ss']) simp
  qed
qed

section \<open>The new master\<close>

definition new_sockets :: "bytes \<Rightarrow> PduSocket list" where
  "new_sockets b = map PduSocket_new
     [take 6 b, take 8 (drop 6 b), take 8 (drop 14 b), take 256 (drop 22 b), take 256 (drop 278 b), take 6 (drop 534 b)]"

definition new_master :: "(Slave option \<times> SlaveConfig) list \<Rightarrow> bytes \<Rightarrow> 'd PduInterface \<Rightarrow> 'd EtherCatMaster" where
  "new_master slave_buf b i =
     \<lparr>ma_sif = \<lparr>iface = i, socket_set = \<lparr>free_index = 6, items = map Exist (new_sockets b) @ [NextFreeIndex 7]\<rparr>,
                lost_frame_count = 0\<rparr>,
      ma_network = Network_new slave_buf, gp_socket_handle = 3, cycle_count = 0, mailbox_handle = 4,
      mailbox_manager = MailboxManager_new MailboxTask_new, process_data_handle = None,
      process_data_task = ProcessTask_new LOGICAL_START_ADDRESS 0 0, dc_handle = 2, dc_task = None,
      al_state_handle = 0, al_state_task = AlStateReadTask_new, rx_error_handle = 1,
      rx_error_task = RxErrorReadTask_new, al_tf_handle = 5, al_tf_task = AlStateTransferTask_new\<rparr>"

lemma required_buffer_size: "MINIMUM_REQUIRED_BUFFER_SIZE = 540" "asr_buffer_size = 6"
  "rxe_required_buffer_size = 8" "dcs_required_buffer_size = 8" "unat MAX_SM_SIZE = 256"
  by (simp_all add: MINIMUM_REQUIRED_BUFFER_SIZE_def asr_buffer_size_def const_max_def AlStatus_def
    rxe_required_buffer_size_def RxErrorCounter_def dcs_required_buffer_size_def DcSystemTime_def
    at_buffer_size_eq MAX_SM_SIZE_def)

lemma sockets_7: "index_set_new NUM_SOCKETS = \<lparr>free_index = 0, items = [NextFreeIndex 1, NextFreeIndex 2,
    NextFreeIndex 3, NextFreeIndex 4, NextFreeIndex 5, NextFreeIndex 6, NextFreeIndex 7]\<rparr>"
  by (simp add: index_set_new_def NUM_SOCKETS_def upt_rec numeral_eq_Suc)

lemma EtherCatMaster_new_eq:
  "EtherCatMaster_new slave_buf b i =
     (if slave_buf \<noteq> [] \<and> 540 < length b then Some (new_master slave_buf b i) else None)"
proof (cases "slave_buf \<noteq> [] \<and> 540 < length b")
  case True
  then have "8 \<le> length b - 6" "8 \<le> length b - 14" "256 \<le> length b - 22" "256 \<le> length b - 278" "6 \<le> length b - 534"
    by linarith+
  with True show ?thesis
    by (simp add: EtherCatMaster_new_def assert_def required_buffer_size at_buffer_size_eq split_at_def
      SocketInterface_new_def sockets_7 new_socket_def add_socket_def add_item_def get_def
      new_master_def new_sockets_def)
next
  case False
  then show ?thesis by (auto simp: EtherCatMaster_new_def required_buffer_size assert_def)
qed

lemma new_master_dense: "dense (ma_sif (new_master slave_buf b i)) (new_sockets b)"
  by (auto simp: dense_def get_socket_def get_item_def get_def new_master_def new_sockets_def nth_append
    less_Suc_eq)

lemma new_master_ok:
  assumes "540 < length b" and "612 < length frame_buffer"
  shows "cycle_ok X (new_master slave_buf b (PduInterface_new d0 frame_buffer)) (new_sockets b)"
proof -
  let ?m = "new_master slave_buf b (PduInterface_new d0 frame_buffer)"
  have "dense (ma_sif ?m) (new_sockets b)" by (rule new_master_dense)
  moreover have "roomy (ma_sif ?m) (new_sockets b)"
    using assms by (simp add: roomy_def new_master_def new_sockets_def PduInterface_new_def PduSocket_new_def)
  moreover have "idle (iface (ma_sif ?m))" by (simp add: new_master_def idle_new)
  moreover have "\<forall>s \<in> set (new_sockets b). socket_fits s"
    by (simp add: new_sockets_def PduSocket_new_def socket_fits_def)
  ultimately have "sockets_ok (ma_sif ?m) (new_sockets b)" by (simp add: sockets_ok_def)
  then show ?thesis
    unfolding cycle_ok_def using assms
    by (simp add: new_master_def new_sockets_def handles_def MailboxManager_new_def RxErrorReadTask_new_def
      RxErrorCounter_def reg_new_def holds_def PduSocket_new_def al_tf_ok_def AlStateTransferTask_new_def)
qed

text \<open>
  C26: the constructor panics exactly when there is no room for a slave or the buffer has at most 540
  bytes. Otherwise its six sockets have distinct handles below 6, are all free, and their buffers, in
  the order of the handles, are consecutive parts of the given buffer, of the sizes the tasks require;
  every other handle denotes no socket.
\<close>

theorem new_master_sockets:
  "case EtherCatMaster_new slave_buf b i of
     None \<Rightarrow> slave_buf = [] \<or> length b \<le> 540
   | Some m \<Rightarrow>
       slave_buf \<noteq> [] \<and> 540 < length b \<and>
       [al_state_handle m, rx_error_handle m, dc_handle m, gp_socket_handle m, mailbox_handle m, al_tf_handle m] = [0..<6] \<and>
       (\<forall>j. get_socket (ma_sif m) j =
          (if j < 6 then Some (PduSocket_new (take ([6, 8, 8, 256, 256, 6] ! j) (drop ([0, 6, 14, 22, 278, 534] ! j) b)))
           else None)) \<and>
       iface (ma_sif m) = i"
proof (cases "slave_buf \<noteq> [] \<and> 540 < length b")
  case True
  let ?m = "new_master slave_buf b i"
  have s: "get_socket (ma_sif ?m) j = (if j < 6 then Some (new_sockets b ! j) else None)" for j
    using new_master_dense [of slave_buf b i] by (simp add: dense_def new_sockets_def)
  have "new_sockets b ! j =
      PduSocket_new (take ([6, 8, 8, 256, 256, 6] ! j) (drop ([0, 6, 14, 22, 278, 534] ! j) b))" if "j < 6" for j
  proof -
    have "j \<in> {0, 1, 2, 3, 4, 5}" using that by auto
    then show ?thesis by (auto simp: new_sockets_def)
  qed
  moreover have "[al_state_handle ?m, rx_error_handle ?m, dc_handle ?m, gp_socket_handle ?m, mailbox_handle ?m,
      al_tf_handle ?m] = [0..<6]" by (simp add: new_master_def upt_rec)
  moreover have "iface (ma_sif ?m) = i" by (simp add: new_master_def)
  ultimately show ?thesis using True s by (simp add: EtherCatMaster_new_eq)
qed (auto simp: EtherCatMaster_new_eq)


definition silent_script :: "nat \<Rightarrow> pdu_content \<Rightarrow> bytes \<times> u16" where
  "silent_script n p = (replicate (length (pv_data p)) 0, 1)"

lemma silent_codes: "codes_known ref_crates (scripted silent_script d)"
proof -
  have "\<not> status_error (pv_data (pdu_view (scripted silent_script d c)))"
    if "wf_chunk c" "pv_data (pdu_view (scripted silent_script d c)) \<noteq> []" for c
    using that by (auto simp: scripted_def silent_script_def reply_chunk_wf(3) copy_zip_def status_error_def bit_at_def)
  then show ?thesis by (auto simp: codes_known_def)
qed


end
