(* ===== verification/Master_Start.thy ===== *)
theory Master_Start
  imports Master_Cycle Init_Returns
begin

text \<open>
  From the constructor over the initialisation of the network to the cycles: the services of a master are
  in order after \<open>EtherCatMaster::init\<close>, whether it succeeds or not, so that its client may go on.
\<close>

lemma cycle_ok_ready:
  assumes "cycle_ok X m ss" and "h < length ss"
  shows "ready (ma_sif m) ss h"
  using assms by (simp add: cycle_ok_def sockets_ok_def ready_def)

text \<open>The services do not mind what happens to a socket that none of them uses.\<close>

lemma cycle_ok_others:
  assumes m: "cycle_ok X m ss" and h: "h \<notin> set (handles m)" "dc_task m = None" "process_data_handle m = None"
    and free: "\<forall>s \<in> set ss. \<not> pending s" and ss': "ready si ss' h" "others_kept h ss ss'"
  shows "cycle_ok X (m\<lparr>ma_sif := si, ma_network := n\<rparr>) ss'"
proof -
  have len: "length ss' = length ss" using ss'(2) by (simp add: others_kept_def)
  have same: "ss' ! j = ss ! j" if "j \<in> set (handles m)" for j
  proof -
    have "j < length ss" "j \<noteq> h" using m h(1) that by (auto simp: cycle_ok_def)
    moreover from this have "\<not> pending (ss ! j)" using free by simp
    ultimately show ?thesis using ss'(2) by (simp add: others_kept_def)
  qed
  have "sockets_ok si ss'" using ss'(1) by (simp add: ready_def sockets_ok_def)
  then show ?thesis
    using m h(2,3) same len by (simp add: cycle_ok_def handles_def)
qed

lemma new_master_init:
  assumes X: "crates_laws X" and net: "\<And>d. answers dev (slaves d) d" and sane: "\<And>d. init_slaves X (slaves d)"
    and room: "540 < length b" "612 < length frame_buffer" and m: "m = new_master slave_buf b (PduInterface_new d frame_buffer)"
  obtains r m1 ss where "master_init X dev m = Some (Some (r, m1))" "cycle_ok X m1 ss" "cycle_count m1 = 0"
    "r = Inr () \<longrightarrow> (\<exists>ss. ma_network m1 = net_of ss (map snd slave_buf) \<and> length ss \<le> length slave_buf \<and>
       list_all (\<lambda>(k, s). well_found k s) (enumerate 0 ss))"
proof -
  let ?ss = "new_sockets b"
  have ok: "cycle_ok X m ?ss" unfolding m using room by (rule new_master_ok)
  have len: "length ?ss = 6" by (simp add: new_sockets_def)
  have gp: "gp_socket_handle m = 3" "ma_network m = Network_new slave_buf" "cycle_count m = 0" by (simp_all add: m new_master_def)
  have rd: "ready (ma_sif m) ?ss 3" using len by (intro cycle_ok_ready [OF ok]) simp
  have s3: "sk_command (?ss ! 3) = None" "\<not> recv_flag (?ss ! 3)" "16 \<le> length (data_buf (?ss ! 3))"
    using room(1) by (simp_all add: new_sockets_def PduSocket_new_def)
  obtain q where q: "init X dev (ma_sif m) 3 (ma_network m) = Some q" "q \<noteq> None"
    "\<And>r si' network'. q = Some (r, si', network') \<Longrightarrow> \<exists>ss'. ready si' ss' 3 \<and> others_kept 3 ?ss ss'"
    using init_run [OF X net rd s3, of True "ma_network m"] sane by blast
  obtain r si n where r: "q = Some (r, si, n)" using q(2) by (cases q) auto
  obtain ss' where ss': "ready si ss' 3" "others_kept 3 ?ss ss'" using q(3) [OF r] by blast
  have "cycle_ok X (m\<lparr>ma_sif := si, ma_network := n\<rparr>) ss'"
    by (rule cycle_ok_others [OF ok _ _ _ _ ss'])
      (auto simp: m new_master_def handles_def new_sockets_def PduSocket_new_def pending_def)
  then have "cycle_ok X (m\<lparr>ma_sif := si, ma_network := n, al_state_task := t\<rparr>) ss'" for t
    by (simp add: cycle_ok_def handles_def)
  note oks = \<open>cycle_ok X (m\<lparr>ma_sif := si, ma_network := n\<rparr>) ss'\<close> this
  show thesis
  proof (cases r)
    case (Inl e)
    with q(1) r gp oks(1) show thesis
      by (intro that [of r "m\<lparr>ma_sif := si, ma_network := n\<rparr>" ss']) (simp_all add: master_init_def and_then_def Let_def)
  next
    case (Inr u)
    have "\<exists>ss. n = net_of ss (map snd slave_buf) \<and> length ss \<le> length slave_buf \<and>
       list_all (\<lambda>(k, s). well_found k s) (enumerate 0 ss)"
      using init_found [of X dev "ma_sif m" 3 "ma_network m" si n] q(1) r Inr gp(2) by (auto simp: Network_new_def)
    with q(1) r gp oks(2) Inr show thesis
      by (intro that [of r "m\<lparr>ma_sif := si, ma_network := n,
          al_state_task := asr_set_target (al_state_task m) (All (num_slaves n))\<rparr>" ss']) (simp_all add: master_init_def and_then_def Let_def)
  qed
qed


lemma plain_codes: "codes_known ref_crates (scripted plain_slave d)"
proof -
  have "\<not> status_error (pv_data (pdu_view (scripted plain_slave d c)))"
    if "wf_chunk c" "pv_data (pdu_view (scripted plain_slave d c)) \<noteq> []" for c
    using that by (auto simp: scripted_def plain_slave_def reply_chunk_wf(3) copy_zip_def status_error_def bit_at_def
      nth_append)
  then show ?thesis by (auto simp: codes_known_def)
qed


end
