(* ===== verification/Configure.thy ===== *)
theory Configure
  imports Master
begin

text \<open>
  \<open>src/src/master/configure_for_op.rs\<close> and \<open>src/src/master/error.rs\<close>: the configuration of the
  slaves for operation. The mappings of the client are written to the object dictionary of each slave,
  the sync managers are set up, the process data of all slaves is laid out in one logical image, the
  FMMUs are programmed to this layout, and the synchronisation mode is set.

  Code that talks to one slave is a computation on the socket interface and the slave (\<open>config\<close>): it
  may not return, may panic, and otherwise returns the \<open>Result\<close> with the two updated. \<open>c_bind\<close> is the
  sequence with the operator \<open>?\<close>.
\<close>

section \<open>Errors\<close>

record SdoError =
  se_index :: u16
  se_sub_index :: u8
  se_error :: "SdoErrorKind TaskError"

record RegisterError =
  re_address :: u16
  re_error :: "unit TaskError"

datatype ConfigErrorKind =
    SetFmmuRegister RegisterError
  | GetSyncManagerCycleTime SdoError
  | SetSyncManagerSyncType SdoError
  | GetSyncManagerSyncType SdoError
  | SyncModeNotSupported SyncMode
  | GetMinimumCycleTime SdoError
  | CycleTimeTooSmall u32
  | SetSyncManagerCycleTime SdoError
  | ResetSyncError SdoError
  | SetSync0CycleTime RegisterError
  | SetSync1CycleTime RegisterError
  | SetSyncSignalStartTime RegisterError
  | ActivateDc RegisterError
  | ClearPdoMappings SdoError
  | AssignPdoMapToSyncManager SdoError
  | ClearPdoEntries SdoError
  | AssignPdoEntryToPdoMap SdoError
  | SetNumberOfPdoMappings SdoError
  | GetNumberOfPdoMappings SdoError
  | GetPdoMappingAddress SdoError
  | SetNumberOfPdoEntries SdoError
  | GetNumberOfPdoEntries SdoError
  | GetPdoEntrtyAddress SdoError
  | GetNumberOfSyncManagerChannel SdoError
  | GetSyncManagerCommunicationType SdoError

record ConfigError =
  ce_slave_address :: SlaveAddress
  ce_kind :: ConfigErrorKind

section \<open>Computations on one slave\<close>

type_synonym ('d, 'a) config = "'d SocketInterface \<times> Slave \<Rightarrow> ((ConfigError + 'a) \<times> 'd SocketInterface \<times> Slave) run"

definition c_ret :: "'a \<Rightarrow> ('d, 'a) config" where
  "c_ret x s = Some (ret (Inr x, s))"

definition c_bind :: "('d, 'a) config \<Rightarrow> ('a \<Rightarrow> ('d, 'b) config) \<Rightarrow> ('d, 'b) config" where
  "c_bind m f s = and_then (m s) (\<lambda>(r, s). case r of Inl e \<Rightarrow> Some (ret (Inl e, s)) | Inr x \<Rightarrow> f x s)"

text \<open>Code that may panic.\<close>

definition c_rust :: "'a rust \<Rightarrow> ('d, 'a) config" where
  "c_rust v s = and_then (Some v) (\<lambda>x. Some (ret (Inr x, s)))"

text \<open>\<open>return Err(..)\<close>.\<close>

definition c_err :: "ConfigErrorKind \<Rightarrow> ('d, 'a) config" where
  "c_err kind = (\<lambda>(si, slave).
     Some (ret (Inl \<lparr>ce_slave_address = slave_address (sl_info slave), ce_kind = kind\<rparr>, si, slave)))"

definition c_slave :: "('d, Slave) config" where
  "c_slave = (\<lambda>(si, slave). Some (ret (Inr slave, si, slave)))"

definition c_modify :: "(Slave \<Rightarrow> Slave) \<Rightarrow> ('d, unit) config" where
  "c_modify f = (\<lambda>(si, slave). Some (ret (Inr (), si, f slave)))"

text \<open>The four accesses with \<open>.map_err(..)\<close>.\<close>

definition map_sdo_err ::
    "Slave \<Rightarrow> u16 \<Rightarrow> u8 \<Rightarrow> (SdoError \<Rightarrow> ConfigErrorKind) \<Rightarrow> (SdoErrorKind TaskError + 'a) \<Rightarrow> ConfigError + 'a" where
  "map_sdo_err slave idx sub_index kind r = (case r of
     Inl err \<Rightarrow> Inl \<lparr>ce_slave_address = slave_address (sl_info slave),
                     ce_kind = kind \<lparr>se_index = idx, se_sub_index = sub_index, se_error = err\<rparr>\<rparr>
   | Inr x \<Rightarrow> Inr x)"

definition map_reg_err ::
    "Slave \<Rightarrow> u16 \<Rightarrow> (RegisterError \<Rightarrow> ConfigErrorKind) \<Rightarrow> (unit TaskError + 'a) \<Rightarrow> ConfigError + 'a" where
  "map_reg_err slave addr kind r = (case r of
     Inl err \<Rightarrow> Inl \<lparr>ce_slave_address = slave_address (sl_info slave),
                     ce_kind = kind \<lparr>re_address = addr, re_error = err\<rparr>\<rparr>
   | Inr x \<Rightarrow> Inr x)"

definition c_write_sdo ::
    "crates \<Rightarrow> 'd device \<Rightarrow> nat \<Rightarrow> (SdoError \<Rightarrow> ConfigErrorKind) \<Rightarrow> u16 \<Rightarrow> u8 \<Rightarrow> bytes \<Rightarrow> ('d, unit) config" where
  "c_write_sdo X dev h kind idx sub_index data = (\<lambda>(si, slave).
     and_then (write_sdo X dev si h slave idx sub_index data)
       (\<lambda>(r, si, slave). Some (ret (map_sdo_err slave idx sub_index kind r, si, slave))))"

definition c_read_sdo ::
    "crates \<Rightarrow> 'd device \<Rightarrow> nat \<Rightarrow> (SdoError \<Rightarrow> ConfigErrorKind) \<Rightarrow> u16 \<Rightarrow> u8 \<Rightarrow> ('d, bytes) config" where
  "c_read_sdo X dev h kind idx sub_index = (\<lambda>(si, slave).
     and_then (read_sdo X dev si h slave idx sub_index)
       (\<lambda>(r, si, slave). Some (ret (map_sdo_err slave idx sub_index kind r, si, slave))))"

definition c_write_register ::
    "crates \<Rightarrow> 'd device \<Rightarrow> nat \<Rightarrow> (RegisterError \<Rightarrow> ConfigErrorKind) \<Rightarrow> u16 \<Rightarrow> bytes \<Rightarrow> ('d, unit) config" where
  "c_write_register X dev h kind addr data = (\<lambda>(si, slave).
     and_then (write_register X dev si h (Single (slave_address (sl_info slave))) addr data)
       (\<lambda>(r, si). Some (ret (map_reg_err slave addr kind r, si, slave))))"

definition c_read_register ::
    "crates \<Rightarrow> 'd device \<Rightarrow> nat \<Rightarrow> u16 \<Rightarrow> (RegisterError \<Rightarrow> ConfigErrorKind) \<Rightarrow> u16 \<Rightarrow> nat \<Rightarrow> ('d, bytes) config" where
  "c_read_register X dev h err_addr kind addr n = (\<lambda>(si, slave).
     and_then (read_register X dev si h (Single (slave_address (sl_info slave))) addr n)
       (\<lambda>(r, si). Some (ret (map_reg_err slave err_addr kind r, si, slave))))"

text \<open>\<open>sif.write_register(..).unwrap()\<close>.\<close>

definition c_write_register_unwrap :: "crates \<Rightarrow> 'd device \<Rightarrow> nat \<Rightarrow> u16 \<Rightarrow> bytes \<Rightarrow> ('d, unit) config" where
  "c_write_register_unwrap X dev h addr data = (\<lambda>(si, slave).
     and_then (write_register X dev si h (Single (slave_address (sl_info slave))) addr data)
       (\<lambda>(r, si). Some (case r of Inl _ \<Rightarrow> panic | Inr x \<Rightarrow> ret (Inr x, si, slave))))"

text \<open>The loop over the slaves of the network, which ends with the first error.\<close>

fun each_slave ::
    "(SlaveConfig \<Rightarrow> ('d, unit) config) \<Rightarrow> 'd SocketInterface \<Rightarrow> (Slave option \<times> SlaveConfig) list \<Rightarrow>
       ((ConfigError + unit) \<times> 'd SocketInterface \<times> (Slave option \<times> SlaveConfig) list) run" where
  "each_slave f si [] = Some (ret (Inr (), si, []))"
| "each_slave f si ((None, config) # slaves) =
     and_then (each_slave f si slaves) (\<lambda>(r, si, slaves). Some (ret (r, si, (None, config) # slaves)))"
| "each_slave f si ((Some slave, config) # slaves) =
     and_then (f config (si, slave)) (\<lambda>(r, si, slave). case r of
         Inl e \<Rightarrow> Some (ret (Inl e, si, (Some slave, config) # slaves))
       | Inr _ \<Rightarrow> and_then (each_slave f si slaves)
           (\<lambda>(r, si, slaves). Some (ret (r, si, (Some slave, config) # slaves))))"

definition for_slaves ::
    "(SlaveConfig \<Rightarrow> ('d, unit) config) \<Rightarrow> 'd EtherCatMaster \<Rightarrow> ((ConfigError + unit) \<times> 'd EtherCatMaster) run" where
  "for_slaves f m =
     and_then (each_slave f (ma_sif m) (nw_slaves (ma_network m)))
       (\<lambda>(r, si, slaves). Some (ret (r, m\<lparr>ma_sif := si, ma_network := (ma_network m)\<lparr>nw_slaves := slaves\<rparr>\<rparr>)))"

section \<open>The mappings in the object dictionary\<close>

definition od_set :: "crates \<Rightarrow> od_object \<Rightarrow> string \<Rightarrow> 'a::len word \<Rightarrow> bytes \<Rightarrow> bytes rust" where
  "od_set X r name v d =
     (case map_of (od_fields r) name of Some (msb, lsb) \<Rightarrow> put_field X d msb lsb v | None \<Rightarrow> panic)"

definition od_get :: "crates \<Rightarrow> od_object \<Rightarrow> string \<Rightarrow> bytes \<Rightarrow> 'a::len word rust" where
  "od_get X r name d =
     (case map_of (od_fields r) name of Some (msb, lsb) \<Rightarrow> get_field X d msb lsb | None \<Rightarrow> panic)"

definition od_pdo_entry :: "crates \<Rightarrow> PdoEntry \<Rightarrow> bytes rust" where
  "od_pdo_entry X entry = do {
     d \<leftarrow> od_set X OdPdoEntry ''index'' (pe_index entry) (replicate (od_size OdPdoEntry) 0);
     d \<leftarrow> od_set X OdPdoEntry ''sub_index'' (pe_sub_index entry) d;
     od_set X OdPdoEntry ''bit_length'' (PdoEntry_bit_length entry) d }"

primrec assign_entries ::
    "crates \<Rightarrow> 'd device \<Rightarrow> nat \<Rightarrow> u16 \<Rightarrow> u8 \<Rightarrow> PdoEntry list \<Rightarrow> ('d, u8) config" where
  "assign_entries X dev h pdo_map_index entry_index [] = c_ret entry_index"
| "assign_entries X dev h pdo_map_index entry_index (entry # entries) =
     c_bind (c_rust (od_pdo_entry X entry)) (\<lambda>od_pdo_entry.
     c_bind (c_rust (uadd entry_index 1)) (\<lambda>entry_index.
     c_bind (c_write_sdo X dev h AssignPdoEntryToPdoMap pdo_map_index entry_index od_pdo_entry) (\<lambda>_.
     assign_entries X dev h pdo_map_index entry_index entries)))"

definition write_mapping :: "crates \<Rightarrow> 'd device \<Rightarrow> nat \<Rightarrow> PdoMapping \<Rightarrow> ('d, unit) config" where
  "write_mapping X dev h pdo_map =
     (if pm_is_fixed pdo_map then c_ret ()
      else c_bind (c_write_sdo X dev h ClearPdoEntries (pm_index pdo_map) 0 [0]) (\<lambda>_.
        c_bind (assign_entries X dev h (pm_index pdo_map) 0 (pm_entries pdo_map)) (\<lambda>entry_index.
        c_write_sdo X dev h SetNumberOfPdoEntries (pm_index pdo_map) 0 [entry_index])))"

primrec assign_maps ::
    "crates \<Rightarrow> 'd device \<Rightarrow> nat \<Rightarrow> u16 \<Rightarrow> u8 \<Rightarrow> PdoMapping list \<Rightarrow> ('d, u8) config" where
  "assign_maps X dev h sm_assign map_index [] = c_ret map_index"
| "assign_maps X dev h sm_assign map_index (pdo_map # pdo_mappings) =
     (if pm_entries pdo_map = [] then assign_maps X dev h sm_assign map_index pdo_mappings
      else c_bind (c_rust (uadd map_index 1)) (\<lambda>map_index.
        c_bind (c_write_sdo X dev h AssignPdoMapToSyncManager sm_assign map_index
                  (to_le_bytes 2 (unat (pm_index pdo_map)))) (\<lambda>_.
        c_bind (write_mapping X dev h pdo_map) (\<lambda>_.
        assign_maps X dev h sm_assign map_index pdo_mappings))))"

definition set_pdo_config_to_od_utility ::
    "crates \<Rightarrow> 'd device \<Rightarrow> nat \<Rightarrow> SlaveConfig \<Rightarrow> bool \<Rightarrow> ('d, unit) config" where
  "set_pdo_config_to_od_utility X dev h slave_config out =
     c_bind c_slave (\<lambda>slave.
     let (pdo_mappings, sm_num) =
           (if out then (output_pdo_mappings slave_config, process_data_rx_sm_number (sl_info slave))
            else (input_pdo_mappings slave_config, process_data_tx_sm_number (sl_info slave))) in
     case sm_num of
       None \<Rightarrow> c_ret ()
     | Some sm_num \<Rightarrow>
         c_bind (c_rust (uadd 0x1C10 (ucast sm_num))) (\<lambda>sm_assign.
         c_bind (c_write_sdo X dev h ClearPdoMappings sm_assign 0 [0]) (\<lambda>_.
         c_bind (assign_maps X dev h sm_assign 0 pdo_mappings) (\<lambda>map_index.
         c_write_sdo X dev h SetNumberOfPdoMappings sm_assign 0 [map_index]))))"

definition set_pdo_config_to_od ::
    "crates \<Rightarrow> 'd device \<Rightarrow> 'd EtherCatMaster \<Rightarrow> ((ConfigError + unit) \<times> 'd EtherCatMaster) run" where
  "set_pdo_config_to_od X dev m = for_slaves (\<lambda>config.
     c_bind (set_pdo_config_to_od_utility X dev (gp_socket_handle m) config True) (\<lambda>_.
     set_pdo_config_to_od_utility X dev (gp_socket_handle m) config False)) m"

section \<open>The sync managers\<close>

text \<open>\<open>sif.read_sdo(..)?[0]\<close>.\<close>

definition c_read_byte ::
    "crates \<Rightarrow> 'd device \<Rightarrow> nat \<Rightarrow> (SdoError \<Rightarrow> ConfigErrorKind) \<Rightarrow> u16 \<Rightarrow> u8 \<Rightarrow> ('d, u8) config" where
  "c_read_byte X dev h kind idx sub_index =
     c_bind (c_read_sdo X dev h kind idx sub_index) (\<lambda>data. c_rust (index data 0))"

text \<open>The type of a sync manager: none, the expected one, or a panic.\<close>

definition sm_is_used :: "u8 \<Rightarrow> u8 \<Rightarrow> bool rust" where
  "sm_is_used sm_type expected =
     (if sm_type = 0 then ret False else if sm_type = expected then ret True else panic)"

primrec add_entry_bits ::
    "crates \<Rightarrow> 'd device \<Rightarrow> nat \<Rightarrow> u16 \<Rightarrow> u32 \<Rightarrow> nat list \<Rightarrow> ('d, u32) config" where
  "add_entry_bits X dev h map_address bits [] = c_ret bits"
| "add_entry_bits X dev h map_address bits (entry_index # entry_indices) =
     c_bind (c_read_sdo X dev h GetPdoEntrtyAddress map_address (of_nat entry_index)) (\<lambda>entry.
     c_bind (c_rust (od_get X OdPdoEntry ''bit_length'' entry)) (\<lambda>len.
     c_bind (c_rust (uadd bits (ucast (len :: u8)))) (\<lambda>bits.
     add_entry_bits X dev h map_address bits entry_indices)))"

primrec add_map_bits ::
    "crates \<Rightarrow> 'd device \<Rightarrow> nat \<Rightarrow> u16 \<Rightarrow> u32 \<Rightarrow> nat list \<Rightarrow> ('d, u32) config" where
  "add_map_bits X dev h sm_assign bits [] = c_ret bits"
| "add_map_bits X dev h sm_assign bits (map_idx # map_indices) =
     c_bind (c_read_sdo X dev h GetPdoMappingAddress sm_assign (of_nat map_idx)) (\<lambda>map_address.
     c_bind (c_rust (do { a \<leftarrow> index map_address 0; b \<leftarrow> index map_address 1; ret [a, b] })) (\<lambda>map_address.
     let map_address = of_nat (from_le_bytes map_address) in
     c_bind (c_read_byte X dev h GetNumberOfPdoEntries map_address 0) (\<lambda>num_entry.
     c_bind (add_entry_bits X dev h map_address bits [1..<unat num_entry + 1]) (\<lambda>bits.
     add_map_bits X dev h sm_assign bits map_indices))))"

definition bytes_of_bits :: "u32 \<Rightarrow> u16" where
  "bytes_of_bits pdo_map_bit_length =
     (if pdo_map_bit_length mod 8 = 0 then ucast (drop_bit 3 pdo_map_bit_length)
      else ucast (drop_bit 3 pdo_map_bit_length + 1))"

definition sm_control_of :: "crates \<Rightarrow> Direction \<Rightarrow> u16 \<Rightarrow> u16 \<Rightarrow> bytes rust" where
  "sm_control_of X direction start_ram_address len = do {
     d \<leftarrow> reg_set X SyncManagerControl ''physical_start_address'' start_ram_address (reg_new SyncManagerControl);
     d \<leftarrow> reg_set X SyncManagerControl ''length'' len d;
     d \<leftarrow> reg_set X SyncManagerControl ''buffer_type'' (0 :: u8) d;
     d \<leftarrow> reg_set X SyncManagerControl ''direction'' (if direction = Output then 1 else 0 :: u8) d;
     reg_set_bit X SyncManagerControl ''dls_user_event_enable'' True d }"

definition sm_activation_of :: "crates \<Rightarrow> u16 \<Rightarrow> bytes rust" where
  "sm_activation_of X len = do {
     d \<leftarrow> reg_set_bit X SyncManagerActivation ''channel_enable'' (len \<noteq> 0) (reg_new SyncManagerActivation);
     reg_set_bit X SyncManagerActivation ''repeat'' False d }"

text \<open>The new configuration, which \<open>slave.fmmu_config_mut()[i]\<close> receives.\<close>

definition put_fmmu :: "nat \<Rightarrow> FmmuConfig \<Rightarrow> ('d, unit) config" where
  "put_fmmu i fmmu_config = c_bind c_slave (\<lambda>slave.
     c_bind (c_rust (store (sl_fmmu slave) i (Some fmmu_config))) (\<lambda>fmmu.
     c_modify (\<lambda>slave. slave\<lparr>sl_fmmu := fmmu\<rparr>)))"

text \<open>Registers and configuration for process data of the given size; the address behind it.\<close>

definition set_sm ::
    "crates \<Rightarrow> 'd device \<Rightarrow> nat \<Rightarrow> Direction \<Rightarrow> u16 \<Rightarrow> u8 \<Rightarrow> u16 \<Rightarrow> ('d, u16) config" where
  "set_sm X dev h direction start_ram_address sm_num len =
     c_bind (c_rust (do { k \<leftarrow> umul 0x08 (ucast sm_num); uadd (reg_address SyncManagerControl) k })) (\<lambda>sm_control_address.
     c_bind (c_rust (sm_control_of X direction start_ram_address len)) (\<lambda>sm_control.
     c_bind (c_write_register_unwrap X dev h sm_control_address sm_control) (\<lambda>_.
     c_bind (c_rust (do { k \<leftarrow> umul 0x08 (ucast sm_num); uadd (reg_address SyncManagerActivation) k })) (\<lambda>sm_activation_address.
     c_bind (c_rust (sm_activation_of X len)) (\<lambda>sm_active.
     c_bind (c_write_register_unwrap X dev h sm_activation_address sm_active) (\<lambda>_.
     c_bind (c_rust (umul len 8)) (\<lambda>bits.
     c_bind (put_fmmu (if direction = Output then 0 else 1) (FmmuConfig_new start_ram_address bits direction)) (\<lambda>_.
     c_rust (do { k \<leftarrow> umul len 3; uadd start_ram_address k })))))))))"

definition set_pdo_to_sm_utility ::
    "crates \<Rightarrow> 'd device \<Rightarrow> nat \<Rightarrow> Direction \<Rightarrow> u16 \<Rightarrow> ('d, u16) config" where
  "set_pdo_to_sm_utility X dev h direction start_ram_address =
     c_bind (c_read_byte X dev h GetNumberOfSyncManagerChannel 0x1C00 0) (\<lambda>num_sm_comm.
     c_bind (c_rust (assert (4 \<le> num_sm_comm))) (\<lambda>_.
     c_bind c_slave (\<lambda>slave.
     case (case direction of Output \<Rightarrow> process_data_rx_sm_number (sl_info slave)
           | Input \<Rightarrow> process_data_tx_sm_number (sl_info slave)) of
       None \<Rightarrow> c_ret start_ram_address
     | Some sm_num \<Rightarrow>
         c_bind (c_rust (uadd sm_num 1)) (\<lambda>sub_index.
         c_bind (c_read_byte X dev h GetSyncManagerCommunicationType 0x1C00 sub_index) (\<lambda>sm_type.
         c_bind (c_rust (sm_is_used sm_type (if direction = Output then 3 else 4))) (\<lambda>used.
         c_bind (c_rust (uadd 0x1C10 (ucast sm_num))) (\<lambda>sm_assign.
         c_bind (if used then
             c_bind (c_read_byte X dev h GetNumberOfPdoMappings sm_assign 0) (\<lambda>num_maps.
             add_map_bits X dev h sm_assign 0 [1..<unat num_maps + 1])
           else c_ret 0) (\<lambda>pdo_map_bit_length.
         set_sm X dev h direction start_ram_address sm_num (bytes_of_bits pdo_map_bit_length)))))))))"

definition set_pdo_to_sm ::
    "crates \<Rightarrow> 'd device \<Rightarrow> 'd EtherCatMaster \<Rightarrow> ((ConfigError + unit) \<times> 'd EtherCatMaster) run" where
  "set_pdo_to_sm X dev m = for_slaves (\<lambda>_.
     c_bind c_slave (\<lambda>slave.
     case si_pdo_start_address (sl_info slave) of
       None \<Rightarrow> c_ret ()
     | Some ram_address \<Rightarrow>
         c_bind (set_pdo_to_sm_utility X dev (gp_socket_handle m) Output ram_address) (\<lambda>next_ram_address.
         c_bind (set_pdo_to_sm_utility X dev (gp_socket_handle m) Input next_ram_address) (\<lambda>_. c_ret ())))) m"

section \<open>The logical image\<close>

text \<open>A loop that rewrites every element of a list and carries a state.\<close>

fun map_acc :: "('s \<Rightarrow> 'a \<Rightarrow> ('s \<times> 'a) rust) \<Rightarrow> 's \<Rightarrow> 'a list \<Rightarrow> ('s \<times> 'a list) rust" where
  "map_acc f s [] = ret (s, [])"
| "map_acc f s (x # xs) = do {
     (s, x) \<leftarrow> f s x;
     (s, xs) \<leftarrow> map_acc f s xs;
     ret (s, x # xs) }"

record image_layout =
  bit_address :: u64
  has_tx_data :: bool
  has_rx_data :: bool

definition fmmu_at :: "u64 \<Rightarrow> FmmuConfig \<Rightarrow> FmmuConfig" where
  "fmmu_at address f = f\<lparr>fc_logical_bits := (fc_logical_bits f)
     \<lparr>logical_address := Some (ucast (drop_bit 3 address)), start_bit := ucast (address mod 8)\<rparr>\<rparr>"

definition place_fmmu :: "image_layout \<Rightarrow> FmmuConfig option \<Rightarrow> (image_layout \<times> FmmuConfig option) rust" where
  "place_fmmu l fmmu =
     (case fmmu of
        None \<Rightarrow> ret (l, None)
      | Some f \<Rightarrow>
          if bit_length (fc_logical_bits f) = 0 then ret (l, Some f)
          else do {
            let f = fmmu_at (bit_address l) f;
            address \<leftarrow> uadd (bit_address l) (ucast (bit_length (fc_logical_bits f)));
            let l = l\<lparr>bit_address := address\<rparr>;
            ret (case fc_direction f of
                   Output \<Rightarrow> l\<lparr>has_rx_data := True\<rparr>
                 | Input \<Rightarrow> l\<lparr>has_tx_data := True\<rparr>, Some f) })"

definition count_wkc :: "image_layout \<Rightarrow> u16 \<Rightarrow> u16 rust" where
  "count_wkc l expected_wkc = do {
     expected_wkc \<leftarrow> (if has_tx_data l then uadd expected_wkc 1 else ret expected_wkc);
     if has_rx_data l then uadd expected_wkc 2 else ret expected_wkc }"

definition place_slave ::
    "u64 \<times> u16 \<Rightarrow> Slave option \<times> SlaveConfig \<Rightarrow> ((u64 \<times> u16) \<times> Slave option \<times> SlaveConfig) rust" where
  "place_slave = (\<lambda>(address, expected_wkc) (slave, config).
     case slave of
       None \<Rightarrow> ret ((address, expected_wkc), None, config)
     | Some slave \<Rightarrow> do {
         (l, fmmus) \<leftarrow> map_acc place_fmmu \<lparr>bit_address = address, has_tx_data = False, has_rx_data = False\<rparr>
           (sl_fmmu slave);
         expected_wkc \<leftarrow> count_wkc l expected_wkc;
         ret ((bit_address l, expected_wkc), Some (slave\<lparr>sl_fmmu := fmmus\<rparr>), config) })"

definition image_bytes :: "u64 \<Rightarrow> u64 rust" where
  "image_bytes address =
     (if address mod 8 = 0 then usub (drop_bit 3 address) (ucast LOGICAL_START_ADDRESS)
      else do { a \<leftarrow> uadd (drop_bit 3 address) 1; usub a (ucast LOGICAL_START_ADDRESS) })"

definition set_logical_address_to_fmmu_config :: "Network \<Rightarrow> (nat \<times> u16 \<times> Network) rust" where
  "set_logical_address_to_fmmu_config network = do {
     start \<leftarrow> umul LOGICAL_START_ADDRESS 8;
     ((address, expected_wkc), slaves) \<leftarrow> map_acc place_slave (ucast start, 0) (nw_slaves network);
     len \<leftarrow> image_bytes address;
     assert (unat len \<le> MAX_PDU_DATAGRAM);
     ret (unat len, expected_wkc, network\<lparr>nw_slaves := slaves\<rparr>) }"

text \<open>The process data objects of one direction, laid out from the start of its FMMU.\<close>

definition place_entry :: "u64 \<Rightarrow> PdoEntry \<Rightarrow> (u64 \<times> PdoEntry) rust" where
  "place_entry total_bits entry = do {
     let mod8 = total_bits mod 8;
     (addr, s_bit) \<leftarrow>
       (if mod8 = 0 then ret (drop_bit 3 total_bits, 0)
        else do { a \<leftarrow> uadd (drop_bit 3 total_bits) 1; ret (a, mod8) });
     let entry = entry\<lparr>pe_logical_bits := (pe_logical_bits entry)
       \<lparr>start_bit := ucast s_bit, logical_address := Some (ucast addr)\<rparr>\<rparr>;
     total_bits \<leftarrow> uadd total_bits (ucast (PdoEntry_bit_length entry));
     ret (total_bits, entry) }"

definition place_mapping :: "u64 \<Rightarrow> PdoMapping \<Rightarrow> (u64 \<times> PdoMapping) rust" where
  "place_mapping total_bits pdo_map = do {
     (total_bits, entries) \<leftarrow> map_acc place_entry total_bits (pm_entries pdo_map);
     ret (total_bits, pdo_map\<lparr>pm_entries := entries\<rparr>) }"

definition place_mappings :: "FmmuConfig option \<Rightarrow> PdoMapping list \<Rightarrow> PdoMapping list rust" where
  "place_mappings fmmu_config pdo_maps =
     (case fmmu_config of
        None \<Rightarrow> ret pdo_maps
      | Some fmmu_config \<Rightarrow>
          (case logical_address (fc_logical_bits fmmu_config) of
             None \<Rightarrow> ret pdo_maps
           | Some start_address \<Rightarrow> do {
               let start_bit = ucast (start_bit (fc_logical_bits fmmu_config));
               start \<leftarrow> umul start_address 8;
               total_bits \<leftarrow> uadd (ucast start) start_bit;
               if pdo_maps = [] then ret pdo_maps
               else do {
                 (total_bits, pdo_maps) \<leftarrow> map_acc place_mapping total_bits pdo_maps;
                 start \<leftarrow> umul start_address 8;
                 start \<leftarrow> uadd (ucast start) start_bit;
                 len \<leftarrow> usub total_bits start;
                 assert (ucast (bit_length (fc_logical_bits fmmu_config)) = len);
                 ret pdo_maps } }))"

definition place_config :: "Slave option \<times> SlaveConfig \<Rightarrow> (Slave option \<times> SlaveConfig) rust" where
  "place_config = (\<lambda>(slave, config).
     case slave of
       None \<Rightarrow> ret (None, config)
     | Some slave \<Rightarrow> do {
         rx \<leftarrow> index (sl_fmmu slave) 0;
         maps \<leftarrow> place_mappings rx (output_pdo_mappings config);
         let config = config\<lparr>output_pdo_mappings := maps\<rparr>;
         tx \<leftarrow> index (sl_fmmu slave) 1;
         maps \<leftarrow> place_mappings tx (input_pdo_mappings config);
         ret (Some slave, config\<lparr>input_pdo_mappings := maps\<rparr>) })"

definition set_logical_address_to_pdo_entry_config :: "Network \<Rightarrow> Network rust" where
  "set_logical_address_to_pdo_entry_config network = do {
     (_, slaves) \<leftarrow> map_acc (\<lambda>_ s. do { s \<leftarrow> place_config s; ret ((), s) }) () (nw_slaves network);
     ret (network\<lparr>nw_slaves := slaves\<rparr>) }"

section \<open>The FMMUs\<close>

definition fmmu_register_of :: "crates \<Rightarrow> FmmuConfig \<Rightarrow> u32 \<Rightarrow> bytes rust" where
  "fmmu_register_of X fmmu addr = do {
     d \<leftarrow> reg_set X FmmuRegister ''logical_start_address'' addr (reg_new FmmuRegister);
     byte_length \<leftarrow> fmmu_byte_length fmmu;
     end_bit \<leftarrow> fmmu_end_bit fmmu;
     d \<leftarrow> reg_set X FmmuRegister ''length'' byte_length d;
     d \<leftarrow> reg_set X FmmuRegister ''logical_end_bit'' end_bit d;
     d \<leftarrow> reg_set X FmmuRegister ''physical_start_address'' (fc_physical_address fmmu) d;
     d \<leftarrow> reg_set X FmmuRegister ''physical_start_bit'' (0 :: u8) d;
     d \<leftarrow> reg_set_bit X FmmuRegister ''read_enable'' (fc_direction fmmu = Input) d;
     d \<leftarrow> reg_set_bit X FmmuRegister ''write_enable'' (fc_direction fmmu = Output) d;
     reg_set_bit X FmmuRegister ''enable'' True d }"

definition write_fmmu :: "crates \<Rightarrow> 'd device \<Rightarrow> nat \<Rightarrow> nat \<times> FmmuConfig option \<Rightarrow> ('d, unit) config" where
  "write_fmmu X dev h = (\<lambda>(i, fmmu).
     case fmmu of
       None \<Rightarrow> c_ret ()
     | Some fmmu \<Rightarrow>
         (case logical_address (fc_logical_bits fmmu) of
            None \<Rightarrow> c_ret ()
          | Some addr \<Rightarrow>
              c_bind (c_rust (fmmu_byte_length fmmu)) (\<lambda>byte_length.
              if byte_length = 0 then c_ret ()
              else c_bind (c_rust (fmmu_register_of X fmmu addr)) (\<lambda>fmmu_reg.
                c_bind (c_rust (do {
                    k \<leftarrow> umul (of_nat i) (of_nat (reg_size FmmuRegister));
                    uadd (reg_address FmmuRegister) k })) (\<lambda>addr.
                c_write_register X dev h SetFmmuRegister addr fmmu_reg)))))"

primrec c_each :: "('a \<Rightarrow> ('d, unit) config) \<Rightarrow> 'a list \<Rightarrow> ('d, unit) config" where
  "c_each f [] = c_ret ()"
| "c_each f (x # xs) = c_bind (f x) (\<lambda>_. c_each f xs)"

definition configure_fmmu ::
    "crates \<Rightarrow> 'd device \<Rightarrow> 'd EtherCatMaster \<Rightarrow> ((ConfigError + nat \<times> u16) \<times> 'd EtherCatMaster) run" where
  "configure_fmmu X dev m =
     and_then (Some (set_logical_address_to_fmmu_config (ma_network m))) (\<lambda>(image_size, expected_wkc, network).
     and_then (for_slaves (\<lambda>_. c_bind c_slave (\<lambda>slave.
         c_each (write_fmmu X dev (gp_socket_handle m)) (enumerate 0 (sl_fmmu slave)))) (m\<lparr>ma_network := network\<rparr>))
     (\<lambda>(r, m). Some (ret (map_sum id (\<lambda>_. (image_size, expected_wkc)) r, m))))"

definition configure_pdo_image ::
    "crates \<Rightarrow> 'd device \<Rightarrow> 'd EtherCatMaster \<Rightarrow> ((ConfigError + unit) \<times> 'd EtherCatMaster) run" where
  "configure_pdo_image X dev m =
     and_then (set_pdo_config_to_od X dev m) (\<lambda>(r, m). case r of Inl e \<Rightarrow> Some (ret (Inl e, m)) | Inr _ \<Rightarrow>
     and_then (set_pdo_to_sm X dev m) (\<lambda>(r, m). case r of Inl e \<Rightarrow> Some (ret (Inl e, m)) | Inr _ \<Rightarrow>
     and_then (configure_fmmu X dev m) (\<lambda>(r, m). case r of Inl e \<Rightarrow> Some (ret (Inl e, m)) | Inr (image_size, expected_wkc) \<Rightarrow>
       let m = m\<lparr>process_data_task :=
         pt_set_expected_wkc (pt_set_image_size (process_data_task m) image_size) expected_wkc\<rparr> in
       Some (do {
         network \<leftarrow> set_logical_address_to_pdo_entry_config (ma_network m);
         ret (Inr (), m\<lparr>ma_network := network\<rparr>) }))))"

section \<open>The synchronisation mode\<close>

text \<open>\<open>u32::from_le_bytes([d[i], d[j], d[k], d[l]])\<close>.\<close>

definition u32_at :: "nat \<Rightarrow> nat \<Rightarrow> nat \<Rightarrow> nat \<Rightarrow> bytes \<Rightarrow> u32 rust" where
  "u32_at i j k l d = do {
     a \<leftarrow> index d i;
     b \<leftarrow> index d j;
     c \<leftarrow> index d k;
     e \<leftarrow> index d l;
     ret (of_nat (from_le_bytes [a, b, c, e])) }"

definition sm_cycle_time :: "crates \<Rightarrow> 'd device \<Rightarrow> nat \<Rightarrow> CycleTime \<Rightarrow> u16 \<Rightarrow> ('d, u32) config" where
  "sm_cycle_time X dev h cycle_time addr =
     (case cycle_time of
        DefaultValue \<Rightarrow>
          c_bind (c_read_sdo X dev h GetSyncManagerCycleTime addr 2) (\<lambda>time. c_rust (u32_at 0 1 2 4 time))
      | SpecifiedValue time \<Rightarrow> c_ret time)"

primrec sync_type_bit :: "SyncMode \<Rightarrow> nat" where
  "sync_type_bit FreeRun = 0"
| "sync_type_bit SyncManagerEvent = 1"
| "sync_type_bit Sync0Event = 2"
| "sync_type_bit Sync1Event = 3"

definition check_sync_type :: "crates \<Rightarrow> 'd device \<Rightarrow> nat \<Rightarrow> SyncMode \<Rightarrow> u16 \<Rightarrow> ('d, unit) config" where
  "check_sync_type X dev h mode addr =
     c_bind (c_read_byte X dev h GetSyncManagerSyncType addr 4) (\<lambda>support_sync_type.
     if \<not> get_bit X support_sync_type (sync_type_bit mode) then c_err (SyncModeNotSupported mode) else c_ret ())"

definition check_cycle_time :: "crates \<Rightarrow> 'd device \<Rightarrow> nat \<Rightarrow> u32 \<Rightarrow> u16 \<Rightarrow> ('d, unit) config" where
  "check_cycle_time X dev h time_ns addr =
     c_bind (c_read_sdo X dev h GetMinimumCycleTime addr 5) (\<lambda>min_cycle_time_ns.
     c_bind (c_rust (u32_at 0 1 2 3 min_cycle_time_ns)) (\<lambda>min_cycle_time_ns.
     if time_ns < min_cycle_time_ns then c_err (CycleTimeTooSmall min_cycle_time_ns) else c_ret ()))"

text \<open>The parameters of one sync manager at the object \<open>addr\<close>; the cycle time in use.\<close>

definition set_sm_sync :: "crates \<Rightarrow> 'd device \<Rightarrow> nat \<Rightarrow> SlaveConfig \<Rightarrow> u16 \<Rightarrow> ('d, u32) config" where
  "set_sm_sync X dev h config addr =
     c_bind (sm_cycle_time X dev h (cycle_time_ns config) addr) (\<lambda>cycle_time.
     c_bind (check_sync_type X dev h (sync_mode config) addr) (\<lambda>_.
     c_bind (check_cycle_time X dev h cycle_time addr) (\<lambda>_.
     c_bind (c_write_sdo X dev h SetSyncManagerSyncType addr 1 [SyncMode_repr (sync_mode config), 0]) (\<lambda>_.
     c_bind (case cycle_time_ns config of
         SpecifiedValue _ \<Rightarrow> c_write_sdo X dev h SetSyncManagerCycleTime addr 2 (to_le_bytes 4 (unat cycle_time))
       | DefaultValue \<Rightarrow> c_ret ()) (\<lambda>_.
     c_bind (if sync_mode config = FreeRun then c_ret ()
       else c_write_sdo X dev h ResetSyncError addr 8 [1, 0]) (\<lambda>_.
     c_ret cycle_time))))))"

definition configure_rx_sync :: "crates \<Rightarrow> 'd device \<Rightarrow> nat \<Rightarrow> SlaveConfig \<Rightarrow> ('d, u32) config" where
  "configure_rx_sync X dev h config =
     c_bind c_slave (\<lambda>slave.
     c_bind (c_rust (process_data_rx_sm_number (sl_info slave))) (\<lambda>sm_num.
     c_bind (c_rust (uadd sm_num 1)) (\<lambda>sub_index.
     c_bind (c_read_byte X dev h GetSyncManagerCommunicationType 0x1C00 sub_index) (\<lambda>sm_type.
     c_bind (c_rust (sm_is_used sm_type 3)) (\<lambda>has_rx_sm.
     if has_rx_sm then
       c_bind (c_rust (uadd 0x1C30 (ucast sm_num))) (\<lambda>addr. set_sm_sync X dev h config addr)
     else c_ret 0)))))"

definition configure_tx_sync :: "crates \<Rightarrow> 'd device \<Rightarrow> nat \<Rightarrow> SlaveConfig \<Rightarrow> ('d, u32) config" where
  "configure_tx_sync X dev h config =
     c_bind c_slave (\<lambda>slave.
     c_bind (c_rust (process_data_tx_sm_number (sl_info slave))) (\<lambda>sm_num.
     c_bind (c_rust (uadd sm_num 1)) (\<lambda>sub_index.
     c_bind (c_read_byte X dev h GetSyncManagerCommunicationType 0x1C00 sub_index) (\<lambda>sm_type.
     c_bind (c_rust (sm_is_used sm_type 4)) (\<lambda>has_tx_sm.
     if has_tx_sm then
       c_bind (c_rust (uadd 0x1C30 (ucast sm_num))) (\<lambda>addr. set_sm_sync X dev h config addr)
     else c_ret 0)))))"

definition dc_activation_of :: "crates \<Rightarrow> SyncMode \<Rightarrow> bytes rust" where
  "dc_activation_of X mode = do {
     let on = (mode = Sync0Event \<or> mode = Sync1Event);
     d \<leftarrow> reg_set_bit X DcActivation ''cyclic_operation_enable'' on (reg_new DcActivation);
     d \<leftarrow> reg_set_bit X DcActivation ''sync0_activate'' on d;
     reg_set_bit X DcActivation ''sync1_activate'' on d }"

definition read_system_time :: "crates \<Rightarrow> 'd device \<Rightarrow> nat \<Rightarrow> u16 \<Rightarrow> ('d, u64) config" where
  "read_system_time X dev h addr =
     c_bind (c_read_register X dev h (reg_address DcSystemTime) SetSyncSignalStartTime addr (reg_size DcSystemTime))
     (\<lambda>sys_time. c_rust (reg_get X DcSystemTime ''local_system_time'' sys_time))"

text \<open>The loop at the end: it reads the time until the start time has passed, for ever if need be.\<close>

partial_function (option) wait_for_start ::
    "crates \<Rightarrow> 'd device \<Rightarrow> nat \<Rightarrow> u64 \<Rightarrow> 'd SocketInterface \<times> Slave \<Rightarrow>
       ((ConfigError + unit) \<times> 'd SocketInterface \<times> Slave) rust option" where
  "wait_for_start X dev h start_time s =
     (case read_system_time X dev h (reg_address DcSystemTime) s of
        None \<Rightarrow> None
      | Some None \<Rightarrow> Some panic
      | Some (Some (Inl e, s)) \<Rightarrow> Some (ret (Inl e, s))
      | Some (Some (Inr sys_time, s)) \<Rightarrow>
          if start_time < sys_time then Some (ret (Inr (), s)) else wait_for_start X dev h start_time s)"

definition start_sync_signal :: "crates \<Rightarrow> 'd device \<Rightarrow> nat \<Rightarrow> SlaveConfig \<Rightarrow> u32 \<Rightarrow> ('d, unit) config" where
  "start_sync_signal X dev h config cycle_time =
     c_bind (c_write_register X dev h SetSync0CycleTime (reg_address Sync0CycleTime) (to_le_bytes 4 (unat cycle_time))) (\<lambda>_.
     c_bind (c_write_register X dev h SetSync1CycleTime (reg_address Sync1CycleTime)
       (to_le_bytes 4 (unat (drop_bit 1 cycle_time)))) (\<lambda>_.
     c_bind (read_system_time X dev h (reg_address DcSystemTime)) (\<lambda>sys_time.
     c_bind (c_rust (uadd sys_time 10000000)) (\<lambda>start_time.
     c_bind (c_write_register X dev h SetSyncSignalStartTime (reg_address CyclicOperationStartTime)
       (to_le_bytes 8 (unat start_time))) (\<lambda>_.
     c_bind (c_rust (dc_activation_of X (sync_mode config))) (\<lambda>dc_activation.
     c_bind (c_write_register X dev h ActivateDc (reg_address DcActivation) dc_activation) (\<lambda>_.
     c_bind (read_system_time X dev h (reg_address CyclicOperationStartTime)) (\<lambda>start_time.
     wait_for_start X dev h start_time))))))))"

definition configure_slave_sync :: "crates \<Rightarrow> 'd device \<Rightarrow> nat \<Rightarrow> SlaveConfig \<Rightarrow> ('d, unit) config" where
  "configure_slave_sync X dev h config =
     c_bind (configure_rx_sync X dev h config) (\<lambda>rx_cycle_time_ns.
     c_bind (configure_tx_sync X dev h config) (\<lambda>tx_cycle_time_ns.
     c_bind (if sync_mode config = FreeRun then c_ret ()
       else c_write_sdo X dev h ResetSyncError 0x10F1 2 [0x9, 0]) (\<lambda>_.
     start_sync_signal X dev h config
       (case cycle_time_ns config of
          DefaultValue \<Rightarrow> max rx_cycle_time_ns tx_cycle_time_ns
        | SpecifiedValue time \<Rightarrow> time))))"

definition configure_sync_mode ::
    "crates \<Rightarrow> 'd device \<Rightarrow> 'd EtherCatMaster \<Rightarrow> ((ConfigError + unit) \<times> 'd EtherCatMaster) run" where
  "configure_sync_mode X dev m = for_slaves (\<lambda>config. c_bind c_slave (\<lambda>slave.
     if si_support_coe (sl_info slave) then configure_slave_sync X dev (gp_socket_handle m) config
     else c_ret ())) m"

section \<open>The operations of the master\<close>

definition configure_slaves_for_operation ::
    "crates \<Rightarrow> 'd device \<Rightarrow> 'd EtherCatMaster \<Rightarrow> ((ConfigError + unit) \<times> 'd EtherCatMaster) run" where
  "configure_slaves_for_operation X dev m =
     and_then (configure_pdo_image X dev m) (\<lambda>(r, m). case r of
       Inl e \<Rightarrow> Some (ret (Inl e, m))
     | Inr _ \<Rightarrow> configure_sync_mode X dev m)"

definition process_data_size :: "'d EtherCatMaster \<Rightarrow> nat" where
  "process_data_size m = pt_image_size (process_data_task m)"

definition register_process_data_buffer :: "'d EtherCatMaster \<Rightarrow> bytes \<Rightarrow> (bool \<times> 'd EtherCatMaster) rust" where
  "register_process_data_buffer m buf =
     (if length buf < process_data_size m then ret (False, m)
      else do {
        (handle, si) \<leftarrow> new_socket (ma_sif m) buf;
        ret (True, m\<lparr>ma_sif := si, process_data_handle := Some handle\<rparr>) })"

end
