(* ===== verification/Process_Data.thy ===== *)
theory Process_Data
  imports Master_Cycle Configure
begin

text \<open>
  The exchange of process data, the purpose of the cycle: the image in the socket goes out, and what the
  slaves make of it is the image of the next cycle.
\<close>

text \<open>A master between two cycles all of whose services are in order.\<close>

definition serving :: "crates \<Rightarrow> 'd EtherCatMaster \<Rightarrow> bool" where
  "serving X m \<longleftrightarrow> (\<exists>ss. cycle_ok X m ss)"

lemma serving_socket:
  assumes "serving X m" and "process_data_handle m = Some h"
  obtains ss where "cycle_ok X m ss" "h < length ss" "sockets_ok (ma_sif m) ss" "get_socket (ma_sif m) h = Some (ss ! h)"
    "pd_ok X (ma_network m) (process_data_task m) (ss ! h)"
proof -
  obtain ss where ss: "cycle_ok X m ss" using assms(1) by (auto simp: serving_def)
  then have h: "h < length ss" "sockets_ok (ma_sif m) ss" "pd_ok X (ma_network m) (process_data_task m) (ss ! h)"
    using assms(2) by (auto simp: cycle_ok_def handles_def)
  with ss sockets_ok_get [OF h(2,1)] show thesis by (intro that)
qed

text \<open>The cycle that makes the first request.\<close>

lemma first_cycle:
  assumes X: "crates_laws X" and net: "\<And>d. answers dev (slaves d) d" and code: "\<And>d. codes_known X (slaves d)"
    and m: "serving X m" "process_data_handle m = Some h" and s: "get_socket (ma_sif m) h = Some s" "sk_command s = None"
  obtains m' s' where "process X dev m time = Some (Inr (cycle_count m'), m')" "serving X m'"
    "process_data_handle m' = Some h" "get_socket (ma_sif m') h = Some s'" "data_buf s' = data_buf s"
    "sk_command s' = pt_request (process_data_task m)" "pt_image_size (process_data_task m') = pt_image_size (process_data_task m)"
proof -
  obtain ss where ss: "cycle_ok X m ss" "h < length ss" "get_socket (ma_sif m) h = Some (ss ! h)"
    using serving_socket [OF m] by metis
  then obtain m' ss1 ss' where m': "process X dev m time = Some (Inr (cycle_count m'), m')" "cycle_ok X m' ss'"
    "process_data_handle m' = process_data_handle m" "image_sent m ss1 m' ss'"
    "answered X (slaves (ethdev (iface (ma_sif m)))) h s (ss1 ! h)"
    using process_ok [OF X net code ss(1), of time] s(1) by auto
  have "ss1 ! h = s" using answered_waiting [OF m'(5)] s(2) by (simp add: pending_def)
  moreover have "h < length ss'" "sockets_ok (ma_sif m') ss'"
    using m'(2,3) m(2) by (auto simp: cycle_ok_def handles_def)
  then have "get_socket (ma_sif m') h = Some (ss' ! h)" by (rule sockets_ok_get [rotated])
  ultimately show thesis using m' m(2)
    by (intro that [of m' "ss' ! h"]) (auto simp: serving_def image_sent_def)
qed



text \<open>A master with an image of two bytes, on a network whose slaves clear it.\<close>

definition image_master :: "(nat \<times> bytes option) EtherCatMaster" where
  "image_master = (new_master [(None, SlaveConfig_default)] (replicate 541 0) (PduInterface_new (0, None) (replicate 700 0)))
     \<lparr>process_data_task := ProcessTask_new LOGICAL_START_ADDRESS 3 2\<rparr>"

lemma image_master_registered:
  obtains m where "register_process_data_buffer image_master [0xAB, 0xCD] = Some (True, m)" "serving X m"
    "process_data_handle m = Some 6" "get_socket (ma_sif m) 6 = Some (PduSocket_new [0xAB, 0xCD])"
    "process_data_task m = ProcessTask_new LOGICAL_START_ADDRESS 3 2"
proof -
  let ?b = "replicate 541 (0 :: u8)" and ?s = "PduSocket_new [0xAB, 0xCD]"
  let ?si = "(ma_sif image_master)\<lparr>socket_set := \<lparr>free_index = 7, items = map Exist (new_sockets ?b @ [?s])\<rparr>\<rparr>"
  let ?m = "image_master\<lparr>ma_sif := ?si, process_data_handle := Some 6\<rparr>"
  have len: "length (new_sockets ?b) = 6" by (simp add: new_sockets_def)
  have si: "socket_set (ma_sif image_master) = \<lparr>free_index = 6, items = map Exist (new_sockets ?b) @ [NextFreeIndex 7]\<rparr>"
    by (simp add: image_master_def new_master_def)
  then have reg: "register_process_data_buffer image_master [0xAB, 0xCD] = Some (True, ?m)"
    using len by (simp add: register_process_data_buffer_def process_data_size_def image_master_def
      ProcessTask_new_def new_socket_def add_socket_def add_item_def get_def nth_append list_update_append)
  have nth: "get_socket ?si j = (if j < 7 then Some ((new_sockets ?b @ [?s]) ! j) else None)" for j
    using len by (simp add: get_socket_def get_item_def get_def del: map_append)
  have "dense ?si (new_sockets ?b @ [?s])" using nth len by (simp add: dense_def)
  moreover have "roomy ?si (new_sockets ?b @ [?s])"
    by (simp add: roomy_def image_master_def new_master_def new_sockets_def PduInterface_new_def PduSocket_new_def)
  moreover have "idle (iface ?si)" by (simp add: image_master_def new_master_def idle_new)
  moreover have "\<forall>s \<in> set (new_sockets ?b @ [?s]). socket_fits s"
    by (simp add: new_sockets_def PduSocket_new_def socket_fits_def)
  ultimately have "sockets_ok ?si (new_sockets ?b @ [?s])" by (simp only: sockets_ok_def simp_thms)
  then have "cycle_ok X ?m (new_sockets ?b @ [?s])"
    using len
    by (simp add: cycle_ok_def handles_def image_master_def new_master_def nth_append pd_ok_def ProcessTask_new_def
      holds_def PduSocket_new_def image_readable_def Network_new_def slaves_list_def map_filter_simps
      MailboxManager_new_def MailboxTask_new_def mailbox_ok_def new_sockets_def
      RxErrorReadTask_new_def RxErrorCounter_def reg_new_def al_tf_ok_def AlStateTransferTask_new_def)
  with reg show thesis using nth len
    by (intro that [of ?m]) (auto simp: serving_def image_master_def nth_append)
qed


end
