(* ===== verification/Image_Layout.thy ===== *)
theory Image_Layout
  imports Configure
begin

text \<open>
  What the layout of the process data image promises: the FMMUs of all slaves with process data lie in
  it one behind the other, without gaps and without overlaps.
\<close>

section \<open>The reference layout\<close>

abbreviation fmmu_bits :: "FmmuConfig \<Rightarrow> nat" where
  "fmmu_bits f \<equiv> unat (bit_length (fc_logical_bits f))"

definition slot_bits :: "FmmuConfig option \<Rightarrow> nat" where
  "slot_bits f = (case f of None \<Rightarrow> 0 | Some f \<Rightarrow> fmmu_bits f)"

definition total_bits :: "FmmuConfig option list \<Rightarrow> nat" where
  "total_bits fs = sum_list (map slot_bits fs)"

text \<open>An FMMU with process data moves to the given bit of the logical address space.\<close>

definition move_fmmu :: "nat \<Rightarrow> FmmuConfig \<Rightarrow> FmmuConfig" where
  "move_fmmu b f = (if fmmu_bits f = 0 then f
     else f\<lparr>fc_logical_bits := \<lparr>logical_address = Some (of_nat (b div 8)), start_bit = of_nat (b mod 8),
            bit_length = bit_length (fc_logical_bits f)\<rparr>\<rparr>)"

text \<open>Each FMMU lies behind all those before it.\<close>

definition lay_out :: "nat \<Rightarrow> FmmuConfig option list \<Rightarrow> FmmuConfig option list" where
  "lay_out b fs = map (\<lambda>k. map_option (move_fmmu (b + total_bits (take k fs))) (fs ! k)) [0..<length fs]"

text \<open>The direction of process data a slave has.\<close>

definition has_direction :: "Direction \<Rightarrow> FmmuConfig option list \<Rightarrow> bool" where
  "has_direction d fs \<longleftrightarrow> (\<exists>f. Some f \<in> set fs \<and> 0 < fmmu_bits f \<and> fc_direction f = d)"

text \<open>A slave that gives inputs counts 1, one that takes outputs 2.\<close>

definition slave_wkc :: "FmmuConfig option list \<Rightarrow> nat" where
  "slave_wkc fs =
     of_bool (has_direction Input fs) + 2 * of_bool (has_direction Output fs)"

definition fmmus_of :: "(Slave option \<times> SlaveConfig) list \<Rightarrow> FmmuConfig option list" where
  "fmmus_of slaves = concat (map (\<lambda>(s, _). case s of None \<Rightarrow> [] | Some s \<Rightarrow> sl_fmmu s) slaves)"

definition lay_out_slaves :: "nat \<Rightarrow> (Slave option \<times> SlaveConfig) list \<Rightarrow> (Slave option \<times> SlaveConfig) list" where
  "lay_out_slaves b slaves = map (\<lambda>k. case slaves ! k of (s, c) \<Rightarrow>
       (map_option (\<lambda>s. s\<lparr>sl_fmmu := lay_out (b + total_bits (fmmus_of (take k slaves))) (sl_fmmu s)\<rparr>) s, c))
     [0..<length slaves]"

definition expected_count :: "(Slave option \<times> SlaveConfig) list \<Rightarrow> nat" where
  "expected_count slaves = sum_list (map (\<lambda>(s, _). case s of None \<Rightarrow> 0 | Some s \<Rightarrow> slave_wkc (sl_fmmu s)) slaves)"

section \<open>One slave\<close>

lemma total_bits_simps [simp]: "total_bits [] = 0" "total_bits (f # fs) = slot_bits f + total_bits fs"
  "total_bits (xs @ ys) = total_bits xs + total_bits ys"
  by (simp_all add: total_bits_def)

lemma map_upt_Cons: "map g [0..<length (x # xs)] = g 0 # map (\<lambda>k. g (Suc k)) [0..<length xs]"
  by (simp add: upt_conv_Cons map_Suc_upt [symmetric] del: upt_Suc)

lemma lay_out_simps [simp]:
  "lay_out b [] = []"
  "lay_out b (f # fs) = map_option (move_fmmu b) f # lay_out (b + slot_bits f) fs"
  unfolding lay_out_def map_upt_Cons by (simp_all add: add.assoc)

lemma move_fmmu_at:
  assumes "fmmu_bits f \<noteq> 0"
  shows "fmmu_at w f = move_fmmu (unat w) f"
proof -
  have "ucast (drop_bit 3 w) = (of_nat (unat w div 8) :: u32)"
    by (rule word_eq_iff_unsigned [where 'a = nat, THEN iffD2])
      (simp add: unsigned_ucast_eq unsigned_of_nat unat_div drop_bit_eq_div)
  moreover have "ucast (w mod 8) = (of_nat (unat w mod 8) :: u8)"
    by (rule word_eq_iff_unsigned [where 'a = nat, THEN iffD2])
      (simp add: unsigned_ucast_eq unsigned_of_nat unat_mod)
  ultimately show ?thesis using assms by (simp add: fmmu_at_def move_fmmu_def)
qed

lemma has_direction_simps [simp]:
  "\<not> has_direction d []" "has_direction d (None # fs) \<longleftrightarrow> has_direction d fs"
  "has_direction d (Some f # fs) \<longleftrightarrow> 0 < fmmu_bits f \<and> fc_direction f = d \<or> has_direction d fs"
  by (auto simp: has_direction_def)

lemma uadd_len:
  fixes b :: u64 and n :: u16
  shows "unat b + unat n < 2 ^ 64 \<Longrightarrow> uadd b (ucast n) = Some (b + ucast n) \<and> unat (b + ucast n) = unat b + unat n"
    and "\<not> unat b + unat n < 2 ^ 64 \<Longrightarrow> uadd b (ucast n) = None"
proof -
  have "unat (ucast n :: u64) = unat n"
    by (simp add: unsigned_ucast_eq take_bit_unat less_trans [OF unsigned_less])
  then show "unat b + unat n < 2 ^ 64 \<Longrightarrow> uadd b (ucast n) = Some (b + ucast n) \<and> unat (b + ucast n) = unat b + unat n"
    and "\<not> unat b + unat n < 2 ^ 64 \<Longrightarrow> uadd b (ucast n) = None"
    by (simp_all add: uadd_def unat_word_ariths)
qed

lemma place_fmmu_unused:
  "place_fmmu l None = Some (l, None)"
  "bit_length (fc_logical_bits f) = 0 \<Longrightarrow> place_fmmu l (Some f) = Some (l, Some f)"
  by (simp_all add: place_fmmu_def)

lemma place_fmmu_used:
  assumes "bit_length (fc_logical_bits f) \<noteq> 0"
  shows "place_fmmu l (Some f) = do {
     address \<leftarrow> uadd (bit_address l) (ucast (bit_length (fc_logical_bits f)));
     ret (l\<lparr>bit_address := address, has_rx_data := has_rx_data l \<or> fc_direction f = Output,
            has_tx_data := has_tx_data l \<or> fc_direction f = Input\<rparr>, Some (move_fmmu (unat (bit_address l)) f)) }"
proof -
  have "move_fmmu (unat (bit_address l)) f = fmmu_at (bit_address l) f"
    using assms by (simp add: move_fmmu_at unat_eq_0)
  with assms show ?thesis by (cases "fc_direction f") (simp_all add: place_fmmu_def fmmu_at_def)
qed

lemma place_fmmus:
  "map_acc place_fmmu \<lparr>bit_address = b, has_tx_data = tx, has_rx_data = rx\<rparr> fs =
    (if unat b + total_bits fs < 2 ^ 64
     then Some (\<lparr>bit_address = b + of_nat (total_bits fs), has_tx_data = tx \<or> has_direction Input fs,
           has_rx_data = rx \<or> has_direction Output fs\<rparr>, lay_out (unat b) fs)
     else None)"
proof (induction fs arbitrary: b tx rx)
  case Nil
  show ?case using unsigned_less [of b] by simp
next
  case (Cons slot fs)
  show ?case
  proof (cases slot)
    case None
    then show ?thesis by (simp add: Cons.IH slot_bits_def place_fmmu_unused)
  next
    case (Some f)
    let ?n = "bit_length (fc_logical_bits f)"
    consider "?n = 0" | "?n \<noteq> 0" "unat b + unat ?n < 2 ^ 64" | "?n \<noteq> 0" "\<not> unat b + unat ?n < 2 ^ 64" by blast
    then show ?thesis
    proof cases
      case 1
      with Some show ?thesis by (simp add: Cons.IH place_fmmu_unused slot_bits_def move_fmmu_def)
    next
      case 2
      with Some show ?thesis
        using uadd_len(1) [OF 2(2)]
        by (simp add: place_fmmu_used Cons.IH slot_bits_def add.assoc unat_gt_0 disj_ac)
    next
      case 3
      with Some show ?thesis using uadd_len(2) [OF 3(2)] by (simp add: place_fmmu_used slot_bits_def)
    qed
  qed
qed

section \<open>The network\<close>

lemma fmmus_of_simps [simp]:
  "fmmus_of [] = []" "fmmus_of ((None, c) # xs) = fmmus_of xs"
  "fmmus_of ((Some s, c) # xs) = sl_fmmu s @ fmmus_of xs"
  by (simp_all add: fmmus_of_def)

lemma lay_out_slaves_simps [simp]:
  "lay_out_slaves b [] = []"
  "lay_out_slaves b ((None, c) # xs) = (None, c) # lay_out_slaves b xs"
  "lay_out_slaves b ((Some s, c) # xs) =
     (Some (s\<lparr>sl_fmmu := lay_out b (sl_fmmu s)\<rparr>), c) # lay_out_slaves (b + total_bits (sl_fmmu s)) xs"
  unfolding lay_out_slaves_def map_upt_Cons by (simp_all add: add.assoc)

lemma expected_count_simps [simp]:
  "expected_count [] = 0" "expected_count ((None, c) # xs) = expected_count xs"
  "expected_count ((Some s, c) # xs) = slave_wkc (sl_fmmu s) + expected_count xs"
  by (simp_all add: expected_count_def)

lemma count_wkc_eq:
  "count_wkc l w = (let k = of_bool (has_tx_data l) + 2 * of_bool (has_rx_data l) in
     if unat w + k < 2 ^ 16 then Some (w + of_nat k) else None)"
  using unsigned_less [of w]
  by (cases "has_tx_data l"; cases "has_rx_data l") (auto simp: count_wkc_def uadd_def unat_word_ariths Let_def)

lemma place_slave_None: "place_slave (b, w) (None, c) = Some ((b, w), None, c)"
  by (simp add: place_slave_def)

lemma place_slave_Some:
  "place_slave (b, w) (Some s, c) =
    (if unat b + total_bits (sl_fmmu s) < 2 ^ 64 \<and> unat w + slave_wkc (sl_fmmu s) < 2 ^ 16
     then Some ((b + of_nat (total_bits (sl_fmmu s)), w + of_nat (slave_wkc (sl_fmmu s))),
            Some (s\<lparr>sl_fmmu := lay_out (unat b) (sl_fmmu s)\<rparr>), c) else None)"
  by (simp add: place_slave_def place_fmmus slave_wkc_def count_wkc_eq Let_def)

lemma unat_add_below: "unat (b :: 'a::len word) + n < 2 ^ LENGTH('a) \<Longrightarrow> unat (b + of_nat n) = unat b + n"
  by (simp add: unat_word_ariths unat_of_nat)

lemma place_slaves:
  "map_acc place_slave (b, w) slaves =
    (if unat b + total_bits (fmmus_of slaves) < 2 ^ 64 \<and> unat w + expected_count slaves < 2 ^ 16
     then Some ((b + of_nat (total_bits (fmmus_of slaves)), w + of_nat (expected_count slaves)),
            lay_out_slaves (unat b) slaves)
     else None)"
proof (induction slaves arbitrary: b w)
  case Nil
  show ?case using unsigned_less [of b] unsigned_less [of w] by simp
next
  case (Cons sc slaves)
  obtain slave c where sc: "sc = (slave, c)" by force
  show ?case
  proof (cases slave)
    case None
    with sc show ?thesis by (simp add: Cons.IH place_slave_None)
  next
    case (Some s)
    let ?t = "total_bits (sl_fmmu s)" and ?k = "slave_wkc (sl_fmmu s)"
    show ?thesis
    proof (cases "unat b + ?t < 2 ^ 64 \<and> unat w + ?k < 2 ^ 16")
      case True
      then have u: "unat (b + of_nat ?t) = unat b + ?t" "unat (w + of_nat ?k) = unat w + ?k"
        by (simp_all add: unat_add_below)
      from True sc Some show ?thesis by (simp add: place_slave_Some Cons.IH u add.assoc)
    next
      case False
      with sc Some show ?thesis by (auto simp: place_slave_Some)
    qed
  qed
qed

section \<open>The whole image\<close>

lemma slave_wkc_le: "slave_wkc fs \<le> 3 * total_bits fs"
proof (cases "has_direction Input fs \<or> has_direction Output fs")
  case True
  then obtain f where "Some f \<in> set fs" "0 < fmmu_bits f" by (auto simp: has_direction_def)
  then have "0 < total_bits fs" by (force simp: total_bits_def slot_bits_def sum_list_eq_0_iff intro!: Nat.gr0I)
  then show ?thesis by (auto simp: slave_wkc_def)
qed (simp add: slave_wkc_def)

lemma expected_count_le: "expected_count slaves \<le> 3 * total_bits (fmmus_of slaves)"
proof (induction slaves)
  case (Cons sc slaves)
  obtain slave c where "sc = (slave, c)" by force
  with Cons slave_wkc_le show ?case by (cases slave) (force simp: add_le_mono)+
qed simp

lemma image_bytes_eq:
  assumes "0x8000 + n < 2 ^ 64"
  shows "\<exists>len. image_bytes (0x8000 + of_nat n) = Some len \<and> unat len = (n + 7) div 8"
proof -
  let ?a = "0x8000 + of_nat n :: u64"
  have a: "unat ?a = 0x8000 + n" using unat_add_below [of "0x8000 :: u64" n] assms by simp
  have d: "unat (drop_bit 3 ?a) = 0x1000 + n div 8" by (simp add: drop_bit_eq_div unat_div a)
  have "(0x8000 + n) mod 8 = n mod 8" by presburger
  then have m: "?a mod 8 = 0 \<longleftrightarrow> n mod 8 = 0" by (simp add: word_eq_iff_unsigned [where 'a = nat] unat_mod a)
  show ?thesis
  proof (cases "n mod 8 = 0")
    case True
    then have "(n + 7) div 8 = n div 8" by presburger
    with True m d show ?thesis
      by (simp add: image_bytes_def LOGICAL_START_ADDRESS_def usub_def unat_sub word_le_nat_alt)
  next
    case False
    then have n: "(n + 7) div 8 = n div 8 + 1" by presburger
    have "unat (drop_bit 3 ?a + 1) = 0x1000 + n div 8 + 1"
      using d assms unat_add_below [of "drop_bit 3 ?a" 1] by simp
    with False m d n assms show ?thesis
      by (simp add: image_bytes_def LOGICAL_START_ADDRESS_def uadd_def usub_def unat_sub word_le_nat_alt)
  qed
qed

lemma fmmu_layout_eq:
  "set_logical_address_to_fmmu_config network =
     (let slaves = nw_slaves network; n = total_bits (fmmus_of slaves) in
      if (n + 7) div 8 \<le> MAX_PDU_DATAGRAM
      then Some ((n + 7) div 8, of_nat (expected_count slaves),
             network\<lparr>nw_slaves := lay_out_slaves (8 * unat LOGICAL_START_ADDRESS) slaves\<rparr>)
      else None)"
proof -
  let ?S = "nw_slaves network"
  let ?n = "total_bits (fmmus_of ?S)" and ?k = "expected_count ?S"
  have start: "umul LOGICAL_START_ADDRESS 8 = Some 0x8000" by (simp add: umul_def LOGICAL_START_ADDRESS_def)
  have k: "?k \<le> 3 * ?n" by (rule expected_count_le)
  show ?thesis
  proof (cases "0x8000 + ?n < 2 ^ 64 \<and> ?k < 2 ^ 16")
    case True
    then obtain len where "image_bytes (0x8000 + of_nat ?n) = Some len" "unat len = (?n + 7) div 8"
      using image_bytes_eq by blast
    with True start show ?thesis
      by (simp add: set_logical_address_to_fmmu_config_def place_slaves Let_def assert_def LOGICAL_START_ADDRESS_def
        del: MAX_PDU_DATAGRAM_def)
  next
    case False
    then have "\<not> (?n + 7) div 8 \<le> MAX_PDU_DATAGRAM" using k by auto
    with False start show ?thesis
      by (auto simp: set_logical_address_to_fmmu_config_def place_slaves Let_def simp del: MAX_PDU_DATAGRAM_def)
  qed
qed

text \<open>
  C17: the layout of the image is the reference layout, on every network. The FMMUs with process data
  are placed from bit \<open>8 * 0x1000\<close> of the logical address space, each behind all those before it, in
  the order of the slaves and of the FMMUs of a slave, all others are left as they are; the size is the
  total number of bits, rounded up to bytes, and the expected working counter 1 for every slave with
  inputs plus 2 for every slave with outputs. The function panics exactly when the image does not fit
  into the data of one PDU; no other overflow is possible.
\<close>

theorem fmmu_layout_reference:
  "set_logical_address_to_fmmu_config network =
     (let slaves = nw_slaves network; n = total_bits (fmmus_of slaves) in
      if (n + 7) div 8 \<le> MAX_PDU_DATAGRAM
      then Some ((n + 7) div 8, of_nat (expected_count slaves),
             network\<lparr>nw_slaves := lay_out_slaves (8 * unat LOGICAL_START_ADDRESS) slaves\<rparr>)
      else None)"
  by (rule fmmu_layout_eq)

section \<open>No gaps and no overlaps\<close>

text \<open>The bits an FMMU takes in the logical address space, in order.\<close>

definition fmmu_range :: "FmmuConfig option \<Rightarrow> nat list" where
  "fmmu_range fmmu = (case fmmu of
     None \<Rightarrow> []
   | Some f \<Rightarrow> (case logical_address (fc_logical_bits f) of
       None \<Rightarrow> []
     | Some a \<Rightarrow> let b = 8 * unat a + unat (start_bit (fc_logical_bits f)) in [b..<b + fmmu_bits f]))"

lemma fmmu_range_move:
  assumes "b < 2 ^ 35"
  shows "fmmu_range (map_option (move_fmmu b) fmmu) = [b..<b + slot_bits fmmu]"
proof (cases fmmu)
  case (Some f)
  have "unat (of_nat (b div 8) :: u32) = b div 8" "unat (of_nat (b mod 8) :: u8) = b mod 8"
    using assms by (simp_all add: unat_of_nat)
  then have "8 * unat (of_nat (b div 8) :: u32) + unat (of_nat (b mod 8) :: u8) = b" by simp
  with Some show ?thesis
    by (auto simp: fmmu_range_def move_fmmu_def slot_bits_def Let_def split: option.splits)
qed (simp add: fmmu_range_def slot_bits_def)

lemma lay_out_ranges:
  "b + total_bits fs < 2 ^ 35 \<Longrightarrow> concat (map fmmu_range (lay_out b fs)) = [b..<b + total_bits fs]"
proof (induction fs arbitrary: b)
  case (Cons f fs)
  then show ?case
    using upt_add_eq_append [of b "b + slot_bits f" "total_bits fs"]
    by (simp add: fmmu_range_move add.assoc)
qed simp

lemma lay_out_slaves_ranges:
  "b + total_bits (fmmus_of slaves) < 2 ^ 35 \<Longrightarrow>
     concat (map fmmu_range (fmmus_of (lay_out_slaves b slaves))) = [b..<b + total_bits (fmmus_of slaves)]"
proof (induction slaves arbitrary: b)
  case (Cons sc slaves)
  obtain slave c where sc: "sc = (slave, c)" by force
  show ?case
  proof (cases slave)
    case None
    with sc Cons show ?thesis by simp
  next
    case (Some s)
    with sc Cons show ?thesis
      using upt_add_eq_append [of b "b + total_bits (sl_fmmu s)" "total_bits (fmmus_of slaves)"]
      by (simp add: lay_out_ranges add.assoc)
  qed
qed simp

text \<open>
  C18: the FMMUs tile the image. Listed in the order of the slaves and of the FMMUs of a slave, the bits
  the placed FMMUs cover are exactly the bits of the image from its start on, each once; the size is
  the least number of bytes that holds them. So no two FMMUs share a bit and none reaches out of the image.
\<close>

theorem fmmus_tile_image:
  "case set_logical_address_to_fmmu_config network of
     None \<Rightarrow> True
   | Some (image_size, expected_wkc, network') \<Rightarrow>
       \<exists>n. concat (map fmmu_range (fmmus_of (nw_slaves network'))) = [0x8000..<0x8000 + n] \<and>
         image_size = (n + 7) div 8"
proof -
  let ?n = "total_bits (fmmus_of (nw_slaves network))"
  have "concat (map fmmu_range (fmmus_of (lay_out_slaves 0x8000 (nw_slaves network)))) = [0x8000..<0x8000 + ?n]"
    if "(?n + 7) div 8 \<le> MAX_PDU_DATAGRAM"
    using that by (intro lay_out_slaves_ranges) simp
  then show ?thesis
    by (auto simp: fmmu_layout_eq Let_def LOGICAL_START_ADDRESS_def simp del: MAX_PDU_DATAGRAM_def
      intro!: exI [of _ ?n])
qed

section \<open>The objects of the process data\<close>

definition entry_bits :: "PdoEntry \<Rightarrow> nat" where
  "entry_bits e = unat (PdoEntry_bit_length e)"

definition entries_of :: "PdoMapping list \<Rightarrow> PdoEntry list" where
  "entries_of maps = concat (map pm_entries maps)"

text \<open>The bit of the logical address space an entry starts at.\<close>

definition entry_position :: "PdoEntry \<Rightarrow> nat" where
  "entry_position e = (case logical_address (pe_logical_bits e) of
     None \<Rightarrow> 0
   | Some a \<Rightarrow> 8 * unat a + unat (start_bit (pe_logical_bits e)))"

text \<open>Where the code puts what belongs at bit \<open>p\<close>: a byte too far, unless \<open>p\<close> starts a byte.\<close>

definition shifted :: "nat \<Rightarrow> nat" where
  "shifted p = (if p mod 8 = 0 then p else p + 8)"

fun offsets :: "nat \<Rightarrow> nat list \<Rightarrow> nat list" where
  "offsets b [] = []"
| "offsets b (n # ns) = b # offsets (b + n) ns"

lemma offsets_append: "offsets b (ms @ ns) = offsets b ms @ offsets (b + sum_list ms) ns"
  by (induction ms arbitrary: b) (simp_all add: add.assoc)

lemma place_entry_eq:
  assumes "unat b + entry_bits e < 2 ^ 34"
  shows "\<exists>e'. place_entry b e = Some (b + of_nat (entry_bits e), e') \<and> entry_position e' = shifted (unat b)"
proof -
  have add: "uadd b (ucast (PdoEntry_bit_length e)) = Some (b + of_nat (entry_bits e))"
    using assms by (simp add: uadd_def entry_bits_def unsigned_ucast_eq take_bit_unat less_trans [OF unsigned_less])
  have m: "unat (b mod 8) = unat b mod 8" "b mod 8 = 0 \<longleftrightarrow> unat b mod 8 = 0"
    by (simp_all add: unat_mod word_eq_iff_unsigned [where 'a = nat])
  have d: "unat (drop_bit 3 b) = unat b div 8" by (simp add: drop_bit_eq_div unat_div)
  have u: "unat (ucast (b mod 8) :: u8) = unat b mod 8" "unat (ucast (drop_bit 3 b) :: u32) = unat b div 8"
    using m(1) d assms by (simp_all add: unsigned_ucast_eq take_bit_nat_eq_self)
  have d1: "uadd (drop_bit 3 b) 1 = Some (drop_bit 3 b + 1)" "unat (ucast (drop_bit 3 b + 1) :: u32) = unat b div 8 + 1"
    using d assms by (simp_all add: uadd_def unsigned_ucast_eq take_bit_nat_eq_self unat_word_ariths)
  show ?thesis
  proof (cases "unat b mod 8 = 0")
    case True
    then have "8 * (unat b div 8) = unat b" by presburger
    with True m(2) add u show ?thesis
      by (simp add: place_entry_def entry_position_def shifted_def PdoEntry_bit_length_def Let_def)
  next
    case False
    have "8 * (unat b div 8 + 1) + unat b mod 8 = unat b + 8" by presburger
    with False m(2) add u d1 show ?thesis
      by (simp add: place_entry_def entry_position_def shifted_def PdoEntry_bit_length_def Let_def)
  qed
qed

lemma place_entries_eq:
  assumes "unat b + sum_list (map entry_bits es) < 2 ^ 34"
  shows "\<exists>es'. map_acc place_entry b es = Some (b + of_nat (sum_list (map entry_bits es)), es') \<and>
    map entry_position es' = map shifted (offsets (unat b) (map entry_bits es))"
  using assms
proof (induction es arbitrary: b)
  case (Cons e es)
  obtain e' where e': "place_entry b e = Some (b + of_nat (entry_bits e), e')" "entry_position e' = shifted (unat b)"
    using place_entry_eq [of b e] Cons.prems by auto
  let ?b = "b + of_nat (entry_bits e)"
  have b: "unat ?b = unat b + entry_bits e" using Cons.prems by (intro unat_add_below) simp
  obtain es' where "map_acc place_entry ?b es = Some (?b + of_nat (sum_list (map entry_bits es)), es')"
    "map entry_position es' = map shifted (offsets (unat ?b) (map entry_bits es))"
    using Cons.IH [of ?b] Cons.prems b by auto
  with e' b show ?case by (intro exI [of _ "e' # es'"]) (simp add: add.assoc)
qed simp

lemma entries_of_simps [simp]: "entries_of [] = []" "entries_of (m # ms) = pm_entries m @ entries_of ms"
  by (simp_all add: entries_of_def)

lemma place_maps_eq:
  assumes "unat b + sum_list (map entry_bits (entries_of maps)) < 2 ^ 34"
  shows "\<exists>maps'. map_acc place_mapping b maps = Some (b + of_nat (sum_list (map entry_bits (entries_of maps))), maps') \<and>
    map entry_position (entries_of maps') = map shifted (offsets (unat b) (map entry_bits (entries_of maps)))"
  using assms
proof (induction maps arbitrary: b)
  case (Cons pm maps)
  let ?n = "sum_list (map entry_bits (pm_entries pm))"
  obtain es' where es': "map_acc place_entry b (pm_entries pm) = Some (b + of_nat ?n, es')"
    "map entry_position es' = map shifted (offsets (unat b) (map entry_bits (pm_entries pm)))"
    using place_entries_eq [of b "pm_entries pm"] Cons.prems by auto
  let ?b = "b + of_nat ?n"
  have b: "unat ?b = unat b + ?n" using Cons.prems by (intro unat_add_below) simp
  obtain maps' where "map_acc place_mapping ?b maps = Some (?b + of_nat (sum_list (map entry_bits (entries_of maps))), maps')"
    "map entry_position (entries_of maps') = map shifted (offsets (unat ?b) (map entry_bits (entries_of maps)))"
    using Cons.IH [of ?b] Cons.prems b by auto
  moreover have "place_mapping b pm = Some (?b, pm\<lparr>pm_entries := es'\<rparr>)"
    using es'(1) by (simp add: place_mapping_def)
  ultimately show ?case using es'(2) b
    by (intro exI [of _ "pm\<lparr>pm_entries := es'\<rparr> # maps'"]) (simp add: offsets_append add.assoc)
qed simp

text \<open>
  C20: the objects of the process data are not where the FMMU puts them. When the mappings of a
  direction fill its FMMU, which starts at bit \<open>p\<close> of the address space, the objects belong at \<open>p\<close> plus
  the lengths of those before; the code accepts the mappings but puts every object that does not start
  on a byte border eight bits behind its place, and only the others where they belong.
\<close>

theorem entries_shifted:
  assumes fmmu: "logical_address (fc_logical_bits fmmu) = Some a" "unat a < 2 ^ 29"
    and fill: "maps \<noteq> []" "sum_list (map entry_bits (entries_of maps)) = fmmu_bits fmmu"
    and p: "p = 8 * unat a + unat (start_bit (fc_logical_bits fmmu))"
  shows "\<exists>maps'. place_mappings (Some fmmu) maps = Some maps' \<and>
    map entry_position (entries_of maps') = map shifted (offsets p (map entry_bits (entries_of maps)))"
proof -
  let ?s = "start_bit (fc_logical_bits fmmu)" and ?n = "fmmu_bits fmmu"
  let ?start = "ucast (a * 8) :: u64" and ?sb = "ucast ?s :: u64"
  have mul: "umul a 8 = Some (a * 8)" "unat (a * 8) = unat a * 8"
    using fmmu(2) by (simp_all add: umul_def unat_word_ariths)
  have lt: "unat ?s < 256" "?n < 65536" using unsigned_less [of ?s] unsigned_less [of "bit_length (fc_logical_bits fmmu)"] by simp_all
  have u: "unat ?start = unat a * 8" "unat ?sb = unat ?s"
    using mul(2) fmmu(2) lt(1) by (simp_all add: unsigned_ucast_eq take_bit_nat_eq_self)
  have add: "uadd ?start ?sb = Some (?start + ?sb)" "unat (?start + ?sb) = p"
    using u fmmu(2) lt p by (simp_all add: uadd_def unat_word_ariths)
  obtain maps' where maps': "map_acc place_mapping (?start + ?sb) maps = Some (?start + ?sb + of_nat ?n, maps')"
    "map entry_position (entries_of maps') = map shifted (offsets p (map entry_bits (entries_of maps)))"
    using place_maps_eq [of "?start + ?sb" maps] fill(2) add(2) fmmu(2) lt p by auto
  have fin: "unat (?start + ?sb + of_nat ?n) = p + ?n"
    using unat_add_below [of "?start + ?sb" ?n] add(2) fmmu(2) lt p by simp
  have "usub (?start + ?sb + of_nat ?n) (?start + ?sb) = Some (of_nat ?n)"
    using fin add(2) by (simp add: usub_def word_le_nat_alt)
  then show ?thesis
    using fmmu(1) fill(1) mul(1) add(1) maps' by (simp add: place_mappings_def Let_def assert_def)
qed

text \<open>Two objects of four bits each at the start of the image: the second one lies behind its only byte.\<close>

definition nibbles :: PdoMapping where
  "nibbles = \<lparr>pm_is_fixed = False, pm_index = 0x1A00, pm_entries = [PdoEntry_new 0x6000 1 4, PdoEntry_new 0x6000 2 4]\<rparr>"

theorem entries_shifted_witness:
  "\<exists>maps'. place_mappings (Some (fmmu_at 0x8000 (FmmuConfig_new 0x1100 8 Input))) [nibbles] = Some maps' \<and>
     map entry_position (entries_of maps') = [0x8000, 0x800C]"
  using entries_shifted [where fmmu = "fmmu_at 0x8000 (FmmuConfig_new 0x1100 8 Input)" and a = "0x1000" and maps = "[nibbles]"]
  by (simp add: fmmu_at_def FmmuConfig_new_def LogicalBits_new_def nibbles_def PdoEntry_new_def entry_bits_def
    PdoEntry_bit_length_def shifted_def drop_bit_eq_div)

end
