(* ===== verification/Od_Writes.thy ===== *)
theory Od_Writes
  imports Configure
begin

text \<open>
  What the master writes into the object dictionary of a slave: the specification is a list of writes,
  and the configuration is shown to carry out exactly this list, in order, until the first error.
\<close>

section \<open>The laws of the sequence\<close>

lemma c_bind_ret [simp]: "c_bind (c_ret x) f = f x"
  by (simp add: fun_eq_iff c_bind_def c_ret_def and_then_def)

lemma c_bind_unit [simp]: "c_bind m (\<lambda>u. c_ret ()) = (m :: ('d, unit) config)"
  by (auto simp: fun_eq_iff c_bind_def c_ret_def and_then_def split: option.splits sum.splits)

lemma c_bind_ret_right [simp]: "c_bind m c_ret = m"
  by (auto simp: fun_eq_iff c_bind_def c_ret_def and_then_def split: option.splits sum.splits)

lemma c_bind_assoc: "c_bind (c_bind m f) g = c_bind m (\<lambda>x. c_bind (f x) g)"
  by (auto simp: fun_eq_iff c_bind_def and_then_def split: option.splits sum.splits)

lemma c_rust_Some [simp]: "c_rust (Some x) = c_ret x"
  by (simp add: fun_eq_iff c_rust_def c_ret_def and_then_def)

lemma c_each_append: "c_each f (xs @ ys) = c_bind (c_each f xs) (\<lambda>_. c_each f ys)"
  by (induction xs) (simp_all add: c_bind_assoc)

section \<open>The writes\<close>

type_synonym od_write = "(SdoError \<Rightarrow> ConfigErrorKind) \<times> u16 \<times> u8 \<times> bytes"

definition run_writes :: "crates \<Rightarrow> 'd device \<Rightarrow> nat \<Rightarrow> od_write list \<Rightarrow> ('d, unit) config" where
  "run_writes X dev h = c_each (\<lambda>(kind, idx, sub_index, data). c_write_sdo X dev h kind idx sub_index data)"

text \<open>The mapping entry of the object dictionary: length, sub index and index of the object.\<close>

definition entry_bytes :: "PdoEntry \<Rightarrow> bytes" where
  "entry_bytes e = [PdoEntry_bit_length e, pe_sub_index e, ucast (pe_index e), ucast (drop_bit 8 (pe_index e))]"

definition entry_writes :: "u16 \<Rightarrow> nat \<Rightarrow> PdoEntry list \<Rightarrow> od_write list" where
  "entry_writes idx n es = map (\<lambda>(k, e). (AssignPdoEntryToPdoMap, idx, of_nat k, entry_bytes e)) (enumerate n es)"

text \<open>While a mapping is changed its number of entries is zero.\<close>

definition mapping_writes :: "PdoMapping \<Rightarrow> od_write list" where
  "mapping_writes m = (if pm_is_fixed m then [] else
     (ClearPdoEntries, pm_index m, 0, [0]) # entry_writes (pm_index m) 1 (pm_entries m) @
     [(SetNumberOfPdoEntries, pm_index m, 0, [of_nat (length (pm_entries m))])])"

definition assign_writes :: "u16 \<Rightarrow> nat \<Rightarrow> PdoMapping list \<Rightarrow> od_write list" where
  "assign_writes sm_assign n ms = concat (map (\<lambda>(k, m).
     (AssignPdoMapToSyncManager, sm_assign, of_nat k, [ucast (pm_index m), ucast (drop_bit 8 (pm_index m))]) #
     mapping_writes m) (enumerate n ms))"

definition used_mappings :: "PdoMapping list \<Rightarrow> PdoMapping list" where
  "used_mappings maps = filter (\<lambda>m. pm_entries m \<noteq> []) maps"

definition od_writes :: "u8 \<Rightarrow> PdoMapping list \<Rightarrow> od_write list" where
  "od_writes n maps = (let sm_assign = 0x1C10 + ucast n in
     (ClearPdoMappings, sm_assign, 0, [0]) # assign_writes sm_assign 1 (used_mappings maps) @
     [(SetNumberOfPdoMappings, sm_assign, 0, [of_nat (length (used_mappings maps))])])"

lemma run_writes_simps [simp]:
  "run_writes X dev h [] = c_ret ()"
  "run_writes X dev h ((kind, idx, sub_index, data) # ws) =
     c_bind (c_write_sdo X dev h kind idx sub_index data) (\<lambda>_. run_writes X dev h ws)"
  "run_writes X dev h (vs @ ws) = c_bind (run_writes X dev h vs) (\<lambda>_. run_writes X dev h ws)"
  by (simp_all add: run_writes_def c_each_append)

lemma to_le_bytes_16: "to_le_bytes 2 (unat (w :: u16)) = [ucast w, ucast (drop_bit 8 w)]"
proof -
  have "of_nat (unat w mod 256) = (ucast w :: u8)" 
    by (rule word_eq_iff_unsigned [where 'a = nat, THEN iffD2]) (simp add: unsigned_ucast_eq unsigned_of_nat take_bit_eq_mod)
  moreover have "of_nat (unat w div 256) = (ucast (drop_bit 8 w) :: u8)"
    by (rule word_eq_iff_unsigned [where 'a = nat, THEN iffD2])
      (simp add: unsigned_ucast_eq unsigned_of_nat drop_bit_eq_div unat_div take_bit_eq_mod)
  moreover have "unat w < 65536" by (rule less_le_trans [OF unsigned_less]) simp
  then have "unat w div 256 mod 256 = unat w div 256" by simp
  ultimately show ?thesis by (simp add: numeral_2_eq_2)
qed

context crates_laws
begin

lemma od_pdo_entry_eq: "od_pdo_entry X e = Some (entry_bytes e)"
proof -
  let ?d = "set_field (set_field (set_field (replicate 4 0) 31 16 (unat (pe_index e))) 15 8 (unat (pe_sub_index e)))
    7 0 (unat (PdoEntry_bit_length e))"
  have "?d = entry_bytes e"
  proof (rule bytes_eqI)
    fix i assume "i < 8 * length ?d"
    then have i: "i < 32" by simp
    define k where "k = i mod 8"
    have "i div 8 = 0 \<or> i div 8 = 1 \<or> i div 8 = 2 \<or> i div 8 = 3" using i by (simp add: less_mult_imp_div_less) arith
    moreover have "i = 8 * (i div 8) + k" by (simp add: k_def)
    ultimately have "i = k \<or> i = 8 + k \<or> i = 16 + k \<or> i = 24 + k" by linarith
    then have k: "k < 8" "i = k \<or> i = 8 + k \<or> i = 16 + k \<or> i = 24 + k" by (simp_all add: k_def)
    have "(16 + k) mod 8 = k" "(24 + k) mod 8 = k" "(8 + k) mod 8 = k"
      using k(1) mod_mult_self2 [of k 8 2] mod_mult_self2 [of k 8 3] by (simp_all add: add.commute)
    with k show "bit_at ?d i = bit_at (entry_bytes e) i"
      using i by (elim disjE) (simp_all add: bit_at_set_field, simp_all add: bit_at_def entry_bytes_def bit_simps)
  qed (simp add: entry_bytes_def)
  then show ?thesis
    by (simp add: od_pdo_entry_def od_set_def OdPdoEntry_def put_field_eq)
qed

lemma assign_entries_eq:
  "n + length es \<le> 255 \<Longrightarrow> assign_entries X dev h idx (of_nat n) es =
     c_bind (run_writes X dev h (entry_writes idx (Suc n) es)) (\<lambda>_. c_ret (of_nat (n + length es)))"
proof (induction es arbitrary: n)
  case (Cons e es)
  have "uadd (of_nat n) 1 = Some (of_nat (Suc n) :: u8)"
    using Cons.prems by (simp add: uadd_def unat_of_nat add.commute)
  with Cons.IH [of "Suc n"] Cons.prems show ?case
    by (simp add: od_pdo_entry_eq entry_writes_def c_bind_assoc del: of_nat_Suc)
qed (simp add: entry_writes_def)

lemma write_mapping_eq:
  assumes "length (pm_entries m) \<le> 255"
  shows "write_mapping X dev h m = run_writes X dev h (mapping_writes m)"
  using assign_entries_eq [of 0 "pm_entries m" dev h "pm_index m"] assms
  by (simp add: write_mapping_def mapping_writes_def c_bind_assoc)

lemma assign_maps_eq:
  "n + length (used_mappings maps) \<le> 255 \<Longrightarrow> list_all (\<lambda>m. length (pm_entries m) \<le> 255) maps \<Longrightarrow>
     assign_maps X dev h sm_assign (of_nat n) maps =
     c_bind (run_writes X dev h (assign_writes sm_assign (Suc n) (used_mappings maps)))
       (\<lambda>_. c_ret (of_nat (n + length (used_mappings maps))))"
proof (induction maps arbitrary: n)
  case (Cons m maps)
  show ?case
  proof (cases "pm_entries m = []")
    case True
    with Cons show ?thesis by (simp add: used_mappings_def)
  next
    case False
    have "uadd (of_nat n) 1 = Some (of_nat (Suc n) :: u8)"
      using Cons.prems False by (simp add: uadd_def unat_of_nat add.commute used_mappings_def)
    moreover have "assign_maps X dev h sm_assign (of_nat (Suc n)) maps =
      c_bind (run_writes X dev h (assign_writes sm_assign (Suc (Suc n)) (used_mappings maps)))
        (\<lambda>_. c_ret (of_nat (Suc n + length (used_mappings maps))))"
      using Cons.prems False by (intro Cons.IH) (simp_all add: used_mappings_def)
    ultimately show ?thesis
      using False Cons.prems
      by (simp add: write_mapping_eq assign_writes_def used_mappings_def to_le_bytes_16 c_bind_assoc del: of_nat_Suc)
  qed
qed (simp add: assign_writes_def used_mappings_def)

lemma set_pdo_config_eq:
  assumes "n \<le> 3" and maps: "length (used_mappings maps) \<le> 255" "list_all (\<lambda>m. length (pm_entries m) \<le> 255) maps"
    and out: "(if out then (output_pdo_mappings config, process_data_rx_sm_number (sl_info slave))
      else (input_pdo_mappings config, process_data_tx_sm_number (sl_info slave))) = (maps, Some n)"
  shows "set_pdo_config_to_od_utility X dev h config out (si, slave) = run_writes X dev h (od_writes n maps) (si, slave)"
proof -
  have slave: "c_bind c_slave f (si, slave) = f slave (si, slave)" for f :: "Slave \<Rightarrow> ('a, unit) config"
    by (simp add: c_bind_def c_slave_def and_then_def)
  have "uadd 0x1C10 (ucast n) = Some (0x1C10 + ucast n :: u16)"
    using assms(1) by (simp add: uadd_def unsigned_ucast_eq word_le_nat_alt take_bit_nat_eq_self)
  with assign_maps_eq [of 0 maps dev h "0x1C10 + ucast n"] maps out show ?thesis
    by (simp add: set_pdo_config_to_od_utility_def slave od_writes_def c_bind_assoc Let_def)
qed

end

lemma position_less_length: "position P xs = Some k \<Longrightarrow> k < length xs"
  by (induction xs arbitrary: k) (auto split: if_splits)

text \<open>
  C19: the process data configuration of a slave is written as specified. When no mapping has more than
  255 objects and there are at most 255 mappings with objects, the configuration of one direction is
  exactly the sequence \<open>od_writes\<close> of SDO downloads, carried out in order until one fails, with the
  error of that write: the assignment of the sync manager is cleared, the mappings with objects are
  assigned under the sub indices 1, 2, ..., each of them that is not fixed is cleared, filled with
  its objects under 1, 2, ... and given its count, and last the assignment gets its count. A slave
  without a sync manager for the direction is left alone.
\<close>

theorem pdo_config_writes:
  fixes config :: SlaveConfig
  assumes X: "crates_laws X" and maps: "maps = (if out then output_pdo_mappings config else input_pdo_mappings config)"
    and few: "length (used_mappings maps) \<le> 255" "list_all (\<lambda>m. length (pm_entries m) \<le> 255) maps"
    and sm: "length (si_sm (sl_info slave)) \<le> 4"
  shows "set_pdo_config_to_od_utility X dev h config out (si, slave) =
    (case (if out then process_data_rx_sm_number (sl_info slave) else process_data_tx_sm_number (sl_info slave)) of
       None \<Rightarrow> c_ret ()
     | Some n \<Rightarrow> run_writes X dev h (od_writes n maps)) (si, slave)"
proof (cases "if out then process_data_rx_sm_number (sl_info slave) else process_data_tx_sm_number (sl_info slave)")
  case None
  then show ?thesis
    by (cases out) (simp_all add: set_pdo_config_to_od_utility_def c_bind_def c_slave_def and_then_def)
next
  case (Some n)
  then obtain P k where "position P (si_sm (sl_info slave)) = Some k" "n = of_nat k"
    by (cases out) (auto simp: process_data_rx_sm_number_def process_data_tx_sm_number_def)
  with position_less_length sm have "n \<le> 3" by (fastforce simp: word_le_nat_alt unat_of_nat)
  moreover have "(if out then (output_pdo_mappings config, process_data_rx_sm_number (sl_info slave))
      else (input_pdo_mappings config, process_data_tx_sm_number (sl_info slave))) = (maps, Some n)"
    using Some maps by (cases out) simp_all
  ultimately show ?thesis using crates_laws.set_pdo_config_eq [OF X _ few] Some by simp
qed

definition sensor :: Slave where
  "sensor = Slave_default\<lparr>sl_info := SlaveInfo_default
     \<lparr>si_configured_address := 1, si_sm := [None, None, Some ProcessDataRx, Some ProcessDataTx]\<rparr>\<rparr>"

definition sensor_config :: SlaveConfig where
  "sensor_config = SlaveConfig_default\<lparr>input_pdo_mappings :=
     [\<lparr>pm_is_fixed = False, pm_index = 0x1A00, pm_entries = [PdoEntry_new 0x6000 1 16, PdoEntry_new 0x6000 2 8]\<rparr>,
      \<lparr>pm_is_fixed = True, pm_index = 0x1A01, pm_entries = []\<rparr>,
      \<lparr>pm_is_fixed = True, pm_index = 0x1A02, pm_entries = [PdoEntry_new 0x6010 1 8]\<rparr>]\<rparr>"

theorem pdo_config_writes_witness:
  "crates_laws ref_crates \<and>
   set_pdo_config_to_od_utility ref_crates (scripted_device (\<lambda>k v. (pv_data v, 1))) 0 sensor_config False
       (free_socket 32, sensor) =
     run_writes ref_crates (scripted_device (\<lambda>k v. (pv_data v, 1))) 0
       [(ClearPdoMappings, 0x1C13, 0, [0]),
        (AssignPdoMapToSyncManager, 0x1C13, 1, [0x00, 0x1A]),
        (ClearPdoEntries, 0x1A00, 0, [0]),
        (AssignPdoEntryToPdoMap, 0x1A00, 1, [16, 1, 0x00, 0x60]),
        (AssignPdoEntryToPdoMap, 0x1A00, 2, [8, 2, 0x00, 0x60]),
        (SetNumberOfPdoEntries, 0x1A00, 0, [2]),
        (AssignPdoMapToSyncManager, 0x1C13, 2, [0x02, 0x1A]),
        (SetNumberOfPdoMappings, 0x1C13, 0, [2])] (free_socket 32, sensor)"
proof -
  have sm: "process_data_tx_sm_number (sl_info sensor) = Some 3" "length (si_sm (sl_info sensor)) \<le> 4"
    by (simp_all add: sensor_def process_data_tx_sm_number_def)
  have w: "od_writes 3 (input_pdo_mappings sensor_config) =
       [(ClearPdoMappings, 0x1C13, 0, [0]),
        (AssignPdoMapToSyncManager, 0x1C13, 1, [0x00, 0x1A]),
        (ClearPdoEntries, 0x1A00, 0, [0]),
        (AssignPdoEntryToPdoMap, 0x1A00, 1, [16, 1, 0x00, 0x60]),
        (AssignPdoEntryToPdoMap, 0x1A00, 2, [8, 2, 0x00, 0x60]),
        (SetNumberOfPdoEntries, 0x1A00, 0, [2]),
        (AssignPdoMapToSyncManager, 0x1C13, 2, [0x02, 0x1A]),
        (SetNumberOfPdoMappings, 0x1C13, 0, [2])]"
    by (simp add: od_writes_def sensor_config_def used_mappings_def assign_writes_def mapping_writes_def
      entry_writes_def entry_bytes_def PdoEntry_new_def LogicalBits_new_def PdoEntry_bit_length_def drop_bit_eq_div)
  have "length (used_mappings (input_pdo_mappings sensor_config)) \<le> 255"
    "list_all (\<lambda>m. length (pm_entries m) \<le> 255) (input_pdo_mappings sensor_config)"
    by (simp_all add: sensor_config_def used_mappings_def)
  with pdo_config_writes [OF ref_crates_laws, of _ False sensor_config sensor "scripted_device (\<lambda>k v. (pv_data v, 1))" 0 "free_socket 32"] sm w ref_crates_laws
  show ?thesis by simp
qed

end
