(* ===== verification/Typed_Access.thy ===== *)
theory Typed_Access
  imports Master
begin

text \<open>
  \<open>src/src/master/read_write_as.rs\<close>: service data and process data as Rust's primitive types. A value of
  a signed type is an integer; \<open>i16\<close> and the others give it its two's complement of that width, so the
  encoders take the integers of the type's range.
\<close>

section \<open>Encoding and decoding\<close>

definition le_word :: "bytes \<Rightarrow> 'a::len word" where
  "le_word bs = of_nat (from_le_bytes bs)"

definition le_bool :: "bytes \<Rightarrow> bool" where
  "le_bool bs = (hd bs AND 1 = 1)"

definition word_le :: "nat \<Rightarrow> 'a::len word \<Rightarrow> bytes" where
  "word_le n w = to_le_bytes n (unat w)"

definition bool_le :: "bool \<Rightarrow> bytes" where
  "bool_le b = [if b then 1 else 0]"

definition read_sdo_as ::
    "crates \<Rightarrow> 'd device \<Rightarrow> 'd EtherCatMaster \<Rightarrow> SlaveAddress \<Rightarrow> u16 \<Rightarrow> u8 \<Rightarrow> nat \<Rightarrow> (bytes \<Rightarrow> 'a) \<Rightarrow>
       ((SdoErrorKind TaskError + 'a) \<times> 'd EtherCatMaster) run" where
  "read_sdo_as X dev m addr idx sub_index n conv =
     and_then (master_read_sdo X dev m addr idx sub_index) (\<lambda>(r, m). Some (case r of
         Inl e \<Rightarrow> ret (Inl e, m)
       | Inr buf \<Rightarrow> do { bs \<leftarrow> slice_to n buf; ret (Inr (conv bs), m) }))"

definition read_pdo_as ::
    "'d EtherCatMaster \<Rightarrow> SlaveAddress \<Rightarrow> nat \<Rightarrow> nat \<Rightarrow> nat \<Rightarrow> (bytes \<Rightarrow> 'a) \<Rightarrow> 'a option rust" where
  "read_pdo_as m addr pdo_map_index pdo_entry_index n conv = do {
     (r, buf) \<leftarrow> read_pdo m addr pdo_map_index pdo_entry_index (replicate n 0);
     ret (map_option (\<lambda>_. conv buf) r) }"

section \<open>Service data\<close>

definition read_sdo_as_bool ::
    "crates \<Rightarrow> 'd device \<Rightarrow> 'd EtherCatMaster \<Rightarrow> SlaveAddress \<Rightarrow> u16 \<Rightarrow> u8 \<Rightarrow>
       ((SdoErrorKind TaskError + bool) \<times> 'd EtherCatMaster) run" where
  "read_sdo_as_bool X dev m addr idx sub_index = read_sdo_as X dev m addr idx sub_index 1 le_bool"

definition read_sdo_as_u8 ::
    "crates \<Rightarrow> 'd device \<Rightarrow> 'd EtherCatMaster \<Rightarrow> SlaveAddress \<Rightarrow> u16 \<Rightarrow> u8 \<Rightarrow>
       ((SdoErrorKind TaskError + u8) \<times> 'd EtherCatMaster) run" where
  "read_sdo_as_u8 X dev m addr idx sub_index = read_sdo_as X dev m addr idx sub_index 1 le_word"

definition read_sdo_as_i8 ::
    "crates \<Rightarrow> 'd device \<Rightarrow> 'd EtherCatMaster \<Rightarrow> SlaveAddress \<Rightarrow> u16 \<Rightarrow> u8 \<Rightarrow>
       ((SdoErrorKind TaskError + int) \<times> 'd EtherCatMaster) run" where
  "read_sdo_as_i8 X dev m addr idx sub_index = read_sdo_as X dev m addr idx sub_index 1 (\<lambda>bs. sint (le_word bs :: 8 word))"

definition read_sdo_as_u16 ::
    "crates \<Rightarrow> 'd device \<Rightarrow> 'd EtherCatMaster \<Rightarrow> SlaveAddress \<Rightarrow> u16 \<Rightarrow> u8 \<Rightarrow>
       ((SdoErrorKind TaskError + u16) \<times> 'd EtherCatMaster) run" where
  "read_sdo_as_u16 X dev m addr idx sub_index = read_sdo_as X dev m addr idx sub_index 2 le_word"

definition read_sdo_as_i16 ::
    "crates \<Rightarrow> 'd device \<Rightarrow> 'd EtherCatMaster \<Rightarrow> SlaveAddress \<Rightarrow> u16 \<Rightarrow> u8 \<Rightarrow>
       ((SdoErrorKind TaskError + int) \<times> 'd EtherCatMaster) run" where
  "read_sdo_as_i16 X dev m addr idx sub_index = read_sdo_as X dev m addr idx sub_index 2 (\<lambda>bs. sint (le_word bs :: 16 word))"

definition read_sdo_as_u32 ::
    "crates \<Rightarrow> 'd device \<Rightarrow> 'd EtherCatMaster \<Rightarrow> SlaveAddress \<Rightarrow> u16 \<Rightarrow> u8 \<Rightarrow>
       ((SdoErrorKind TaskError + u32) \<times> 'd EtherCatMaster) run" where
  "read_sdo_as_u32 X dev m addr idx sub_index = read_sdo_as X dev m addr idx sub_index 4 le_word"

definition read_sdo_as_i32 ::
    "crates \<Rightarrow> 'd device \<Rightarrow> 'd EtherCatMaster \<Rightarrow> SlaveAddress \<Rightarrow> u16 \<Rightarrow> u8 \<Rightarrow>
       ((SdoErrorKind TaskError + int) \<times> 'd EtherCatMaster) run" where
  "read_sdo_as_i32 X dev m addr idx sub_index = read_sdo_as X dev m addr idx sub_index 4 (\<lambda>bs. sint (le_word bs :: 32 word))"

definition read_sdo_as_u64 ::
    "crates \<Rightarrow> 'd device \<Rightarrow> 'd EtherCatMaster \<Rightarrow> SlaveAddress \<Rightarrow> u16 \<Rightarrow> u8 \<Rightarrow>
       ((SdoErrorKind TaskError + u64) \<times> 'd EtherCatMaster) run" where
  "read_sdo_as_u64 X dev m addr idx sub_index = read_sdo_as X dev m addr idx sub_index 8 le_word"

definition read_sdo_as_i64 ::
    "crates \<Rightarrow> 'd device \<Rightarrow> 'd EtherCatMaster \<Rightarrow> SlaveAddress \<Rightarrow> u16 \<Rightarrow> u8 \<Rightarrow>
       ((SdoErrorKind TaskError + int) \<times> 'd EtherCatMaster) run" where
  "read_sdo_as_i64 X dev m addr idx sub_index = read_sdo_as X dev m addr idx sub_index 8 (\<lambda>bs. sint (le_word bs :: 64 word))"

definition write_sdo_as_bool ::
    "crates \<Rightarrow> 'd device \<Rightarrow> 'd EtherCatMaster \<Rightarrow> SlaveAddress \<Rightarrow> u16 \<Rightarrow> u8 \<Rightarrow> bool \<Rightarrow>
       ((SdoErrorKind TaskError + unit) \<times> 'd EtherCatMaster) run" where
  "write_sdo_as_bool X dev m addr idx sub_index data =
     master_write_sdo X dev m addr idx sub_index (bool_le data)"

definition write_sdo_as_u8 ::
    "crates \<Rightarrow> 'd device \<Rightarrow> 'd EtherCatMaster \<Rightarrow> SlaveAddress \<Rightarrow> u16 \<Rightarrow> u8 \<Rightarrow> u8 \<Rightarrow>
       ((SdoErrorKind TaskError + unit) \<times> 'd EtherCatMaster) run" where
  "write_sdo_as_u8 X dev m addr idx sub_index data =
     master_write_sdo X dev m addr idx sub_index (word_le 1 data)"

definition write_sdo_as_i8 ::
    "crates \<Rightarrow> 'd device \<Rightarrow> 'd EtherCatMaster \<Rightarrow> SlaveAddress \<Rightarrow> u16 \<Rightarrow> u8 \<Rightarrow> int \<Rightarrow>
       ((SdoErrorKind TaskError + unit) \<times> 'd EtherCatMaster) run" where
  "write_sdo_as_i8 X dev m addr idx sub_index data =
     master_write_sdo X dev m addr idx sub_index (word_le 1 (word_of_int data :: 8 word))"

definition write_sdo_as_u16 ::
    "crates \<Rightarrow> 'd device \<Rightarrow> 'd EtherCatMaster \<Rightarrow> SlaveAddress \<Rightarrow> u16 \<Rightarrow> u8 \<Rightarrow> u16 \<Rightarrow>
       ((SdoErrorKind TaskError + unit) \<times> 'd EtherCatMaster) run" where
  "write_sdo_as_u16 X dev m addr idx sub_index data =
     master_write_sdo X dev m addr idx sub_index (word_le 2 data)"

definition write_sdo_as_i16 ::
    "crates \<Rightarrow> 'd device \<Rightarrow> 'd EtherCatMaster \<Rightarrow> SlaveAddress \<Rightarrow> u16 \<Rightarrow> u8 \<Rightarrow> int \<Rightarrow>
       ((SdoErrorKind TaskError + unit) \<times> 'd EtherCatMaster) run" where
  "write_sdo_as_i16 X dev m addr idx sub_index data =
     master_write_sdo X dev m addr idx sub_index (word_le 2 (word_of_int data :: 16 word))"

definition write_sdo_as_u32 ::
    "crates \<Rightarrow> 'd device \<Rightarrow> 'd EtherCatMaster \<Rightarrow> SlaveAddress \<Rightarrow> u16 \<Rightarrow> u8 \<Rightarrow> u32 \<Rightarrow>
       ((SdoErrorKind TaskError + unit) \<times> 'd EtherCatMaster) run" where
  "write_sdo_as_u32 X dev m addr idx sub_index data =
     master_write_sdo X dev m addr idx sub_index (word_le 4 data)"

definition write_sdo_as_i32 ::
    "crates \<Rightarrow> 'd device \<Rightarrow> 'd EtherCatMaster \<Rightarrow> SlaveAddress \<Rightarrow> u16 \<Rightarrow> u8 \<Rightarrow> int \<Rightarrow>
       ((SdoErrorKind TaskError + unit) \<times> 'd EtherCatMaster) run" where
  "write_sdo_as_i32 X dev m addr idx sub_index data =
     master_write_sdo X dev m addr idx sub_index (word_le 4 (word_of_int data :: 32 word))"

definition write_sdo_as_u64 ::
    "crates \<Rightarrow> 'd device \<Rightarrow> 'd EtherCatMaster \<Rightarrow> SlaveAddress \<Rightarrow> u16 \<Rightarrow> u8 \<Rightarrow> u64 \<Rightarrow>
       ((SdoErrorKind TaskError + unit) \<times> 'd EtherCatMaster) run" where
  "write_sdo_as_u64 X dev m addr idx sub_index data =
     master_write_sdo X dev m addr idx sub_index (word_le 8 data)"

definition write_sdo_as_i64 ::
    "crates \<Rightarrow> 'd device \<Rightarrow> 'd EtherCatMaster \<Rightarrow> SlaveAddress \<Rightarrow> u16 \<Rightarrow> u8 \<Rightarrow> int \<Rightarrow>
       ((SdoErrorKind TaskError + unit) \<times> 'd EtherCatMaster) run" where
  "write_sdo_as_i64 X dev m addr idx sub_index data =
     master_write_sdo X dev m addr idx sub_index (word_le 8 (word_of_int data :: 64 word))"

section \<open>Process data\<close>

definition read_pdo_as_bool :: "'d EtherCatMaster \<Rightarrow> SlaveAddress \<Rightarrow> nat \<Rightarrow> nat \<Rightarrow> bool option rust" where
  "read_pdo_as_bool m addr pdo_map_index pdo_entry_index =
     read_pdo_as m addr pdo_map_index pdo_entry_index 1 le_bool"

definition read_pdo_as_u8 :: "'d EtherCatMaster \<Rightarrow> SlaveAddress \<Rightarrow> nat \<Rightarrow> nat \<Rightarrow> u8 option rust" where
  "read_pdo_as_u8 m addr pdo_map_index pdo_entry_index =
     read_pdo_as m addr pdo_map_index pdo_entry_index 1 le_word"

definition read_pdo_as_i8 :: "'d EtherCatMaster \<Rightarrow> SlaveAddress \<Rightarrow> nat \<Rightarrow> nat \<Rightarrow> int option rust" where
  "read_pdo_as_i8 m addr pdo_map_index pdo_entry_index =
     read_pdo_as m addr pdo_map_index pdo_entry_index 1 (\<lambda>bs. sint (le_word bs :: 8 word))"

definition read_pdo_as_u16 :: "'d EtherCatMaster \<Rightarrow> SlaveAddress \<Rightarrow> nat \<Rightarrow> nat \<Rightarrow> u16 option rust" where
  "read_pdo_as_u16 m addr pdo_map_index pdo_entry_index =
     read_pdo_as m addr pdo_map_index pdo_entry_index 2 le_word"

definition read_pdo_as_i16 :: "'d EtherCatMaster \<Rightarrow> SlaveAddress \<Rightarrow> nat \<Rightarrow> nat \<Rightarrow> int option rust" where
  "read_pdo_as_i16 m addr pdo_map_index pdo_entry_index =
     read_pdo_as m addr pdo_map_index pdo_entry_index 2 (\<lambda>bs. sint (le_word bs :: 16 word))"

definition read_pdo_as_u32 :: "'d EtherCatMaster \<Rightarrow> SlaveAddress \<Rightarrow> nat \<Rightarrow> nat \<Rightarrow> u32 option rust" where
  "read_pdo_as_u32 m addr pdo_map_index pdo_entry_index =
     read_pdo_as m addr pdo_map_index pdo_entry_index 4 le_word"

definition read_pdo_as_i32 :: "'d EtherCatMaster \<Rightarrow> SlaveAddress \<Rightarrow> nat \<Rightarrow> nat \<Rightarrow> int option rust" where
  "read_pdo_as_i32 m addr pdo_map_index pdo_entry_index =
     read_pdo_as m addr pdo_map_index pdo_entry_index 4 (\<lambda>bs. sint (le_word bs :: 32 word))"

definition read_pdo_as_u64 :: "'d EtherCatMaster \<Rightarrow> SlaveAddress \<Rightarrow> nat \<Rightarrow> nat \<Rightarrow> u64 option rust" where
  "read_pdo_as_u64 m addr pdo_map_index pdo_entry_index =
     read_pdo_as m addr pdo_map_index pdo_entry_index 8 le_word"

definition read_pdo_as_i64 :: "'d EtherCatMaster \<Rightarrow> SlaveAddress \<Rightarrow> nat \<Rightarrow> nat \<Rightarrow> int option rust" where
  "read_pdo_as_i64 m addr pdo_map_index pdo_entry_index =
     read_pdo_as m addr pdo_map_index pdo_entry_index 8 (\<lambda>bs. sint (le_word bs :: 64 word))"

definition write_pdo_as_bool ::
    "'d EtherCatMaster \<Rightarrow> SlaveAddress \<Rightarrow> nat \<Rightarrow> nat \<Rightarrow> bool \<Rightarrow> (unit option \<times> 'd EtherCatMaster) rust" where
  "write_pdo_as_bool m addr pdo_map_index pdo_entry_index data =
     write_pdo m addr pdo_map_index pdo_entry_index (bool_le data)"

definition write_pdo_as_u8 ::
    "'d EtherCatMaster \<Rightarrow> SlaveAddress \<Rightarrow> nat \<Rightarrow> nat \<Rightarrow> u8 \<Rightarrow> (unit option \<times> 'd EtherCatMaster) rust" where
  "write_pdo_as_u8 m addr pdo_map_index pdo_entry_index data =
     write_pdo m addr pdo_map_index pdo_entry_index (word_le 1 data)"

definition write_pdo_as_i8 ::
    "'d EtherCatMaster \<Rightarrow> SlaveAddress \<Rightarrow> nat \<Rightarrow> nat \<Rightarrow> int \<Rightarrow> (unit option \<times> 'd EtherCatMaster) rust" where
  "write_pdo_as_i8 m addr pdo_map_index pdo_entry_index data =
     write_pdo m addr pdo_map_index pdo_entry_index (word_le 1 (word_of_int data :: 8 word))"

definition write_pdo_as_u16 ::
    "'d EtherCatMaster \<Rightarrow> SlaveAddress \<Rightarrow> nat \<Rightarrow> nat \<Rightarrow> u16 \<Rightarrow> (unit option \<times> 'd EtherCatMaster) rust" where
  "write_pdo_as_u16 m addr pdo_map_index pdo_entry_index data =
     write_pdo m addr pdo_map_index pdo_entry_index (word_le 2 data)"

definition write_pdo_as_i16 ::
    "'d EtherCatMaster \<Rightarrow> SlaveAddress \<Rightarrow> nat \<Rightarrow> nat \<Rightarrow> int \<Rightarrow> (unit option \<times> 'd EtherCatMaster) rust" where
  "write_pdo_as_i16 m addr pdo_map_index pdo_entry_index data =
     write_pdo m addr pdo_map_index pdo_entry_index (word_le 2 (word_of_int data :: 16 word))"

definition write_pdo_as_u32 ::
    "'d EtherCatMaster \<Rightarrow> SlaveAddress \<Rightarrow> nat \<Rightarrow> nat \<Rightarrow> u32 \<Rightarrow> (unit option \<times> 'd EtherCatMaster) rust" where
  "write_pdo_as_u32 m addr pdo_map_index pdo_entry_index data =
     write_pdo m addr pdo_map_index pdo_entry_index (word_le 4 data)"

definition write_pdo_as_i32 ::
    "'d EtherCatMaster \<Rightarrow> SlaveAddress \<Rightarrow> nat \<Rightarrow> nat \<Rightarrow> int \<Rightarrow> (unit option \<times> 'd EtherCatMaster) rust" where
  "write_pdo_as_i32 m addr pdo_map_index pdo_entry_index data =
     write_pdo m addr pdo_map_index pdo_entry_index (word_le 4 (word_of_int data :: 32 word))"

definition write_pdo_as_u64 ::
    "'d EtherCatMaster \<Rightarrow> SlaveAddress \<Rightarrow> nat \<Rightarrow> nat \<Rightarrow> u64 \<Rightarrow> (unit option \<times> 'd EtherCatMaster) rust" where
  "write_pdo_as_u64 m addr pdo_map_index pdo_entry_index data =
     write_pdo m addr pdo_map_index pdo_entry_index (word_le 8 data)"

definition write_pdo_as_i64 ::
    "'d EtherCatMaster \<Rightarrow> SlaveAddress \<Rightarrow> nat \<Rightarrow> nat \<Rightarrow> int \<Rightarrow> (unit option \<times> 'd EtherCatMaster) rust" where
  "write_pdo_as_i64 m addr pdo_map_index pdo_entry_index data =
     write_pdo m addr pdo_map_index pdo_entry_index (word_le 8 (word_of_int data :: 64 word))"

section \<open>Round trips\<close>

text \<open>Every value comes back from its bytes.\<close>

lemma le_bool_roundtrip: "le_bool (bool_le b) = b"
  by (simp add: le_bool_def bool_le_def)

lemma le_word_roundtrip:
  fixes w :: "'a::len word"
  assumes "LENGTH('a) = 8 * n"
  shows "le_word (word_le n w) = w"
proof -
  have "unat w < 256 ^ n" using unsigned_less [of w] assms by (simp add: power_mult)
  then show ?thesis by (simp add: le_word_def word_le_def from_le_to_le)
qed

lemma le_int_roundtrip:
  assumes "LENGTH('a::len) = 8 * n" and "- (2 ^ (LENGTH('a) - 1)) \<le> v" and "v < 2 ^ (LENGTH('a) - 1)"
  shows "sint (le_word (word_le n (word_of_int v :: 'a word)) :: 'a word) = v"
  using assms by (simp add: le_word_roundtrip signed_of_int signed_take_bit_int_eq_self)

end
