(* ===== verification/Spec2Isabelle.thy ===== *)
theory Spec2Isabelle
  imports Index_Set Frame_Layout Pdu_Interface Socket_Interface Mailbox_Frame Registers
    Logical_Bits Slave Cyclic_Task Address_Access Al_State_Transfer Sii_Read Mailbox_Tasks Task_Run
    Mailbox_Access Sdo Loop_Tasks Slave_Init
    Network_Init Init_Returns Dc_Init Master Master_Cycle Master_Start Process_Data
    Configure Image_Layout Od_Writes Typed_Access
begin

text \<open>
  A model of the EtherCAT master in \<open>src/src/\<close> and its verification.

  \<^bold>\<open>The program.\<close> The master talks to slaves on an Ethernet segment. A frame carries PDUs (a command, an
  address, data and a working counter that every slave it addresses increments). The client of the library
  owns an Ethernet device; \<open>interface/pdu_if.rs\<close> collects PDUs in a buffer, sends them in frames and reads
  the replies; \<open>interface/socket_if.rs\<close> gives each service a socket with room for one PDU, kept in the
  slab of \<open>util.rs\<close>, and distributes the replies. On top, every service of the protocol is a state
  machine with two operations, \<open>next_pdu\<close> and \<open>recieve_and_process\<close> (the trait \<open>CyclicTask\<close> of
  \<open>task/mod.rs\<close>): register access, AL state changes, reading the SII memory, mailboxes and the service
  data objects in them, initialisation of a slave, of the network and of the clocks, and the tasks that
  run in every cycle. \<open>block_on\<close> drives one of them to its end; \<open>master/mod.rs\<close> drives the cyclic ones,
  \<open>master/configure_for_op.rs\<close> prepares the slaves for the exchange of process data.

  \<^bold>\<open>Conventions\<close> (theory \<open>Prelude\<close>). \<open>'a rust\<close> is the result of code that may panic, with \<open>None\<close> for
  the panic: index and slice errors, \<open>unwrap\<close>, \<open>assert!\<close>, \<open>todo!\<close> and arithmetic overflow, which the
  default profile checks. \<open>'a run\<close> is the result of code that may also not return (\<open>None\<close>; \<open>Some None\<close>
  is the panic). A \<open>Result\<close> is a sum with the error on the left. Machine integers are words of their
  width; \<open>usize\<close> is \<open>nat\<close>, except that the counters that wrap around are taken modulo \<open>2 ^ 64\<close>. A method that
  borrows mutably returns the new value; \<open>Cell\<close> and \<open>RefCell\<close> fields are fields of the record. A slice
  is the list of its bytes.

  \<^bold>\<open>Other packages\<close> (theory \<open>Crates\<close>). What the macros and traits of \<open>bitfield\<close>, \<open>bit_field\<close> and
  \<open>num_enum\<close> give is a parameter \<open>X :: crates\<close>; what the program relies on is the locale
  \<open>crates_laws\<close>, a hypothesis of the properties that need it, and \<open>ref_crates\<close> is an implementation for
  which it is proved. The Ethernet device is a parameter \<open>dev\<close>, and a network that answers is the
  hypothesis \<open>answers dev slaves d\<close> of \<open>Socket_Interface\<close>: what is sent comes back with the data and counters
  the function \<open>slaves\<close> says. \<open>scripted_device\<close> is such a device; the witnesses run on it.

  \<^bold>\<open>Theories\<close>, with the file under \<open>src/src/\<close> each models:
  \<^item> \<open>Index_Set\<close> (\<open>util.rs\<close>): the slab; the contract \<open>handle_store\<close> (a partial map with a capacity)
    and its refinement in all reachable states.
  \<^item> \<open>Wire_Enums\<close>, \<open>Al_Status_Code\<close>, \<open>Frame\<close>, \<open>Frame_Layout\<close> (\<open>frame/ethercat.rs\<close>, \<open>frame/frame_util.rs\<close>):
    headers, the writer of frames and the iterators over PDUs; writing and reading are inverse.
  \<^item> \<open>Mailbox_Frame\<close> (\<open>frame/ethercat.rs\<close>, \<open>frame/coe.rs\<close>): mailbox messages; the parser is total.
  \<^item> \<open>Registers\<close> (\<open>register/\<close>): every register and object as address, size and bit fields; the fields of a
    register are independent.
  \<^item> \<open>Logical_Bits\<close>, \<open>Slave\<close> (\<open>slave/\<close>): bit ranges of the process data image, what is known of a slave, its
    configuration, the network.
  \<^item> \<open>Pdu_Interface\<close>, \<open>Socket_Interface\<close> (\<open>interface/\<close>): collecting, sending, receiving, distributing.
  \<^item> \<open>Cyclic_Task\<close>, \<open>Task_Support\<close>, \<open>Task_Run\<close> (\<open>task/mod.rs\<close>, \<open>task/error.rs\<close>): the driver. The locales
    \<open>answered_task\<close> (requests fit the buffer, and an answer leaves a good state or, where the task is not
    safe, makes it panic), its instance \<open>cyclic_task\<close> (one invariant, no panic), \<open>terminating_task\<close> and
    \<open>task_invariant\<close> (what a task keeps whatever the network does) state what a task promises; \<open>block_on\<close> is
    verified once inside them, and the tasks, that of the clocks apart, interpret them; \<open>counting_task\<close> and \<open>exchanging_task\<close> do the same for counters and for mailbox exchanges.
  \<^item> \<open>Address_Access\<close>, \<open>Al_State_Transfer\<close>, \<open>Sii_Read\<close>, \<open>Mailbox_Tasks\<close>, \<open>Mailbox_Access\<close>, \<open>Sdo\<close>,
    \<open>Loop_Tasks\<close>, \<open>Slave_Init\<close>, \<open>Network_Init\<close>, \<open>Dc_Init\<close> (\<open>task/\<close>): one service each with the
    entry points of \<open>task/mod.rs\<close> that run it. \<open>Init_Returns\<close>: the initialisation of the network returns.
  \<^item> \<open>Master\<close>, \<open>Master_Cycle\<close>, \<open>Master_Start\<close>, \<open>Process_Data\<close> (\<open>master/mod.rs\<close>, \<open>master/mailbox.rs\<close>): the
    master, runs of it, from the constructor over \<open>init\<close> to the cycles, and what one cycle does with the
    process data.
  \<^item> \<open>Configure\<close>, \<open>Image_Layout\<close>, \<open>Od_Writes\<close> (\<open>master/configure_for_op.rs\<close>, \<open>master/error.rs\<close>): the
    configuration for operation; layout of the image, writes into the object dictionary.
  \<^item> \<open>Typed_Access\<close> (\<open>master/read_write_as.rs\<close>): service and process data as primitive types.

  \<^bold>\<open>What is shown.\<close> Frames: PDUs come back in the order and with the contents they were written with, and one
  poll gives every socket the answer to its own PDU. Services: on a network that answers, the blocking
  operations return, and what they report as done was confirmed by a slave. Initialisation: it ends on a network
  that answers, without a panic when the slaves stay within the bounds the code assumes
  (\<open>init_answer\<close>); the slaves found are well formed, whatever the network did; the topology of a line is found, and delays are
  travel times up to rounding. Master: a new master, initialised or not, runs for ever without a panic, whatever its
  client does with cycles and AL states, and every cycle sends the process data image and keeps what
  the slaves made of it. Configuration: FMMUs tile the image, and the object dictionary
  is written as specified. The properties about errors record where the program fails: a lost frame, a
  removed socket, a branching topology, objects that do not start on a byte.

  \<^bold>\<open>Termination and bounds.\<close> The model uses no fuel. \<open>block_on\<close>, the walk over the topology and the wait for
  the start time may run for ever in the program and are partial functions; that they return is
  proved where it holds, and that \<open>block_on\<close> does not where the network falls silent. All other loops are
  structural. The error counters of the program saturate or wrap as written.

  \<^bold>\<open>Not modelled.\<close> The adapters of \<open>interface/hal.rs\<close> to \<open>smoltcp\<close> and \<open>pcap\<close> (third-party code behind the
  device parameter); the files \<open>task/sdo.rs\<close>, \<open>task/sdo_upload.rs\<close> and \<open>task/sdo_download.rs\<close>, which no
  \<open>mod\<close> declaration names; the module declarations; the example program. Atomic counters are plain fields:
  the library has one owner at a time. The lifetimes of buffers are Rust's business and leave no trace in the
  model.
\<close>

end
